(* ===== verification/Prelude.thy ===== *)
theory Prelude
  imports Main "HOL-Library.List_Lexorder" "HOL-Library.Char_ord"
begin

text \<open>
  What the components share: the collections of simplification rules, a small model of the SQL
  statements the stores issue on one table (a table is a list of rows in rowid order), reachable
  states of a step relation with the invariant rule, and lemmas on maps and lists.
\<close>

named_theorems table_simps \<open>rewrite rules for statements on one table\<close>
named_theorems store_simps \<open>definitions of the task store's operations\<close>

subsection \<open>One table: UPDATE, DELETE and SELECT with a WHERE clause\<close>

text \<open>
  A table is the list of its rows in rowid order. An insertion appends (SQLite's next rowid is
  larger than every rowid in the table), an update rewrites rows in place, a deletion removes them.
\<close>

definition sql_update :: "('r \<Rightarrow> bool) \<Rightarrow> ('r \<Rightarrow> 'r) \<Rightarrow> 'r list \<Rightarrow> 'r list" where
  "sql_update P f rs = map (\<lambda>r. if P r then f r else r) rs"

definition sql_delete :: "('r \<Rightarrow> bool) \<Rightarrow> 'r list \<Rightarrow> 'r list" where
  "sql_delete P rs = filter (\<lambda>r. \<not> P r) rs"

definition sql_affected :: "('r \<Rightarrow> bool) \<Rightarrow> 'r list \<Rightarrow> nat" where
  "sql_affected P rs = length (filter P rs)"

lemma sql_update_Nil [simp]: "sql_update P f [] = []"
  by (simp add: sql_update_def)

lemma sql_update_Cons [simp]:
  "sql_update P f (r # rs) = (if P r then f r else r) # sql_update P f rs"
  by (simp add: sql_update_def)

lemma length_sql_update [simp]: "length (sql_update P f rs) = length rs"
  by (simp add: sql_update_def)

lemma set_sql_update: "set (sql_update P f rs) = (\<lambda>r. if P r then f r else r) ` set rs"
  by (simp add: sql_update_def)

lemma set_sql_delete [simp]: "set (sql_delete P rs) = {r \<in> set rs. \<not> P r}"
  by (auto simp: sql_delete_def)

lemma sql_affected_0_iff: "sql_affected P rs = 0 \<longleftrightarrow> (\<forall>r\<in>set rs. \<not> P r)"
  by (auto simp: sql_affected_def filter_empty_conv)

lemma sql_affected_pos_iff: "0 < sql_affected P rs \<longleftrightarrow> (\<exists>r\<in>set rs. P r)"
  using sql_affected_0_iff [of P rs] by auto

lemma sql_update_none: "(\<And>r. r \<in> set rs \<Longrightarrow> \<not> P r) \<Longrightarrow> sql_update P f rs = rs"
  by (induction rs) auto

text \<open>Updates that keep a column keep the list of its values.\<close>

lemma map_sql_update:
  assumes "\<And>r. P r \<Longrightarrow> k (f r) = k r"
  shows "map k (sql_update P f rs) = map k rs"
  using assms by (induction rs) auto

lemma distinct_map_sql_delete:
  "distinct (map k rs) \<Longrightarrow> distinct (map k (sql_delete P rs))"
  by (simp add: sql_delete_def distinct_map_filter)

lemma find_sql_update_key:
  assumes "\<And>r. k (f r) = k r"
  shows "find (\<lambda>r. k r = i) (sql_update P f rs) =
    map_option (\<lambda>r. if P r then f r else r) (find (\<lambda>r. k r = i) rs)"
  using assms by (induction rs) auto

lemma find_distinct_key:
  assumes "distinct (map k rs)" and "r \<in> set rs"
  shows "find (\<lambda>r'. k r' = k r) rs = Some r"
  using assms by (induction rs) (auto simp: rev_image_eqI)

lemma find_Some_in: "find P rs = Some r \<Longrightarrow> r \<in> set rs \<and> P r"
  by (induction rs) (auto split: if_splits)

lemma find_None_key: "find (\<lambda>r. k r = i) rs = None \<longleftrightarrow> i \<notin> k ` set rs"
  by (induction rs) auto

lemma find_append_key:
  "find P (xs @ ys) = (case find P xs of Some r \<Rightarrow> Some r | None \<Rightarrow> find P ys)"
  by (induction xs) auto

lemma find_sql_delete:
  assumes "distinct (map k rs)"
  shows "find (\<lambda>r. k r = i) (sql_delete P rs) =
    (case find (\<lambda>r. k r = i) rs of None \<Rightarrow> None | Some r \<Rightarrow> if P r then None else Some r)"
  using assms
proof (induction rs)
  case Nil
  then show ?case by (simp add: sql_delete_def)
next
  case (Cons r rs)
  have gone: "find (\<lambda>r. k r = i) (sql_delete P rs) = None" if "k r = i"
    using Cons.prems that by (auto simp: find_None_key)
  have "find (\<lambda>r. k r = i) (sql_delete P rs) =
      (case find (\<lambda>r. k r = i) rs of None \<Rightarrow> None | Some r \<Rightarrow> if P r then None else Some r)"
    using Cons by simp
  then show ?case using gone by (cases "P r") (auto simp: sql_delete_def)
qed

lemmas table_lemmas [table_simps] =
  set_sql_update find_sql_update_key sql_affected_0_iff sql_affected_pos_iff

subsection \<open>ORDER BY ... LIMIT 1\<close>

text \<open>
  The first row of a stable sort of the selected rows: it is selected, no selected row has a smaller
  key, and no selected row before it in the table has the same key.
\<close>

lemma sort_key_filter_head:
  assumes "sort_key k (filter E xs) = y # ys"
  shows "\<exists>us vs. xs = us @ y # vs \<and> E y \<and> (\<forall>u\<in>set us. E u \<longrightarrow> k y < k u)
    \<and> (\<forall>v\<in>set vs. E v \<longrightarrow> k y \<le> k v)"
proof -
  have "sorted (map k (y # ys))" using sorted_sort_key [of k "filter E xs"] assms by simp
  moreover have "set (y # ys) = set (filter E xs)" using set_sort [of k "filter E xs"] assms by simp
  ultimately have le: "k y \<le> k x" if "x \<in> set xs" "E x" for x using that by auto
  have "filter (\<lambda>x. k x = k y) (y # ys) = filter (\<lambda>x. k x = k y) (filter E xs)"
    using sort_key_stable [of k "k y" "filter E xs"] assms by simp
  then have "filter (\<lambda>x. E x \<and> k x = k y) xs = y # filter (\<lambda>x. k x = k y) ys"
    by (simp add: conj_commute)
  then obtain us vs where xs: "xs = us @ y # vs" and n: "\<forall>u\<in>set us. \<not> (E u \<and> k u = k y)" and "E y"
    by (auto dest: filter_eq_ConsD)
  have "k y < k u" if "u \<in> set us" "E u" for u
    using le [of u] n that by (auto simp: xs order_less_le)
  then show ?thesis using xs le \<open>E y\<close> by auto
qed

lemma sort_key_empty [simp]: "sort_key k xs = [] \<longleftrightarrow> xs = []"
  by (metis length_0_conv length_sort)

subsection \<open>Reachable states and invariants\<close>

inductive reachable :: "('s \<Rightarrow> bool) \<Rightarrow> ('s \<Rightarrow> 's \<Rightarrow> bool) \<Rightarrow> 's \<Rightarrow> bool"
  for init :: "'s \<Rightarrow> bool" and step :: "'s \<Rightarrow> 's \<Rightarrow> bool" where
  reachable_init: "init s \<Longrightarrow> reachable init step s"
| reachable_step: "reachable init step s \<Longrightarrow> step s t \<Longrightarrow> reachable init step t"

locale invariant_system =
  fixes init :: "'s \<Rightarrow> bool"
    and step :: "'s \<Rightarrow> 's \<Rightarrow> bool"
    and inv :: "'s \<Rightarrow> bool"
  assumes inv_init: "init s \<Longrightarrow> inv s"
    and inv_step: "step s t \<Longrightarrow> inv s \<Longrightarrow> inv t"
begin

lemma always: "reachable init step s \<Longrightarrow> inv s"
  by (induction rule: reachable.induct) (auto intro: inv_init inv_step)

lemma always_run:
  assumes "inv s" and "step\<^sup>*\<^sup>* s t"
  shows "inv t"
  using assms(2,1) by (induction rule: rtranclp_induct) (auto intro: inv_step)

end

subsection \<open>Optional values and insertion without duplicates\<close>

definition opt_default :: "'a \<Rightarrow> 'a option \<Rightarrow> 'a" where
  "opt_default d x = (case x of None \<Rightarrow> d | Some y \<Rightarrow> y)"

lemma opt_default_simps [simp]:
  "opt_default d None = d" "opt_default d (Some y) = y"
  by (simp_all add: opt_default_def)

text \<open>The distinct values of a list in the order of first occurrence.\<close>

fun first_seen :: "'a list \<Rightarrow> 'a list \<Rightarrow> 'a list" where
  "first_seen seen [] = seen"
| "first_seen seen (x # xs) =
     (if x \<in> set seen then first_seen seen xs else first_seen (seen @ [x]) xs)"

lemma set_first_seen [simp]: "set (first_seen seen xs) = set seen \<union> set xs"
  by (induction xs arbitrary: seen) auto

lemma distinct_first_seen: "distinct seen \<Longrightarrow> distinct (first_seen seen xs)"
  by (induction xs arbitrary: seen) auto

subsection \<open>Registries\<close>

text \<open>
  The contract of a registry of handles: looking up after an insertion or a removal. Several
  components keep one (verified key material, browser sessions, one-time tokens).
\<close>

locale registry =
  fixes lookup :: "'r \<Rightarrow> 'h \<Rightarrow> 'v option"
    and put :: "'h \<Rightarrow> 'v \<Rightarrow> 'r \<Rightarrow> 'r"
    and drop_handle :: "'h \<Rightarrow> 'r \<Rightarrow> 'r"
  assumes lookup_put: "lookup (put h v r) j = (if j = h then Some v else lookup r j)"
    and lookup_drop: "lookup (drop_handle h r) j = (if j = h then None else lookup r j)"
begin

lemma put_then_lookup [simp]: "lookup (put h v r) h = Some v"
  by (simp add: lookup_put)

lemma dropped_is_gone [simp]: "lookup (drop_handle h r) h = None"
  by (simp add: lookup_drop)

lemma others_stay: "j \<noteq> h \<Longrightarrow> lookup (put h v r) j = lookup r j \<and> lookup (drop_handle h r) j = lookup r j"
  by (simp add: lookup_put lookup_drop)

lemma drop_put: "lookup (drop_handle h (put h v r)) = lookup (drop_handle h r)"
  by (rule ext) (simp add: lookup_put lookup_drop)

lemma gone_after: "lookup (fold drop_handle hs r) j = (if j \<in> set hs then None else lookup r j)"
  by (induction hs arbitrary: r) (auto simp: lookup_drop)

end

end
