(* ===== verification/Float64.thy ===== *)
theory Float64
  imports Complex_Main "HOL-Library.Log_Nat"
begin

text \<open>
  The arithmetic of Go's \<^verbatim>\<open>float64\<close> on the values the agent computes (progress percentages): the
  exact rational result of an operation is rounded to 53 significant bits, ties to even. The
  exponent is unbounded here; the agent's values are quotients of counts and percentages, far from
  the subnormal and overflow ranges. Rounding is monotone and exact on integers below \<open>2 ^ 53\<close>,
  which is what the bounds on percentages rest on.
\<close>

type_synonym float64 = rat

subsection \<open>The binary exponent of a positive rational\<close>

definition ilog2 :: "rat \<Rightarrow> int" where
  "ilog2 x = (let k = nat (bitlen (snd (quotient_of x)))
     in bitlen \<lfloor>x * 2 ^ k\<rfloor> - 1 - int k)"

lemma denominator_scaled:
  assumes "0 < x"
  shows "1 \<le> x * 2 ^ nat (bitlen (snd (quotient_of x)))"
proof -
  obtain p q where pq: "quotient_of x = (p, q)" by (cases "quotient_of x")
  have q: "0 < q" using quotient_of_denom_pos [OF pq] .
  have x: "x = of_int p / of_int q" using quotient_of_div [OF pq] .
  have p: "1 \<le> p" using assms x q by (auto simp: zero_less_divide_iff)
  have "q \<le> 2 ^ nat (bitlen q)" using bitlen_bounds [OF q] by simp
  then have "(of_int q :: rat) \<le> of_int (2 ^ nat (bitlen q))" by (simp only: of_int_le_iff)
  then have "(of_int q :: rat) \<le> 2 ^ nat (bitlen q)" by simp
  also have "\<dots> \<le> of_int p * 2 ^ nat (bitlen q)" using p by simp
  finally show ?thesis using pq q by (simp add: x field_simps)
qed

lemma powi2_less_imp: "(2::rat) powi m < 2 powi n \<Longrightarrow> m < n"
  by (metis linorder_not_le one_le_numeral power_int_increasing)

lemma ilog2_bounds:
  assumes "0 < x"
  shows "2 powi ilog2 x \<le> x \<and> x < 2 powi (ilog2 x + 1)"
proof -
  define k where "k = nat (bitlen (snd (quotient_of x)))"
  define n where "n = \<lfloor>x * 2 ^ k\<rfloor>"
  have "1 \<le> x * 2 ^ k" using denominator_scaled [OF assms] by (simp add: k_def)
  then have n: "0 < n" by (simp add: n_def)
  have b0: "0 < bitlen n" using n bitlen_nonneg [of n] bitlen_eq_zero_iff [of n] by linarith
  have il: "ilog2 x = bitlen n - 1 - int k" by (simp add: ilog2_def k_def n_def Let_def)
  have lo: "2 ^ nat (bitlen n - 1) \<le> n" and hi: "n + 1 \<le> 2 ^ nat (bitlen n)"
    using bitlen_bounds [OF n] by auto
  have "(of_int (2 ^ nat (bitlen n - 1)) :: rat) \<le> of_int n" using lo by (simp only: of_int_le_iff)
  also have "of_int n \<le> x * 2 ^ k" by (simp add: n_def)
  finally have l: "(2::rat) powi (bitlen n - 1) \<le> x * 2 ^ k"
    using b0 by (simp add: power_int_def)
  have "x * 2 ^ k < of_int (n + 1)" by (simp add: n_def) linarith
  also have "(of_int (n + 1) :: rat) \<le> of_int (2 ^ nat (bitlen n))"
    using hi by (simp only: of_int_le_iff)
  finally have h: "x * 2 ^ k < (2::rat) powi (bitlen n)" using b0 by (simp add: power_int_def)
  have e1: "(2::rat) powi (bitlen n - 1) = 2 powi ilog2 x * 2 ^ k"
    by (simp add: il power_int_diff)
  have e2: "(2::rat) powi (bitlen n) = 2 powi (ilog2 x + 1) * 2 ^ k"
    by (simp add: il power_int_diff)
  show ?thesis using l h unfolding e1 e2 by simp
qed

lemma ilog2_mono:
  assumes "0 < x" and "x \<le> y"
  shows "ilog2 x \<le> ilog2 y"
proof -
  have "(2::rat) powi ilog2 x < 2 powi (ilog2 y + 1)"
    using ilog2_bounds [OF assms(1)] ilog2_bounds [of y] assms by auto
  then have "ilog2 x < ilog2 y + 1" by (rule powi2_less_imp)
  then show ?thesis by simp
qed

subsection \<open>Rounding to the nearest integer, ties to even\<close>

definition round_half_even :: "rat \<Rightarrow> int" where
  "round_half_even x = (let f = \<lfloor>x\<rfloor>; r = x - of_int f in
     if r < 1 / 2 then f else if 1 / 2 < r then f + 1 else if even f then f else f + 1)"

lemma round_half_even_of_int [simp]: "round_half_even (of_int n) = n"
  by (simp add: round_half_even_def Let_def)

lemma round_half_even_cases:
  "round_half_even x = \<lfloor>x\<rfloor> \<or> round_half_even x = \<lfloor>x\<rfloor> + 1"
  by (simp add: round_half_even_def Let_def)

lemma round_half_even_mono:
  assumes "x \<le> y"
  shows "round_half_even x \<le> round_half_even y"
proof (cases "\<lfloor>x\<rfloor> = \<lfloor>y\<rfloor>")
  case True
  then show ?thesis using assms by (auto simp: round_half_even_def Let_def)
next
  case False
  then have "\<lfloor>x\<rfloor> + 1 \<le> \<lfloor>y\<rfloor>" using floor_mono [OF assms] by linarith
  then show ?thesis using round_half_even_cases [of x] round_half_even_cases [of y] by linarith
qed

subsection \<open>Rounding to 53 significant bits\<close>

definition round64_pos :: "rat \<Rightarrow> float64" where
  "round64_pos x = (let e = ilog2 x - 52 in of_int (round_half_even (x / 2 powi e)) * 2 powi e)"

definition round64 :: "rat \<Rightarrow> float64" where
  "round64 x = (if x = 0 then 0 else if x < 0 then - round64_pos (- x) else round64_pos x)"

definition fadd :: "float64 \<Rightarrow> float64 \<Rightarrow> float64" where "fadd x y = round64 (x + y)"
definition fsub :: "float64 \<Rightarrow> float64 \<Rightarrow> float64" where "fsub x y = round64 (x - y)"
definition fmul :: "float64 \<Rightarrow> float64 \<Rightarrow> float64" where "fmul x y = round64 (x * y)"
definition fdiv :: "float64 \<Rightarrow> float64 \<Rightarrow> float64" where "fdiv x y = round64 (x / y)"

text \<open>Go's \<^verbatim>\<open>math.Round\<close>: half away from zero.\<close>

definition go_round :: "float64 \<Rightarrow> float64" where
  "go_round x = (if x < 0 then - of_int \<lfloor>- x + 1 / 2\<rfloor> else of_int \<lfloor>x + 1 / 2\<rfloor>)"

lemma round64_pos_bracket:
  assumes "0 < x"
  shows "2 powi ilog2 x \<le> round64_pos x \<and> round64_pos x \<le> 2 powi (ilog2 x + 1)"
proof -
  define e where "e = ilog2 x - 52"
  define m where "m = x / 2 powi e"
  have lo: "2 ^ 52 \<le> m" and hi: "m \<le> 2 ^ 53"
  proof -
    have il: "ilog2 x = e + 52" by (simp add: e_def)
    have "2 powi (e + 52) \<le> x" "x < 2 powi (e + 53)"
      using ilog2_bounds [OF assms] by (simp_all add: il add.assoc)
    moreover have "(2::rat) powi (e + 52) = 2 powi e * 2 ^ 52" "(2::rat) powi (e + 53) = 2 powi e * 2 ^ 53"
      by (simp_all add: power_int_add)
    ultimately show "2 ^ 52 \<le> m" "m \<le> 2 ^ 53" by (simp_all add: m_def field_simps)
  qed
  have "round_half_even (of_int (2 ^ 52)) \<le> round_half_even m"
    by (rule round_half_even_mono) (use lo in simp)
  then have l: "(2::int) ^ 52 \<le> round_half_even m" by (simp only: round_half_even_of_int)
  have "round_half_even m \<le> round_half_even (of_int (2 ^ 53))"
    by (rule round_half_even_mono) (use hi in simp)
  then have h: "round_half_even m \<le> (2::int) ^ 53" by (simp only: round_half_even_of_int)
  have "(of_int (2 ^ 52) :: rat) \<le> of_int (round_half_even m)"
    "of_int (round_half_even m) \<le> (of_int (2 ^ 53) :: rat)"
    using l h by (simp_all only: of_int_le_iff)
  then have r: "(2::rat) ^ 52 \<le> of_int (round_half_even m)" "of_int (round_half_even m) \<le> (2::rat) ^ 53"
    by simp_all
  have eqs: "(2::rat) powi ilog2 x = 2 ^ 52 * 2 powi e" "(2::rat) powi (ilog2 x + 1) = 2 ^ 53 * 2 powi e"
  proof -
    have il: "ilog2 x = e + 52" by (simp add: e_def)
    show "(2::rat) powi ilog2 x = 2 ^ 52 * 2 powi e" by (simp add: il power_int_add)
    have "(2::rat) powi (e + 53) = 2 ^ 53 * 2 powi e" by (simp add: power_int_add)
    then show "(2::rat) powi (ilog2 x + 1) = 2 ^ 53 * 2 powi e" by (simp add: il add.assoc)
  qed
  have "round64_pos x = of_int (round_half_even m) * 2 powi e"
    by (simp add: round64_pos_def e_def m_def Let_def)
  then show ?thesis using r unfolding eqs by simp
qed

lemma round64_pos_mono:
  assumes "0 < x" and "x \<le> y"
  shows "round64_pos x \<le> round64_pos y"
proof (cases "ilog2 x = ilog2 y")
  case True
  have "x / 2 powi (ilog2 y - 52) \<le> y / 2 powi (ilog2 y - 52)"
    using assms by (simp add: divide_right_mono)
  then show ?thesis
    using True by (simp add: round64_pos_def Let_def round_half_even_mono)
next
  case False
  then have "ilog2 x + 1 \<le> ilog2 y" using ilog2_mono [OF assms] by linarith
  then have "(2::rat) powi (ilog2 x + 1) \<le> 2 powi ilog2 y" by (simp add: power_int_increasing)
  then show ?thesis
    using round64_pos_bracket [OF assms(1)] round64_pos_bracket [of y] assms by auto
qed

lemma round64_pos_positive: "0 < x \<Longrightarrow> 0 < round64_pos x"
  using round64_pos_bracket [of x] by (meson order_less_le_trans zero_less_numeral zero_less_power_int)

lemma round64_mono: "x \<le> y \<Longrightarrow> round64 x \<le> round64 y"
  using round64_pos_mono [of x y] round64_pos_mono [of "- y" "- x"] round64_pos_positive [of y]
    round64_pos_positive [of "- x"] round64_pos_positive [of x]
  by (auto simp: round64_def)

lemma round64_0 [simp]: "round64 0 = 0"
  by (simp add: round64_def)

lemma round64_nonneg: "0 \<le> x \<Longrightarrow> 0 \<le> round64 x"
  using round64_mono [of 0 x] by simp

lemma round64_pos_of_int:
  assumes "0 < n" and "n < 2 ^ 53"
  shows "round64_pos (of_int n) = of_int n"
proof -
  define e where "e = ilog2 (of_int n) - 52"
  have "(2::rat) powi ilog2 (of_int n) \<le> of_int n" using assms ilog2_bounds [of "of_int n"] by simp
  also have "(of_int n :: rat) < of_int (2 ^ 53)" using assms(2) by (simp only: of_int_less_iff)
  finally have "(2::rat) powi ilog2 (of_int n) < 2 powi 53" by simp
  then have "ilog2 (of_int n) < 53" by (rule powi2_less_imp)
  then have e: "e \<le> 0" by (simp add: e_def)
  have p: "(2::rat) powi e = inverse (2 ^ nat (- e))" using e by (cases "e = 0") (simp_all add: power_int_def power_one_over inverse_eq_divide)
  have "of_int n / (2::rat) powi e = of_int (n * 2 ^ nat (- e))" by (simp add: p field_simps)
  then have "round_half_even (of_int n / (2::rat) powi e) = n * 2 ^ nat (- e)"
    by (simp only: round_half_even_of_int)
  then show ?thesis by (simp add: round64_pos_def e_def [symmetric] Let_def p)
qed

lemma round64_of_int [simp]: "\<bar>n\<bar> < 2 ^ 53 \<Longrightarrow> round64 (of_int n) = of_int n"
  using round64_pos_of_int [of n] round64_pos_of_int [of "- n"] by (auto simp: round64_def)

lemma round64_1 [simp]: "round64 1 = 1"
  using round64_of_int [of 1] by simp

lemma round64_numeral_100 [simp]: "round64 100 = 100"
  using round64_of_int [of 100] by simp

lemma round64_le_int: "x \<le> of_int n \<Longrightarrow> \<bar>n\<bar> < 2 ^ 53 \<Longrightarrow> round64 x \<le> of_int n"
  using round64_mono [of x "of_int n"] by simp

lemma round64_ge_int: "of_int n \<le> x \<Longrightarrow> \<bar>n\<bar> < 2 ^ 53 \<Longrightarrow> of_int n \<le> round64 x"
  using round64_mono [of "of_int n" x] by simp

lemma go_round_nonneg: "0 \<le> x \<Longrightarrow> 0 \<le> go_round x"
  by (simp add: go_round_def)

lemma go_round_le_int: "0 \<le> x \<Longrightarrow> x \<le> of_int n \<Longrightarrow> go_round x \<le> of_int n"
  by (simp add: go_round_def floor_le_iff)

lemma go_round_of_int [simp]: "go_round (of_int n) = of_int n"
  by (simp add: go_round_def floor_eq_iff)

lemma go_round_mono: "0 \<le> x \<Longrightarrow> x \<le> y \<Longrightarrow> go_round x \<le> go_round y"
  by (simp add: go_round_def floor_mono)

end
