(* ===== verification/TaskModel.thy ===== *)
theory TaskModel
  imports Prelude Float64 "HOL-Library.Word"
begin

text \<open>
  The data of the task queue (\<^verbatim>\<open>internal/tasks/model.go\<close>, \<^verbatim>\<open>categories.go\<close>): statuses,
  priorities, the task row, the request that creates one, its identifier, the operation categories
  that serialise dangerous operations, and the operations whose end reaches a person's inbox.
\<close>

unbundle bit_operations_syntax

subsection \<open>Statuses and priorities\<close>

datatype task_status =
  Pending | Prepared | Running | Completed | Failed | Cancelled | CompletedWithErrors

fun status_text :: "task_status \<Rightarrow> string" where
  "status_text Pending = ''pending''"
| "status_text Prepared = ''prepared''"
| "status_text Running = ''running''"
| "status_text Completed = ''completed''"
| "status_text Failed = ''failed''"
| "status_text Cancelled = ''cancelled''"
| "status_text CompletedWithErrors = ''completed_with_errors''"

lemma status_text_inject [simp]: "status_text a = status_text b \<longleftrightarrow> a = b"
  by (cases a; cases b) simp_all

text \<open>The finished statuses: the ones the deletion statements name.\<close>

definition finished :: "task_status \<Rightarrow> bool" where
  "finished st \<longleftrightarrow> st \<in> {Completed, CompletedWithErrors, Failed, Cancelled}"

lemma finished_simps [simp]:
  "\<not> finished Pending" "\<not> finished Prepared" "\<not> finished Running"
  "finished Completed" "finished Failed" "finished Cancelled" "finished CompletedWithErrors"
  by (simp_all add: finished_def)

definition priority_critical :: int where "priority_critical = 100"
definition priority_high :: int where "priority_high = 80"
definition priority_medium :: int where "priority_medium = 60"
definition priority_service :: int where "priority_service = 50"
definition priority_low :: int where "priority_low = 40"
definition priority_background :: int where "priority_background = 20"

subsection \<open>The task row\<close>

text \<open>
  Times are nanoseconds; the code stores them as fixed-width UTC text, whose order is the order of
  the times. \<open>progress_info\<close> is the decoded JSON document of that column, in the shapes the
  package writes itself, with \<open>RawInfo\<close> for the documents executors write.
\<close>

type_synonym time = int

datatype progress_doc =
    ParentInfo (completed_tasks: nat) (failed_tasks: nat) (total_tasks: nat) (info_status: task_status)
  | DoneInfo (done_at: time)
  | TransferInfo (transfer_status: string) (received_bytes: int) (total_bytes: "int option")
  | RawInfo string

record output_entry =
  oe_stream :: string
  oe_data :: string
  oe_timestamp :: time

record task =
  task_id :: string
  machine_name :: string
  operation :: string
  status :: task_status
  priority :: int
  created_by :: string
  depends_on :: "string option"
  parent_task_id :: "string option"
  error_message :: "string option"
  created_at :: time
  started_at :: "time option"
  completed_at :: "time option"
  updated_at :: time
  metadata :: "string option"
  progress_percent :: float64
  progress_info :: "progress_doc option"
  output_column :: "output_entry list option"
  notify :: bool

record new_task =
  nt_machine_name :: string
  nt_operation :: string
  nt_priority :: int
  nt_created_by :: string
  nt_depends_on :: "string option"
  nt_parent_task_id :: "string option"
  nt_metadata :: "string option"
  nt_parent :: bool
  nt_prepared :: bool
  nt_notify :: "bool option"

subsection \<open>Operations that reach the inbox\<close>

definition notable_operations :: "string list" where
  "notable_operations =
    [''machine_create_orchestration'', ''machine_provision_orchestration'',
     ''machine_provision_parent'', ''machine_import'', ''machine_clone_current'',
     ''machine_unattended_install'', ''delete'', ''snapshot_take'', ''snapshot_delete'',
     ''snapshot_restore'', ''template_download'', ''template_upload'', ''template_export'',
     ''agent_update'']"

subsection \<open>Operation categories\<close>

text \<open>The empty string is the answer for an operation without a category, as in the code.\<close>

definition operation_categories :: "(string \<times> string) list" where
  "operation_categories =
    [(''provisioner_import'', ''system''), (''provisioner_export'', ''system''),
     (''provisioner_catalog_install'', ''system''),
     (''artifact_scan'', ''artifact''), (''artifact_download'', ''artifact''),
     (''artifact_upload'', ''artifact''), (''artifact_move'', ''artifact''),
     (''artifact_copy'', ''artifact''), (''artifact_delete_file'', ''artifact''),
     (''artifact_delete_folder'', ''artifact''), (''hcl_download'', ''artifact''),
     (''template_download'', ''template''), (''template_delete'', ''template''),
     (''template_export'', ''template''), (''template_upload'', ''template''),
     (''template_move'', ''template''),
     (''agent_update'', ''system''),
     (''provisioning_network_setup'', ''network_provisioning''),
     (''provisioning_network_teardown'', ''network_provisioning'')]"

definition operation_category :: "string \<Rightarrow> string" where
  "operation_category kind =
    (case map_of operation_categories kind of None \<Rightarrow> '''' | Some c \<Rightarrow> c)"

subsection \<open>Task identifiers\<close>

text \<open>
  \<^verbatim>\<open>newTaskID\<close> turns 16 random bytes into a version 4 UUID: it fixes the version and variant
  bits, prints lower-case hexadecimal and puts the four dashes in.
\<close>

definition hex_digit :: "nat \<Rightarrow> char" where
  "hex_digit n = ''0123456789abcdef'' ! n"

definition hex_byte :: "8 word \<Rightarrow> string" where
  "hex_byte b = [hex_digit (unat b div 16), hex_digit (unat b mod 16)]"

definition hex_encode :: "8 word list \<Rightarrow> string" where
  "hex_encode bs = concat (map hex_byte bs)"

definition uuid_bytes :: "8 word list \<Rightarrow> 8 word list" where
  "uuid_bytes raw =
    (let r6 = raw[6 := (raw ! 6 AND 0x0f) OR 0x40]
     in r6[8 := (r6 ! 8 AND 0x3f) OR 0x80])"

definition slice :: "nat \<Rightarrow> nat \<Rightarrow> 'a list \<Rightarrow> 'a list" where
  "slice i j s = take (j - i) (drop i s)"

definition new_task_id :: "8 word list \<Rightarrow> string" where
  "new_task_id raw =
    (let s = hex_encode (uuid_bytes raw)
     in slice 0 8 s @ ''-'' @ slice 8 12 s @ ''-'' @ slice 12 16 s @ ''-'' @ slice 16 20 s
        @ ''-'' @ slice 20 32 s)"

lemma length_hex_encode [simp]: "length (hex_encode bs) = 2 * length bs"
  by (induction bs) (simp_all add: hex_encode_def hex_byte_def)

lemma hex_encode_nth:
  assumes "i < length bs"
  shows "hex_encode bs ! (2 * i) = hex_digit (unat (bs ! i) div 16)"
    and "hex_encode bs ! (2 * i + 1) = hex_digit (unat (bs ! i) mod 16)"
  using assms
proof (induction bs arbitrary: i)
  case (Cons b bs)
  { case 1 then show ?case using Cons.IH(1) by (cases i) (auto simp: hex_encode_def hex_byte_def) }
  { case 2 then show ?case using Cons.IH(2) by (cases i) (auto simp: hex_encode_def hex_byte_def) }
qed simp_all

lemma version_nibble: "unat ((b AND 0x0f) OR (0x40 :: 8 word)) div 16 = 4"
proof -
  have "drop_bit 4 ((b AND 0x0f) OR (0x40 :: 8 word)) = 4"
    by (simp add: drop_bit_or drop_bit_and)
  then have "unat (drop_bit 4 ((b AND 0x0f) OR (0x40 :: 8 word))) = 4" by simp
  then show ?thesis by (simp add: drop_bit_eq_div unat_div)
qed

lemma unat_numeral_two_three: "unat (2 :: 8 word) = 2" "unat (3 :: 8 word) = 3"
  by simp_all

lemma variant_nibble: "unat ((b AND 0x3f) OR (0x80 :: 8 word)) div 16 \<in> {8, 9, 10, 11}"
proof -
  have "drop_bit 4 ((b AND 0x3f) OR (0x80 :: 8 word)) = (drop_bit 4 b AND 3) OR 8"
    by (simp add: drop_bit_or drop_bit_and)
  moreover have "unat ((c AND 3) OR (8 :: 8 word)) \<in> {8, 9, 10, 11}" for c :: "8 word"
  proof -
    have "c AND 3 = take_bit 2 c" by (simp add: take_bit_eq_mask mask_numeral)
    then have "unat (c AND 3) = unat c mod 4" by (simp add: take_bit_eq_mod unat_mod)
    moreover have "unat c mod 4 < 4" by simp
    ultimately have "unat (c AND 3) < 4" by simp
    then have "unat (c AND 3) = 0 \<or> unat (c AND 3) = 1 \<or> unat (c AND 3) = 2 \<or> unat (c AND 3) = 3"
      by linarith
    then consider "c AND 3 = 0" | "c AND 3 = 1" | "c AND 3 = 2" | "c AND 3 = 3"
      unfolding word_unat_eq_iff unat_0 unat_1 unat_numeral_two_three by (elim disjE) simp_all
    then show ?thesis by cases simp_all
  qed
  ultimately have "unat (drop_bit 4 ((b AND 0x3f) OR (0x80 :: 8 word))) \<in> {8, 9, 10, 11}" by simp
  then show ?thesis by (simp add: drop_bit_eq_div unat_div)
qed

text \<open>
  A generated task identifier has the 36 characters of a version 4 UUID: dashes at the four
  places, the version digit 4 and one of the four variant digits.
\<close>
theorem new_task_id_format:
  assumes "length raw = 16"
  shows "length (new_task_id raw) = 36
    \<and> (\<forall>i. i = 8 \<or> i = 13 \<or> i = 18 \<or> i = 23 \<longrightarrow> new_task_id raw ! i = CHR ''-'')
    \<and> new_task_id raw ! 14 = CHR ''4''
    \<and> new_task_id raw ! 19 \<in> {CHR ''8'', CHR ''9'', CHR ''a'', CHR ''b''}"
proof -
  define s where "s = hex_encode (uuid_bytes raw)"
  have len: "length (uuid_bytes raw) = 16" by (simp add: uuid_bytes_def Let_def assms)
  then have ls: "length s = 32" by (simp add: s_def)
  have id: "new_task_id raw = slice 0 8 s @ ''-'' @ slice 8 12 s @ ''-'' @ slice 12 16 s @ ''-''
      @ slice 16 20 s @ ''-'' @ slice 20 32 s"
    by (simp add: new_task_id_def s_def Let_def)
  have "s ! 12 = hex_digit (unat (uuid_bytes raw ! 6) div 16)"
    using hex_encode_nth(1) [of 6 "uuid_bytes raw"] len by (simp add: s_def)
  then have v: "s ! 12 = CHR ''4''"
    using assms by (simp add: uuid_bytes_def Let_def version_nibble hex_digit_def)
  have "s ! 16 = hex_digit (unat (uuid_bytes raw ! 8) div 16)"
    using hex_encode_nth(1) [of 8 "uuid_bytes raw"] len by (simp add: s_def)
  then have w: "s ! 16 \<in> {CHR ''8'', CHR ''9'', CHR ''a'', CHR ''b''}"
    using assms variant_nibble [of "raw ! 8"]
    by (auto simp: uuid_bytes_def Let_def hex_digit_def)
  show ?thesis
    using ls v w by (simp add: id slice_def nth_append)
qed

theorem new_task_id_format_witness: "new_task_id (replicate 16 0) ! 14 = CHR ''4''"
  using new_task_id_format [of "replicate 16 0"] by simp

end
