(* ===== verification/TaskStore.thy ===== *)
theory TaskStore
  imports TaskModel "HOL-Library.Product_Lexorder"
begin

text \<open>
  The task table and its statements (\<^verbatim>\<open>internal/tasks/store.go\<close>, \<^verbatim>\<open>store_lifecycle.go\<close>,
  \<^verbatim>\<open>store_status.go\<close>): the table is the list of rows in rowid order, \<open>notified\<close> is the list of
  tasks handed to the \<^verbatim>\<open>Notify\<close> callback, oldest first. Each operation is one statement, or the
  statements the Go function issues in order; the current time and the fresh identifier are arguments.
  A failure of the database itself is outside the model; the errors the package makes are values.
\<close>

record store =
  rows :: "task list"
  has_notify :: bool
  notified :: "task list"

datatype store_error = ErrNotFound | ErrDuplicateId

subsection \<open>Reading one row, and the change callback\<close>

definition get :: "store \<Rightarrow> string \<Rightarrow> task option" where
  "get st i = find (\<lambda>r. task_id r = i) (rows st)"

definition changed :: "string \<Rightarrow> store \<Rightarrow> store" where
  "changed i st =
    (if \<not> has_notify st then st
     else case get st i of None \<Rightarrow> st | Some t \<Rightarrow> st\<lparr>notified := notified st @ [t]\<rparr>)"

definition update_rows :: "(task \<Rightarrow> bool) \<Rightarrow> (task \<Rightarrow> task) \<Rightarrow> store \<Rightarrow> store" where
  "update_rows P f st = st\<lparr>rows := sql_update P f (rows st)\<rparr>"

definition affected :: "(task \<Rightarrow> bool) \<Rightarrow> store \<Rightarrow> nat" where
  "affected P st = sql_affected P (rows st)"

text \<open>The SET clauses of the update statements, one function per statement.\<close>

definition cancel_row :: "string option \<Rightarrow> time \<Rightarrow> task \<Rightarrow> task" where
  "cancel_row msg now t = t\<lparr>status := Cancelled,
     error_message := (case msg of None \<Rightarrow> error_message t | Some m \<Rightarrow> Some m),
     completed_at := Some now, updated_at := now\<rparr>"

definition stale_row :: "time \<Rightarrow> task \<Rightarrow> task" where
  "stale_row now t = t\<lparr>status := Failed,
     error_message := Some ''Agent restarted while task was running'',
     completed_at := Some now, updated_at := now\<rparr>"

definition running_row :: "time \<Rightarrow> task \<Rightarrow> task" where
  "running_row now t = t\<lparr>status := Running, started_at := Some now, updated_at := now\<rparr>"

definition finish_row :: "task_status \<Rightarrow> string option \<Rightarrow> float64 \<Rightarrow> progress_doc option \<Rightarrow> time \<Rightarrow> task \<Rightarrow> task" where
  "finish_row s err percent info now t = t\<lparr>status := s, error_message := err,
     completed_at := Some now, updated_at := now,
     progress_percent := (if 0 \<le> percent then percent else progress_percent t),
     progress_info := (case info of None \<Rightarrow> progress_info t | Some d \<Rightarrow> Some d)\<rparr>"

definition progress_row :: "float64 \<Rightarrow> progress_doc option \<Rightarrow> time \<Rightarrow> task \<Rightarrow> task" where
  "progress_row percent info now t =
     t\<lparr>progress_percent := percent, progress_info := info, updated_at := now\<rparr>"

definition metadata_row :: "string \<Rightarrow> time \<Rightarrow> task \<Rightarrow> task" where
  "metadata_row m now t = t\<lparr>metadata := Some m, updated_at := now\<rparr>"

definition depends_row :: "string \<Rightarrow> time \<Rightarrow> task \<Rightarrow> task" where
  "depends_row d now t = t\<lparr>depends_on := Some d, updated_at := now\<rparr>"

definition pending_row :: "time \<Rightarrow> task \<Rightarrow> task" where
  "pending_row now t = t\<lparr>status := Pending, updated_at := now\<rparr>"

definition output_row :: "output_entry list \<Rightarrow> time \<Rightarrow> task \<Rightarrow> task" where
  "output_row out now t = t\<lparr>output_column := Some out, updated_at := now\<rparr>"

lemmas row_defs = cancel_row_def stale_row_def running_row_def finish_row_def progress_row_def
  metadata_row_def depends_row_def pending_row_def output_row_def

subsection \<open>Creating a task\<close>

definition create_status :: "new_task \<Rightarrow> task_status" where
  "create_status nt =
    (if nt_prepared nt then Prepared else if nt_parent nt then Running else Pending)"

definition new_row :: "string \<Rightarrow> time \<Rightarrow> new_task \<Rightarrow> task" where
  "new_row i now nt =
    \<lparr>task_id = i, machine_name = nt_machine_name nt, operation = nt_operation nt,
     status = create_status nt,
     priority = (if nt_priority nt = 0 then priority_medium else nt_priority nt),
     created_by = nt_created_by nt, depends_on = nt_depends_on nt,
     parent_task_id = nt_parent_task_id nt, error_message = None, created_at = now,
     started_at = (if nt_parent nt then Some now else None), completed_at = None,
     updated_at = now, metadata = nt_metadata nt, progress_percent = 0, progress_info = None,
     output_column = None,
     notify = (case nt_notify nt of Some b \<Rightarrow> b
       | None \<Rightarrow> nt_operation nt \<in> set notable_operations)\<rparr>"

definition create :: "string \<Rightarrow> time \<Rightarrow> new_task \<Rightarrow> store \<Rightarrow> (store_error + task) \<times> store" where
  "create i now nt st =
    (case get st i of
       Some _ \<Rightarrow> (Inl ErrDuplicateId, st)
     | None \<Rightarrow>
         (let t = new_row i now nt; st' = st\<lparr>rows := rows st @ [t]\<rparr>
          in (Inr t, if has_notify st' then st'\<lparr>notified := notified st' @ [t]\<rparr> else st')))"

subsection \<open>Listing and counting\<close>

record list_filter =
  f_status :: string
  f_machine_name :: string
  f_operation :: string
  f_operation_not :: string
  f_min_priority :: "int option"
  f_parent_task_id :: string
  f_since :: "time option"
  f_sort :: string
  f_order :: string
  f_limit :: int

definition no_filter :: list_filter where
  "no_filter = \<lparr>f_status = '''', f_machine_name = '''', f_operation = '''', f_operation_not = '''',
     f_min_priority = None, f_parent_task_id = '''', f_since = None, f_sort = '''', f_order = '''',
     f_limit = 0\<rparr>"

definition matches :: "list_filter \<Rightarrow> task \<Rightarrow> bool" where
  "matches f t \<longleftrightarrow>
     (f_status f \<noteq> '''' \<longrightarrow> status_text (status t) = f_status f)
   \<and> (f_machine_name f \<noteq> '''' \<longrightarrow> machine_name t = f_machine_name f)
   \<and> (f_operation f \<noteq> '''' \<longrightarrow> operation t = f_operation f)
   \<and> (f_operation_not f \<noteq> '''' \<longrightarrow> operation t \<noteq> f_operation_not f)
   \<and> (case f_min_priority f of None \<Rightarrow> True | Some p \<Rightarrow> p \<le> priority t)
   \<and> (f_parent_task_id f \<noteq> '''' \<longrightarrow> parent_task_id t = Some (f_parent_task_id f))
   \<and> (case f_since f of None \<Rightarrow> True | Some s \<Rightarrow> s \<le> updated_at t)"

text \<open>
  The ORDER BY value of a row, in SQLite's order of storage classes: NULL, then numbers, then text
  (compared as bytes).
\<close>

datatype sort_value = SVNull | SVInt int | SVText string

instantiation sort_value :: linorder
begin

fun less_eq_sort_value :: "sort_value \<Rightarrow> sort_value \<Rightarrow> bool" where
  "less_eq_sort_value SVNull _ = True"
| "less_eq_sort_value (SVInt _) SVNull = False"
| "less_eq_sort_value (SVInt a) (SVInt b) = (a \<le> b)"
| "less_eq_sort_value (SVInt _) (SVText _) = True"
| "less_eq_sort_value (SVText a) (SVText b) = (a \<le> b)"
| "less_eq_sort_value (SVText _) _ = False"

definition less_sort_value :: "sort_value \<Rightarrow> sort_value \<Rightarrow> bool" where
  "less_sort_value a b = (a \<le> b \<and> \<not> b \<le> a)"

instance
proof
  fix x y z :: sort_value
  show "(x < y) = (x \<le> y \<and> \<not> y \<le> x)" by (simp add: less_sort_value_def)
  show "x \<le> x" by (cases x) simp_all
  show "x \<le> y \<Longrightarrow> y \<le> z \<Longrightarrow> x \<le> z" by (cases x; cases y; cases z) auto
  show "x \<le> y \<Longrightarrow> y \<le> x \<Longrightarrow> x = y" by (cases x; cases y) auto
  show "x \<le> y \<or> y \<le> x" by (cases x; cases y) auto
qed

end

definition sv_opt :: "time option \<Rightarrow> sort_value" where
  "sv_opt x = (case x of None \<Rightarrow> SVNull | Some v \<Rightarrow> SVInt v)"

text \<open>The whitelist of sort columns: a name outside it sorts by creation time.\<close>

definition sort_columns :: "(string \<times> (task \<Rightarrow> sort_value)) list" where
  "sort_columns =
    [(''created_at'', \<lambda>t. SVInt (created_at t)), (''priority'', \<lambda>t. SVInt (priority t)),
     (''status'', \<lambda>t. SVText (status_text (status t))), (''machine_name'', \<lambda>t. SVText (machine_name t)),
     (''operation'', \<lambda>t. SVText (operation t)), (''started_at'', \<lambda>t. sv_opt (started_at t)),
     (''completed_at'', \<lambda>t. sv_opt (completed_at t))]"

definition sort_column :: "string \<Rightarrow> task \<Rightarrow> sort_value" where
  "sort_column name = (case map_of sort_columns name of None \<Rightarrow> (\<lambda>t. SVInt (created_at t)) | Some k \<Rightarrow> k)"

text \<open>
  \<^verbatim>\<open>strings.EqualFold(order, "ASC")\<close>: simple case folding; the only character outside ASCII that
  folds to one of the three letters is the long s, two bytes in UTF-8.
\<close>

fun equal_fold_asc :: "string \<Rightarrow> bool" where
  "equal_fold_asc [a, s, c] = (a \<in> {CHR ''a'', CHR ''A''} \<and> s \<in> {CHR ''s'', CHR ''S''} \<and> c \<in> {CHR ''c'', CHR ''C''})"
| "equal_fold_asc [a, s1, s2, c] = (a \<in> {CHR ''a'', CHR ''A''} \<and> s1 = CHR 0xC5 \<and> s2 = CHR 0xBF \<and> c \<in> {CHR ''c'', CHR ''C''})"
| "equal_fold_asc _ = False"

definition order_rows :: "bool \<Rightarrow> (task \<Rightarrow> sort_value) \<Rightarrow> task list \<Rightarrow> task list" where
  "order_rows asc k ts = (if asc then sort_key k ts else rev (sort_key k (rev ts)))"

definition effective_limit :: "int \<Rightarrow> nat" where
  "effective_limit l = (if l \<le> 0 then 50 else nat l)"

definition list_tasks :: "list_filter \<Rightarrow> store \<Rightarrow> task list" where
  "list_tasks f st =
    take (effective_limit (f_limit f))
      (order_rows (equal_fold_asc (f_order f)) (sort_column (f_sort f)) (filter (matches f) (rows st)))"

definition count_tasks :: "list_filter \<Rightarrow> store \<Rightarrow> nat" where
  "count_tasks f st = sql_affected (matches f) (rows st)"

definition status_counts :: "store \<Rightarrow> task_status \<Rightarrow> nat option" where
  "status_counts st s =
    (let n = sql_affected (\<lambda>t. status t = s) (rows st) in if n = 0 then None else Some n)"

subsection \<open>Picking the next task\<close>

definition dependency_met :: "store \<Rightarrow> task \<Rightarrow> bool" where
  "dependency_met st t = (case depends_on t of None \<Rightarrow> True
     | Some d \<Rightarrow> list_ex (\<lambda>r. task_id r = d \<and> status r = Completed) (rows st))"

definition eligible :: "string list \<Rightarrow> store \<Rightarrow> task \<Rightarrow> bool" where
  "eligible busy st t \<longleftrightarrow>
     status t = Pending \<and> dependency_met st t \<and> machine_name t \<notin> set busy"

definition pick_key :: "task \<Rightarrow> int \<times> time" where
  "pick_key t = (- priority t, created_at t)"

definition next_pending :: "string list \<Rightarrow> store \<Rightarrow> task option" where
  "next_pending busy st =
    (case sort_key pick_key (filter (eligible busy st) (rows st)) of [] \<Rightarrow> None | t # _ \<Rightarrow> Some t)"

record child_counts =
  cc_total :: nat
  cc_completed :: nat
  cc_failed :: nat

definition count_children :: "string \<Rightarrow> store \<Rightarrow> child_counts" where
  "count_children p st =
    (let cs = filter (\<lambda>t. parent_task_id t = Some p) (rows st)
     in \<lparr>cc_total = length cs,
         cc_completed = length (filter (\<lambda>t. status t = Completed) cs),
         cc_failed = length (filter (\<lambda>t. status t \<in> {Failed, Cancelled}) cs)\<rparr>)"

subsection \<open>Cancelling and deleting\<close>

definition dependency_failed :: "store \<Rightarrow> task \<Rightarrow> bool" where
  "dependency_failed st t \<longleftrightarrow> status t = Pending \<and>
     (case depends_on t of None \<Rightarrow> False
      | Some d \<Rightarrow> list_ex (\<lambda>r. task_id r = d \<and> status r \<in> {Failed, Cancelled}) (rows st))"

definition cancel_dependents :: "time \<Rightarrow> store \<Rightarrow> string list \<times> store" where
  "cancel_dependents now st =
    (let hit = filter (dependency_failed st) (rows st);
         st' = update_rows (dependency_failed st) (cancel_row (Some ''Dependency failed'') now) st
     in (first_seen [] (List.map_filter parent_task_id hit), fold changed (map task_id hit) st'))"

definition cancel_pending :: "string \<Rightarrow> time \<Rightarrow> store \<Rightarrow> bool \<times> store" where
  "cancel_pending i now st =
    (let P = (\<lambda>t. task_id t = i \<and> status t = Pending); n = affected P st;
         st' = update_rows P (cancel_row None now) st
     in (0 < n, if 0 < n then changed i st' else st'))"

definition delete_finished :: "store \<Rightarrow> nat \<times> store" where
  "delete_finished st =
    (let P = (\<lambda>t. finished (status t)) in (affected P st, st\<lparr>rows := sql_delete P (rows st)\<rparr>))"

definition delete_finished_before :: "time \<Rightarrow> store \<Rightarrow> nat \<times> store" where
  "delete_finished_before cutoff st =
    (let P = (\<lambda>t. finished (status t) \<and> created_at t < cutoff)
     in (affected P st, st\<lparr>rows := sql_delete P (rows st)\<rparr>))"

definition cancel_all_pending :: "time \<Rightarrow> store \<Rightarrow> nat \<times> store" where
  "cancel_all_pending now st =
    (let P = (\<lambda>t. status t \<in> {Pending, Prepared})
     in (affected P st,
         update_rows P (cancel_row (Some ''Agent restarted before task ran'') now) st))"

definition fail_stale_running :: "time \<Rightarrow> store \<Rightarrow> nat \<times> store" where
  "fail_stale_running now st =
    (let P = (\<lambda>t. status t = Running) in (affected P st, update_rows P (stale_row now) st))"

subsection \<open>Status transitions and progress\<close>

definition mark_running :: "string \<Rightarrow> time \<Rightarrow> store \<Rightarrow> store" where
  "mark_running i now st = changed i (update_rows (\<lambda>t. task_id t = i) (running_row now) st)"

definition finish :: "string \<Rightarrow> task_status \<Rightarrow> string option \<Rightarrow> float64 \<Rightarrow> progress_doc option \<Rightarrow> time \<Rightarrow> store \<Rightarrow> store" where
  "finish i s err percent info now st =
     changed i (update_rows (\<lambda>t. task_id t = i) (finish_row s err percent info now) st)"

definition update_progress :: "string \<Rightarrow> float64 \<Rightarrow> progress_doc option \<Rightarrow> time \<Rightarrow> store \<Rightarrow> store" where
  "update_progress i percent info now st =
     changed i (update_rows (\<lambda>t. task_id t = i) (progress_row percent info now) st)"

definition require_task_row :: "nat \<Rightarrow> store_error option" where
  "require_task_row n = (if n = 0 then Some ErrNotFound else None)"

definition update_metadata :: "string \<Rightarrow> string \<Rightarrow> time \<Rightarrow> store \<Rightarrow> store_error option \<times> store" where
  "update_metadata i m now st =
    (let P = (\<lambda>t. task_id t = i)
     in (require_task_row (affected P st), update_rows P (metadata_row m now) st))"

definition set_depends_on :: "string \<Rightarrow> string \<Rightarrow> time \<Rightarrow> store \<Rightarrow> store" where
  "set_depends_on i d now st =
     changed i (update_rows (\<lambda>t. task_id t = i \<and> status t = Pending) (depends_row d now) st)"

definition requeue :: "string \<Rightarrow> time \<Rightarrow> store \<Rightarrow> bool \<times> store" where
  "requeue i now st =
    (let P = (\<lambda>t. task_id t = i \<and> status t = Prepared); n = affected P st;
         st' = update_rows P (pending_row now) st
     in (0 < n, if 0 < n then changed i st' else st'))"

definition set_output :: "string \<Rightarrow> output_entry list \<Rightarrow> time \<Rightarrow> store \<Rightarrow> store" where
  "set_output i out now st = update_rows (\<lambda>t. task_id t = i) (output_row out now) st"

definition get_output_column :: "string \<Rightarrow> store \<Rightarrow> store_error + output_entry list option" where
  "get_output_column i st = (case get st i of None \<Rightarrow> Inl ErrNotFound | Some t \<Rightarrow> Inr (output_column t))"

end
