(* ===== verification/TaskStoreLaws.thy ===== *)
theory TaskStoreLaws
  imports TaskStore
begin

text \<open>
  Laws of the task table. The contract every update statement meets (it keeps the identifier of a
  row and the row invariant) is a locale, interpreted on each statement of the store; the table
  invariant, the pick of the next task, the dependency cascade and the deletions follow.
\<close>

subsection \<open>Reading after the change callback\<close>

lemma rows_changed [simp]: "rows (changed i st) = rows st"
  by (simp add: changed_def split: option.splits)

lemma has_notify_changed [simp]: "has_notify (changed i st) = has_notify st"
  by (simp add: changed_def split: option.splits)

lemma get_changed [simp]: "get (changed i st) = get st"
  by (simp add: get_def fun_eq_iff)

lemma rows_fold_changed [simp]: "rows (fold changed is st) = rows st"
  by (induction "is" arbitrary: st) auto

lemma get_fold_changed [simp]: "get (fold changed ks st) = get st"
  by (simp add: get_def fun_eq_iff)

lemma rows_update_rows [simp]: "rows (update_rows P f st) = sql_update P f (rows st)"
  by (simp add: update_rows_def)

lemma get_in_rows: "get st i = Some t \<Longrightarrow> t \<in> set (rows st) \<and> task_id t = i"
  using find_Some_in by (fastforce simp: get_def)

lemma get_None_iff: "get st i = None \<longleftrightarrow> i \<notin> task_id ` set (rows st)"
  by (simp add: get_def find_None_key)

subsection \<open>The table invariant\<close>

definition row_ok :: "task \<Rightarrow> bool" where
  "row_ok t \<longleftrightarrow> (status t = Running \<longrightarrow> started_at t \<noteq> None)
     \<and> (finished (status t) \<longrightarrow> completed_at t \<noteq> None)"

definition wf_store :: "store \<Rightarrow> bool" where
  "wf_store st \<longleftrightarrow> distinct (map task_id (rows st)) \<and> (\<forall>t\<in>set (rows st). row_ok t)"

lemma wf_store_changed [simp]: "wf_store (changed i st) = wf_store st"
  by (simp add: wf_store_def)

lemma wf_store_fold_changed [simp]: "wf_store (fold changed is st) = wf_store st"
  by (simp add: wf_store_def)

lemma get_row:
  assumes "wf_store st" and "t \<in> set (rows st)"
  shows "get st (task_id t) = Some t"
  using assms find_distinct_key [of task_id "rows st" t] by (simp add: get_def wf_store_def)

subsection \<open>The contract of an update statement\<close>

locale row_update =
  fixes f :: "task \<Rightarrow> task"
  assumes key: "task_id (f t) = task_id t"
    and ok: "row_ok t \<Longrightarrow> row_ok (f t)"
begin

lemma get_update:
  "get (update_rows P f st) i = map_option (\<lambda>t. if P t then f t else t) (get st i)"
  by (simp add: get_def find_sql_update_key key)

lemma ids_update: "map task_id (rows (update_rows P f st)) = map task_id (rows st)"
  by (simp add: map_sql_update key)

lemma wf_update: "wf_store st \<Longrightarrow> wf_store (update_rows P f st)"
  using ids_update [of P st] by (auto simp: wf_store_def set_sql_update ok)

end

interpretation cancelled: row_update "cancel_row msg now" for msg now
  by unfold_locales (auto simp: row_ok_def row_defs)

interpretation stale: row_update "stale_row now" for now
  by unfold_locales (auto simp: row_ok_def row_defs)

interpretation started: row_update "running_row now" for now
  by unfold_locales (auto simp: row_ok_def row_defs)

interpretation progressed: row_update "progress_row percent info now" for percent info now
  by unfold_locales (auto simp: row_ok_def row_defs)

interpretation annotated: row_update "metadata_row m now" for m now
  by unfold_locales (auto simp: row_ok_def row_defs)

interpretation chained: row_update "depends_row d now" for d now
  by unfold_locales (auto simp: row_ok_def row_defs)

interpretation requeued: row_update "pending_row now" for now
  by unfold_locales (auto simp: row_ok_def row_defs)

interpretation flushed: row_update "output_row out now" for out now
  by unfold_locales (auto simp: row_ok_def row_defs)

text \<open>
  A finishing statement keeps the row invariant for every status but \<open>Running\<close>, which no caller
  passes; the guarded row function below is the statement on those statuses.
\<close>

definition finish_guarded :: "task_status \<Rightarrow> string option \<Rightarrow> float64 \<Rightarrow> progress_doc option \<Rightarrow> time \<Rightarrow> task \<Rightarrow> task" where
  "finish_guarded s err percent info now t =
     (if s = Running then t else finish_row s err percent info now t)"

lemma finish_guarded_eq: "s \<noteq> Running \<Longrightarrow> finish_guarded s err p info now = finish_row s err p info now"
  by (simp add: finish_guarded_def fun_eq_iff)

interpretation ended: row_update "finish_guarded s err percent info now" for s err percent info now
  by unfold_locales (auto simp: row_ok_def row_defs finish_guarded_def)

lemmas get_statement = cancelled.get_update stale.get_update started.get_update
  progressed.get_update annotated.get_update chained.get_update requeued.get_update
  flushed.get_update

lemmas wf_statement = cancelled.wf_update stale.wf_update started.wf_update
  progressed.wf_update annotated.wf_update chained.wf_update requeued.wf_update flushed.wf_update

lemma wf_finish: "wf_store st \<Longrightarrow> s \<noteq> Running \<Longrightarrow> wf_store (finish i s err p info now st)"
  using ended.wf_update [of st "\<lambda>t. task_id t = i" s err p info now]
  by (simp add: finish_def finish_guarded_eq)

lemma get_finish: "get (finish i s err p info now st) j =
    (if j = i then map_option (finish_row s err p info now) (get st j) else get st j)"
proof -
  have "get (update_rows (\<lambda>t. task_id t = i) (finish_row s err p info now) st) j =
      map_option (\<lambda>t. if task_id t = i then finish_row s err p info now t else t) (get st j)"
    by (simp add: get_def find_sql_update_key row_defs)
  moreover have "task_id t = j" if "get st j = Some t" for t using get_in_rows [OF that] by simp
  ultimately show ?thesis by (cases "get st j") (auto simp: finish_def)
qed

lemma wf_delete: "wf_store st \<Longrightarrow> wf_store (st\<lparr>rows := sql_delete P (rows st)\<rparr>)"
  by (simp add: wf_store_def distinct_map_sql_delete)

lemma wf_create: "wf_store st \<Longrightarrow> wf_store (snd (create i now nt st))"
  by (auto simp: create_def wf_store_def get_None_iff new_row_def row_ok_def create_status_def
      Let_def split: option.splits)

lemma wf_store_empty: "wf_store \<lparr>rows = [], has_notify = b, notified = []\<rparr>"
  by (simp add: wf_store_def)

text \<open>Every operation of the store keeps the table invariant.\<close>

lemmas wf_operations =
  wf_create wf_finish wf_statement wf_delete

lemma wf_cancel_pending: "wf_store st \<Longrightarrow> wf_store (snd (cancel_pending i now st))"
  by (simp add: cancel_pending_def Let_def cancelled.wf_update)

lemma wf_cancel_dependents: "wf_store st \<Longrightarrow> wf_store (snd (cancel_dependents now st))"
  by (simp add: cancel_dependents_def Let_def cancelled.wf_update)

lemma wf_requeue: "wf_store st \<Longrightarrow> wf_store (snd (requeue i now st))"
  by (simp add: requeue_def Let_def requeued.wf_update)

lemma wf_mark_running: "wf_store st \<Longrightarrow> wf_store (mark_running i now st)"
  by (simp add: mark_running_def started.wf_update)

lemma wf_update_progress: "wf_store st \<Longrightarrow> wf_store (update_progress i p info now st)"
  by (simp add: update_progress_def progressed.wf_update)

lemma wf_set_depends_on: "wf_store st \<Longrightarrow> wf_store (set_depends_on i d now st)"
  by (simp add: set_depends_on_def chained.wf_update)

subsection \<open>The next task\<close>

lemma next_pending_None_iff:
  "next_pending busy st = None \<longleftrightarrow> (\<forall>t\<in>set (rows st). \<not> eligible busy st t)"
proof -
  have "next_pending busy st = None \<longleftrightarrow> sort_key pick_key (filter (eligible busy st) (rows st)) = []"
    by (auto simp: next_pending_def simp del: sort_key_empty split: list.splits)
  then show ?thesis by (simp add: filter_empty_conv)
qed

lemma next_pending_head:
  assumes "next_pending busy st = Some t"
  shows "\<exists>us vs. rows st = us @ t # vs \<and> eligible busy st t
    \<and> (\<forall>u\<in>set us. eligible busy st u \<longrightarrow> pick_key t < pick_key u)
    \<and> (\<forall>v\<in>set vs. eligible busy st v \<longrightarrow> pick_key t \<le> pick_key v)"
proof -
  obtain ys where "sort_key pick_key (filter (eligible busy st) (rows st)) = t # ys"
    using assms by (auto simp: next_pending_def split: list.splits)
  from sort_key_filter_head [OF this] show ?thesis .
qed

lemma next_pending_eligible:
  "next_pending busy st = Some t \<Longrightarrow> t \<in> set (rows st) \<and> eligible busy st t"
  using next_pending_head [of busy st t] by auto

end
