(* ===== verification/TaskParent.thy ===== *)
theory TaskParent
  imports TaskStoreLaws
begin

text \<open>
  Parent-task aggregation (\<^verbatim>\<open>updateParentProgress\<close> of \<^verbatim>\<open>internal/tasks/parent.go\<close>): a running
  anchor gets the rounded percentage of its finished children, and its terminal status once every
  child counts as done. The percentage is computed in float64, as the code does.
\<close>

definition parent_done :: "child_counts \<Rightarrow> nat" where
  "parent_done c = cc_completed c + cc_failed c"

definition parent_percent :: "child_counts \<Rightarrow> float64" where
  "parent_percent c =
    (if 0 < cc_total c
     then go_round (fmul (fdiv (of_nat (parent_done c)) (of_nat (cc_total c))) 100) else 0)"

definition parent_status :: "child_counts \<Rightarrow> task_status" where
  "parent_status c =
    (if 0 < cc_total c \<and> parent_done c = cc_total c
     then (if cc_failed c = cc_total c then Failed
           else if 0 < cc_failed c then CompletedWithErrors else Completed)
     else Running)"

definition parent_info :: "child_counts \<Rightarrow> progress_doc" where
  "parent_info c = ParentInfo (cc_completed c) (cc_failed c) (cc_total c) (parent_status c)"

definition update_parent_progress :: "time \<Rightarrow> string \<Rightarrow> store \<Rightarrow> store" where
  "update_parent_progress now p st =
    (case get st p of
       None \<Rightarrow> st
     | Some parent \<Rightarrow>
         if status parent \<noteq> Running then st
         else
           let c = count_children p st; s = parent_status c
           in if s = Running then update_progress p (parent_percent c) (Some (parent_info c)) now st
              else finish p s None (parent_percent c) (Some (parent_info c)) now st)"

subsection \<open>Counting\<close>

lemma parent_done_le_total: "parent_done (count_children p st) \<le> cc_total (count_children p st)"
proof -
  have "length (filter (\<lambda>t. status t = Completed) cs)
      + length (filter (\<lambda>t. status t \<in> {Failed, Cancelled}) cs) \<le> length cs" for cs :: "task list"
    by (induction cs) auto
  from this [of "filter (\<lambda>t. parent_task_id t = Some p) (rows st)"] show ?thesis
    by (simp add: parent_done_def count_children_def Let_def)
qed

text \<open>Every child counts as done exactly when each is completed, failed or cancelled.\<close>

lemma all_children_done:
  "parent_done (count_children p st) = cc_total (count_children p st) \<longleftrightarrow>
    (\<forall>t\<in>set (rows st). parent_task_id t = Some p \<longrightarrow> status t \<in> {Completed, Failed, Cancelled})"
proof -
  have "length (filter (\<lambda>t. status t = Completed) cs)
      + length (filter (\<lambda>t. status t \<in> {Failed, Cancelled}) cs) = length cs \<longleftrightarrow>
      (\<forall>t\<in>set cs. status t \<in> {Completed, Failed, Cancelled})" for cs :: "task list"
  proof (induction cs)
    case (Cons t cs)
    have "length (filter (\<lambda>t. status t = Completed) cs)
      + length (filter (\<lambda>t. status t \<in> {Failed, Cancelled}) cs) \<le> length cs"
      by (induction cs) auto
    then show ?case using Cons by auto
  qed simp
  from this [of "filter (\<lambda>t. parent_task_id t = Some p) (rows st)"] show ?thesis
    by (auto simp: parent_done_def count_children_def Let_def)
qed

subsection \<open>The percentage\<close>

lemma parent_percent_bounds:
  assumes "parent_done c \<le> cc_total c"
  shows "0 \<le> parent_percent c \<and> parent_percent c \<le> 100"
proof (cases "0 < cc_total c")
  case True
  define x :: rat where "x = of_nat (parent_done c) / of_nat (cc_total c)"
  have x: "0 \<le> x" "x \<le> 1" using True assms by (simp_all add: x_def divide_le_eq)
  then have d: "0 \<le> round64 x" "round64 x \<le> 1" using round64_nonneg round64_mono [of x 1] by simp_all
  then have "round64 (round64 x * 100) \<le> 100" using round64_mono [of "round64 x * 100" 100] by simp
  moreover have "0 \<le> round64 (round64 x * 100)" using d by (simp add: round64_nonneg)
  ultimately show ?thesis
    using True go_round_nonneg go_round_le_int [of "round64 (round64 x * 100)" 100]
    by (simp add: parent_percent_def fdiv_def fmul_def x_def)
next
  case False
  then show ?thesis by (simp add: parent_percent_def)
qed

lemma parent_percent_full:
  assumes "0 < cc_total c" and "parent_done c = cc_total c"
  shows "parent_percent c = 100"
  using assms go_round_of_int [of 100] by (simp add: parent_percent_def fdiv_def fmul_def)

subsection \<open>What the update does to the table\<close>

lemma has_notify_update_rows [simp]: "has_notify (update_rows P f st) = has_notify st"
  by (simp add: update_rows_def)

lemma get_update_progress:
  "get (update_progress i p info now st) j =
    (if j = i then map_option (progress_row p info now) (get st j) else get st j)"
proof -
  have "task_id t = j" if "get st j = Some t" for t using get_in_rows [OF that] by simp
  then show ?thesis
    by (cases "get st j") (auto simp: update_progress_def progressed.get_update)
qed

lemma get_update_parent_other:
  "j \<noteq> p \<Longrightarrow> get (update_parent_progress now p st) j = get st j"
  by (simp add: update_parent_progress_def get_update_progress get_finish Let_def split: option.split)

lemma parent_status_not_pending:
  "parent_status c \<noteq> Pending" "parent_status c \<noteq> Prepared" "parent_status c \<noteq> Cancelled"
  by (simp_all add: parent_status_def)

lemma wf_update_parent: "wf_store st \<Longrightarrow> wf_store (update_parent_progress now p st)"
  by (auto simp: update_parent_progress_def wf_update_progress wf_finish Let_def split: option.splits)

subsection \<open>The terminal status\<close>

definition kids :: "string \<Rightarrow> store \<Rightarrow> task list" where
  "kids p st = filter (\<lambda>t. parent_task_id t = Some p) (rows st)"

lemma count_children_kids:
  "count_children p st = \<lparr>cc_total = length (kids p st),
     cc_completed = length (filter (\<lambda>t. status t = Completed) (kids p st)),
     cc_failed = length (filter (\<lambda>t. status t \<in> {Failed, Cancelled}) (kids p st))\<rparr>"
  by (simp add: count_children_def kids_def Let_def)

lemma filter_full: "length (filter P xs) = length xs \<longleftrightarrow> (\<forall>x\<in>set xs. P x)"
  by (metis filter_id_conv length_filter_less nat_less_le)

lemma parent_status_kids:
  "parent_status (count_children p st) =
    (if kids p st = [] \<or> (\<exists>k\<in>set (kids p st). status k \<notin> {Completed, Failed, Cancelled}) then Running
     else if \<forall>k\<in>set (kids p st). status k \<in> {Failed, Cancelled} then Failed
     else if \<exists>k\<in>set (kids p st). status k \<in> {Failed, Cancelled} then CompletedWithErrors
     else Completed)"
proof -
  have all: "parent_done (count_children p st) = cc_total (count_children p st) \<longleftrightarrow>
      (\<forall>k\<in>set (kids p st). status k \<in> {Completed, Failed, Cancelled})"
    using all_children_done [of p st] by (auto simp: kids_def)
  have some: "0 < cc_failed (count_children p st) \<longleftrightarrow> (\<exists>k\<in>set (kids p st). status k \<in> {Failed, Cancelled})"
    by (auto simp: count_children_kids filter_empty_conv)
  have every: "cc_failed (count_children p st) = cc_total (count_children p st) \<longleftrightarrow>
      (\<forall>k\<in>set (kids p st). status k \<in> {Failed, Cancelled})"
    using filter_full [of "\<lambda>t. status t \<in> {Failed, Cancelled}"] by (simp add: count_children_kids)
  have empty: "0 < cc_total (count_children p st) \<longleftrightarrow> kids p st \<noteq> []" by (simp add: count_children_kids)
  show ?thesis unfolding parent_status_def all some every empty by auto
qed

lemma get_update_parent_running:
  assumes "get st p = Some t" and "status t = Running"
  shows "\<exists>u. get (update_parent_progress now p st) p = Some u
    \<and> status u = parent_status (count_children p st)
    \<and> progress_percent u = parent_percent (count_children p st)
    \<and> progress_info u = Some (parent_info (count_children p st))"
  using assms parent_percent_bounds [OF parent_done_le_total [of p st]]
  by (simp add: update_parent_progress_def Let_def get_update_progress get_finish progress_row_def finish_row_def)

end
