(* ===== verification/TaskQueue.thy ===== *)
theory TaskQueue
  imports TaskParent "HOL-Library.AList"
begin

text \<open>
  The task processor (\<^verbatim>\<open>internal/tasks/queue.go\<close> and the cancel flow of \<^verbatim>\<open>parent.go\<close>): the poll
  loop's tick in its two halves (choosing a task; marking it running and recording it in flight), the
  bookkeeping after an executor returns, cancellation with its cascade, start and stop. The in-flight
  map is an association list keyed by task id, the category locks a map to the holding task.
\<close>

record running_entry =
  re_cancelled :: bool
  re_machine :: string

record queue =
  q_store :: store
  running :: "(string \<times> running_entry) list"
  categories :: "string \<Rightarrow> string option"
  processing :: bool
  max_concurrent :: int
  retention :: time
  resume_pending_on_start :: bool
  executors :: "string list"

subsection \<open>Start, stop, retention\<close>

definition queue_start :: "time \<Rightarrow> queue \<Rightarrow> queue" where
  "queue_start now q =
    (let st1 = snd (fail_stale_running now (q_store q));
         st2 = (if resume_pending_on_start q then st1 else snd (cancel_all_pending now st1))
     in q\<lparr>q_store := st2, processing := True\<rparr>)"

definition queue_stop :: "queue \<Rightarrow> queue" where
  "queue_stop q =
    (if \<not> processing q then q
     else q\<lparr>processing := False,
            running := map (\<lambda>(i, e). (i, e\<lparr>re_cancelled := True\<rparr>)) (running q)\<rparr>)"

definition cleanup_now :: "time \<Rightarrow> queue \<Rightarrow> nat \<times> queue" where
  "cleanup_now now q =
    (let (n, st) = delete_finished_before (now - retention q) (q_store q) in (n, q\<lparr>q_store := st\<rparr>))"

subsection \<open>The tick\<close>

definition exclusive_machine :: "string \<Rightarrow> bool" where
  "exclusive_machine m \<longleftrightarrow> m \<noteq> '''' \<and> m \<noteq> ''system'' \<and> m \<noteq> ''filesystem''"

definition busy_machines :: "queue \<Rightarrow> string list" where
  "busy_machines q = filter exclusive_machine (map (re_machine \<circ> snd) (running q))"

definition at_capacity :: "queue \<Rightarrow> bool" where
  "at_capacity q \<longleftrightarrow> max_concurrent q \<le> int (length (running q))"

definition category_free :: "queue \<Rightarrow> task \<Rightarrow> bool" where
  "category_free q t \<longleftrightarrow>
    operation_category (operation t) = '''' \<or> categories q (operation_category (operation t)) = None"

definition tick_pick :: "time \<Rightarrow> queue \<Rightarrow> task option \<times> queue" where
  "tick_pick now q =
    (if at_capacity q then (None, q)
     else
       let (parents, st) = cancel_dependents now (q_store q);
           st' = fold (update_parent_progress now) parents st;
           q' = q\<lparr>q_store := st'\<rparr>
       in case next_pending (busy_machines q) st' of
            None \<Rightarrow> (None, q')
          | Some t \<Rightarrow> (if category_free q t then (Some t, q') else (None, q')))"

definition tick_start :: "time \<Rightarrow> task \<Rightarrow> queue \<Rightarrow> queue" where
  "tick_start now t q =
    (let c = operation_category (operation t)
     in q\<lparr>q_store := mark_running (task_id t) now (q_store q),
          running := AList.update (task_id t)
            \<lparr>re_cancelled = False, re_machine = machine_name t\<rparr> (running q),
          categories := (if c \<noteq> '''' then (categories q)(c \<mapsto> task_id t) else categories q)\<rparr>)"

definition tick :: "time \<Rightarrow> queue \<Rightarrow> queue" where
  "tick now q = (case tick_pick now q of (None, q') \<Rightarrow> q' | (Some t, q') \<Rightarrow> tick_start now t q')"

subsection \<open>After an executor returns\<close>

definition run_error :: "queue \<Rightarrow> task \<Rightarrow> string option \<Rightarrow> string option" where
  "run_error q t err =
    (if operation t \<in> set (executors q) then err else Some (''unknown operation: '' @ operation t))"

definition was_cancelled :: "queue \<Rightarrow> string \<Rightarrow> bool" where
  "was_cancelled q i = (case map_of (running q) i of None \<Rightarrow> False | Some e \<Rightarrow> re_cancelled e)"

definition outcome :: "queue \<Rightarrow> task \<Rightarrow> string option \<Rightarrow> task_status \<times> string option" where
  "outcome q t err =
    (if was_cancelled q (task_id t) then (Cancelled, None)
     else case run_error q t err of None \<Rightarrow> (Completed, None) | Some m \<Rightarrow> (Failed, Some m))"

definition completion_progress :: "time \<Rightarrow> store \<Rightarrow> string \<Rightarrow> task_status \<Rightarrow> float64 \<times> progress_doc option" where
  "completion_progress now st i s =
    (if s = Completed
     then (case get st i of
             Some fresh \<Rightarrow> (if progress_percent fresh < 100 then (100, Some (DoneInfo now)) else (- 1, None))
           | None \<Rightarrow> (- 1, None))
     else (- 1, None))"

definition release :: "task \<Rightarrow> queue \<Rightarrow> queue" where
  "release t q =
    (let c = operation_category (operation t)
     in q\<lparr>running := AList.delete (task_id t) (running q),
          categories := (if c \<noteq> '''' \<and> categories q c = Some (task_id t)
                         then (categories q)(c := None) else categories q)\<rparr>)"

definition report_parent :: "time \<Rightarrow> task \<Rightarrow> queue \<Rightarrow> queue" where
  "report_parent now t q =
    (case parent_task_id t of None \<Rightarrow> q
     | Some p \<Rightarrow> q\<lparr>q_store := update_parent_progress now p (q_store q)\<rparr>)"

definition execute_and_handle :: "time \<Rightarrow> task \<Rightarrow> string option \<Rightarrow> queue \<Rightarrow> queue" where
  "execute_and_handle now t err q =
    (let (s, msg) = outcome q t err;
         (percent, info) = completion_progress now (q_store q) (task_id t) s
     in report_parent now t
          (release t (q\<lparr>q_store := finish (task_id t) s msg percent info now (q_store q)\<rparr>)))"

subsection \<open>Cancellation\<close>

datatype cancel_error = CancelNotFound | NotCancellable task_status

definition children :: "string \<Rightarrow> task_status \<Rightarrow> store \<Rightarrow> task list" where
  "children p s st =
    list_tasks (no_filter\<lparr>f_parent_task_id := p, f_status := status_text s, f_limit := 1000\<rparr>) st"

text \<open>
  \<^verbatim>\<open>Cancel\<close> reads the row once, then loops over that snapshot: the row in the table may have moved
  on, in which case a pending snapshot fails its guarded update and is read again. \<open>cancel_from\<close> is the
  loop on a snapshot, \<open>cancel_list\<close> the cascade over children; the result says whether the task was
  still running. The first argument is fuel; \<open>None\<close> means it ran out.
\<close>

fun cancel_from :: "nat \<Rightarrow> time \<Rightarrow> string \<Rightarrow> task \<Rightarrow> queue \<Rightarrow> ((cancel_error + bool) \<times> queue) option"
  and cancel_list :: "nat \<Rightarrow> time \<Rightarrow> string list \<Rightarrow> queue \<Rightarrow> queue option" where
  "cancel_from 0 now i snap q = None"
| "cancel_from (Suc n) now i snap q =
    (if status snap = Pending then
       let (done, st) = cancel_pending i now (q_store q); q1 = q\<lparr>q_store := st\<rparr>
       in if done then Some (Inr False, report_parent now snap q1)
          else (case get st i of
                  None \<Rightarrow> Some (Inl CancelNotFound, q1)
                | Some t \<Rightarrow> cancel_from n now i t q1)
     else if status snap = Running then
       (case map_of (running q) i of
          Some e \<Rightarrow>
            Some (Inr True, q\<lparr>running := AList.update i (e\<lparr>re_cancelled := True\<rparr>) (running q)\<rparr>)
        | None \<Rightarrow>
            let q1 = q\<lparr>q_store := finish i Cancelled None (- 1) None now (q_store q)\<rparr>
            in (case cancel_list n now (map task_id (children i Pending (q_store q1))) q1 of
                  None \<Rightarrow> None
                | Some q2 \<Rightarrow>
                    (case cancel_list n now (map task_id (children i Running (q_store q2))) q2 of
                       None \<Rightarrow> None
                     | Some q3 \<Rightarrow> Some (Inr False, report_parent now snap q3))))
     else Some (Inl (NotCancellable (status snap)), q))"
| "cancel_list n now [] q = Some q"
| "cancel_list n now (c # cs) q =
    (case get (q_store q) c of
       None \<Rightarrow> cancel_list n now cs q
     | Some t \<Rightarrow>
         (case cancel_from n now c t q of
            None \<Rightarrow> None
          | Some (r, q') \<Rightarrow> cancel_list n now cs q'))"

definition cancel :: "nat \<Rightarrow> time \<Rightarrow> string \<Rightarrow> queue \<Rightarrow> ((cancel_error + bool) \<times> queue) option" where
  "cancel n now i q =
    (case get (q_store q) i of
       None \<Rightarrow> Some (Inl CancelNotFound, q)
     | Some t \<Rightarrow> cancel_from n now i t q)"

end
