(* ===== verification/TaskCancelLaws.thy ===== *)
theory TaskCancelLaws
  imports TaskQueue
begin

text \<open>
  Laws of cancellation: how a cancel moves the statuses of the table (a pending row may become
  cancelled, a running one may reach a terminal status, no other row moves), that the cascade over
  an orchestration returns, and what it leaves behind.
\<close>

subsection \<open>Rows settle\<close>

definition settles :: "task \<Rightarrow> task \<Rightarrow> bool" where
  "settles t u \<longleftrightarrow> task_id u = task_id t \<and> parent_task_id u = parent_task_id t \<and> depends_on u = depends_on t
     \<and> (status u = status t \<or> (status t = Pending \<and> status u = Cancelled)
        \<or> (status t = Running \<and> finished (status u)))"

definition calms :: "store \<Rightarrow> store \<Rightarrow> bool" where
  "calms st st' \<longleftrightarrow> list_all2 settles (rows st) (rows st')"

lemma settles_refl [simp]: "settles t t"
  by (simp add: settles_def)

lemma settles_trans: "settles t u \<Longrightarrow> settles u v \<Longrightarrow> settles t v"
  by (auto simp: settles_def)

lemma calms_refl [simp]: "calms st st"
  by (simp add: calms_def list.rel_refl_strong)

lemma calms_trans: "calms a b \<Longrightarrow> calms b c \<Longrightarrow> calms a c"
  unfolding calms_def using list_all2_trans [of settles settles settles] settles_trans by blast

lemma calms_changed [simp]: "calms st (changed i st') = calms st st'"
  by (simp add: calms_def)

lemma calms_update:
  assumes "\<And>t. t \<in> set (rows st) \<Longrightarrow> P t \<Longrightarrow> settles t (f t)"
  shows "calms st (update_rows P f st)"
  using assms by (auto simp: calms_def sql_update_def list.rel_map intro!: list.rel_refl_strong)

lemma calms_cancel_pending: "calms st (snd (cancel_pending i now st))"
  by (auto simp: cancel_pending_def Let_def settles_def cancel_row_def intro!: calms_update)

lemma parent_status_cases:
  "parent_status c = Running \<or> finished (parent_status c)"
  by (simp add: parent_status_def)

lemma calms_update_parent:
  assumes "wf_store st"
  shows "calms st (update_parent_progress now p st)"
proof (cases "\<exists>u. get st p = Some u \<and> status u = Running")
  case True
  then obtain u where u: "get st p = Some u" "status u = Running" by blast
  have run: "status t = Running" if "t \<in> set (rows st)" "task_id t = p" for t
    using get_row [OF assms that(1)] that u by simp
  let ?c = "count_children p st"
  have "calms st (finish p (parent_status ?c) None (parent_percent ?c) (Some (parent_info ?c)) now st)"
    if "finished (parent_status ?c)"
    unfolding finish_def calms_changed
    by (rule calms_update) (use run that in \<open>auto simp: settles_def finish_row_def\<close>)
  moreover have "calms st (update_progress p (parent_percent ?c) (Some (parent_info ?c)) now st)"
    unfolding update_progress_def calms_changed
    by (rule calms_update) (simp add: settles_def progress_row_def)
  ultimately show ?thesis
    using u parent_status_cases [of ?c] by (auto simp: update_parent_progress_def Let_def)
next
  case False
  then have "update_parent_progress now p st = st"
    by (auto simp: update_parent_progress_def split: option.splits)
  then show ?thesis by simp
qed

text \<open>The rows of a settled table, by identifier.\<close>

lemma calms_get:
  assumes "calms st st'"
  shows "(case get st j of None \<Rightarrow> get st' j = None
    | Some t \<Rightarrow> (\<exists>u. get st' j = Some u \<and> settles t u))"
proof -
  have "list_all2 settles xs ys \<Longrightarrow>
      (case find (\<lambda>r. task_id r = j) xs of None \<Rightarrow> find (\<lambda>r. task_id r = j) ys = None
       | Some t \<Rightarrow> (\<exists>u. find (\<lambda>r. task_id r = j) ys = Some u \<and> settles t u))" for xs ys
    by (induction rule: list_all2_induct) (auto simp: settles_def split: option.splits)
  from this [of "rows st" "rows st'"] show ?thesis using assms
    by (simp only: calms_def get_def)
qed

lemma calms_ids: "calms st st' \<Longrightarrow> map task_id (rows st') = map task_id (rows st)"
  unfolding calms_def by (induction rule: list_all2_induct) (auto simp: settles_def)

lemma calms_row:
  assumes "calms st st'" and "u \<in> set (rows st')"
  shows "\<exists>t\<in>set (rows st). settles t u"
  using assms unfolding calms_def by (metis in_set_conv_nth list_all2_conv_all_nth)

subsection \<open>Queues settle\<close>

lemma was_cancelled_flag:
  "map_of (running q) i = Some e \<Longrightarrow>
     was_cancelled (q\<lparr>running := AList.update i (e\<lparr>re_cancelled := True\<rparr>) (running q)\<rparr>) j
       = (j = i \<or> was_cancelled q j)"
  by (simp add: was_cancelled_def update_conv')

definition qcalms :: "queue \<Rightarrow> queue \<Rightarrow> bool" where
  "qcalms q q' \<longleftrightarrow> calms (q_store q) (q_store q') \<and> wf_store (q_store q')
     \<and> map fst (running q') = map fst (running q)
     \<and> map (re_machine \<circ> snd) (running q') = map (re_machine \<circ> snd) (running q)
     \<and> categories q' = categories q \<and> max_concurrent q' = max_concurrent q
     \<and> processing q' = processing q
     \<and> (\<forall>j. was_cancelled q j \<longrightarrow> was_cancelled q' j)"

lemma qcalms_refl: "wf_store (q_store q) \<Longrightarrow> qcalms q q"
  by (simp add: qcalms_def)

lemma qcalms_trans: "qcalms a b \<Longrightarrow> qcalms b c \<Longrightarrow> qcalms a c"
  by (auto simp: qcalms_def intro: calms_trans)

lemma qcalms_store:
  "calms (q_store q) st \<Longrightarrow> wf_store st \<Longrightarrow> qcalms q (q\<lparr>q_store := st\<rparr>)"
  by (simp add: qcalms_def was_cancelled_def)

lemma qcalms_report_parent: "qcalms q q' \<Longrightarrow> qcalms q (report_parent now t q')"
  by (auto simp: report_parent_def qcalms_def was_cancelled_def split: option.splits
      intro: calms_trans [OF _ calms_update_parent] wf_update_parent)

lemma alist_update_present:
  assumes "map_of r i = Some e" and "distinct (map fst r)" and "re_machine e' = re_machine e"
  shows "map fst (AList.update i e' r) = map fst r
    \<and> map (re_machine \<circ> snd) (AList.update i e' r) = map (re_machine \<circ> snd) r"
  using assms by (induction r) (auto split: if_splits)

text \<open>Cancelling a row the table holds as running and this process does not run.\<close>

lemma calms_close_anchor:
  assumes "wf_store st" and "get st i = Some t" and "status t = Running"
  shows "calms st (finish i Cancelled None p info now st)"
proof -
  have "u = t" if "u \<in> set (rows st)" "task_id u = i" for u
    using get_row [OF assms(1) that(1)] assms(2) that by simp
  then show ?thesis
    using assms(3) by (auto simp: finish_def settles_def finish_row_def intro!: calms_update)
qed

lemma cancel_pending_done:
  assumes "get st i = Some t" and "status t = Pending"
  shows "fst (cancel_pending i now st)"
  using get_in_rows [OF assms(1)] assms(2)
  by (auto simp: cancel_pending_def Let_def affected_def sql_affected_pos_iff)

definition queue_ok :: "queue \<Rightarrow> bool" where
  "queue_ok q \<longleftrightarrow> wf_store (q_store q) \<and> distinct (map fst (running q))"

lemma qcalms_ok: "qcalms q q' \<Longrightarrow> queue_ok q \<Longrightarrow> queue_ok q'"
  by (simp add: qcalms_def queue_ok_def)

lemma cancel_calms:
  "queue_ok q \<Longrightarrow> get (q_store q) i = Some snap \<Longrightarrow>
     cancel_from n now i snap q = Some (r, q') \<Longrightarrow> qcalms q q'"
  "queue_ok q \<Longrightarrow> cancel_list n now cs q = Some q' \<Longrightarrow> qcalms q q'"
proof (induction n now i snap q and n now cs q arbitrary: r q' and q'
    rule: cancel_from_cancel_list.induct)
  case (2 n now i snap q)
  consider "status snap = Pending" | "status snap = Running"
    | "status snap \<noteq> Pending" "status snap \<noteq> Running" by blast
  then show ?case
  proof cases
    case 1
    have "qcalms q (q\<lparr>q_store := snd (cancel_pending i now (q_store q))\<rparr>)"
      using "2.prems"(1) by (auto intro!: qcalms_store calms_cancel_pending wf_cancel_pending simp: queue_ok_def)
    then have "qcalms q (report_parent now snap (q\<lparr>q_store := snd (cancel_pending i now (q_store q))\<rparr>))"
      by (rule qcalms_report_parent)
    then show ?thesis
      using "2.prems" 1 cancel_pending_done [OF "2.prems"(2) 1, of now]
      by (auto simp: Let_def split: prod.splits)
  next
    case 2
    let ?q1 = "q\<lparr>q_store := finish i Cancelled None (- 1) None now (q_store q)\<rparr>"
    show ?thesis
    proof (cases "map_of (running q) i")
      case None
      have q1: "qcalms q ?q1"
        using "2.prems" 2 by (auto intro!: qcalms_store calms_close_anchor wf_finish simp: queue_ok_def)
      obtain q2 q3 where
        l2: "cancel_list n now (map task_id (children i Pending (q_store ?q1))) ?q1 = Some q2"
        and l3: "cancel_list n now (map task_id (children i Running (q_store q2))) q2 = Some q3"
        and r: "q' = report_parent now snap q3"
        using "2.prems"(3) 2 None by (auto simp: Let_def split: option.splits)
      have "qcalms ?q1 q2"
        using "2.IH"(2) [OF _ 2 None refl _ l2] 2 qcalms_ok [OF q1 "2.prems"(1)] by simp
      then have "qcalms q q2" using q1 qcalms_trans by blast
      moreover have "qcalms q2 q3"
        using "2.IH"(3) [OF _ 2 None refl l2 _ l3] 2 qcalms_ok [OF \<open>qcalms q q2\<close> "2.prems"(1)] by simp
      ultimately show ?thesis using r qcalms_trans qcalms_report_parent by blast
    next
      case (Some e)
      then have q': "q' = q\<lparr>running := AList.update i (e\<lparr>re_cancelled := True\<rparr>) (running q)\<rparr>"
        using "2.prems"(3) 2 by simp
      show ?thesis
        using "2.prems"(1) alist_update_present [OF Some, of "e\<lparr>re_cancelled := True\<rparr>"]
          was_cancelled_flag [OF Some]
        unfolding q' by (simp add: qcalms_def queue_ok_def)
    qed
  next
    case 3
    then show ?thesis using "2.prems" by (auto intro: qcalms_refl simp: queue_ok_def)
  qed
next
  case (4 n now c cs q)
  show ?case
  proof (cases "get (q_store q) c")
    case None
    then show ?thesis using "4.IH"(1) "4.prems" by simp
  next
    case (Some t)
    then obtain r1 q1 where q1: "cancel_from n now c t q = Some (r1, q1)"
      and l: "cancel_list n now cs q1 = Some q'"
      using "4.prems"(2) by (auto split: option.splits)
    have "qcalms q q1" using "4.IH"(2) [OF Some "4.prems"(1) Some q1] .
    then show ?thesis
      using "4.IH"(3) [OF Some q1 refl _ l] qcalms_ok "4.prems"(1) qcalms_trans by blast
  qed
qed (auto intro: qcalms_refl simp: queue_ok_def)


subsection \<open>Cancellation returns\<close>

text \<open>
  An anchor is a row the table holds as running and this process does not run. Each level of the
  cascade closes one, and nothing a cancel does makes a new one, so one unit of fuel more than there
  are anchors is enough.
\<close>

definition anchor :: "queue \<Rightarrow> task \<Rightarrow> bool" where
  "anchor q t \<longleftrightarrow> status t = Running \<and> task_id t \<notin> set (map fst (running q))"

definition anchors :: "queue \<Rightarrow> nat" where
  "anchors q = length (filter (anchor q) (rows (q_store q)))"

lemma anchors_mono:
  assumes "qcalms q q'"
  shows "anchors q' \<le> anchors q"
proof -
  have fl: "map fst (running q') = map fst (running q)" using assms by (simp add: qcalms_def)
  have keep: "anchor q t" if "settles t u" "anchor q' u" for t u
    using that unfolding settles_def anchor_def fl by auto
  have "list_all2 settles xs ys \<Longrightarrow> length (filter (anchor q') ys) \<le> length (filter (anchor q) xs)" for xs ys
    by (induction rule: list_all2_induct) (auto dest: keep)
  then show ?thesis using assms by (simp add: anchors_def qcalms_def calms_def)
qed

lemma filter_update_less:
  assumes "t \<in> set ts" and "P t" and "A t" and "\<And>u. P u \<Longrightarrow> \<not> A (f u)"
  shows "length (filter A (sql_update P f ts)) < length (filter A ts)"
proof -
  have le: "length (filter A (sql_update P f us)) \<le> length (filter A us)" for us
    using assms(4) by (induction us) auto
  show ?thesis using assms
  proof (induction ts)
    case (Cons u ts)
    then show ?case using le [of ts] by (cases "t = u") (auto simp: less_Suc_eq_le)
  qed simp
qed

lemma anchors_close:
  assumes "get (q_store q) i = Some t" and "status t = Running" and "map_of (running q) i = None"
  shows "anchors (q\<lparr>q_store := finish i Cancelled None p info now (q_store q)\<rparr>) < anchors q"
proof -
  have t: "t \<in> set (rows (q_store q))" "task_id t = i" using get_in_rows [OF assms(1)] by auto
  have a: "anchor (q\<lparr>q_store := st\<rparr>) = anchor q" for st by (simp add: anchor_def fun_eq_iff)
  have "anchor q t" using t assms by (simp add: anchor_def map_of_eq_None_iff)
  then show ?thesis
    unfolding anchors_def a using t
    by (simp add: finish_def)
      (rule filter_update_less [of t], auto simp: anchor_def finish_row_def)
qed

lemma cancel_enough:
  "queue_ok q \<Longrightarrow> get (q_store q) i = Some snap \<Longrightarrow> anchors q < n \<Longrightarrow>
     cancel_from n now i snap q \<noteq> None"
  "queue_ok q \<Longrightarrow> anchors q < n \<Longrightarrow> cancel_list n now cs q \<noteq> None"
proof (induction n now i snap q and n now cs q rule: cancel_from_cancel_list.induct)
  case (2 n now i snap q)
  show ?case
  proof (cases "status snap = Running \<and> map_of (running q) i = None")
    case True
    let ?q1 = "q\<lparr>q_store := finish i Cancelled None (- 1) None now (q_store q)\<rparr>"
    have q1: "qcalms q ?q1"
      using "2.prems" True by (auto intro!: qcalms_store calms_close_anchor wf_finish simp: queue_ok_def)
    note ok1 = qcalms_ok [OF q1 "2.prems"(1)]
    have less: "anchors ?q1 < n" using anchors_close [OF "2.prems"(2), of "- 1" None now] True "2.prems"(3) by simp
    obtain q2 where l2: "cancel_list n now (map task_id (children i Pending (q_store ?q1))) ?q1 = Some q2"
      using "2.IH"(2) [OF _ _ _ refl ok1 less] True by auto
    have c2: "qcalms ?q1 q2" using cancel_calms(2) [OF ok1 l2] .
    have "cancel_list n now (map task_id (children i Running (q_store q2))) q2 \<noteq> None"
      using "2.IH"(3) [OF _ _ _ refl l2 qcalms_ok [OF c2 ok1]] anchors_mono [OF c2] less True by simp
    then show ?thesis using True l2 by (auto simp: Let_def)
  next
    case False
    then show ?thesis
      using "2.prems" cancel_pending_done [OF "2.prems"(2), of now]
      by (auto simp: Let_def split: prod.splits option.splits)
  qed
next
  case (4 n now c cs q)
  show ?case
  proof (cases "get (q_store q) c")
    case None
    then show ?thesis using "4.IH"(1) "4.prems" by simp
  next
    case (Some t)
    then obtain r q1 where q1: "cancel_from n now c t q = Some (r, q1)"
      using "4.IH"(2) [OF Some "4.prems"(1) Some "4.prems"(2)] by auto
    have "qcalms q q1" using cancel_calms(1) [OF "4.prems"(1) Some q1] .
    then have "cancel_list n now cs q1 \<noteq> None"
      using "4.IH"(3) [OF Some q1 refl] qcalms_ok "4.prems" anchors_mono by fastforce
    then show ?thesis using Some q1 by simp
  qed
qed simp_all

subsection \<open>What the cascade leaves\<close>

text \<open>
  A task a cancel has handled is no longer pending, and where it still runs its executor has been
  told to stop.
\<close>

definition handled :: "queue \<Rightarrow> string \<Rightarrow> bool" where
  "handled q c \<longleftrightarrow> (\<forall>u\<in>set (rows (q_store q)). task_id u = c \<longrightarrow>
     status u \<noteq> Pending \<and> (status u = Running \<longrightarrow> was_cancelled q c))"

lemma handled_qcalms:
  assumes "handled q c" and "qcalms q q'"
  shows "handled q' c"
proof -
  have "calms (q_store q) (q_store q')" and "\<And>j. was_cancelled q j \<Longrightarrow> was_cancelled q' j"
    using assms(2) by (simp_all add: qcalms_def)
  then show ?thesis using assms(1) calms_row
    unfolding handled_def settles_def by (metis finished_simps(1,3))
qed

lemma handled_by_row:
  assumes "wf_store (q_store q)" and "get (q_store q) c = Some t"
    and "status t \<noteq> Pending \<and> (status t = Running \<longrightarrow> was_cancelled q c)"
  shows "handled q c"
  using assms get_row [OF assms(1)] by (auto simp: handled_def)

lemma handled_cancel_from:
  assumes ok: "queue_ok q" and snap: "get (q_store q) i = Some snap"
    and run: "cancel_from n now i snap q = Some (r, q')"
  shows "handled q' i"
proof -
  have wf: "wf_store (q_store q)" using ok by (simp add: queue_ok_def)
  obtain m where n: "n = Suc m" using run by (cases n) auto
  consider (pend) "status snap = Pending"
    | (anchor) "status snap = Running" "map_of (running q) i = None"
    | (flight) e where "status snap = Running" "map_of (running q) i = Some e"
    | (other) "status snap \<noteq> Pending" "status snap \<noteq> Running"
    by fastforce
  then show ?thesis
  proof cases
    case pend
    let ?q1 = "q\<lparr>q_store := snd (cancel_pending i now (q_store q))\<rparr>"
    have wf1: "wf_store (q_store ?q1)" using wf by (simp add: wf_cancel_pending)
    have "get (q_store ?q1) i = Some (cancel_row None now snap)"
      using snap pend get_in_rows [OF snap]
      by (simp add: cancel_pending_def Let_def cancelled.get_update)
    then have "handled ?q1 i" by (rule handled_by_row [OF wf1]) (simp add: cancel_row_def)
    moreover have "q' = report_parent now snap ?q1"
      using run n pend cancel_pending_done [OF snap pend, of now] by (auto simp: Let_def split: prod.splits)
    ultimately show ?thesis
      using handled_qcalms qcalms_report_parent qcalms_refl wf1 by blast
  next
    case anchor
    let ?q1 = "q\<lparr>q_store := finish i Cancelled None (- 1) None now (q_store q)\<rparr>"
    have q1: "qcalms q ?q1"
      using wf anchor snap by (auto intro!: qcalms_store calms_close_anchor wf_finish)
    have "get (q_store ?q1) i = Some (finish_row Cancelled None (- 1) None now snap)"
      using snap by (simp add: get_finish)
    then have h1: "handled ?q1 i"
      by (rule handled_by_row [rotated]) (use q1 in \<open>simp_all add: finish_row_def qcalms_def\<close>)
    obtain q2 q3 where
      l2: "cancel_list m now (map task_id (children i Pending (q_store ?q1))) ?q1 = Some q2"
      and l3: "cancel_list m now (map task_id (children i Running (q_store q2))) q2 = Some q3"
      and r: "q' = report_parent now snap q3"
      using run n anchor by (auto simp: Let_def split: option.splits)
    have c2: "qcalms ?q1 q2" using cancel_calms(2) [OF qcalms_ok [OF q1 ok] l2] .
    then have "qcalms q2 q3" using cancel_calms(2) [OF qcalms_ok [OF c2 qcalms_ok [OF q1 ok]] l3] by simp
    then show ?thesis using h1 c2 r handled_qcalms qcalms_report_parent by blast
  next
    case (flight e)
    then have "q' = q\<lparr>running := AList.update i (e\<lparr>re_cancelled := True\<rparr>) (running q)\<rparr>"
      using run n by simp
    then show ?thesis
      using handled_by_row [of q' i snap] wf snap flight by (simp add: was_cancelled_def update_conv')
  next
    case other
    then show ?thesis using run n handled_by_row [OF wf snap] by simp
  qed
qed

lemma handled_cancel_list:
  "queue_ok q \<Longrightarrow> cancel_list n now cs q = Some q' \<Longrightarrow> c \<in> set cs \<Longrightarrow> handled q' c"
proof (induction cs arbitrary: q)
  case (Cons d cs)
  show ?case
  proof (cases "get (q_store q) d")
    case None
    then have "handled q d" by (auto simp: handled_def get_None_iff)
    then show ?thesis
      using Cons None cancel_calms(2) [OF Cons.prems(1)] handled_qcalms by fastforce
  next
    case (Some t)
    then obtain r q1 where q1: "cancel_from n now d t q = Some (r, q1)"
      and l: "cancel_list n now cs q1 = Some q'" using Cons.prems(2) by (auto split: option.splits)
    have "qcalms q q1" using cancel_calms(1) [OF Cons.prems(1) Some q1] .
    then have ok1: "queue_ok q1" using qcalms_ok Cons.prems(1) by blast
    have "handled q1 d" using handled_cancel_from [OF Cons.prems(1) Some q1] .
    then have "handled q' d" using cancel_calms(2) [OF ok1 l] handled_qcalms by blast
    then show ?thesis using Cons.IH [OF ok1 l] Cons.prems(3) by auto
  qed
qed simp

lemma status_text_nonempty: "status_text s \<noteq> []"
  by (cases s) simp_all

lemma set_children:
  assumes "p \<noteq> ''''" and "length (filter (\<lambda>t. parent_task_id t = Some p) (rows st)) \<le> 1000"
  shows "set (children p s st) = {t \<in> set (rows st). parent_task_id t = Some p \<and> status t = s}"
proof -
  let ?f = "no_filter\<lparr>f_parent_task_id := p, f_status := status_text s, f_limit := 1000\<rparr>"
  have m: "matches ?f t \<longleftrightarrow> parent_task_id t = Some p \<and> status t = s" for t
    using assms(1) status_text_nonempty [of s] by (auto simp: matches_def no_filter_def)
  have "length (filter (matches ?f) ts) \<le> length (filter (\<lambda>t. parent_task_id t = Some p) ts)" for ts
    unfolding m by (induction ts) auto
  then have "length (filter (matches ?f) (rows st)) \<le> 1000" using assms(2) le_trans by blast
  moreover have "length (order_rows a k ts) = length ts" "set (order_rows a k ts) = set ts" for a k ts
    by (simp_all add: order_rows_def)
  ultimately have "children p s st =
      order_rows (equal_fold_asc (f_order ?f)) (sort_column (f_sort ?f)) (filter (matches ?f) (rows st))"
    by (simp add: children_def list_tasks_def effective_limit_def)
  then show ?thesis using m by (auto simp: order_rows_def)
qed

lemma calms_children:
  assumes "calms st st'"
  shows "length (filter (\<lambda>u. parent_task_id u = Some i) (rows st'))
    = length (filter (\<lambda>u. parent_task_id u = Some i) (rows st))"
proof -
  have "list_all2 settles xs ys \<Longrightarrow> length (filter (\<lambda>u. parent_task_id u = Some i) ys)
      = length (filter (\<lambda>u. parent_task_id u = Some i) xs)" for xs ys
    by (induction rule: list_all2_induct) (auto simp: settles_def)
  from this [OF assms [unfolded calms_def]] show ?thesis .
qed

text \<open>The two cascade loops, pending children first: no child of the anchor is left unhandled.\<close>

lemma cascade_handles:
  assumes ok: "queue_ok q" and i: "i \<noteq> ''''"
    and few: "length (filter (\<lambda>u. parent_task_id u = Some i) (rows (q_store q))) \<le> 1000"
    and l2: "cancel_list m now (map task_id (children i Pending (q_store q))) q = Some q2"
    and l3: "cancel_list m now (map task_id (children i Running (q_store q2))) q2 = Some q3"
    and u: "u \<in> set (rows (q_store q3))" "parent_task_id u = Some i"
  shows "status u \<noteq> Pending \<and> (status u = Running \<longrightarrow> was_cancelled q3 (task_id u))"
proof -
  have c2: "qcalms q q2" using cancel_calms(2) [OF ok l2] .
  note ok2 = qcalms_ok [OF c2 ok]
  have c3: "qcalms q2 q3" using cancel_calms(2) [OF ok2 l3] .
  have few2: "length (filter (\<lambda>u. parent_task_id u = Some i) (rows (q_store q2))) \<le> 1000"
    using few calms_children [of "q_store q" "q_store q2" i] c2 by (simp add: qcalms_def)
  obtain u2 where u2: "u2 \<in> set (rows (q_store q2))" "settles u2 u"
    using calms_row u(1) c3 by (metis qcalms_def)
  obtain u1 where u1: "u1 \<in> set (rows (q_store q))" "settles u1 u2"
    using calms_row u2(1) c2 by (metis qcalms_def)
  have par: "parent_task_id u1 = Some i" "parent_task_id u2 = Some i" "task_id u1 = task_id u" "task_id u2 = task_id u"
    using u(2) u1(2) u2(2) by (simp_all add: settles_def)
  have "handled q3 (task_id u)" if "status u1 = Pending"
    using handled_cancel_list [OF ok l2] set_children [OF i few] u1 par that handled_qcalms [OF _ c3] by force
  moreover have "handled q3 (task_id u)" if "status u2 = Running"
    using handled_cancel_list [OF ok2 l3] set_children [OF i few2] u2 par that by force
  ultimately show ?thesis
    using u(1) u1(2) u2(2) by (cases "status u1 = Pending \<or> status u2 = Running") (auto simp: handled_def settles_def)
qed

text \<open>Cancelling an anchor: its row, its children, and what happens to every row.\<close>

lemma cancel_anchor:
  assumes wf: "wf_store (q_store q)" and d: "distinct (map fst (running q))"
    and row: "get (q_store q) i = Some t" "status t = Running" "map_of (running q) i = None" "i \<noteq> ''''"
    and few: "length (filter (\<lambda>u. parent_task_id u = Some i) (rows (q_store q))) \<le> 1000"
    and c: "cancel n now i q = Some (r, q')"
  shows "r = Inr False \<and> (\<exists>u. get (q_store q') i = Some u \<and> status u = Cancelled)
    \<and> (\<forall>u\<in>set (rows (q_store q')). parent_task_id u = Some i \<longrightarrow>
         status u \<noteq> Pending \<and> (status u = Running \<longrightarrow> was_cancelled q' (task_id u)))
    \<and> qcalms q q'"
proof -
  have ok: "queue_ok q" using wf d by (simp add: queue_ok_def)
  obtain m where n: "n = Suc m" using c row by (cases n) (auto simp: cancel_def)
  let ?q1 = "q\<lparr>q_store := finish i Cancelled None (- 1) None now (q_store q)\<rparr>"
  obtain q2 q3 where l2: "cancel_list m now (map task_id (children i Pending (q_store ?q1))) ?q1 = Some q2"
    and l3: "cancel_list m now (map task_id (children i Running (q_store q2))) q2 = Some q3"
    and r: "r = Inr False" "q' = report_parent now t q3"
    using c row n by (auto simp: cancel_def Let_def split: option.splits)
  have q1: "qcalms q ?q1" using wf row by (auto intro!: qcalms_store calms_close_anchor wf_finish)
  note ok1 = qcalms_ok [OF q1 ok]
  have c2: "qcalms ?q1 q2" using cancel_calms(2) [OF ok1 l2] .
  have c3: "qcalms q2 q3" using cancel_calms(2) [OF qcalms_ok [OF c2 ok1] l3] .
  have c4: "qcalms q3 q'"
    using qcalms_ok [OF c3 qcalms_ok [OF c2 ok1]] by (simp add: r qcalms_report_parent qcalms_refl queue_ok_def)
  have few1: "length (filter (\<lambda>u. parent_task_id u = Some i) (rows (q_store ?q1))) \<le> 1000"
    using few calms_children [of "q_store q" "q_store ?q1" i] q1 by (simp add: qcalms_def)
  have "get (q_store ?q1) i = Some (finish_row Cancelled None (- 1) None now t)"
    using row by (simp add: get_finish)
  moreover have "calms (q_store ?q1) (q_store q')" using c2 c3 c4 qcalms_trans by (meson qcalms_def)
  ultimately have final: "\<exists>u. get (q_store q') i = Some u \<and> status u = Cancelled"
    using calms_get [of "q_store ?q1" "q_store q'" i] by (auto simp: settles_def finish_row_def)
  have "status u \<noteq> Pending \<and> (status u = Running \<longrightarrow> was_cancelled q' (task_id u))"
    if u: "u \<in> set (rows (q_store q'))" "parent_task_id u = Some i" for u
  proof -
    obtain v where v: "v \<in> set (rows (q_store q3))" "settles v u"
      using calms_row u(1) c4 by (metis qcalms_def)
    have "status v \<noteq> Pending \<and> (status v = Running \<longrightarrow> was_cancelled q3 (task_id v))"
      by (rule cascade_handles [OF ok1 row(4) few1 l2 l3 v(1)]) (use v(2) u(2) in \<open>simp add: settles_def\<close>)
    then show ?thesis using v(2) c4 by (auto simp: settles_def qcalms_def)
  qed
  moreover have "qcalms q q'" using q1 c2 c3 c4 qcalms_trans by meson
  ultimately show ?thesis using r(1) final by blast
qed

end
