(* ===== verification/TaskMachine.thy ===== *)
theory TaskMachine
  imports TaskCancelLaws
begin

text \<open>
  The task processor as a state machine. The poll loop alternates between choosing a task and
  starting it; in between, and between the start and the end of an executor, other goroutines create,
  cancel, requeue and delete tasks. A state holds the queue, the task the loop has chosen and not yet
  started, and the tasks whose executor goroutine has not done its bookkeeping. The invariant gives
  the three guarantees of the queue in every interleaving: the concurrency cap, one running task per
  machine, and one running task per operation category.
\<close>

subsection \<open>The store calls of other goroutines\<close>

datatype store_call =
    CreateCall string new_task
  | ProgressCall string float64 "progress_doc option"
  | MetadataCall string string
  | DependsCall string string
  | RequeueCall string
  | OutputCall string "output_entry list"
  | DeleteFinishedCall
  | DeleteBeforeCall time

fun apply_call :: "time \<Rightarrow> store_call \<Rightarrow> store \<Rightarrow> store" where
  "apply_call now (CreateCall i nt) st = snd (create i now nt st)"
| "apply_call now (ProgressCall i p info) st = update_progress i p info now st"
| "apply_call now (MetadataCall i m) st = snd (update_metadata i m now st)"
| "apply_call now (DependsCall i d) st = set_depends_on i d now st"
| "apply_call now (RequeueCall i) st = snd (requeue i now st)"
| "apply_call now (OutputCall i out) st = set_output i out now st"
| "apply_call now DeleteFinishedCall st = snd (delete_finished st)"
| "apply_call now (DeleteBeforeCall cutoff) st = snd (delete_finished_before cutoff st)"

subsection \<open>States and steps\<close>

record sys =
  sq :: queue
  picked :: "task option"
  inflight :: "task list"

text \<open>
  A created task's identifier is drawn from 122 random bits: it is assumed not to be the one of a
  task that has been chosen or runs.
\<close>

definition fresh_call :: "sys \<Rightarrow> store_call \<Rightarrow> bool" where
  "fresh_call s c \<longleftrightarrow> (case c of CreateCall i _ \<Rightarrow> i \<notin> task_id ` set (inflight s) | _ \<Rightarrow> True)"

inductive sys_step :: "sys \<Rightarrow> sys \<Rightarrow> bool" where
  step_pick: "picked s = None \<Longrightarrow> processing (sq s) \<Longrightarrow> tick_pick now (sq s) = (t, q') \<Longrightarrow>
    sys_step s (s\<lparr>sq := q', picked := t\<rparr>)"
| step_start: "picked s = Some t \<Longrightarrow>
    sys_step s (s\<lparr>sq := tick_start now t (sq s), picked := None, inflight := t # inflight s\<rparr>)"
| step_finish: "t \<in> set (inflight s) \<Longrightarrow>
    sys_step s (s\<lparr>sq := execute_and_handle now t err (sq s), inflight := remove1 t (inflight s)\<rparr>)"
| step_cancel: "cancel n now i (sq s) = Some (r, q') \<Longrightarrow> sys_step s (s\<lparr>sq := q'\<rparr>)"
| step_call: "fresh_call s c \<Longrightarrow>
    sys_step s (s\<lparr>sq := (sq s)\<lparr>q_store := apply_call now c (q_store (sq s))\<rparr>\<rparr>)"
| step_cleanup: "sys_step s (s\<lparr>sq := snd (cleanup_now now (sq s))\<rparr>)"
| step_queue_start: "sys_step s (s\<lparr>sq := queue_start now (sq s)\<rparr>)"
| step_queue_stop: "sys_step s (s\<lparr>sq := queue_stop (sq s)\<rparr>)"

definition sys_init :: "sys \<Rightarrow> bool" where
  "sys_init s \<longleftrightarrow> wf_store (q_store (sq s)) \<and> running (sq s) = [] \<and> categories (sq s) = (\<lambda>_. None)
     \<and> picked s = None \<and> inflight s = []"

inductive_cases sys_stepE: "sys_step s t"

subsection \<open>Rows that have been launched\<close>

definition launched :: "store \<Rightarrow> string \<Rightarrow> bool" where
  "launched st i \<longleftrightarrow>
     (\<forall>u\<in>set (rows st). task_id u = i \<longrightarrow> status u \<noteq> Pending \<and> status u \<noteq> Prepared)"

lemma launched_changed [simp]: "launched (changed j st) i = launched st i"
  by (simp add: launched_def)

lemma launched_update:
  assumes "launched st i"
    and "\<And>u. u \<in> set (rows st) \<Longrightarrow> P u \<Longrightarrow> task_id (f u) = task_id u \<and>
      (status (f u) = Pending \<longrightarrow> status u \<in> {Pending, Prepared}) \<and>
      (status (f u) = Prepared \<longrightarrow> status u = Prepared)"
  shows "launched (update_rows P f st) i"
  using assms by (fastforce simp: launched_def set_sql_update)

lemma launched_delete: "launched st i \<Longrightarrow> launched (st\<lparr>rows := sql_delete P (rows st)\<rparr>) i"
  by (simp add: launched_def)

lemma launched_calms: "calms st st' \<Longrightarrow> launched st i \<Longrightarrow> launched st' i"
  unfolding launched_def
proof (intro ballI impI)
  fix u assume c: "calms st st'" and l: "\<forall>u\<in>set (rows st). task_id u = i \<longrightarrow> status u \<noteq> Pending \<and> status u \<noteq> Prepared"
    and u: "u \<in> set (rows st')" "task_id u = i"
  obtain t where t: "t \<in> set (rows st)" "settles t u" using calms_row [OF c u(1)] by blast
  then have "status t \<noteq> Pending" "status t \<noteq> Prepared" using l u(2) by (auto simp: settles_def)
  then show "status u \<noteq> Pending \<and> status u \<noteq> Prepared" using t(2) by (auto simp: settles_def)
qed

lemma launched_finish:
  "launched st i \<Longrightarrow> s \<noteq> Pending \<Longrightarrow> s \<noteq> Prepared \<Longrightarrow> launched (finish j s err p info now st) i"
  by (auto simp: finish_def finish_row_def intro!: launched_update)

lemma launched_mark_running: "launched st i \<Longrightarrow> launched (mark_running j now st) i"
  by (auto simp: mark_running_def running_row_def intro!: launched_update)

lemma launched_marked: "launched (mark_running i now st) i"
  unfolding mark_running_def launched_changed
proof (unfold launched_def rows_update_rows set_sql_update, intro ballI impI)
  fix u assume "u \<in> (\<lambda>r. if task_id r = i then running_row now r else r) ` set (rows st)"
    and i: "task_id u = i"
  then obtain t where "u = (if task_id t = i then running_row now t else t)" by blast
  then have "status u = Running" using i by (cases "task_id t = i") (simp_all add: running_row_def)
  then show "status u \<noteq> Pending \<and> status u \<noteq> Prepared" by simp
qed

lemma launched_update_parent: "launched st i \<Longrightarrow> launched (update_parent_progress now p st) i"
  using parent_status_not_pending
  by (auto simp: update_parent_progress_def update_progress_def progress_row_def Let_def
      split: option.splits intro!: launched_finish launched_update)

lemma launched_fold_parents: "launched st i \<Longrightarrow> launched (fold (update_parent_progress now) ps st) i"
  by (induction ps arbitrary: st) (auto intro: launched_update_parent)

lemma wf_fold_parents: "wf_store st \<Longrightarrow> wf_store (fold (update_parent_progress now) ps st)"
  by (induction ps arbitrary: st) (auto intro: wf_update_parent)

lemma launched_fold_changed [simp]: "launched (fold changed is st) i = launched st i"
  by (simp add: launched_def)

lemma launched_cancel_dependents:
  "launched st i \<Longrightarrow> launched (snd (cancel_dependents now st)) i"
  by (auto simp: cancel_dependents_def Let_def cancel_row_def intro!: launched_update)

lemma launched_call:
  assumes "launched st i" and "\<And>j nt. c = CreateCall j nt \<Longrightarrow> j \<noteq> i"
  shows "launched (apply_call now c st) i"
proof (cases c)
  case (CreateCall j nt)
  then show ?thesis using assms
    by (auto simp: create_def launched_def new_row_def Let_def split: option.splits)
qed (use assms(1) in \<open>auto simp: update_progress_def update_metadata_def set_depends_on_def requeue_def
      set_output_def delete_finished_def delete_finished_before_def Let_def row_defs
      intro!: launched_update launched_delete\<close>)

lemma wf_call: "wf_store st \<Longrightarrow> wf_store (apply_call now c st)"
  by (cases c) (auto simp: update_metadata_def set_output_def delete_finished_def
      delete_finished_before_def Let_def intro: wf_create wf_update_progress annotated.wf_update
      wf_set_depends_on wf_requeue flushed.wf_update wf_delete)


subsection \<open>The in-flight list\<close>

lemma alist_update_absent: "i \<notin> fst ` set r \<Longrightarrow> AList.update i e r = r @ [(i, e)]"
  by (induction r) auto

lemma alist_delete_filter: "AList.delete i r = filter (\<lambda>p. fst p \<noteq> i) r"
  by (induction r) auto

definition busy_of :: "(string \<times> running_entry) list \<Rightarrow> string list" where
  "busy_of r = filter exclusive_machine (map (re_machine \<circ> snd) r)"

lemma busy_machines_of: "busy_machines q = busy_of (running q)"
  by (simp add: busy_machines_def busy_of_def)

lemma busy_of_append [simp]: "busy_of (r @ r') = busy_of r @ busy_of r'"
  by (simp add: busy_of_def)

lemma busy_of_single [simp]:
  "busy_of [(i, e)] = (if exclusive_machine (re_machine e) then [re_machine e] else [])"
  by (simp add: busy_of_def)

lemma distinct_busy_filter: "distinct (busy_of r) \<Longrightarrow> distinct (busy_of (filter P r))"
proof -
  let ?E = "\<lambda>p. exclusive_machine (re_machine (snd p))"
  have "busy_of r' = map (re_machine \<circ> snd) (filter ?E r')" for r' :: "(string \<times> running_entry) list"
    by (simp add: busy_of_def filter_map comp_def)
  moreover have "filter ?E (filter P r) = filter P (filter ?E r)" by (simp add: conj_commute)
  ultimately show "distinct (busy_of r) \<Longrightarrow> distinct (busy_of (filter P r))"
    using distinct_map_filter by metis
qed

lemma busy_of_machines:
  "map (re_machine \<circ> snd) r' = map (re_machine \<circ> snd) r \<Longrightarrow> busy_of r' = busy_of r"
  by (simp add: busy_of_def)

lemma distinct_busy_unique:
  "distinct (busy_of r) \<Longrightarrow> (i, e) \<in> set r \<Longrightarrow> (j, f) \<in> set r \<Longrightarrow>
     re_machine e = re_machine f \<Longrightarrow> exclusive_machine (re_machine e) \<Longrightarrow> (i, e) = (j, f)"
proof (induction r)
  case (Cons p r)
  have "re_machine e \<in> set (busy_of r)" if "(i, e) \<in> set r \<or> (j, f) \<in> set r"
    using that Cons.prems(4,5) by (force simp: busy_of_def)
  then show ?case using Cons by (auto simp: busy_of_def split: if_splits)
qed simp

subsection \<open>The invariant\<close>

definition category_of :: "task \<Rightarrow> string" where
  "category_of t = operation_category (operation t)"

definition flight_ok :: "queue \<Rightarrow> task list \<Rightarrow> bool" where
  "flight_ok q fl \<longleftrightarrow>
     distinct (map fst (running q)) \<and> distinct (map task_id fl)
     \<and> set (map fst (running q)) = set (map task_id fl)
     \<and> (\<forall>g\<in>set fl. \<exists>e. (task_id g, e) \<in> set (running q) \<and> re_machine e = machine_name g)
     \<and> int (length (running q)) \<le> max 0 (max_concurrent q)
     \<and> distinct (busy_of (running q))"

definition locks_ok :: "queue \<Rightarrow> task list \<Rightarrow> bool" where
  "locks_ok q fl \<longleftrightarrow>
     (\<forall>c i. categories q c = Some i \<longrightarrow>
        c \<noteq> '''' \<and> (\<exists>g\<in>set fl. task_id g = i \<and> category_of g = c))
     \<and> (\<forall>g\<in>set fl. category_of g \<noteq> '''' \<longrightarrow> categories q (category_of g) = Some (task_id g))"

definition picked_ok :: "queue \<Rightarrow> task \<Rightarrow> bool" where
  "picked_ok q t \<longleftrightarrow> int (length (running q)) < max_concurrent q
     \<and> machine_name t \<notin> set (busy_of (running q)) \<and> category_free q t
     \<and> task_id t \<notin> set (map fst (running q))"

definition sys_inv :: "sys \<Rightarrow> bool" where
  "sys_inv s \<longleftrightarrow> wf_store (q_store (sq s)) \<and> flight_ok (sq s) (inflight s) \<and> locks_ok (sq s) (inflight s)
     \<and> (\<forall>g\<in>set (inflight s). launched (q_store (sq s)) (task_id g))
     \<and> (case picked s of None \<Rightarrow> True | Some t \<Rightarrow> picked_ok (sq s) t)"

lemma sys_inv_init: "sys_init s \<Longrightarrow> sys_inv s"
  by (simp add: sys_init_def sys_inv_def flight_ok_def locks_ok_def busy_of_def)

text \<open>
  A step that leaves the in-flight map's keys, machines, the locks and the cap alone, and keeps the
  table well formed and the launched rows launched, keeps the invariant.
\<close>

lemma flight_ok_cong:
  assumes "flight_ok q fl" and "map fst (running q') = map fst (running q)"
    and "map (re_machine \<circ> snd) (running q') = map (re_machine \<circ> snd) (running q)"
    and "max_concurrent q' = max_concurrent q"
  shows "flight_ok q' fl"
proof -
  have len: "length (running q') = length (running q)" using assms(2) map_eq_imp_length_eq by blast
  have "\<exists>e. (i, e) \<in> set (running q') \<and> re_machine e = m"
    if mem: "(i, e) \<in> set (running q)" and re: "re_machine e = m" for i e m
  proof -
    obtain k where k: "k < length (running q)" "running q ! k = (i, e)" using mem unfolding in_set_conv_nth by blast
    have "fst (running q' ! k) = i" "re_machine (snd (running q' ! k)) = m"
      using k len re arg_cong [OF assms(2), of "\<lambda>l. l ! k"] arg_cong [OF assms(3), of "\<lambda>l. l ! k"]
      by simp_all
    then show ?thesis using k(1) len by (metis nth_mem prod.collapse)
  qed
  then show ?thesis
    using assms(1) busy_of_machines [OF assms(3)] len
    unfolding flight_ok_def assms(2) assms(4) by metis
qed

lemma sys_inv_quiet:
  assumes "sys_inv s" and "map fst (running q') = map fst (running (sq s))"
    and "map (re_machine \<circ> snd) (running q') = map (re_machine \<circ> snd) (running (sq s))"
    and "max_concurrent q' = max_concurrent (sq s)" and "categories q' = categories (sq s)"
    and "wf_store (q_store q')"
    and "\<And>g. g \<in> set (inflight s) \<Longrightarrow> launched (q_store (sq s)) (task_id g) \<Longrightarrow> launched (q_store q') (task_id g)"
  shows "sys_inv (s\<lparr>sq := q'\<rparr>)"
proof -
  have len: "length (running q') = length (running (sq s))" using assms(2) map_eq_imp_length_eq by blast
  have "picked_ok q' t" if "picked_ok (sq s) t" for t
    using that busy_of_machines [OF assms(3)] len
    unfolding picked_ok_def category_free_def assms(2,4,5) by simp
  then show ?thesis
    using assms flight_ok_cong [OF _ assms(2-4)]
    by (auto simp: sys_inv_def locks_ok_def split: option.splits)
qed


subsection \<open>Every step keeps the invariant\<close>

lemma sys_inv_parts:
  assumes "sys_inv s"
  shows "wf_store (q_store (sq s))" "flight_ok (sq s) (inflight s)" "locks_ok (sq s) (inflight s)"
    "g \<in> set (inflight s) \<Longrightarrow> launched (q_store (sq s)) (task_id g)"
    "picked s = Some t \<Longrightarrow> picked_ok (sq s) t"
  using assms by (simp_all add: sys_inv_def)

lemma tick_pick_frame:
  assumes "tick_pick now q = (r, q')"
  shows "running q' = running q" "categories q' = categories q" "max_concurrent q' = max_concurrent q"
    "wf_store (q_store q) \<Longrightarrow> wf_store (q_store q')"
    "launched (q_store q) i \<Longrightarrow> launched (q_store q') i"
proof -
  let ?st = "fold (update_parent_progress now) (fst (cancel_dependents now (q_store q)))
    (snd (cancel_dependents now (q_store q)))"
  have cases: "q' = q \<or> q' = q\<lparr>q_store := ?st\<rparr>"
    using assms by (auto simp: tick_pick_def Let_def split: if_splits option.splits prod.splits)
  then show "running q' = running q" "categories q' = categories q" "max_concurrent q' = max_concurrent q"
    by auto
  show "wf_store (q_store q) \<Longrightarrow> wf_store (q_store q')"
    using cases wf_fold_parents [OF wf_cancel_dependents] by auto
  show "launched (q_store q) i \<Longrightarrow> launched (q_store q') i"
    using cases launched_fold_parents [OF launched_cancel_dependents] by auto
qed

lemma tick_pick_some:
  assumes "tick_pick now q = (Some t, q')"
  shows "\<not> at_capacity q" "t \<in> set (rows (q_store q'))" "eligible (busy_machines q) (q_store q') t"
    "category_free q t"
  using assms next_pending_eligible
  by (fastforce simp: tick_pick_def Let_def split: if_splits option.splits prod.splits)+

lemma inv_pick:
  assumes inv: "sys_inv s" and tick: "tick_pick now (sq s) = (t, q')"
  shows "sys_inv (s\<lparr>sq := q', picked := t\<rparr>)"
proof -
  note frame = tick_pick_frame [OF tick]
  have quiet: "sys_inv (s\<lparr>sq := q'\<rparr>)"
    by (rule sys_inv_quiet [OF inv]) (use frame inv in \<open>simp_all add: sys_inv_def\<close>)
  have "picked_ok q' x" if "t = Some x" for x
  proof -
    note some = tick_pick_some [OF tick [unfolded that]]
    have "task_id x \<notin> set (map fst (running (sq s)))"
    proof
      assume "task_id x \<in> set (map fst (running (sq s)))"
      then have "task_id x \<in> set (map task_id (inflight s))"
        using sys_inv_parts(2) [OF inv] by (simp only: flight_ok_def)
      then obtain g where g: "g \<in> set (inflight s)" "task_id g = task_id x" by auto
      have "launched (q_store q') (task_id g)" using frame(5) sys_inv_parts(4) [OF inv g(1)] .
      then show False using some(2,3) g(2) by (auto simp: launched_def eligible_def)
    qed
    then show ?thesis
      using some frame
      by (simp add: picked_ok_def at_capacity_def eligible_def busy_machines_of category_free_def)
  qed
  then show ?thesis using quiet by (auto simp: sys_inv_def split: option.splits)
qed

lemma inv_start:
  assumes inv: "sys_inv s" and p: "picked s = Some t"
  shows "sys_inv (s\<lparr>sq := tick_start now t (sq s), picked := None, inflight := t # inflight s\<rparr>)"
proof -
  let ?q = "sq s" and ?q' = "tick_start now t (sq s)"
  note parts = sys_inv_parts [OF inv]
  have ok: "picked_ok ?q t" using parts(5) p by blast
  have absent: "task_id t \<notin> fst ` set (running ?q)" using ok by (simp add: picked_ok_def)
  have run: "running ?q' = running ?q @ [(task_id t, \<lparr>re_cancelled = False, re_machine = machine_name t\<rparr>)]"
    using alist_update_absent [OF absent] by (simp add: tick_start_def Let_def)
  have mx: "max_concurrent ?q' = max_concurrent ?q" by (simp add: tick_start_def Let_def)
  have keys: "set (map fst (running ?q)) = set (map task_id (inflight s))"
    using parts(2) by (simp only: flight_ok_def)
  have "flight_ok ?q' (t # inflight s)"
    using parts(2) ok absent keys unfolding flight_ok_def picked_ok_def run mx by auto
  moreover have "locks_ok ?q' (t # inflight s)"
    using parts(3) ok
    by (auto simp: locks_ok_def picked_ok_def category_free_def tick_start_def category_of_def Let_def)
  moreover have "wf_store (q_store ?q')" using parts(1) by (simp add: tick_start_def Let_def wf_mark_running)
  moreover have "launched (q_store ?q') (task_id g)" if "g \<in> set (t # inflight s)" for g
    using that parts(4) by (auto simp: tick_start_def Let_def launched_marked launched_mark_running)
  ultimately show ?thesis by (simp add: sys_inv_def)
qed

lemma report_parent_frame [simp]:
  "running (report_parent now t q) = running q" "categories (report_parent now t q) = categories q"
  "max_concurrent (report_parent now t q) = max_concurrent q"
  by (simp_all add: report_parent_def split: option.splits)

lemma execute_and_handle_frame:
  shows "running (execute_and_handle now t err q) = AList.delete (task_id t) (running q)"
    "categories (execute_and_handle now t err q) =
      (if category_of t \<noteq> '''' \<and> categories q (category_of t) = Some (task_id t)
       then (categories q)(category_of t := None) else categories q)"
    "max_concurrent (execute_and_handle now t err q) = max_concurrent q"
  by (simp_all add: execute_and_handle_def release_def category_of_def Let_def split: prod.splits)

lemma outcome_terminal: "outcome q t err = (s, m) \<Longrightarrow> s \<in> {Cancelled, Completed, Failed}"
  by (auto simp: outcome_def split: if_splits option.splits)

lemma execute_and_handle_store:
  assumes "wf_store (q_store q)"
  shows "wf_store (q_store (execute_and_handle now t err q))"
    "launched (q_store q) i \<Longrightarrow> launched (q_store (execute_and_handle now t err q)) i"
  using assms outcome_terminal [of q t err]
  by (auto simp: execute_and_handle_def release_def report_parent_def Let_def
      split: prod.splits option.splits
      intro!: wf_update_parent wf_finish launched_update_parent launched_finish)

lemma inv_finish:
  assumes inv: "sys_inv s" and t: "t \<in> set (inflight s)"
  shows "sys_inv (s\<lparr>sq := execute_and_handle now t err (sq s), inflight := remove1 t (inflight s)\<rparr>)"
proof -
  let ?q = "sq s" and ?q' = "execute_and_handle now t err (sq s)" and ?fl = "inflight s"
  note parts = sys_inv_parts [OF inv] and frame = execute_and_handle_frame [of now t err ?q]
  have run: "running ?q' = filter (\<lambda>p. fst p \<noteq> task_id t) (running ?q)"
    by (simp add: frame alist_delete_filter)
  have dfl: "distinct (map task_id ?fl)" using parts(2) by (simp add: flight_ok_def)
  have rem: "set (remove1 t ?fl) = {g \<in> set ?fl. task_id g \<noteq> task_id t}"
    using dfl t by (auto simp: distinct_map set_remove1_eq inj_on_def)
  have keys: "set (map fst (running ?q)) = set (map task_id ?fl)"
    using parts(2) by (simp only: flight_ok_def)
  have fok: "flight_ok ?q' (remove1 t ?fl)"
    unfolding flight_ok_def run frame(3)
  proof (intro conjI)
    show "distinct (map fst (filter (\<lambda>p. fst p \<noteq> task_id t) (running ?q)))"
      using parts(2) by (simp add: flight_ok_def distinct_map_filter)
    show "distinct (map task_id (remove1 t ?fl))"
      using dfl by (auto simp: distinct_map distinct_remove1 dest: inj_on_subset [OF _ set_remove1_subset])
    show "set (map fst (filter (\<lambda>p. fst p \<noteq> task_id t) (running ?q))) = set (map task_id (remove1 t ?fl))"
    proof -
      have "fst ` {p \<in> A. fst p \<noteq> i} = fst ` A - {i}" for A :: "(string \<times> running_entry) set" and i
        by auto
      moreover have "task_id ` {g \<in> A. task_id g \<noteq> i} = task_id ` A - {i}" for A :: "task set" and i
        by auto
      ultimately show ?thesis using keys unfolding set_map set_filter rem by simp
    qed
    show "\<forall>g\<in>set (remove1 t ?fl). \<exists>e. (task_id g, e) \<in> set (filter (\<lambda>p. fst p \<noteq> task_id t) (running ?q))
        \<and> re_machine e = machine_name g"
      using parts(2) unfolding rem by (auto simp: flight_ok_def)
    have "int (length (running ?q)) \<le> max 0 (max_concurrent ?q)" using parts(2) by (simp add: flight_ok_def)
    then show "int (length (filter (\<lambda>p. fst p \<noteq> task_id t) (running ?q))) \<le> max 0 (max_concurrent ?q)"
      using length_filter_le [of "\<lambda>p. fst p \<noteq> task_id t" "running ?q"] by linarith
    show "distinct (busy_of (filter (\<lambda>p. fst p \<noteq> task_id t) (running ?q)))"
      using parts(2) by (simp add: flight_ok_def distinct_busy_filter)
  qed
  have uniq: "g = t" if "g \<in> set ?fl" "task_id g = task_id t" for g
    using dfl t that by (auto simp: distinct_map inj_on_def)
  have lok: "locks_ok ?q' (remove1 t ?fl)"
    unfolding locks_ok_def rem
  proof (intro conjI allI impI ballI)
    fix c i assume new: "categories ?q' c = Some i"
    then have old: "categories ?q c = Some i" by (auto simp: frame(2) split: if_splits)
    then show "c \<noteq> ''''" using parts(3) by (simp add: locks_ok_def)
    obtain g where g: "g \<in> set ?fl" "task_id g = i" "category_of g = c"
      using parts(3) old by (auto simp: locks_ok_def)
    have "task_id g \<noteq> task_id t"
    proof
      assume "task_id g = task_id t"
      then have "g = t" using uniq g(1) by blast
      then show False using new old g \<open>c \<noteq> ''''\<close> by (auto simp: frame(2) split: if_splits)
    qed
    then show "\<exists>g\<in>{g \<in> set ?fl. task_id g \<noteq> task_id t}. task_id g = i \<and> category_of g = c" using g by auto
  next
    fix g assume g: "g \<in> {g \<in> set ?fl. task_id g \<noteq> task_id t}" and "category_of g \<noteq> ''''"
    then have "categories ?q (category_of g) = Some (task_id g)" using parts(3) by (simp add: locks_ok_def)
    then show "categories ?q' (category_of g) = Some (task_id g)" using g by (auto simp: frame(2))
  qed
  have pok: "picked_ok ?q' x" if "picked s = Some x" for x
  proof -
    have "set (busy_of (running ?q')) \<subseteq> set (busy_of (running ?q))"
      unfolding run by (auto simp: busy_of_def)
    moreover have "int (length (filter (\<lambda>p. fst p \<noteq> task_id t) (running ?q))) < max_concurrent ?q"
    proof -
      have "int (length (running ?q)) < max_concurrent ?q" using parts(5) [OF that] by (simp add: picked_ok_def)
      then show ?thesis using length_filter_le [of "\<lambda>p. fst p \<noteq> task_id t" "running ?q"] by linarith
    qed
    ultimately show ?thesis
      using parts(5) [OF that] unfolding picked_ok_def frame(3) run
      by (auto simp: category_free_def frame(2))
  qed
  show ?thesis
    using fok lok pok execute_and_handle_store [OF parts(1)] parts(4) rem
    by (auto simp: sys_inv_def split: option.splits)
qed

lemma inv_cancel:
  assumes inv: "sys_inv s" and c: "cancel n now i (sq s) = Some (r, q')"
  shows "sys_inv (s\<lparr>sq := q'\<rparr>)"
proof -
  note parts = sys_inv_parts [OF inv]
  have ok: "queue_ok (sq s)" using parts(1,2) by (simp add: queue_ok_def flight_ok_def)
  have "qcalms (sq s) q'"
    using c cancel_calms(1) [OF ok] qcalms_refl [OF parts(1)]
    by (auto simp: cancel_def split: option.splits)
  then show ?thesis
    by (intro sys_inv_quiet [OF inv]) (auto simp: qcalms_def intro: launched_calms)
qed

lemma inv_call:
  assumes inv: "sys_inv s" and fresh: "fresh_call s c"
  shows "sys_inv (s\<lparr>sq := (sq s)\<lparr>q_store := apply_call now c (q_store (sq s))\<rparr>\<rparr>)"
proof (rule sys_inv_quiet [OF inv])
  fix g assume "g \<in> set (inflight s)" "launched (q_store (sq s)) (task_id g)"
  then show "launched (q_store ((sq s)\<lparr>q_store := apply_call now c (q_store (sq s))\<rparr>)) (task_id g)"
    using fresh by (cases c) (auto simp: fresh_call_def simp del: apply_call.simps intro!: launched_call)
qed (simp_all add: wf_call sys_inv_parts(1) [OF inv])

lemma queue_start_store:
  assumes "wf_store (q_store q)"
  shows "wf_store (q_store (queue_start now q))"
    "launched (q_store q) i \<Longrightarrow> launched (q_store (queue_start now q)) i"
proof -
  show "wf_store (q_store (queue_start now q))"
    using assms by (simp add: queue_start_def fail_stale_running_def cancel_all_pending_def Let_def
        stale.wf_update cancelled.wf_update)
  show "launched (q_store q) i \<Longrightarrow> launched (q_store (queue_start now q)) i"
    by (auto simp: queue_start_def fail_stale_running_def cancel_all_pending_def Let_def
        cancel_row_def stale_row_def intro!: launched_update)
qed

lemma inv_step: "sys_step s t \<Longrightarrow> sys_inv s \<Longrightarrow> sys_inv t"
proof (induction rule: sys_step.induct)
  case (step_cleanup s now)
  then show ?case using sys_inv_parts(1) [OF step_cleanup]
    by (intro sys_inv_quiet [OF step_cleanup])
      (auto simp: cleanup_now_def delete_finished_before_def Let_def wf_delete launched_delete)
next
  case (step_queue_start s now)
  then show ?case using queue_start_store [OF sys_inv_parts(1) [OF step_queue_start]]
    by (intro sys_inv_quiet [OF step_queue_start]) (auto simp: queue_start_def Let_def)
next
  case (step_queue_stop s)
  then show ?case using sys_inv_parts(1) [OF step_queue_stop]
    by (intro sys_inv_quiet [OF step_queue_stop]) (auto simp: queue_stop_def comp_def split_def)
qed (auto intro: inv_pick inv_start inv_finish inv_cancel inv_call)

interpretation tq: invariant_system sys_init sys_step sys_inv
  by unfold_locales (auto intro: sys_inv_init inv_step)

end
