(* ===== verification/TaskOutput.thy ===== *)
theory TaskOutput
  imports TaskParent
begin

text \<open>
  The output of running tasks (\<^verbatim>\<open>internal/tasks/output.go\<close>): per-task sessions with a bounded or
  unbounded buffer, live subscribers, the debounced flush to the table and finalization. A subscriber
  is its number; \<open>delivered\<close> records the callbacks' calls, in the order of each subscriber (Go ranges
  over the subscriber map in no fixed order, so only the order per subscriber is meant). A flush copies the buffer under the
  lock and writes it after the unlock: the two halves are separate operations, so that the interleaving
  with finalization can be stated. Serialising the buffer to JSON and back is the identity here.
\<close>

record output_config =
  oc_enabled :: bool
  oc_mode :: string
  circular_max_lines :: int
  persist_log_file :: bool

record output_session =
  os_buffer :: "output_entry list"
  subscribers :: "nat list"
  next_sub :: nat
  flush_armed :: bool
  total_size :: nat

record outputs =
  o_store :: store
  o_cfg :: output_config
  sessions :: "string \<Rightarrow> output_session option"
  delivered :: "(string \<times> nat \<times> output_entry) list"
  logged :: "(string \<times> output_entry list) list"

definition empty_session :: output_session where
  "empty_session = \<lparr>os_buffer = [], subscribers = [], next_sub = 0, flush_armed = False, total_size = 0\<rparr>"

definition output_create :: "string \<Rightarrow> outputs \<Rightarrow> outputs" where
  "output_create i m =
    (if \<not> oc_enabled (o_cfg m) then m
     else case sessions m i of Some _ \<Rightarrow> m | None \<Rightarrow> m\<lparr>sessions := (sessions m)(i \<mapsto> empty_session)\<rparr>)"

text \<open>
  The slice expression of the circular mode: its lower bound may exceed the length only for a negative
  cap, and then it panics (\<open>None\<close>).
\<close>

definition trim_buffer :: "output_config \<Rightarrow> output_entry list \<Rightarrow> output_entry list option" where
  "trim_buffer cfg buf =
    (if oc_mode cfg = ''circular'' \<and> circular_max_lines cfg < int (length buf)
     then (if circular_max_lines cfg < 0 then None
           else Some (drop (length buf - nat (circular_max_lines cfg)) buf))
     else Some buf)"

definition deliver :: "string \<Rightarrow> output_entry \<Rightarrow> nat list \<Rightarrow> outputs \<Rightarrow> outputs" where
  "deliver i e subs m = m\<lparr>delivered := delivered m @ map (\<lambda>n. (i, n, e)) subs\<rparr>"

definition output_write :: "time \<Rightarrow> string \<Rightarrow> string \<Rightarrow> string \<Rightarrow> outputs \<Rightarrow> outputs option" where
  "output_write now i stream data m =
    (let e = \<lparr>oe_stream = stream, oe_data = data, oe_timestamp = now\<rparr>
     in case sessions m i of
          None \<Rightarrow> Some m
        | Some s \<Rightarrow>
            (case trim_buffer (o_cfg m) (os_buffer s @ [e]) of
               None \<Rightarrow> None
             | Some buf \<Rightarrow>
                 Some (deliver i e (subscribers s)
                   (m\<lparr>sessions := (sessions m)(i \<mapsto>
                      s\<lparr>os_buffer := buf, total_size := total_size s + length data, flush_armed := True\<rparr>)\<rparr>))))"

definition output_subscribe :: "string \<Rightarrow> outputs \<Rightarrow> nat option \<times> outputs" where
  "output_subscribe i m =
    (case sessions m i of
       None \<Rightarrow> (None, m)
     | Some s \<Rightarrow>
         (Some (next_sub s),
          m\<lparr>sessions := (sessions m)(i \<mapsto>
             s\<lparr>subscribers := subscribers s @ [next_sub s], next_sub := next_sub s + 1\<rparr>)\<rparr>))"

definition output_unsubscribe :: "string \<Rightarrow> nat \<Rightarrow> outputs \<Rightarrow> outputs" where
  "output_unsubscribe i n m =
    (case sessions m i of
       None \<Rightarrow> m
     | Some s \<Rightarrow> m\<lparr>sessions := (sessions m)(i \<mapsto> s\<lparr>subscribers := filter (\<lambda>k. k \<noteq> n) (subscribers s)\<rparr>)\<rparr>)"

definition persist :: "time \<Rightarrow> string \<Rightarrow> output_entry list \<Rightarrow> outputs \<Rightarrow> outputs" where
  "persist now i buf m = (if buf = [] then m else m\<lparr>o_store := set_output i buf now (o_store m)\<rparr>)"

definition flush_take :: "bool \<Rightarrow> string \<Rightarrow> outputs \<Rightarrow> output_entry list option \<times> outputs" where
  "flush_take scheduled i m =
    (case sessions m i of
       None \<Rightarrow> (None, m)
     | Some s \<Rightarrow>
         (Some (os_buffer s),
          if scheduled then m\<lparr>sessions := (sessions m)(i \<mapsto> s\<lparr>flush_armed := False\<rparr>)\<rparr> else m))"

definition output_flush :: "time \<Rightarrow> bool \<Rightarrow> string \<Rightarrow> outputs \<Rightarrow> outputs" where
  "output_flush now scheduled i m =
    (case flush_take scheduled i m of (None, m') \<Rightarrow> m' | (Some buf, m') \<Rightarrow> persist now i buf m')"

definition finalize_entry :: "time \<Rightarrow> output_entry" where
  "finalize_entry now = \<lparr>oe_stream = ''system'', oe_data = ''finalized'', oe_timestamp = now\<rparr>"

definition output_finalize :: "time \<Rightarrow> string \<Rightarrow> outputs \<Rightarrow> outputs" where
  "output_finalize now i m =
    (case sessions m i of
       None \<Rightarrow> m
     | Some s \<Rightarrow>
         (let m1 = persist now i (os_buffer s) (m\<lparr>sessions := (sessions m)(i := None)\<rparr>);
              m2 = (if persist_log_file (o_cfg m) \<and> os_buffer s \<noteq> []
                    then m1\<lparr>logged := logged m1 @ [(i, os_buffer s)]\<rparr> else m1)
          in deliver i (finalize_entry now) (subscribers s) m2))"

definition output_get :: "string \<Rightarrow> outputs \<Rightarrow> store_error + output_entry list" where
  "output_get i m =
    (case sessions m i of
       Some s \<Rightarrow> Inr (os_buffer s)
     | None \<Rightarrow>
         (case get_output_column i (o_store m) of
            Inl e \<Rightarrow> Inl e
          | Inr None \<Rightarrow> Inr []
          | Inr (Some entries) \<Rightarrow> Inr entries))"

subsection \<open>A whole session\<close>

text \<open>The chunks of one task, written in order.\<close>

fun output_writes :: "string \<Rightarrow> (time \<times> string \<times> string) list \<Rightarrow> outputs \<Rightarrow> outputs option" where
  "output_writes i [] m = Some m"
| "output_writes i ((now, stream, data) # ws) m =
    (case output_write now i stream data m of None \<Rightarrow> None | Some m' \<Rightarrow> output_writes i ws m')"

definition chunk_entry :: "time \<times> string \<times> string \<Rightarrow> output_entry" where
  "chunk_entry w = (case w of (now, stream, data) \<Rightarrow> \<lparr>oe_stream = stream, oe_data = data, oe_timestamp = now\<rparr>)"

text \<open>What the buffer should hold: everything, or the last lines in circular mode.\<close>

definition kept :: "output_config \<Rightarrow> output_entry list \<Rightarrow> output_entry list" where
  "kept cfg es =
    (if oc_mode cfg = ''circular'' then drop (length es - nat (circular_max_lines cfg)) es else es)"

lemma drop_drop_append: "drop (length (drop (length xs - k) xs @ ys) - k) (drop (length xs - k) xs @ ys)
    = drop (length (xs @ ys) - k) (xs @ ys)"
  by (cases "length xs \<le> k") (auto simp: Suc_diff_le add.commute)

lemma trim_kept:
  assumes "0 \<le> circular_max_lines cfg"
  shows "trim_buffer cfg (kept cfg es @ [e]) = Some (kept cfg (es @ [e]))"
proof (cases "oc_mode cfg = ''circular''")
  case True
  let ?k = "nat (circular_max_lines cfg)"
  have "drop (length (drop (length es - ?k) es @ [e]) - ?k) (drop (length es - ?k) es @ [e])
      = drop (length (es @ [e]) - ?k) (es @ [e])"
    by (rule drop_drop_append)
  then show ?thesis using True assms by (auto simp: trim_buffer_def kept_def)
qed (simp add: trim_buffer_def kept_def)

lemma output_writes_session:
  assumes "0 \<le> circular_max_lines (o_cfg m)" and "sessions m i = Some s" and "os_buffer s = kept (o_cfg m) es"
  shows "\<exists>m' s'. output_writes i ws m = Some m' \<and> sessions m' i = Some s' \<and> o_cfg m' = o_cfg m
     \<and> os_buffer s' = kept (o_cfg m) (es @ map chunk_entry ws) \<and> subscribers s' = subscribers s
     \<and> o_store m' = o_store m
     \<and> delivered m' = delivered m @
         concat (map (\<lambda>w. map (\<lambda>n. (i, n, chunk_entry w)) (subscribers s)) ws)"
  using assms
proof (induction ws arbitrary: m s es)
  case Nil
  then show ?case by simp
next
  case (Cons w ws)
  obtain now stream data where w: "w = (now, stream, data)" by (cases w)
  let ?e = "chunk_entry w"
  have e: "\<lparr>oe_stream = stream, oe_data = data, oe_timestamp = now\<rparr> = ?e" by (simp add: chunk_entry_def w)
  obtain m1 s1 where 1: "output_write now i stream data m = Some m1" "sessions m1 i = Some s1"
      "o_cfg m1 = o_cfg m" "os_buffer s1 = kept (o_cfg m) (es @ [?e])" "subscribers s1 = subscribers s"
      "o_store m1 = o_store m" "delivered m1 = delivered m @ map (\<lambda>n. (i, n, ?e)) (subscribers s)"
    using Cons.prems trim_kept [OF Cons.prems(1), of es ?e]
    by (simp add: output_write_def e deliver_def Let_def)
  show ?case
    using Cons.IH [of m1 s1 "es @ [?e]"] Cons.prems(1) 1 by (auto simp: w)
qed

end
