(* ===== verification/TaskProgress.thy ===== *)
theory TaskProgress
  imports TaskParent
begin

text \<open>
  Byte-level transfer progress (\<^verbatim>\<open>TransferProgress\<close> of \<^verbatim>\<open>internal/tasks/store_status.go\<close>): the
  monotone byte count, the throttle, the percentage mapped into the step's window, and the counting
  reader. Times are nanoseconds; byte counts are below \<open>2 ^ 63\<close>. The percentage is computed with each
  float64 operation rounded, as on amd64.
\<close>

record transfer =
  tp_task :: string
  tp_status :: string
  tp_floor :: float64
  tp_ceil :: float64
  tp_total :: int
  tp_received :: int
  tp_last_emit :: time
  tp_last_bytes :: int
  tp_emitted :: bool

definition new_transfer :: "string \<Rightarrow> string \<Rightarrow> float64 \<Rightarrow> float64 \<Rightarrow> int \<Rightarrow> transfer" where
  "new_transfer i s lo hi n = \<lparr>tp_task = i, tp_status = s, tp_floor = lo, tp_ceil = hi,
     tp_total = n, tp_received = 0, tp_last_emit = 0, tp_last_bytes = 0, tp_emitted = False\<rparr>"

definition transfer_fraction :: "transfer \<Rightarrow> float64" where
  "transfer_fraction p =
    (let f = fdiv (round64 (of_int (tp_received p))) (round64 (of_int (tp_total p)))
     in if 1 < f then 1 else f)"

definition transfer_percent :: "transfer \<Rightarrow> float64" where
  "transfer_percent p =
    (if 0 < tp_total p
     then fadd (tp_floor p) (fmul (fsub (tp_ceil p) (tp_floor p)) (transfer_fraction p))
     else tp_floor p)"

definition transfer_doc :: "transfer \<Rightarrow> progress_doc" where
  "transfer_doc p = TransferInfo (tp_status p) (tp_received p)
     (if 0 < tp_total p then Some (tp_total p) else None)"

definition transfer_emit :: "time \<Rightarrow> transfer \<times> store \<Rightarrow> transfer \<times> store" where
  "transfer_emit now = (\<lambda>(p, st).
     (p\<lparr>tp_emitted := True, tp_last_emit := now, tp_last_bytes := tp_received p\<rparr>,
      update_progress (tp_task p) (transfer_percent p) (Some (transfer_doc p)) now st))"

definition second :: time where "second = 10 ^ 9"

definition transfer_due :: "time \<Rightarrow> transfer \<Rightarrow> bool" where
  "transfer_due now p \<longleftrightarrow> \<not> tp_emitted p \<or> second \<le> now - tp_last_emit p
     \<or> (0 < tp_total p \<and> max 1 (tp_total p div 100) \<le> tp_received p - tp_last_bytes p)"

definition transfer_set :: "time \<Rightarrow> int \<Rightarrow> transfer \<times> store \<Rightarrow> transfer \<times> store" where
  "transfer_set now received = (\<lambda>(p, st).
     if received \<le> tp_received p \<and> tp_emitted p then (p, st)
     else
       let p' = (if tp_received p < received then p\<lparr>tp_received := received\<rparr> else p)
       in if transfer_due now p' then transfer_emit now (p', st) else (p', st))"

definition transfer_finish :: "time \<Rightarrow> transfer \<times> store \<Rightarrow> transfer \<times> store" where
  "transfer_finish = transfer_emit"

text \<open>The counting reader: its base, its offset, and one \<open>Read\<close> that returned \<open>n\<close> bytes.\<close>

definition transfer_read :: "time \<Rightarrow> int \<Rightarrow> nat \<Rightarrow> int \<times> transfer \<times> store \<Rightarrow> int \<times> transfer \<times> store" where
  "transfer_read now base n = (\<lambda>(offset, p).
     if 0 < n then (offset + int n, transfer_set now (base + (offset + int n)) p) else (offset, p))"

subsection \<open>The window\<close>

lemma fraction_range:
  assumes "0 \<le> tp_received p" and "0 < tp_total p"
  shows "0 \<le> transfer_fraction p \<and> transfer_fraction p \<le> 1"
  using assms by (auto simp: transfer_fraction_def fdiv_def Let_def intro!: round64_nonneg divide_nonneg_nonneg)

lemma percent_window:
  assumes "0 \<le> tp_received p" and "tp_floor p = of_int lo" and "tp_ceil p = of_int hi"
    and "0 \<le> lo" and "lo \<le> hi" and "hi \<le> 100"
  shows "of_int lo \<le> transfer_percent p \<and> transfer_percent p \<le> of_int hi"
proof (cases "0 < tp_total p")
  case False
  then show ?thesis using assms by (simp add: transfer_percent_def)
next
  case True
  let ?f = "transfer_fraction p" and ?w = "rat_of_int hi - of_int lo"
  have f: "0 \<le> ?f" "?f \<le> 1" using fraction_range [OF assms(1) True] by simp_all
  have w: "fsub (tp_ceil p) (tp_floor p) = of_int (hi - lo)"
    using assms round64_of_int [of "hi - lo"] by (simp add: fsub_def)
  have m: "0 \<le> round64 (of_int (hi - lo) * ?f)" "round64 (of_int (hi - lo) * ?f) \<le> of_int (hi - lo)"
  proof -
    have "0 \<le> of_int (hi - lo) * ?f" using f(1) assms(5) by simp
    then show "0 \<le> round64 (of_int (hi - lo) * ?f)" by (rule round64_nonneg)
    have "of_int (hi - lo) * ?f \<le> of_int (hi - lo)"
      using f(2) assms(5) mult_left_le [of ?f "of_int (hi - lo)"] by simp
    then show "round64 (of_int (hi - lo) * ?f) \<le> of_int (hi - lo)"
      using assms by (intro round64_le_int) simp_all
  qed
  have "of_int lo \<le> round64 (of_int lo + round64 (of_int (hi - lo) * ?f))"
    using m(1) assms by (intro round64_ge_int) simp_all
  moreover have "round64 (of_int lo + round64 (of_int (hi - lo) * ?f)) \<le> of_int hi"
    using m(2) assms by (intro round64_le_int) simp_all
  ultimately show ?thesis
    using True assms(2) w by (simp add: transfer_percent_def fadd_def fmul_def)
qed

lemma fraction_mono:
  assumes "0 < tp_total p" and "tp_total p' = tp_total p" and "tp_received p \<le> tp_received p'"
  shows "transfer_fraction p \<le> transfer_fraction p'"
proof -
  have "0 \<le> round64 (of_int (tp_total p))" using assms(1) by (simp add: round64_nonneg)
  then have "round64 (of_int (tp_received p)) / round64 (of_int (tp_total p))
      \<le> round64 (of_int (tp_received p')) / round64 (of_int (tp_total p))"
    using assms(3) by (intro divide_right_mono round64_mono) simp_all
  then show ?thesis using round64_mono by (fastforce simp: transfer_fraction_def fdiv_def Let_def assms(2))
qed

lemma percent_mono:
  assumes "tp_floor p \<le> tp_ceil p" and "tp_received p \<le> tp_received p'"
    and "tp_total p' = tp_total p" "tp_floor p' = tp_floor p" "tp_ceil p' = tp_ceil p"
  shows "transfer_percent p \<le> transfer_percent p'"
proof (cases "0 < tp_total p")
  case True
  have "0 \<le> fsub (tp_ceil p) (tp_floor p)" using assms(1) by (simp add: fsub_def round64_nonneg)
  then show ?thesis
    using True assms fraction_mono [OF True assms(3,2)]
    by (auto simp: transfer_percent_def fadd_def fmul_def intro!: round64_mono mult_left_mono)
qed (simp add: transfer_percent_def assms)

subsection \<open>Sequences of reports\<close>

text \<open>The fields a report never changes, and the count it never lowers.\<close>

lemma transfer_set_frame:
  assumes "transfer_set now n (p, st) = (p', st')"
  shows "tp_task p' = tp_task p" "tp_status p' = tp_status p" "tp_floor p' = tp_floor p"
    "tp_ceil p' = tp_ceil p" "tp_total p' = tp_total p" "tp_received p' = max (tp_received p) n"
  using assms by (auto simp: transfer_set_def transfer_emit_def Let_def split: if_splits)

definition transfer_sets :: "(time \<times> int) list \<Rightarrow> transfer \<times> store \<Rightarrow> transfer \<times> store" where
  "transfer_sets rs ps = fold (\<lambda>(now, n). transfer_set now n) rs ps"

lemma transfer_sets_frame:
  assumes "transfer_sets rs (p, st) = (p', st')"
  shows "tp_task p' = tp_task p \<and> tp_status p' = tp_status p \<and> tp_floor p' = tp_floor p \<and>
    tp_ceil p' = tp_ceil p \<and> tp_total p' = tp_total p \<and>
    tp_received p' = fold (\<lambda>r m. max m (snd r)) rs (tp_received p)"
  using assms
proof (induction rs arbitrary: p st)
  case Nil
  then show ?case by (simp add: transfer_sets_def)
next
  case (Cons r rs)
  obtain p1 st1 where 1: "transfer_set (fst r) (snd r) (p, st) = (p1, st1)" by fastforce
  have "transfer_sets rs (p1, st1) = (p', st')" using Cons.prems 1 by (simp add: transfer_sets_def split_def)
  from Cons.IH [OF this] show ?case using transfer_set_frame [OF 1] by simp
qed

lemma transfer_set_get:
  "get st i = Some t \<Longrightarrow> \<exists>u. get (snd (transfer_set now n (p, st))) i = Some u"
  by (auto simp: transfer_set_def transfer_emit_def Let_def get_update_progress)

lemma transfer_sets_get:
  "get st i = Some t \<Longrightarrow> \<exists>u. get (snd (transfer_sets rs (p, st))) i = Some u"
proof (induction rs arbitrary: p st t)
  case (Cons r rs)
  obtain p1 st1 where 1: "transfer_set (fst r) (snd r) (p, st) = (p1, st1)" by fastforce
  obtain u where "get st1 i = Some u" using transfer_set_get [OF Cons.prems, of "fst r" "snd r" p] 1 by auto
  from Cons.IH [OF this, of p1] show ?case using 1 by (simp add: transfer_sets_def split_def)
qed (simp add: transfer_sets_def)

end
