(* ===== verification/TaskProps.thy ===== *)
theory TaskProps
  imports TaskMachine TaskOutput TaskProgress
begin

text \<open>
  The properties of the task component, each with an instance on a concrete queue. The instance rows
  are built by the model's own \<^verbatim>\<open>Create\<close>.
\<close>

subsection \<open>A concrete queue\<close>

definition demo_new :: "string \<Rightarrow> string \<Rightarrow> int \<Rightarrow> new_task" where
  "demo_new machine op prio =
    \<lparr>nt_machine_name = machine, nt_operation = op, nt_priority = prio, nt_created_by = ''api'',
     nt_depends_on = None, nt_parent_task_id = None, nt_metadata = None, nt_parent = False,
     nt_prepared = False, nt_notify = None\<rparr>"

definition demo_store :: store where
  "demo_store = snd (create ''b'' 2 (demo_new ''web'' ''stop'' 80)
     (snd (create ''a'' 1 (demo_new ''db'' ''start'' 60) \<lparr>rows = [], has_notify = True, notified = []\<rparr>)))"

definition demo_queue :: queue where
  "demo_queue = \<lparr>q_store = demo_store, running = [], categories = (\<lambda>_. None), processing = True,
     max_concurrent = 2, retention = 0, resume_pending_on_start = True, executors = [''start'', ''stop'']\<rparr>"

definition demo_sys :: sys where
  "demo_sys = \<lparr>sq = demo_queue, picked = None, inflight = []\<rparr>"

lemmas demo_defs = demo_sys_def demo_queue_def demo_store_def demo_new_def

lemma demo_rows: "rows demo_store = [new_row ''a'' 1 (demo_new ''db'' ''start'' 60),
    new_row ''b'' 2 (demo_new ''web'' ''stop'' 80)]"
  by (simp add: demo_store_def create_def get_def new_row_def Let_def)

lemma demo_wf: "wf_store demo_store"
  unfolding wf_store_def demo_rows
  by (simp add: new_row_def demo_new_def create_status_def row_ok_def)

lemma demo_init: "reachable sys_init sys_step demo_sys"
  by (rule reachable.intros) (simp add: sys_init_def demo_sys_def demo_queue_def demo_wf)

definition demo_a :: task where "demo_a = new_row ''a'' 1 (demo_new ''db'' ''start'' 60)"
definition demo_b :: task where "demo_b = new_row ''b'' 2 (demo_new ''web'' ''stop'' 80)"

lemma demo_dependents: "cancel_dependents now demo_store = ([], demo_store)"
  by (simp add: cancel_dependents_def demo_rows dependency_failed_def new_row_def demo_new_def Let_def
      update_rows_def sql_update_def map_filter_simps(2))

lemma demo_next: "next_pending [] demo_store = Some demo_b"
  by (simp add: next_pending_def demo_rows eligible_def dependency_met_def new_row_def demo_new_def
      create_status_def pick_key_def demo_b_def)

lemma demo_pick: "tick_pick now demo_queue = (Some demo_b, demo_queue)"
  using demo_dependents demo_next
  by (simp add: tick_pick_def demo_queue_def at_capacity_def busy_machines_def Let_def category_free_def
      demo_b_def new_row_def demo_new_def operation_category_def operation_categories_def)

lemma demo_picked: "reachable sys_init sys_step (demo_sys\<lparr>picked := Some demo_b\<rparr>)"
proof -
  have "sys_step demo_sys (demo_sys\<lparr>sq := demo_queue, picked := Some demo_b\<rparr>)"
    using demo_pick by (intro sys_step.step_pick) (simp_all add: demo_sys_def demo_queue_def)
  moreover have "demo_sys\<lparr>sq := demo_queue, picked := Some demo_b\<rparr> = demo_sys\<lparr>picked := Some demo_b\<rparr>"
    by (simp add: demo_sys_def)
  ultimately show ?thesis using demo_init reachable.intros by metis
qed

subsection \<open>What runs together\<close>

text \<open>
  C1: in every state the queue can reach, under any interleaving of the poll loop with executors,
  cancellations, creations and deletions, the running tasks respect the concurrency cap, no two of
  them work on the same machine (the \<open>system\<close> and \<open>filesystem\<close> scopes apart), and no two of them hold
  the same operation category.
\<close>
theorem queue_exclusion:
  assumes "reachable sys_init sys_step s"
  shows "int (length (inflight s)) \<le> max 0 (max_concurrent (sq s))
    \<and> (\<forall>g h. g \<in> set (inflight s) \<and> h \<in> set (inflight s) \<and> machine_name g = machine_name h
         \<and> exclusive_machine (machine_name g) \<longrightarrow> g = h)
    \<and> (\<forall>g h. g \<in> set (inflight s) \<and> h \<in> set (inflight s)
         \<and> operation_category (operation g) = operation_category (operation h)
         \<and> operation_category (operation g) \<noteq> '''' \<longrightarrow> g = h)"
proof -
  note parts = sys_inv_parts [OF tq.always [OF assms]]
  have d: "distinct (map fst (running (sq s)))" "distinct (map task_id (inflight s))"
      "set (map fst (running (sq s))) = set (map task_id (inflight s))"
      "int (length (running (sq s))) \<le> max 0 (max_concurrent (sq s))"
      "distinct (busy_of (running (sq s)))"
    using parts(2) by (simp_all only: flight_ok_def)
  have same: "g = h" if "g \<in> set (inflight s)" "h \<in> set (inflight s)" "task_id g = task_id h" for g h
    using d(2) that by (auto simp: distinct_map inj_on_def)
  have "length (running (sq s)) = length (inflight s)"
    using d(1-3) by (metis distinct_card length_map)
  moreover have "g = h" if "g \<in> set (inflight s)" "h \<in> set (inflight s)" "machine_name g = machine_name h"
      "exclusive_machine (machine_name g)" for g h
  proof -
    have ent: "\<exists>e. (task_id x, e) \<in> set (running (sq s)) \<and> re_machine e = machine_name x"
      if "x \<in> set (inflight s)" for x
      using parts(2) that by (simp add: flight_ok_def)
    obtain e f where "(task_id g, e) \<in> set (running (sq s))" "re_machine e = machine_name g"
        "(task_id h, f) \<in> set (running (sq s))" "re_machine f = machine_name h"
      using ent \<open>g \<in> _\<close> \<open>h \<in> _\<close> by meson
    then have "task_id g = task_id h" using distinct_busy_unique [OF d(5)] that(3,4) by (metis prod.inject)
    then show ?thesis using same that by blast
  qed
  moreover have "g = h" if "g \<in> set (inflight s)" "h \<in> set (inflight s)" "category_of g = category_of h"
      "category_of g \<noteq> ''''" for g h
    using parts(3) that same unfolding locks_ok_def by (metis option.inject)
  ultimately show ?thesis using d(4) unfolding category_of_def by (metis (no_types, lifting))
qed

definition demo_started :: sys where
  "demo_started = \<lparr>sq = tick_start 5 demo_b demo_queue, picked = None, inflight = [demo_b]\<rparr>"

lemma demo_started_reachable: "reachable sys_init sys_step demo_started"
proof -
  let ?s = "demo_sys\<lparr>picked := Some demo_b\<rparr>"
  have "sys_step ?s (?s\<lparr>sq := tick_start 5 demo_b (sq ?s), picked := None, inflight := demo_b # inflight ?s\<rparr>)"
    by (rule sys_step.step_start) simp
  moreover have "?s\<lparr>sq := tick_start 5 demo_b (sq ?s), picked := None, inflight := demo_b # inflight ?s\<rparr> = demo_started"
    by (simp add: demo_sys_def demo_started_def)
  ultimately show ?thesis using demo_picked reachable_step by metis
qed

theorem queue_exclusion_witness:
  "inflight demo_started = [demo_b] \<and> int (length (inflight demo_started)) \<le> max 0 (max_concurrent (sq demo_started))"
  using queue_exclusion [OF demo_started_reachable] by (simp add: demo_started_def)

text \<open>
  a task that was cancelled after the poll loop chose it and before the loop marked it running is
  started all the same: the cancellation answers success, and the next step of the loop puts the task
  in flight and its row back to running.
\<close>
theorem cancelled_pick_still_starts:
  assumes "reachable sys_init sys_step s" and "picked s = Some t"
    and "get (q_store (sq s)) (task_id t) = Some u" and "status u = Pending"
    and "cancel (Suc n) now (task_id t) (sq s) = Some (r, q')"
  shows "r = Inr False \<and> (\<exists>v. get (q_store q') (task_id t) = Some v \<and> status v = Cancelled)
    \<and> reachable sys_init sys_step
        (s\<lparr>sq := tick_start now' t q', picked := None, inflight := t # inflight s\<rparr>)
    \<and> (\<exists>w. get (q_store (tick_start now' t q')) (task_id t) = Some w \<and> status w = Running)"
proof -
  let ?st = "snd (cancel_pending (task_id t) now (q_store (sq s)))"
  have hit: "fst (cancel_pending (task_id t) now (q_store (sq s)))"
    using cancel_pending_done assms(3,4) by blast
  have res: "r = Inr False" "q' = report_parent now u ((sq s)\<lparr>q_store := ?st\<rparr>)"
    using assms(3-5) hit by (auto simp: cancel_def Let_def split: prod.splits)
  have "sys_step s (s\<lparr>sq := q'\<rparr>)" using assms(5) by (rule sys_step.step_cancel)
  then have mid: "reachable sys_init sys_step (s\<lparr>sq := q'\<rparr>)" using assms(1) by (rule reachable_step [rotated])
  have "sys_step (s\<lparr>sq := q'\<rparr>)
      ((s\<lparr>sq := q'\<rparr>)\<lparr>sq := tick_start now' t (sq (s\<lparr>sq := q'\<rparr>)), picked := None,
        inflight := t # inflight (s\<lparr>sq := q'\<rparr>)\<rparr>)"
    using assms(2) by (intro sys_step.step_start) simp
  from reachable_step [OF mid this] have reach: "reachable sys_init sys_step
        (s\<lparr>sq := tick_start now' t q', picked := None, inflight := t # inflight s\<rparr>)"
    by simp
  have row: "get ?st (task_id t) = Some (cancel_row None now u)"
    using assms(3,4) get_in_rows [OF assms(3)]
    by (simp add: cancel_pending_def Let_def cancelled.get_update)
  have "wf_store ?st" using sys_inv_parts(1) [OF tq.always [OF assms(1)]] by (rule wf_cancel_pending)
  then have "calms ?st (q_store q')"
    using calms_update_parent by (simp add: res report_parent_def split: option.split)
  from calms_get [OF this, of "task_id t"] row
  obtain v where v: "get (q_store q') (task_id t) = Some v" "settles (cancel_row None now u) v"
    by auto
  then have "status v = Cancelled" by (simp add: settles_def cancel_row_def)
  moreover have "get (q_store (tick_start now' t q')) (task_id t) = Some (running_row now' v)"
    using v(1) get_in_rows [OF v(1)]
    by (simp add: tick_start_def Let_def mark_running_def started.get_update)
  ultimately show ?thesis using res(1) v(1) reach by (simp add: running_row_def)
qed

lemma demo_get_b: "get demo_store ''b'' = Some demo_b"
  by (simp add: get_def demo_rows demo_b_def new_row_def demo_new_def)

lemma demo_b_fields: "task_id demo_b = ''b''" "status demo_b = Pending" "parent_task_id demo_b = None"
  by (simp_all add: demo_b_def new_row_def demo_new_def create_status_def)

definition demo_cancelled :: queue where
  "demo_cancelled = demo_queue\<lparr>q_store := snd (cancel_pending ''b'' 9 demo_store)\<rparr>"

lemma demo_cancel: "cancel (Suc 0) 9 ''b'' demo_queue = Some (Inr False, demo_cancelled)"
  using cancel_pending_done [OF demo_get_b demo_b_fields(2), of 9]
  by (simp add: cancel_def demo_queue_def demo_get_b demo_b_fields report_parent_def demo_cancelled_def
      Let_def split_beta)

theorem cancelled_pick_still_starts_witness:
  "cancel (Suc 0) 9 ''b'' demo_queue = Some (Inr False, demo_cancelled) \<and>
   (\<exists>w. get (q_store (tick_start 10 demo_b demo_cancelled)) ''b'' = Some w \<and> status w = Running)"
  using cancelled_pick_still_starts [OF demo_picked, of demo_b demo_b 0 9 "Inr False" demo_cancelled 10]
    demo_get_b demo_b_fields demo_cancel
  by (simp add: demo_sys_def demo_queue_def)

subsection \<open>Picking\<close>

text \<open>
  C13: the queue takes nothing exactly when no pending task has its dependency completed and its
  machine free; otherwise it takes, among those, one of the highest priority, the oldest of that
  priority, and among equals the first created.
\<close>
theorem next_pending_spec:
  "case next_pending busy st of
     None \<Rightarrow> \<forall>t\<in>set (rows st). \<not> eligible busy st t
   | Some t \<Rightarrow> \<exists>us vs. rows st = us @ t # vs \<and> eligible busy st t
       \<and> (\<forall>u\<in>set us. eligible busy st u \<longrightarrow>
            priority u < priority t \<or> (priority u = priority t \<and> created_at t < created_at u))
       \<and> (\<forall>v\<in>set vs. eligible busy st v \<longrightarrow>
            priority v < priority t \<or> (priority v = priority t \<and> created_at t \<le> created_at v))"
proof (cases "next_pending busy st")
  case None
  then show ?thesis using next_pending_None_iff [of busy st] by (simp add: None)
next
  case (Some t)
  then obtain us vs where h: "rows st = us @ t # vs" "eligible busy st t"
      "\<forall>u\<in>set us. eligible busy st u \<longrightarrow> pick_key t < pick_key u"
      "\<forall>v\<in>set vs. eligible busy st v \<longrightarrow> pick_key t \<le> pick_key v"
    using next_pending_head by blast
  show ?thesis unfolding Some option.case
    by (intro exI [of _ us] exI [of _ vs] conjI)
      (use h in \<open>auto simp: pick_key_def less_prod_def less_eq_prod_def\<close>)
qed

theorem next_pending_spec_witness:
  "next_pending [] demo_store = Some demo_b \<and> (\<exists>us vs. rows demo_store = us @ demo_b # vs \<and> eligible [] demo_store demo_b)"
  using next_pending_spec [where busy = "[]" and st = demo_store] demo_next by auto

subsection \<open>Cancellation\<close>

text \<open>
  C26: a cancellation always returns, its cascade over child tasks included: one unit of fuel more
  than there are running rows without an executor (parent anchors) is enough, for any table with
  distinct identifiers, parent cycles included.
\<close>
theorem cancel_returns:
  assumes "wf_store (q_store q)" and "distinct (map fst (running q))" and "anchors q < n"
  shows "\<exists>r q'. cancel n now i q = Some (r, q')"
proof (cases "get (q_store q) i")
  case None
  then show ?thesis by (simp add: cancel_def)
next
  case (Some t)
  have "queue_ok q" using assms by (simp add: queue_ok_def)
  then show ?thesis using cancel_enough(1) [OF _ Some assms(3)] Some
    by (auto simp: cancel_def not_None_eq)
qed

theorem cancel_returns_witness: "\<exists>r q'. cancel (Suc 0) 9 ''b'' demo_queue = Some (r, q')"
  by (rule cancel_returns)
    (simp_all add: anchors_def demo_queue_def demo_wf demo_rows anchor_def new_row_def demo_new_def create_status_def)

text \<open>
  C5: cancelling a running row that no executor holds (a parent anchor) with at most 1000 children
  marks it cancelled and reaches every child: afterwards no child is pending, and a child still
  running is in flight with its cancel flag set.
\<close>
theorem cancel_cascades:
  assumes wf: "wf_store (q_store q)" and d: "distinct (map fst (running q))"
    and row: "get (q_store q) i = Some t" "status t = Running" "map_of (running q) i = None" "i \<noteq> ''''"
    and few: "length (filter (\<lambda>u. parent_task_id u = Some i) (rows (q_store q))) \<le> 1000"
    and c: "cancel n now i q = Some (r, q')"
  shows "r = Inr False \<and> (\<exists>u. get (q_store q') i = Some u \<and> status u = Cancelled)
    \<and> (\<forall>u\<in>set (rows (q_store q')). parent_task_id u = Some i \<longrightarrow>
         status u \<noteq> Pending \<and> (status u = Running \<longrightarrow> was_cancelled q' (task_id u)))"
  using cancel_anchor [OF assms] by blast

text \<open>An anchor with a pending child and a running one.\<close>

definition family_store :: store where
  "family_store =
    snd (create ''d'' 3 ((demo_new ''db'' ''stop'' 60)\<lparr>nt_parent_task_id := Some ''p'', nt_parent := True\<rparr>)
     (snd (create ''c'' 2 ((demo_new ''db'' ''start'' 60)\<lparr>nt_parent_task_id := Some ''p''\<rparr>)
       (snd (create ''p'' 1 ((demo_new ''db'' ''machine_provision_parent'' 60)\<lparr>nt_parent := True\<rparr>)
          \<lparr>rows = [], has_notify = True, notified = []\<rparr>)))))"

definition family_queue :: queue where
  "family_queue = demo_queue\<lparr>q_store := family_store,
     running := [(''d'', \<lparr>re_cancelled = False, re_machine = ''db''\<rparr>)]\<rparr>"

definition family_anchor :: task where
  "family_anchor = new_row ''p'' 1 ((demo_new ''db'' ''machine_provision_parent'' 60)\<lparr>nt_parent := True\<rparr>)"

lemma family_rows: "rows family_store = [family_anchor,
    new_row ''c'' 2 ((demo_new ''db'' ''start'' 60)\<lparr>nt_parent_task_id := Some ''p''\<rparr>),
    new_row ''d'' 3 ((demo_new ''db'' ''stop'' 60)\<lparr>nt_parent_task_id := Some ''p'', nt_parent := True\<rparr>)]"
  by (simp add: family_store_def family_anchor_def create_def get_def new_row_def Let_def)

lemma family_wf: "wf_store family_store"
  unfolding wf_store_def family_rows family_anchor_def
  by (simp add: new_row_def demo_new_def create_status_def row_ok_def)

lemma family_get: "get family_store ''p'' = Some family_anchor" "status family_anchor = Running"
  by (simp_all add: get_def family_rows) (simp_all add: family_anchor_def new_row_def create_status_def demo_new_def)

lemma family_cancel: "\<exists>r q'. cancel 5 9 ''p'' family_queue = Some (r, q')"
proof -
  have ok: "queue_ok family_queue" using family_wf by (simp add: queue_ok_def family_queue_def)
  have "anchors family_queue \<le> length (rows family_store)"
    by (simp add: anchors_def family_queue_def)
  then have "anchors family_queue < 5" by (simp add: family_rows)
  from cancel_enough(1) [OF ok _ this, of "''p''" family_anchor 9] family_get(1)
  show ?thesis by (auto simp: cancel_def family_queue_def not_None_eq)
qed

theorem cancel_cascades_witness:
  "\<exists>q'. cancel 5 9 ''p'' family_queue = Some (Inr False, q')
     \<and> (\<exists>u. get (q_store q') ''p'' = Some u \<and> status u = Cancelled)"
proof -
  obtain r q' where c: "cancel 5 9 ''p'' family_queue = Some (r, q')" using family_cancel by blast
  have "r = Inr False \<and> (\<exists>u. get (q_store q') ''p'' = Some u \<and> status u = Cancelled)"
    using cancel_cascades [OF _ _ _ _ _ _ _ c, of family_anchor] family_wf family_get
    by (simp add: family_queue_def family_rows)
  then show ?thesis using c by blast
qed

subsection \<open>Dependencies\<close>

text \<open>
  the propagation of failed dependencies cancels exactly the pending tasks whose dependency is
  failed or cancelled, with the message, leaves every other row as it was, and names each of their
  parents once.
\<close>
theorem cancel_dependents_spec:
  assumes "wf_store st" and "cancel_dependents now st = (ps, st')"
  shows "(\<forall>i. get st' i = (case get st i of None \<Rightarrow> None
        | Some t \<Rightarrow> Some (if status t = Pending \<and> (\<exists>d u. depends_on t = Some d \<and> get st d = Some u
              \<and> status u \<in> {Failed, Cancelled})
            then t\<lparr>status := Cancelled, error_message := Some ''Dependency failed'',
                   completed_at := Some now, updated_at := now\<rparr> else t)))
    \<and> distinct ps
    \<and> set ps = {p. \<exists>t\<in>set (rows st). parent_task_id t = Some p \<and> dependency_failed st t}"
proof -
  have dep: "dependency_failed st t \<longleftrightarrow> status t = Pending \<and> (\<exists>d u. depends_on t = Some d
      \<and> get st d = Some u \<and> status u \<in> {Failed, Cancelled})" for t
    using get_row [OF assms(1)] get_in_rows [of st]
    by (auto simp: dependency_failed_def list_ex_iff split: option.splits)
  have st': "st' = fold changed (map task_id (filter (dependency_failed st) (rows st)))
      (update_rows (dependency_failed st) (cancel_row (Some ''Dependency failed'') now) st)"
    and ps: "ps = first_seen [] (List.map_filter parent_task_id (filter (dependency_failed st) (rows st)))"
    using assms(2) by (simp_all add: cancel_dependents_def Let_def)
  have "get st' i = (case get st i of None \<Rightarrow> None
      | Some t \<Rightarrow> Some (if dependency_failed st t then cancel_row (Some ''Dependency failed'') now t else t))" for i
    unfolding st' get_fold_changed cancelled.get_update by (simp split: option.split)
  moreover have "set ps = {p. \<exists>t\<in>set (rows st). parent_task_id t = Some p \<and> dependency_failed st t}"
    unfolding ps by (force simp: List.map_filter_def)
  moreover have "distinct ps" unfolding ps by (simp add: distinct_first_seen)
  moreover have "cancel_row (Some ''Dependency failed'') now t = t\<lparr>status := Cancelled,
      error_message := Some ''Dependency failed'', completed_at := Some now, updated_at := now\<rparr>" for t
    by (simp add: cancel_row_def)
  ultimately show ?thesis unfolding dep by (simp split: option.split) blast
qed

definition chain_store :: store where
  "chain_store = \<lparr>rows = [cancel_row None 4 demo_a, demo_b\<lparr>depends_on := Some ''a''\<rparr>],
     has_notify = False, notified = []\<rparr>"

lemma chain_wf: "wf_store chain_store"
  by (simp add: wf_store_def chain_store_def row_ok_def cancel_row_def demo_a_def demo_b_def
      new_row_def demo_new_def create_status_def)

theorem cancel_dependents_spec_witness:
  "\<exists>u. get (snd (cancel_dependents 7 chain_store)) ''b'' = Some u \<and> status u = Cancelled
    \<and> error_message u = Some ''Dependency failed''"
proof -
  have g: "get chain_store ''a'' = Some (cancel_row None 4 demo_a)"
      "get chain_store ''b'' = Some (demo_b\<lparr>depends_on := Some ''a''\<rparr>)"
    by (simp_all add: get_def chain_store_def cancel_row_def demo_a_def demo_b_def new_row_def)
  obtain ps st' where c: "cancel_dependents 7 chain_store = (ps, st')" by fastforce
  have "get st' ''b'' = (case get chain_store ''b'' of None \<Rightarrow> None
      | Some t \<Rightarrow> Some (if status t = Pending \<and> (\<exists>d u. depends_on t = Some d \<and> get chain_store d = Some u
              \<and> status u \<in> {Failed, Cancelled})
            then t\<lparr>status := Cancelled, error_message := Some ''Dependency failed'',
                   completed_at := Some 7, updated_at := 7\<rparr> else t))"
    using cancel_dependents_spec [OF chain_wf c] by blast
  then show ?thesis by (simp add: c g demo_b_fields cancel_row_def)
qed

lemma orphan_tick:
  assumes wf: "wf_store (q_store q)" and i: "get (q_store q) i = Some t" "status t = Pending"
    and d: "depends_on t = Some d" "get (q_store q) d = None"
  shows "wf_store (q_store (tick now q)) \<and> get (q_store (tick now q)) i = Some t
      \<and> get (q_store (tick now q)) d = None"
proof (cases "at_capacity q")
  case True
  then show ?thesis using assms by (simp add: tick_def tick_pick_def)
next
  case False
  obtain ps st where c: "cancel_dependents now (q_store q) = (ps, st)" by fastforce
  let ?st = "fold (update_parent_progress now) ps st"
  have keep: "get s i = Some t \<and> get s d = None \<Longrightarrow>
      get (update_parent_progress now p s) i = Some t \<and> get (update_parent_progress now p s) d = None" for p s
    using i(2) get_update_parent_other [of d p now s] get_update_parent_other [of i p now s]
    by (cases "i = p"; cases "d = p") (auto simp: update_parent_progress_def split: option.splits)
  have nd: "\<not> dependency_failed (q_store q) t" "task_id t = i"
    using d get_in_rows [OF i(1)] by (auto simp: dependency_failed_def list_ex_iff get_None_iff)
  have "get st i = Some t \<and> get st d = None"
    using c i d nd by (auto simp: cancel_dependents_def Let_def cancelled.get_update)
  moreover have "get s i = Some t \<and> get s d = None \<Longrightarrow>
      get (fold (update_parent_progress now) xs s) i = Some t \<and> get (fold (update_parent_progress now) xs s) d = None" for xs s
    using keep by (induction xs arbitrary: s) simp_all
  ultimately have st: "get ?st i = Some t \<and> get ?st d = None" by blast
  have wf': "wf_store ?st" using wf_fold_parents [OF wf_cancel_dependents [OF wf]] c by (metis snd_conv)
  have pick: "tick_pick now q = (None, q\<lparr>q_store := ?st\<rparr>) \<or>
      (\<exists>u. tick_pick now q = (Some u, q\<lparr>q_store := ?st\<rparr>) \<and> eligible (busy_machines q) ?st u \<and> u \<in> set (rows ?st))"
    using False c next_pending_eligible
    by (fastforce simp: tick_pick_def Let_def split: option.splits)
  have other: "task_id u \<noteq> d" "task_id u \<noteq> i" if "eligible (busy_machines q) ?st u" "u \<in> set (rows ?st)" for u
  proof -
    show "task_id u \<noteq> d" using st that(2) by (auto simp: get_None_iff)
    show "task_id u \<noteq> i"
      using st that get_row [OF wf' that(2)] d
      by (auto simp: eligible_def dependency_met_def list_ex_iff get_None_iff)
  qed
  have "get (mark_running (task_id u) now ?st) i = Some t \<and> get (mark_running (task_id u) now ?st) d = None"
    if "eligible (busy_machines q) ?st u" "u \<in> set (rows ?st)" for u
    using st nd(2) other [OF that] by (auto simp: mark_running_def started.get_update)
  then show ?thesis using pick st wf' wf_mark_running
    by (auto simp: tick_def tick_start_def Let_def)
qed

text \<open>
  C27: a pending task whose dependency's row has been deleted waits for ever: no number of queue steps
  starts it, cancels it or changes its row, although the deletion of finished tasks removes the rows
  that others still wait on.
\<close>
theorem orphaned_dependent_waits:
  assumes "wf_store (q_store q)" and "get (q_store q) i = Some t" and "status t = Pending"
    and "depends_on t = Some d" and "get (q_store q) d = None"
  shows "get (q_store (fold tick nows q)) i = Some t"
proof -
  have "wf_store (q_store q) \<Longrightarrow> get (q_store q) i = Some t \<Longrightarrow> get (q_store q) d = None \<Longrightarrow>
      get (q_store (fold tick nows q)) i = Some t" for q
    using orphan_tick assms(3,4) by (induction nows arbitrary: q) simp_all
  then show ?thesis using assms by blast
qed

definition orphan_queue :: queue where
  "orphan_queue = demo_queue\<lparr>q_store := snd (delete_finished chain_store)\<rparr>"

text \<open>The orphan arises from the deletion of finished tasks.\<close>

theorem orphaned_dependent_waits_witness:
  "get (q_store (fold tick [10, 11, 12] orphan_queue)) ''b'' = Some (demo_b\<lparr>depends_on := Some ''a''\<rparr>)"
proof (rule orphaned_dependent_waits)
  have r: "rows (q_store orphan_queue) = [demo_b\<lparr>depends_on := Some ''a''\<rparr>]"
    by (simp add: orphan_queue_def delete_finished_def chain_store_def sql_delete_def cancel_row_def
        demo_b_fields Let_def)
  show "wf_store (q_store orphan_queue)"
    using chain_wf by (simp add: orphan_queue_def delete_finished_def Let_def wf_delete)
  show "get (q_store orphan_queue) ''b'' = Some (demo_b\<lparr>depends_on := Some ''a''\<rparr>)"
      "get (q_store orphan_queue) ''a'' = None"
    by (simp_all add: get_def r demo_b_fields)
  show "status (demo_b\<lparr>depends_on := Some ''a''\<rparr>) = Pending"
      "depends_on (demo_b\<lparr>depends_on := Some ''a''\<rparr>) = Some ''a''"
    by (simp_all add: demo_b_fields)
qed

subsection \<open>Parent tasks\<close>

text \<open>
  reporting to a running parent sets its percentage, between 0 and 100, and leaves it running
  until every child is completed, failed or cancelled; then it is failed when all children failed or
  were cancelled, completed when none did, completed with errors otherwise, at 100 percent. A child
  that itself ended completed with errors keeps the parent running.
\<close>
theorem parent_progress_spec:
  assumes "get st p = Some t" and "status t = Running"
  shows "\<exists>u. get (update_parent_progress now p st) p = Some u
    \<and> 0 \<le> progress_percent u \<and> progress_percent u \<le> 100
    \<and> status u =
        (if kids p st = [] \<or> list_ex (\<lambda>k. status k \<notin> {Completed, Failed, Cancelled}) (kids p st) then Running
         else if list_all (\<lambda>k. status k \<in> {Failed, Cancelled}) (kids p st) then Failed
         else if list_ex (\<lambda>k. status k \<in> {Failed, Cancelled}) (kids p st) then CompletedWithErrors
         else Completed)
    \<and> (status u \<noteq> Running \<longrightarrow> progress_percent u = 100)"
proof -
  obtain u where u: "get (update_parent_progress now p st) p = Some u"
      "status u = parent_status (count_children p st)" "progress_percent u = parent_percent (count_children p st)"
    using get_update_parent_running [OF assms, of now] by blast
  have "status u \<noteq> Running \<longrightarrow> progress_percent u = 100"
    using u(2,3) parent_percent_full [of "count_children p st"] by (simp add: parent_status_def split: if_splits)
  moreover have "0 \<le> progress_percent u" "progress_percent u \<le> 100"
    using parent_percent_bounds [OF parent_done_le_total [of p st]] u(3) by simp_all
  ultimately show ?thesis unfolding list_ex_iff list_all_iff
    using u(1) u(2) [unfolded parent_status_kids] by (intro exI [of _ u] conjI)
qed

theorem parent_progress_spec_witness:
  "\<exists>u. get (update_parent_progress 9 ''p'' family_store) ''p'' = Some u \<and> status u = Running"
  using parent_progress_spec [OF family_get, of 9]
  by (auto simp: kids_def family_rows family_anchor_def new_row_def demo_new_def create_status_def)

subsection \<open>The table\<close>

text \<open>
  in every state the queue can reach, whatever the poll loop and the store's other callers do,
  identifiers are distinct, a running row has a start time and a finished row a completion time.
\<close>
theorem table_well_formed:
  assumes "reachable sys_init sys_step s"
  shows "distinct (map task_id (rows (q_store (sq s))))
    \<and> list_all (\<lambda>t. (status t \<noteq> Running \<or> started_at t \<noteq> None)
         \<and> (\<not> finished (status t) \<or> completed_at t \<noteq> None)) (rows (q_store (sq s)))"
  using sys_inv_parts(1) [OF tq.always [OF assms]] by (auto simp: wf_store_def row_ok_def list_all_iff)

theorem table_well_formed_witness:
  "list_all (\<lambda>t. status t \<noteq> Running \<or> started_at t \<noteq> None) (rows (q_store (sq demo_started)))"
  using table_well_formed [OF demo_started_reachable] by (simp add: list_all_iff)

subsection \<open>The end of a task\<close>

text \<open>
  C8: when an executor returns, its row becomes cancelled if the task was cancelled meanwhile,
  otherwise failed with the executor's error (or the unknown-operation message when no executor is
  registered) or completed with at least 100 percent; the task leaves the in-flight map, gives back
  its category lock and no other category's lock moves.
\<close>
theorem task_outcome:
  assumes "get (q_store q) (task_id t) = Some u" and "operation_category (operation t) = c"
    and "execute_and_handle now t err q = q'"
  shows "(\<exists>v. get (q_store q') (task_id t) = Some v \<and> completed_at v = Some now
        \<and> (status v, error_message v) =
            (if was_cancelled q (task_id t) then (Cancelled, None)
             else if operation t \<notin> set (executors q) then (Failed, Some (''unknown operation: '' @ operation t))
             else case err of None \<Rightarrow> (Completed, None) | Some m \<Rightarrow> (Failed, Some m))
        \<and> (status v = Completed \<longrightarrow> 100 \<le> progress_percent v))
    \<and> map_of (running q') (task_id t) = None
    \<and> (c \<noteq> '''' \<longrightarrow> categories q' c \<noteq> Some (task_id t))
    \<and> (\<forall>d. d \<noteq> c \<longrightarrow> categories q' d = categories q d)"
proof -
  obtain s msg where o: "outcome q t err = (s, msg)" by fastforce
  obtain percent info where p: "completion_progress now (q_store q) (task_id t) s = (percent, info)" by fastforce
  let ?st = "finish (task_id t) s msg percent info now (q_store q)"
  let ?v = "finish_row s msg percent info now u"
  have ends: "s \<in> {Cancelled, Completed, Failed}" using outcome_terminal [OF o] .
  have g: "get ?st (task_id t) = Some ?v" using assms(1) by (simp add: get_finish)
  have keep: "get (update_parent_progress now k ?st) (task_id t) = Some ?v" for k
    using g ends get_update_parent_other [of "task_id t" k now ?st]
    by (cases "k = task_id t") (auto simp: update_parent_progress_def finish_row_def)
  have q': "q' = report_parent now t (release t (q\<lparr>q_store := ?st\<rparr>))"
    using assms(3) o p by (simp add: execute_and_handle_def)
  have "get (q_store q') (task_id t) = Some ?v"
    using g keep by (simp add: q' report_parent_def release_def Let_def split: option.split)
  moreover have "status ?v = Completed \<longrightarrow> 100 \<le> progress_percent ?v"
    using p assms(1) by (auto simp: completion_progress_def finish_row_def split: if_splits)
  moreover have "(status ?v, error_message ?v) =
            (if was_cancelled q (task_id t) then (Cancelled, None)
             else if operation t \<notin> set (executors q) then (Failed, Some (''unknown operation: '' @ operation t))
             else case err of None \<Rightarrow> (Completed, None) | Some m \<Rightarrow> (Failed, Some m))"
    using o by (auto simp: finish_row_def outcome_def run_error_def split: option.splits if_splits)
  moreover have "completed_at ?v = Some now" by (simp add: finish_row_def)
  moreover have "map_of (running q') (task_id t) = None" by (simp add: q' release_def Let_def delete_conv')
  moreover have "c \<noteq> '''' \<longrightarrow> categories q' c \<noteq> Some (task_id t)"
    using assms(2) by (auto simp: q' release_def Let_def)
  moreover have "\<forall>d. d \<noteq> c \<longrightarrow> categories q' d = categories q d"
    using assms(2) by (auto simp: q' release_def Let_def)
  ultimately show ?thesis by (intro conjI exI [of _ ?v])
qed

theorem task_outcome_witness:
  "\<exists>v. get (q_store (execute_and_handle 9 demo_b (Some ''boom'') (sq demo_started))) ''b'' = Some v
     \<and> status v = Failed \<and> error_message v = Some ''boom''"
proof -
  have g: "get (q_store (sq demo_started)) ''b'' = Some (running_row 5 demo_b)"
    by (simp add: demo_started_def tick_start_def Let_def mark_running_def started.get_update
        demo_queue_def demo_get_b demo_b_fields)
  have w: "\<not> was_cancelled (sq demo_started) ''b''" "''stop'' \<in> set (executors (sq demo_started))"
    by (simp_all add: was_cancelled_def demo_started_def tick_start_def Let_def demo_queue_def demo_b_fields)
  have op: "operation demo_b = ''stop''" by (simp add: demo_b_def new_row_def demo_new_def)
  show ?thesis
    using task_outcome [of "sq demo_started" demo_b _ _ 9 "Some ''boom''", OF _ refl refl] g w
    by (fastforce simp: demo_b_fields op)
qed

subsection \<open>Output and progress\<close>

text \<open>
  the chunks an executor writes to an open session are what a reader gets while the task runs,
  all of them in full mode and the last \<open>CircularMaxLines\<close> in circular mode, and the same list after
  finalization has moved them to the table; each subscriber is called with every chunk in order, and
  then with the closing entry.
\<close>
theorem output_survives_finalize:
  assumes "0 \<le> circular_max_lines (o_cfg m)" and "sessions m i = None" and "oc_enabled (o_cfg m)"
    and "get (o_store m) i = Some t" and "output_column t = None"
    and "output_subscribe i (output_create i m) = (Some k, m0)"
  shows "\<exists>m'. output_writes i ws m0 = Some m'
    \<and> output_get i m' = Inr (kept (o_cfg m) (map chunk_entry ws))
    \<and> output_get i (output_finalize now i m') = Inr (kept (o_cfg m) (map chunk_entry ws))
    \<and> delivered (output_finalize now i m') =
        delivered m @ map (\<lambda>e. (i, k, e)) (map chunk_entry ws @ [finalize_entry now])"
proof -
  let ?s = "empty_session\<lparr>subscribers := [0], next_sub := 1\<rparr>"
  have m0: "k = 0" "m0 = m\<lparr>sessions := (sessions m)(i \<mapsto> ?s)\<rparr>"
    using assms by (auto simp: output_subscribe_def output_create_def empty_session_def)
  have c0: "0 \<le> circular_max_lines (o_cfg m0)" "sessions m0 i = Some ?s" "os_buffer ?s = kept (o_cfg m0) []"
    using assms(1) by (simp_all add: m0 empty_session_def kept_def)
  obtain m' s' where w: "output_writes i ws m0 = Some m'" "sessions m' i = Some s'" "o_cfg m' = o_cfg m"
      "os_buffer s' = kept (o_cfg m) (map chunk_entry ws)" "subscribers s' = [0]" "o_store m' = o_store m"
      "delivered m' = delivered m @ concat (map (\<lambda>w. map (\<lambda>n. (i, n, chunk_entry w)) [0]) ws)"
    using output_writes_session [OF c0, of ws] by (auto simp: m0)
  have deliv: "delivered m' = delivered m @ map (\<lambda>e. (i, 0, e)) (map chunk_entry ws)"
    unfolding w(7) by (simp add: concat_map_singleton comp_def)
  have "get_output_column i (set_output i b now (o_store m)) = Inr (Some b)" for b
    using assms(4) get_in_rows [OF assms(4)]
    by (simp add: get_output_column_def set_output_def flushed.get_update output_row_def)
  moreover have "get_output_column i (o_store m) = Inr None" using assms(4,5) by (simp add: get_output_column_def)
  ultimately have "output_get i (output_finalize now i m') = Inr (os_buffer s')"
    using w(2,6) by (cases "os_buffer s' = []")
      (simp_all add: output_get_def output_finalize_def Let_def deliver_def persist_def)
  moreover have "delivered (output_finalize now i m') = delivered m' @ [(i, 0, finalize_entry now)]"
    using w(2,5) by (simp add: output_finalize_def Let_def deliver_def persist_def)
  ultimately show ?thesis using w deliv m0(1) by (auto simp: output_get_def)
qed

definition demo_outputs :: outputs where
  "demo_outputs = \<lparr>o_store = demo_store,
     o_cfg = \<lparr>oc_enabled = True, oc_mode = ''circular'', circular_max_lines = 2, persist_log_file = False\<rparr>,
     sessions = (\<lambda>_. None), delivered = [], logged = []\<rparr>"

lemma demo_b_output: "output_column demo_b = None"
  by (simp add: demo_b_def new_row_def)

theorem output_survives_finalize_witness:
  "\<exists>m'. output_writes ''b'' [(1, ''stdout'', ''x''), (2, ''stdout'', ''y''), (3, ''stderr'', ''z'')]
       (snd (output_subscribe ''b'' (output_create ''b'' demo_outputs))) = Some m'
     \<and> output_get ''b'' (output_finalize 4 ''b'' m') =
         Inr [\<lparr>oe_stream = ''stdout'', oe_data = ''y'', oe_timestamp = 2\<rparr>,
              \<lparr>oe_stream = ''stderr'', oe_data = ''z'', oe_timestamp = 3\<rparr>]"
proof -
  let ?ws = "[(1, ''stdout'', ''x''), (2, ''stdout'', ''y''), (3, ''stderr'', ''z'')] :: (time \<times> string \<times> string) list"
  let ?m = "snd (output_subscribe ''b'' (output_create ''b'' demo_outputs))"
  have s: "output_subscribe ''b'' (output_create ''b'' demo_outputs) = (Some 0, ?m)"
    by (simp add: output_subscribe_def output_create_def demo_outputs_def empty_session_def)
  show ?thesis
    using output_survives_finalize [of demo_outputs "''b''" demo_b 0 ?m ?ws 4, OF _ _ _ _ demo_b_output s]
    by (force simp: demo_outputs_def demo_get_b kept_def chunk_entry_def simp del: output_writes.simps)
qed

text \<open>
  A flush that copied the buffer before the last chunks and reaches the table after finalization
  puts the older copy back: the chunks written in between are gone from the stored output.
\<close>
theorem late_flush_loses_output:
  assumes "flush_take True i m = (Some buf, m1)" and "buf \<noteq> []"
    and "output_write now i stream data m1 = Some m2" and "get (o_store m) i = Some t"
  shows "output_get i (persist now'' i buf (output_finalize now' i m2)) = Inr buf"
proof -
  obtain s where s: "sessions m i = Some s" "buf = os_buffer s" "sessions m1 i = Some (s\<lparr>flush_armed := False\<rparr>)"
      "o_store m1 = o_store m"
    using assms(1) by (auto simp: flush_take_def split: option.splits)
  obtain s2 where s2: "sessions m2 i = Some s2" "o_store m2 = o_store m"
    using assms(3) s by (auto simp: output_write_def deliver_def Let_def split: option.splits)
  have row: "\<exists>u. get (o_store (output_finalize now' i m2)) i = Some u"
    using s2 assms(4) by (auto simp: output_finalize_def deliver_def persist_def set_output_def flushed.get_update Let_def)
  then obtain u where u: "get (o_store (output_finalize now' i m2)) i = Some u" by blast
  have none: "sessions (output_finalize now' i m2) i = None"
    using s2(1) by (simp add: output_finalize_def deliver_def persist_def Let_def)
  show ?thesis
    using u none assms(2) get_in_rows [OF u]
    by (simp add: output_get_def persist_def get_output_column_def set_output_def flushed.get_update output_row_def)
qed

definition open_outputs :: outputs where
  "open_outputs = demo_outputs\<lparr>sessions := [''b'' \<mapsto>
     \<lparr>os_buffer = [\<lparr>oe_stream = ''stdout'', oe_data = ''x'', oe_timestamp = 1\<rparr>], subscribers = [],
      next_sub = 0, flush_armed = True, total_size = 1\<rparr>]\<rparr>"

theorem late_flush_loses_output_witness:
  "\<exists>m2. output_write 2 ''b'' ''stdout'' ''y'' (snd (flush_take True ''b'' open_outputs)) = Some m2
     \<and> output_get ''b'' (persist 4 ''b'' [\<lparr>oe_stream = ''stdout'', oe_data = ''x'', oe_timestamp = 1\<rparr>]
           (output_finalize 3 ''b'' m2))
         = Inr [\<lparr>oe_stream = ''stdout'', oe_data = ''x'', oe_timestamp = 1\<rparr>]"
proof -
  let ?e = "\<lparr>oe_stream = ''stdout'', oe_data = ''x'', oe_timestamp = 1\<rparr> :: output_entry"
  let ?m1 = "snd (flush_take True ''b'' open_outputs)"
  have f: "flush_take True ''b'' open_outputs = (Some [?e], ?m1)"
    by (simp add: flush_take_def open_outputs_def)
  obtain m2 where w: "output_write 2 ''b'' ''stdout'' ''y'' ?m1 = Some m2"
    by (simp add: flush_take_def open_outputs_def output_write_def trim_buffer_def demo_outputs_def deliver_def Let_def)
  show ?thesis
    using late_flush_loses_output [OF f _ w, of demo_b 4 3] w demo_get_b
    by (simp add: open_outputs_def demo_outputs_def)
qed

text \<open>
  whatever counts a transfer step reports, in whatever order, a report that follows never lowers
  the percentage, and with whole-number bounds every percentage stays in the step's window; after the
  final report the row carries the largest count reported.
\<close>
theorem transfer_progress_window:
  assumes "lo \<le> hi" and "0 \<le> lo" and "hi \<le> 100"
    and "get st i = Some t"
    and "transfer_sets rs (new_transfer i s (of_int lo) (of_int hi) n, st) = (p, st1)"
    and "transfer_sets rs' (p, st1) = (p', st2)"
    and "transfer_finish now (p', st2) = (p'', st3)"
  shows "transfer_percent p \<le> transfer_percent p'
    \<and> of_int lo \<le> transfer_percent p \<and> transfer_percent p' \<le> of_int hi
    \<and> (\<exists>u. get st3 i = Some u \<and> progress_percent u = transfer_percent p'
         \<and> progress_info u = Some (TransferInfo s (fold max (map snd (rs @ rs')) 0) (if 0 < n then Some n else None)))"
proof -
  let ?p0 = "new_transfer i s (of_int lo) (of_int hi) n"
  have mx: "fold (\<lambda>r m. max m (snd r)) xs m = fold max (map snd xs) m" for xs :: "(time \<times> int) list" and m
    by (induction xs arbitrary: m) (simp_all add: max.commute)
  have up: "m \<le> fold max ys m" for ys :: "int list" and m
    by (induction ys arbitrary: m) (simp, metis fold_simps(2) max.cobounded2 order_trans)
  note f1 = transfer_sets_frame [OF assms(5)] and f2 = transfer_sets_frame [OF assms(6)]
  have r: "tp_received p = fold max (map snd rs) 0" "tp_received p' = fold max (map snd (rs @ rs')) 0"
    using f1 f2 by (simp_all add: mx new_transfer_def)
  have le: "0 \<le> tp_received p" "tp_received p \<le> tp_received p'" using up by (simp_all add: r)
  have fr: "tp_floor p = of_int lo" "tp_ceil p = of_int hi" "tp_floor p' = of_int lo" "tp_ceil p' = of_int hi"
      "tp_total p = n" "tp_total p' = n" "tp_task p' = i" "tp_status p' = s"
    using f1 f2 by (simp_all add: new_transfer_def)
  have "transfer_percent p \<le> transfer_percent p'"
    using le(2) assms(1) by (intro percent_mono) (simp_all add: fr)
  moreover have "of_int lo \<le> transfer_percent p" using percent_window [of p lo hi] le assms(1-3) by (simp add: fr)
  moreover have "transfer_percent p' \<le> of_int hi" using percent_window [of p' lo hi] le assms(1-3) by (simp add: fr)
  moreover obtain t2 where t2: "get st2 i = Some t2"
    using transfer_sets_get [OF assms(4), of rs ?p0] transfer_sets_get [of st1 i _ rs' p] assms(5,6) by auto
  moreover have "get st3 i = Some (progress_row (transfer_percent p') (Some (transfer_doc p')) now t2)"
    using assms(7) t2 by (auto simp: transfer_finish_def transfer_emit_def fr get_update_progress)
  ultimately show ?thesis using r by (simp add: progress_row_def transfer_doc_def fr)
qed

theorem transfer_progress_window_witness:
  "\<exists>u. get (snd (transfer_finish 3 (transfer_sets [(2, 100)]
        (transfer_sets [(1, 40), (1, 20)] (new_transfer ''b'' ''uploading'' (of_int 10) (of_int 90) 100, demo_store))))) ''b''
        = Some u \<and> progress_info u = Some (TransferInfo ''uploading'' 100 (Some 100))"
proof -
  let ?a = "transfer_sets [(1, 40), (1, 20)] (new_transfer ''b'' ''uploading'' (of_int 10) (of_int 90) 100, demo_store)"
  let ?b = "transfer_sets [(2, 100)] ?a" and ?rs = "[(1, 40), (1, 20)] :: (time \<times> int) list"
  show ?thesis
    using transfer_progress_window [of 10 90 demo_store "''b''" demo_b ?rs "''uploading''" 100
        "fst ?a" "snd ?a" "[(2, 100)]" "fst ?b" "snd ?b" 3 "fst (transfer_finish 3 ?b)" "snd (transfer_finish 3 ?b)"]
      demo_get_b
    by auto
qed

end
