(* ===== verification/Json.thy ===== *)
theory Json
  imports Prelude Float64 "HOL-Library.AList"
begin

text \<open>
  Parsed YAML and JSON documents (Go's \<^verbatim>\<open>any\<close> built from \<^verbatim>\<open>map[string]any\<close>, \<^verbatim>\<open>[]any\<close>, strings,
  int64, float64, bool and nil). An object is an association list; Go's maps have no order, so an
  object stands for its lookup function, and what the code prints from a map it sorts by key. Strings
  are UTF-8 bytes. A float is a finite float64.

  The parts of the Go standard library that have a grammar of their own are a parameter, \<open>go_env\<close>:
  compiled regular expressions, float parsing and printing, URL parsing.
\<close>

datatype json =
    JNull
  | JBool bool
  | JInt int
  | JFloat float64
  | JStr string
  | JArr "json list"
  | JObj "(string \<times> json) list"

type_synonym obj = "(string \<times> json) list"

record go_env =
  regexp_compile :: "string \<Rightarrow> (string \<Rightarrow> bool) option"
  parse_float :: "string \<Rightarrow> float64 option"
  url_scheme :: "string \<Rightarrow> string option"
  float_plain :: "float64 \<Rightarrow> string"
  float_json :: "float64 \<Rightarrow> string"

subsection \<open>Objects\<close>

text \<open>Indexing a map gives nil for a missing key, and a type assertion that fails gives a nil map.\<close>

definition field :: "obj \<Rightarrow> string \<Rightarrow> json" where
  "field m k = (case map_of m k of None \<Rightarrow> JNull | Some v \<Rightarrow> v)"

fun as_obj :: "json \<Rightarrow> obj option" where
  "as_obj (JObj m) = Some m"
| "as_obj _ = None"

fun as_str :: "json \<Rightarrow> string option" where
  "as_str (JStr s) = Some s"
| "as_str _ = None"

fun as_arr :: "json \<Rightarrow> json list option" where
  "as_arr (JArr xs) = Some xs"
| "as_arr _ = None"

definition obj_of :: "json \<Rightarrow> obj" where
  "obj_of v = opt_default [] (as_obj v)"

definition arr_of :: "json \<Rightarrow> json list" where
  "arr_of v = opt_default [] (as_arr v)"

definition has :: "obj \<Rightarrow> string \<Rightarrow> bool" where
  "has m k \<longleftrightarrow> map_of m k \<noteq> None"

lemma obj_of_simps [simp]: "obj_of (JObj m) = m" "as_obj v = None \<Longrightarrow> obj_of v = []"
  by (simp_all add: obj_of_def)

lemma field_Nil [simp]: "field [] k = JNull"
  by (simp add: field_def)

lemma field_update: "field (AList.update k v m) j = (if j = k then v else field m j)"
  by (simp add: field_def update_conv')

lemma field_delete: "field (AList.delete k m) j = (if j = k then JNull else field m j)"
  by (simp add: field_def delete_conv')

lemma has_update [simp]: "has (AList.update k v m) j \<longleftrightarrow> j = k \<or> has m j"
  by (simp add: has_def update_conv')

lemma has_delete [simp]: "has (AList.delete k m) j \<longleftrightarrow> j \<noteq> k \<and> has m j"
  by (simp add: has_def delete_conv')

lemma update_present: "map_of m k = Some v \<Longrightarrow> AList.update k v m = m"
  by (induction m) (auto split: if_splits)

lemma delete_absent: "map_of m k = None \<Longrightarrow> AList.delete k m = m"
  by (induction m) (auto split: if_splits)

text \<open>Objects whose keys are distinct at every level, as a Go map's are.\<close>

fun wf_json :: "json \<Rightarrow> bool" where
  "wf_json (JArr xs) = list_all wf_json xs"
| "wf_json (JObj m) = (distinct (map fst m) \<and> list_all (\<lambda>(k, v). wf_json v) m)"
| "wf_json _ = True"

lemma wf_field: "wf_json (JObj m) \<Longrightarrow> wf_json (field m k)"
  by (auto simp: field_def list_all_iff dest: map_of_SomeD split: option.split)

lemma size_field: "map_of m k = Some v \<Longrightarrow> size v < size (JObj m)"
  by (induction m) (auto split: if_splits)

subsection \<open>Printing numbers\<close>

function nat_text :: "nat \<Rightarrow> string" where
  "nat_text n = (if n < 10 then [char_of (48 + n)] else nat_text (n div 10) @ [char_of (48 + n mod 10)])"
  by pat_completeness auto
termination by (relation "measure id") auto

declare nat_text.simps [simp del]

definition int_text :: "int \<Rightarrow> string" where
  "int_text i = (if i < 0 then CHR ''-'' # nat_text (nat (- i)) else nat_text (nat i))"

definition digit_char :: "char \<Rightarrow> bool" where
  "digit_char c \<longleftrightarrow> 48 \<le> (of_char c :: nat) \<and> (of_char c :: nat) \<le> 57"

definition digits_value :: "string \<Rightarrow> nat" where
  "digits_value = foldl (\<lambda>n c. 10 * n + (of_char c - 48)) 0"

lemma nat_text_digits: "nat_text n \<noteq> [] \<and> list_all digit_char (nat_text n)"
proof (induction n rule: nat_text.induct)
  case (1 n)
  have d: "digit_char (char_of (48 + d))" if "d < 10" for d :: nat
    using that by (simp add: digit_char_def of_char_of)
  show ?case using 1 d [of n] d [of "n mod 10"] nat_text.simps [of n] by simp
qed

lemma digits_value_nat_text: "digits_value (nat_text n) = n"
proof (induction n rule: nat_text.induct)
  case (1 n)
  then show ?case
    by (subst nat_text.simps) (auto simp: digits_value_def of_char_of)
qed

lemma int_text_inject: "int_text i = int_text j \<longleftrightarrow> i = j"
proof -
  have h: "hd (nat_text n) \<noteq> CHR ''-''" for n
    using nat_text_digits [of n] by (cases "nat_text n") (auto simp: digit_char_def)
  have n: "nat_text a = nat_text b \<Longrightarrow> a = b" for a b
    using digits_value_nat_text by metis
  show ?thesis
    using h n [of "nat i" "nat j"] n [of "nat (- i)" "nat (- j)"] by (auto simp: int_text_def) (metis list.sel(1))+
qed

subsection \<open>Runes\<close>

text \<open>
  The number of bytes Go's decoder takes for the first rune of a non-empty string: 1 for ASCII and
  for a byte that starts no valid UTF-8 sequence (the second component tells them apart).
\<close>

definition cont_byte :: "nat \<Rightarrow> nat \<Rightarrow> char \<Rightarrow> bool" where
  "cont_byte lo hi c \<longleftrightarrow> lo \<le> of_char c \<and> of_char c \<le> hi"

definition multi_width :: "nat \<Rightarrow> string \<Rightarrow> nat option" where
  "multi_width b t =
    (let n = (if 0xC2 \<le> b \<and> b \<le> 0xDF then 2 else if 0xE0 \<le> b \<and> b \<le> 0xEF then 3
              else if 0xF0 \<le> b \<and> b \<le> 0xF4 then 4 else 0);
         lo = (if b = 0xE0 then 0xA0 else if b = 0xF0 then 0x90 else 0x80);
         hi = (if b = 0xED then 0x9F else if b = 0xF4 then 0x8F else 0xBF)
     in if 0 < n \<and> n - 1 \<le> length t \<and> cont_byte lo hi (hd t)
           \<and> list_all (cont_byte 0x80 0xBF) (take (n - 2) (tl t)) then Some n else None)"

fun rune_width :: "string \<Rightarrow> nat \<times> bool" where
  "rune_width [] = (1, False)"
| "rune_width (c # t) =
    (if of_char c < (0x80 :: nat) then (1, True)
     else case multi_width (of_char c) t of Some n \<Rightarrow> (n, True) | None \<Rightarrow> (1, False))"

lemma rune_width_pos: "0 < fst (rune_width s)"
proof -
  have "multi_width b t = Some n \<Longrightarrow> 0 < n" for b t n
    unfolding multi_width_def Let_def by (metis option.distinct(1) option.inject)
  then show ?thesis by (cases s) (simp_all split: option.split)
qed

text \<open>\<^verbatim>\<open>[]rune(s)\<close>, as the list of the runes' bytes.\<close>

function runes :: "string \<Rightarrow> string list" where
  "runes s = (if s = [] then [] else take (fst (rune_width s)) s # runes (drop (fst (rune_width s)) s))"
  by pat_completeness auto
termination by (relation "measure length") (use rune_width_pos in auto)

declare runes.simps [simp del]

lemma concat_runes: "concat (runes s) = s"
proof (induction s rule: runes.induct)
  case (1 s)
  then show ?case by (subst runes.simps) simp
qed

text \<open>\<^verbatim>\<open>unicode.IsSpace\<close> on a rune's bytes, and the test \<^verbatim>\<open>strings.TrimSpace(s) == ""\<close>.\<close>

definition space_rune :: "string \<Rightarrow> bool" where
  "space_rune r \<longleftrightarrow>
     (let b = map of_char r :: nat list
      in b \<in> {[9], [10], [11], [12], [13], [32], [0xC2, 0x85], [0xC2, 0xA0], [0xE1, 0x9A, 0x80],
              [0xE2, 0x80, 0xA8], [0xE2, 0x80, 0xA9], [0xE2, 0x80, 0xAF], [0xE2, 0x81, 0x9F], [0xE3, 0x80, 0x80]}
         \<or> (length b = 3 \<and> b ! 0 = 0xE2 \<and> b ! 1 = 0x80 \<and> 0x80 \<le> b ! 2 \<and> b ! 2 \<le> 0x8A))"

definition trim_space :: "string \<Rightarrow> string" where
  "trim_space s = concat (rev (dropWhile space_rune (rev (dropWhile space_rune (runes s)))))"

definition blank_text :: "string \<Rightarrow> bool" where
  "blank_text s \<longleftrightarrow> trim_space s = []"

subsection \<open>JSON text\<close>

definition hex4 :: "nat \<Rightarrow> string" where
  "hex4 n = (let h = (\<lambda>d. char_of (if d < 10 then 48 + d else 87 + d))
     in [h (n div 4096 mod 16), h (n div 256 mod 16), h (n div 16 mod 16), h (n mod 16)])"

definition json_rune :: "string \<Rightarrow> string" where
  "json_rune r =
    (if \<not> snd (rune_width r) then [CHR 0x5C, CHR ''u''] @ hex4 0xFFFD
     else if r = [CHR 0x22] \<or> r = [CHR 0x5C] then CHR 0x5C # r
     else if r = [CHR 0x08] then [CHR 0x5C, CHR ''b'']
     else if r = [CHR 0x0C] then [CHR 0x5C, CHR ''f'']
     else if r = [CHR 0x0A] then [CHR 0x5C, CHR ''n'']
     else if r = [CHR 0x0D] then [CHR 0x5C, CHR ''r'']
     else if r = [CHR 0x09] then [CHR 0x5C, CHR ''t'']
     else if length r = 1 \<and> (of_char (hd r) < (0x20 :: nat) \<or> hd r \<in> {CHR ''<'', CHR ''>'', CHR ''&''})
       then [CHR 0x5C, CHR ''u''] @ hex4 (of_char (hd r))
     else if map of_char r = [0xE2, 0x80, 0xA8 :: nat] then [CHR 0x5C, CHR ''u''] @ hex4 0x2028
     else if map of_char r = [0xE2, 0x80, 0xA9 :: nat] then [CHR 0x5C, CHR ''u''] @ hex4 0x2029
     else r)"

definition json_string :: "string \<Rightarrow> string" where
  "json_string s = [CHR 0x22] @ concat (map json_rune (runes s)) @ [CHR 0x22]"

fun join_with :: "string \<Rightarrow> string list \<Rightarrow> string" where
  "join_with sep [] = []"
| "join_with sep [x] = x"
| "join_with sep (x # y # xs) = x @ sep @ join_with sep (y # xs)"

text \<open>\<^verbatim>\<open>json.Marshal\<close>: object keys in byte order.\<close>

fun marshal :: "go_env \<Rightarrow> json \<Rightarrow> string" where
  "marshal g JNull = ''null''"
| "marshal g (JBool b) = (if b then ''true'' else ''false'')"
| "marshal g (JInt i) = int_text i"
| "marshal g (JFloat x) = float_json g x"
| "marshal g (JStr s) = json_string s"
| "marshal g (JArr xs) = ''['' @ join_with '','' (map (marshal g) xs) @ '']''"
| "marshal g (JObj m) =
    ''{'' @ join_with '','' (map (\<lambda>(k, t). json_string k @ '':'' @ t)
      (sort_key fst (map (\<lambda>(k, v). (k, marshal g v)) m))) @ ''}''"

definition json_same :: "go_env \<Rightarrow> json \<Rightarrow> json \<Rightarrow> bool" where
  "json_same g a b \<longleftrightarrow> marshal g a = marshal g b"

subsection \<open>64-bit integers\<close>

definition int64_ok :: "int \<Rightarrow> bool" where
  "int64_ok n \<longleftrightarrow> - (2 ^ 63) \<le> n \<and> n < 2 ^ 63"

text \<open>\<^verbatim>\<open>strconv.ParseInt(s, 10, 64)\<close>.\<close>

definition parse_int64 :: "string \<Rightarrow> int option" where
  "parse_int64 s =
    (let neg = (s \<noteq> [] \<and> hd s = CHR ''-''); signed = (s \<noteq> [] \<and> (hd s = CHR ''-'' \<or> hd s = CHR ''+''));
         ds = (if signed then tl s else s); n = int (digits_value ds); v = (if neg then - n else n)
     in if ds = [] \<or> \<not> list_all digit_char ds \<or> \<not> int64_ok v then None else Some v)"

end
