(* ===== verification/Validation.thy ===== *)
theory Validation
  imports Json
begin

text \<open>
  The schema evaluator (\<^verbatim>\<open>internal/validation\<close>): one value against one schema node, answering the
  first rule that fails, and an object against an object schema, answering one entry per failing
  property. References are resolved one level at a time against the document; a schema may refer to
  itself, so the recursive definitions take fuel, and \<open>None\<close> is a recursion that ran out of it.
\<close>

record problem =
  pe_pointer :: string
  pe_rule :: string
  pe_params :: obj

definition failure :: "string \<Rightarrow> obj \<Rightarrow> problem" where
  "failure r params = \<lparr>pe_pointer = '''', pe_rule = r, pe_params = params\<rparr>"

subsection \<open>Formats\<close>

fun split_char :: "char \<Rightarrow> string \<Rightarrow> string list" where
  "split_char c [] = [[]]"
| "split_char c (x # xs) =
    (if x = c then [] # split_char c xs else (x # hd (split_char c xs)) # tl (split_char c xs))"

definition alnum :: "char \<Rightarrow> bool" where
  "alnum c \<longleftrightarrow> digit_char c \<or> (CHR ''a'' \<le> c \<and> c \<le> CHR ''z'') \<or> (CHR ''A'' \<le> c \<and> c \<le> CHR ''Z'')"

definition host_label :: "string \<Rightarrow> bool" where
  "host_label l \<longleftrightarrow> l \<noteq> [] \<and> length l \<le> 63 \<and> alnum (hd l) \<and> alnum (last l)
     \<and> list_all (\<lambda>c. alnum c \<or> c = CHR ''-'') l"

definition hostname_ok :: "string \<Rightarrow> bool" where
  "hostname_ok v \<longleftrightarrow> list_all host_label (split_char CHR ''.'' v)"

definition email_ok :: "string \<Rightarrow> bool" where
  "email_ok v \<longleftrightarrow>
     (let local = takeWhile (\<lambda>c. c \<noteq> CHR ''@'') v; rest = dropWhile (\<lambda>c. c \<noteq> CHR ''@'') v
      in local \<noteq> [] \<and> list_all (\<lambda>c. alnum c \<or> c \<in> set ''.!#$%&*+/=?^_`{|}~-'' \<or> c = CHR 0x27) local
         \<and> rest \<noteq> [] \<and> hostname_ok (tl rest))"

definition octet_ok :: "string \<Rightarrow> bool" where
  "octet_ok p \<longleftrightarrow> 1 \<le> length p \<and> length p \<le> 3 \<and> list_all digit_char p \<and> digits_value p \<le> 255"

definition ipv4_ok :: "string \<Rightarrow> bool" where
  "ipv4_ok v \<longleftrightarrow> length (split_char CHR ''.'' v) = 4 \<and> list_all octet_ok (split_char CHR ''.'' v)"

definition date_ok :: "string \<Rightarrow> bool" where
  "date_ok v \<longleftrightarrow> map length (split_char CHR ''-'' v) = [4, 2, 2]
     \<and> list_all (list_all digit_char) (split_char CHR ''-'' v)"

definition uri_ok :: "go_env \<Rightarrow> string \<Rightarrow> bool" where
  "uri_ok g v \<longleftrightarrow> (case url_scheme g v of None \<Rightarrow> False | Some s \<Rightarrow> s \<noteq> '''')"

definition format_of :: "go_env \<Rightarrow> string \<Rightarrow> (string \<Rightarrow> bool) option" where
  "format_of g name = map_of
    [(''email'', email_ok), (''uri'', uri_ok g), (''hostname'', \<lambda>v. length v \<le> 255 \<and> hostname_ok v),
     (''ipv4'', ipv4_ok), (''date'', date_ok)] name"

subsection \<open>Types and numbers\<close>

fun integer_text :: "string \<Rightarrow> bool" where
  "integer_text (c # s) = (if c = CHR ''-'' then s \<noteq> [] \<and> list_all digit_char s
     else list_all digit_char (c # s))"
| "integer_text [] = False"

definition number_text :: "string \<Rightarrow> bool" where
  "number_text s \<longleftrightarrow>
     (let parts = split_char CHR ''.'' s
      in integer_text (hd parts) \<and> (tl parts = [] \<or>
           (length parts = 2 \<and> parts ! 1 \<noteq> [] \<and> list_all digit_char (parts ! 1))))"

fun as_number :: "go_env \<Rightarrow> json \<Rightarrow> float64 option" where
  "as_number g (JFloat x) = Some x"
| "as_number g (JInt i) = Some (round64 (of_int i))"
| "as_number g (JStr s) = parse_float g s"
| "as_number g _ = None"

fun is_integer :: "json \<Rightarrow> bool" where
  "is_integer (JInt i) = True"
| "is_integer (JFloat x) = (x = of_int (floor x))"
| "is_integer (JStr s) = integer_text s"
| "is_integer _ = False"

fun is_number :: "json \<Rightarrow> bool" where
  "is_number (JStr s) = number_text s"
| "is_number (JInt i) = True"
| "is_number (JFloat x) = True"
| "is_number _ = False"

definition type_ok :: "string \<Rightarrow> json \<Rightarrow> bool" where
  "type_ok t v =
    (if t = ''string'' then as_str v \<noteq> None
     else if t = ''integer'' then is_integer v
     else if t = ''number'' then is_number v
     else if t = ''boolean'' then (case v of JBool _ \<Rightarrow> True | _ \<Rightarrow> False)
     else if t = ''array'' then as_arr v \<noteq> None
     else if t = ''object'' then as_obj v \<noteq> None
     else True)"

definition str_of :: "obj \<Rightarrow> string \<Rightarrow> string option" where
  "str_of schema k = as_str (field schema k)"

definition num_of :: "go_env \<Rightarrow> obj \<Rightarrow> string \<Rightarrow> float64 option" where
  "num_of g schema k = (case map_of schema k of None \<Rightarrow> None | Some v \<Rightarrow> as_number g v)"

subsection \<open>The checks\<close>

definition type_check :: "obj \<Rightarrow> json \<Rightarrow> problem option" where
  "type_check rule v =
    (case str_of rule ''type'' of None \<Rightarrow> None
     | Some t \<Rightarrow> if type_ok t v then None else Some (failure ''type'' [(''type'', JStr t)]))"

definition non_blank_pattern :: string where
  "non_blank_pattern = [CHR 0x5C, CHR ''S'']"

definition non_blank_check :: "obj \<Rightarrow> json \<Rightarrow> problem option" where
  "non_blank_check rule v =
    (case as_str v of
       Some s \<Rightarrow> if str_of rule ''pattern'' = Some non_blank_pattern \<and> blank_text s
                 then Some (failure ''pattern'' [(''pattern'', JStr ''nonBlank'')]) else None
     | None \<Rightarrow> None)"

text \<open>The two bounds of a rule, the lower one first.\<close>

definition range_check :: "go_env \<Rightarrow> string \<Rightarrow> string \<Rightarrow> obj \<Rightarrow> float64 \<Rightarrow> problem option" where
  "range_check g lower upper rule x =
    (let above = (case num_of g rule upper of
           Some hi \<Rightarrow> if hi < x then Some (failure upper [(upper, JFloat hi)]) else None
         | None \<Rightarrow> None)
     in case num_of g rule lower of
          Some lo \<Rightarrow> if x < lo then Some (failure lower [(lower, JFloat lo)]) else above
        | None \<Rightarrow> above)"

definition length_check :: "go_env \<Rightarrow> obj \<Rightarrow> json \<Rightarrow> problem option" where
  "length_check g rule v =
    (case as_str v of None \<Rightarrow> None
     | Some s \<Rightarrow> range_check g ''minLength'' ''maxLength'' rule (of_nat (length (runes s))))"

definition pattern_check :: "go_env \<Rightarrow> string \<Rightarrow> obj \<Rightarrow> json \<Rightarrow> problem option" where
  "pattern_check g pattern_name rule v =
    (case (as_str v, str_of rule ''pattern'') of
       (Some s, Some p) \<Rightarrow>
         (case regexp_compile g p of
            None \<Rightarrow> None
          | Some matches_re \<Rightarrow>
              if matches_re s then None
              else Some (failure ''pattern'' [(''pattern'', JStr
                (if pattern_name \<noteq> '''' then pattern_name
                 else if p = non_blank_pattern then ''nonBlank'' else p))]))
     | _ \<Rightarrow> None)"

definition bounds_check :: "go_env \<Rightarrow> obj \<Rightarrow> json \<Rightarrow> problem option" where
  "bounds_check g rule v =
    (case as_number g v of None \<Rightarrow> None | Some x \<Rightarrow> range_check g ''minimum'' ''maximum'' rule x)"

fun string_of :: "go_env \<Rightarrow> json \<Rightarrow> string" where
  "string_of g (JStr s) = s"
| "string_of g (JFloat x) = float_plain g x"
| "string_of g (JBool b) = (if b then ''true'' else ''false'')"
| "string_of g v = marshal g v"

definition enum_check :: "go_env \<Rightarrow> obj \<Rightarrow> json \<Rightarrow> problem option" where
  "enum_check g rule v =
    (case as_arr (field rule ''enum'') of
       None \<Rightarrow> None
     | Some options \<Rightarrow>
         if string_of g v \<in> set (map (string_of g) options) then None
         else Some (failure ''enum'' [(''enum'', JStr (join_with '', '' (map (string_of g) options)))]))"

definition format_check :: "go_env \<Rightarrow> obj \<Rightarrow> json \<Rightarrow> problem option" where
  "format_check g rule v =
    (case (as_str v, str_of rule ''format'') of
       (Some s, Some f) \<Rightarrow>
         (case format_of g f of
            None \<Rightarrow> None
          | Some ok \<Rightarrow> if ok s then None else Some (failure ''format'' [(''format'', JStr f)]))
     | _ \<Rightarrow> None)"

definition items_check :: "go_env \<Rightarrow> obj \<Rightarrow> json \<Rightarrow> problem option" where
  "items_check g rule v =
    (case as_arr v of None \<Rightarrow> None
     | Some xs \<Rightarrow> range_check g ''minItems'' ''maxItems'' rule (of_nat (length xs)))"

definition checks_for :: "go_env \<Rightarrow> string \<Rightarrow> json \<Rightarrow> (obj \<Rightarrow> json \<Rightarrow> problem option) list" where
  "checks_for g pattern_name v =
    [type_check, non_blank_check, length_check g, pattern_check g pattern_name] @
    (if v = JStr '''' then [] else [bounds_check g, enum_check g, format_check g, items_check g])"

fun first_check :: "(obj \<Rightarrow> json \<Rightarrow> problem option) list \<Rightarrow> obj \<Rightarrow> json \<Rightarrow> problem option" where
  "first_check [] rule v = None"
| "first_check (c # cs) rule v = (case c rule v of Some f \<Rightarrow> Some f | None \<Rightarrow> first_check cs rule v)"

subsection \<open>References\<close>

fun walk_ref :: "string list \<Rightarrow> json \<Rightarrow> json option" where
  "walk_ref [] node = Some node"
| "walk_ref (s # segs) node = (case as_obj node of None \<Rightarrow> None | Some m \<Rightarrow> walk_ref segs (field m s))"

definition ref_target :: "string \<Rightarrow> obj \<Rightarrow> obj option \<times> string" where
  "ref_target ref document =
    (if take 2 ref \<noteq> ''#/'' then (None, '''')
     else
       let segs = split_char CHR ''/'' (drop 2 ref)
       in case Option.bind (walk_ref segs (JObj document)) as_obj of
            None \<Rightarrow> (None, '''')
          | Some target \<Rightarrow>
              (Some target, if hd segs = ''$defs'' \<and> 1 < length segs then segs ! 1 else ''''))"

definition put_all :: "obj \<Rightarrow> obj \<Rightarrow> obj" where
  "put_all m entries = fold (\<lambda>(k, v). AList.update k v) entries m"

definition resolve :: "obj \<Rightarrow> obj \<Rightarrow> obj \<times> string" where
  "resolve schema document =
    (case str_of schema ''$ref'' of
       None \<Rightarrow> (schema, '''')
     | Some ref \<Rightarrow>
         (let (target, name) = ref_target ref document
          in (put_all (opt_default [] target) (filter (\<lambda>(k, _). k \<noteq> ''$ref'') schema), name)))"

subsection \<open>One value\<close>

text \<open>
  \<open>first_failure\<close> runs the checks of the value's kind, then the branches of \<open>allOf\<close>, then \<open>not\<close>. The
  recursive calls go through \<open>subschema_failure\<close>, which resolves the branch's reference; the three
  helpers take the evaluator they call as their first argument.
\<close>

type_synonym evaluator = "obj \<Rightarrow> json \<Rightarrow> string \<Rightarrow> obj \<Rightarrow> problem option option"

definition subschema_failure :: "evaluator \<Rightarrow> evaluator" where
  "subschema_failure ff schema v name document =
    (let (inner, inner_name) = resolve schema document
     in ff inner v (if inner_name = '''' then name else inner_name) document)"

fun all_of_check :: "evaluator \<Rightarrow> json list \<Rightarrow> json \<Rightarrow> string \<Rightarrow> obj \<Rightarrow> problem option option" where
  "all_of_check ff [] v name document = Some None"
| "all_of_check ff (b # bs) v name document =
    (case as_obj b of
       None \<Rightarrow> all_of_check ff bs v name document
     | Some schema \<Rightarrow>
         (case subschema_failure ff schema v name document of
            None \<Rightarrow> None
          | Some (Some f) \<Rightarrow> Some (Some f)
          | Some None \<Rightarrow> all_of_check ff bs v name document))"

definition not_check :: "evaluator \<Rightarrow> evaluator" where
  "not_check ff rule v name document =
    (case as_obj (field rule ''not'') of
       None \<Rightarrow> Some None
     | Some schema \<Rightarrow>
         (case subschema_failure ff schema v name document of
            None \<Rightarrow> None
          | Some (Some _) \<Rightarrow> Some None
          | Some None \<Rightarrow>
              Some (Some (if name \<noteq> '''' then failure ''pattern'' [(''pattern'', JStr name)]
                          else failure ''not'' []))))"

primrec first_failure :: "nat \<Rightarrow> go_env \<Rightarrow> evaluator" where
  "first_failure 0 g = (\<lambda>rule v name document. None)"
| "first_failure (Suc n) g = (\<lambda>rule v name document.
    case first_check (checks_for g name v) rule v of
       Some f \<Rightarrow> Some (Some f)
     | None \<Rightarrow>
         (case all_of_check (first_failure n g) (arr_of (field rule ''allOf'')) v name document of
            None \<Rightarrow> None
          | Some (Some f) \<Rightarrow> Some (Some f)
          | Some None \<Rightarrow> not_check (first_failure n g) rule v name document))"

definition value_errors :: "nat \<Rightarrow> go_env \<Rightarrow> obj \<Rightarrow> json \<Rightarrow> obj \<Rightarrow> problem list option" where
  "value_errors n g schema v document =
    (let (rule, name) = resolve schema document
     in if v = JNull
        then Some (if field rule ''required'' = JBool True then [failure ''required'' []] else [])
        else case first_failure n g rule v name document of
               None \<Rightarrow> None
             | Some None \<Rightarrow> Some []
             | Some (Some f) \<Rightarrow> Some [f\<lparr>pe_pointer := ''''\<rparr>])"

subsection \<open>Visibility and required names\<close>

text \<open>
  The scopes are the maps of the enclosing objects, the innermost first; a nil map is \<open>None\<close> and is
  passed over.
\<close>

fun scoped_value :: "obj option list \<Rightarrow> string \<Rightarrow> json" where
  "scoped_value [] k = JNull"
| "scoped_value (None # ss) k = scoped_value ss k"
| "scoped_value (Some m # ss) k = (if has m k then field m k else scoped_value ss k)"

definition visible :: "go_env \<Rightarrow> obj \<Rightarrow> obj option list \<Rightarrow> bool" where
  "visible g rule scopes =
    (case str_of rule ''dependsOn'' of
       None \<Rightarrow> True
     | Some k \<Rightarrow> list_ex (\<lambda>o'. json_same g o' (scoped_value scopes k)) (arr_of (field rule ''showWhen'')))"

definition passes_if :: "go_env \<Rightarrow> obj option \<Rightarrow> obj \<Rightarrow> bool" where
  "passes_if g condition values =
    (case condition of
       None \<Rightarrow> False
     | Some c \<Rightarrow>
         list_all (\<lambda>name. field values (opt_default '''' (as_str name)) \<noteq> JNull) (arr_of (field c ''required''))
         \<and> list_all (\<lambda>(name, raw). case as_obj raw of
               None \<Rightarrow> True
             | Some rule \<Rightarrow> \<not> has rule ''const'' \<or> json_same g (field values name) (field rule ''const''))
           (obj_of (field c ''properties'')))"

definition names_in :: "json \<Rightarrow> string list" where
  "names_in v = List.map_filter as_str (arr_of v)"

definition required_of :: "go_env \<Rightarrow> obj \<Rightarrow> obj \<Rightarrow> string list" where
  "required_of g schema values =
    names_in (field schema ''required'')
    @ concat (map (\<lambda>(k, needs). if field values k = JNull \<or> field values k = JBool False then [] else names_in needs)
        (obj_of (field schema ''dependentRequired'')))
    @ (if passes_if g (as_obj (field schema ''if'')) values
       then names_in (field (obj_of (field schema ''then'')) ''required'') else [])"

subsection \<open>One object\<close>

definition escape :: "string \<Rightarrow> string" where
  "escape s = concat (map (\<lambda>c. if c = CHR ''~'' then ''~0'' else if c = CHR ''/'' then ''~1'' else [c]) s)"

definition child_pointer :: "string \<Rightarrow> string \<Rightarrow> string" where
  "child_pointer base k = base @ ''/'' @ escape k"

fun collect :: "('a \<Rightarrow> 'b list option) \<Rightarrow> 'a list \<Rightarrow> 'b list option" where
  "collect f [] = Some []"
| "collect f (x # xs) =
    (case f x of None \<Rightarrow> None | Some ys \<Rightarrow> (case collect f xs of None \<Rightarrow> None | Some zs \<Rightarrow> Some (ys @ zs)))"

definition at_pointer :: "string \<Rightarrow> problem list \<Rightarrow> problem list" where
  "at_pointer p es = map (\<lambda>e. e\<lparr>pe_pointer := p\<rparr>) es"

text \<open>The walk of a nested object, a map of objects or of values, and one property.\<close>

type_synonym walker = "obj \<Rightarrow> obj \<Rightarrow> obj option list \<Rightarrow> string \<Rightarrow> obj \<Rightarrow> problem list option"

definition walk_map :: "walker \<Rightarrow> (obj \<Rightarrow> json \<Rightarrow> obj \<Rightarrow> problem list option) \<Rightarrow> walker" where
  "walk_map wo ve item entries scopes base document =
    collect (\<lambda>(key, entry).
        if has item ''properties'' then
          wo item (obj_of entry) (Some (obj_of entry) # scopes) (child_pointer base key) document
        else map_option (at_pointer (child_pointer base key)) (ve item entry document))
      entries"

definition walk_property :: "walker \<Rightarrow> (obj \<Rightarrow> json \<Rightarrow> obj \<Rightarrow> problem list option) \<Rightarrow> go_env \<Rightarrow>
    string list \<Rightarrow> obj \<Rightarrow> obj option list \<Rightarrow> string \<Rightarrow> obj \<Rightarrow> string \<times> json \<Rightarrow> problem list option" where
  "walk_property wo ve g required values scopes base document = (\<lambda>(name, raw).
    case as_obj raw of
      None \<Rightarrow> Some []
    | Some property \<Rightarrow>
        let rule = fst (resolve property document); value = field values name;
            pointer = child_pointer base name
        in if \<not> visible g rule scopes then Some []
           else if has rule ''properties'' then
             wo rule (obj_of value) (Some (obj_of value) # scopes) pointer document
           else
             (case as_obj (field rule ''additionalProperties'') of
                Some additional \<Rightarrow>
                  walk_map wo ve (fst (resolve additional document)) (obj_of value)
                    (as_obj value # scopes) pointer document
              | None \<Rightarrow>
                  map_option (at_pointer pointer)
                    (ve (AList.update ''required'' (JBool (name \<in> set required)) property) value document)))"

primrec walk_object :: "nat \<Rightarrow> go_env \<Rightarrow> walker" where
  "walk_object 0 g = (\<lambda>schema values scopes base document. None)"
| "walk_object (Suc n) g = (\<lambda>schema values scopes base document.
    collect (walk_property (walk_object n g) (value_errors n g) g (required_of g schema values) values
        scopes base document)
      (obj_of (field schema ''properties'')))"

definition object_errors :: "nat \<Rightarrow> go_env \<Rightarrow> obj \<Rightarrow> obj \<Rightarrow> obj \<Rightarrow> problem list option" where
  "object_errors n g schema values document = walk_object n g schema values [Some values] '''' document"

end
