(* ===== verification/ConfigTree.thy ===== *)
theory ConfigTree
  imports ValidationLaws
begin

text \<open>
  The document tree of the configuration engine (\<^verbatim>\<open>internal/configengine/tree.go\<close>): RFC 6901
  pointers, default filling, the unknown, read-only and flagged pointers of a schema, JSON Merge
  Patch, leaves, and the restart list of a change. Documents are normalised (\<open>json\<close> of theory Json);
  cloning is the identity. The recursions follow the schema or the patch, whose depth decreases.
\<close>

subsection \<open>Pointers\<close>

text \<open>\<^verbatim>\<open>strings.ReplaceAll\<close> of a two-character text by one character.\<close>

fun replace2 :: "char \<Rightarrow> char \<Rightarrow> char \<Rightarrow> string \<Rightarrow> string" where
  "replace2 a b r (x # y # s) = (if x = a \<and> y = b then r # replace2 a b r s else x # replace2 a b r (y # s))"
| "replace2 a b r s = s"

definition unescape :: "string \<Rightarrow> string" where
  "unescape s = replace2 CHR ''~'' CHR ''0'' CHR ''~'' (replace2 CHR ''~'' CHR ''1'' CHR ''/'' s)"

definition segments_of :: "string \<Rightarrow> string list" where
  "segments_of p = (if p = '''' then [] else map unescape (tl (split_char CHR ''/'' p)))"

subsection \<open>Reading a schema\<close>

definition properties_of :: "obj \<Rightarrow> obj" where
  "properties_of schema = obj_of (field schema ''properties'')"

definition is_map_schema :: "obj \<Rightarrow> bool" where
  "is_map_schema p \<longleftrightarrow> as_obj (field p ''additionalProperties'') \<noteq> None"

definition item_schema :: "obj \<Rightarrow> obj" where
  "item_schema p = obj_of (field p ''additionalProperties'')"

definition is_free_subtree :: "obj \<Rightarrow> bool" where
  "is_free_subtree p \<longleftrightarrow>
     str_of p ''type'' = Some ''object'' \<and> \<not> has p ''properties'' \<and> \<not> is_map_schema p"

definition flagged :: "obj \<Rightarrow> bool" where
  "flagged p \<longleftrightarrow> field p ''requiresRestart'' = JBool True"

definition reason_of :: "obj \<Rightarrow> string" where
  "reason_of p = opt_default '''' (str_of p ''restartReason'')"

definition title_of :: "obj \<Rightarrow> string \<Rightarrow> string" where
  "title_of p fallback =
    (case str_of p ''title'' of None \<Rightarrow> fallback | Some t \<Rightarrow> if t = '''' then fallback else t)"

lemma depth_property: "(k, JObj p) \<in> set (properties_of s) \<Longrightarrow> depth (JObj p) < depth (JObj s)"
  using depth_obj_of [of k "JObj p" "field s ''properties''"] depth_field [of s "''properties''"]
  by (simp add: properties_of_def)

lemma depth_property_field: "field (properties_of s) k = JObj p \<Longrightarrow> depth (JObj p) < depth (JObj s)"
  using depth_property by (auto simp: field_def [of "properties_of s"] dest: map_of_SomeD split: option.splits)

lemma depth_item: "is_map_schema p \<Longrightarrow> depth (JObj (item_schema p)) < depth (JObj p)"
  using depth_field [of p "''additionalProperties''"] by (auto simp: is_map_schema_def item_schema_def)

lemma list_ex_cong [fundef_cong]:
  "xs = ys \<Longrightarrow> (\<And>x. x \<in> set ys \<Longrightarrow> f x = g x) \<Longrightarrow> list_ex f xs = list_ex g ys"
  by (auto simp: list_ex_iff)

subsection \<open>Defaults\<close>

function has_defaults :: "obj \<Rightarrow> bool" where
  "has_defaults schema = list_ex (\<lambda>(k, raw). case as_obj raw of
       None \<Rightarrow> False
     | Some child \<Rightarrow> has child ''default'' \<or> (has child ''properties'' \<and> has_defaults child)) (properties_of schema)"
  by pat_completeness auto
termination
  by (relation "measure (\<lambda>s. depth (JObj s))") (auto simp del: depth.simps dest: depth_property)

function fill_defaults :: "obj \<Rightarrow> obj \<Rightarrow> obj" where
  "fill_defaults schema config =
    fold (\<lambda>(key, raw) filled. case as_obj raw of
        None \<Rightarrow> filled
      | Some p \<Rightarrow>
          if has p ''properties'' then
            (if has filled key \<or> has_defaults p
             then AList.update key (JObj (fill_defaults p (obj_of (field filled key)))) filled else filled)
          else if \<not> has filled key \<and> has p ''default'' then AList.update key (field p ''default'') filled
          else filled)
      (properties_of schema) config"
  by pat_completeness auto
termination
  by (relation "measure (\<lambda>(s, _). depth (JObj s))") (auto simp del: depth.simps dest: depth_property)

declare has_defaults.simps [simp del] fill_defaults.simps [simp del]

subsection \<open>Unknown, read-only and unexplained pointers\<close>

function unknown_keys :: "obj \<Rightarrow> obj \<Rightarrow> string \<Rightarrow> string list" where
  "unknown_keys schema config base =
    sort (concat (map (\<lambda>(key, value).
        let pointer = child_pointer base key
        in case as_obj (field (properties_of schema) key) of
             None \<Rightarrow> [pointer]
           | Some p \<Rightarrow>
               if has p ''properties'' \<and> \<not> is_free_subtree p then unknown_keys p (obj_of value) pointer
               else if is_map_schema p then
                 (if has (item_schema p) ''properties''
                  then concat (map (\<lambda>(k, e). unknown_keys (item_schema p) (obj_of e) (child_pointer pointer k)) (obj_of value))
                  else [])
               else []) config))"
  by pat_completeness auto
termination
  by (relation "measure (\<lambda>(s, _, _). depth (JObj s))")
    (auto simp del: depth.simps dest!: depth_property_field dest: depth_item)

function read_only_pointers :: "obj \<Rightarrow> obj \<Rightarrow> string \<Rightarrow> string list" where
  "read_only_pointers schema body base =
    sort (concat (map (\<lambda>(key, value).
        let pointer = child_pointer base key
        in case as_obj (field (properties_of schema) key) of
             None \<Rightarrow> []
           | Some p \<Rightarrow>
               if field p ''readOnly'' = JBool True then [pointer]
               else if has p ''properties'' then read_only_pointers p (obj_of value) pointer
               else if is_map_schema p then
                 concat (map (\<lambda>(k, e). read_only_pointers (item_schema p) (obj_of e) (child_pointer pointer k)) (obj_of value))
               else []) body))"
  by pat_completeness auto
termination
  by (relation "measure (\<lambda>(s, _, _). depth (JObj s))")
    (auto simp del: depth.simps dest!: depth_property_field dest: depth_item)

function flagged_without_reason :: "obj \<Rightarrow> string \<Rightarrow> string list" where
  "flagged_without_reason schema base =
    sort (concat (map (\<lambda>(key, raw). case as_obj raw of
        None \<Rightarrow> []
      | Some p \<Rightarrow>
          let pointer = child_pointer base key
          in if has p ''properties'' then flagged_without_reason p pointer
             else if is_map_schema p then
               (if has (item_schema p) ''properties'' then flagged_without_reason (item_schema p) (pointer @ ''/*'')
                else if flagged (item_schema p) \<and> reason_of (item_schema p) = '''' then [pointer @ ''/*''] else [])
             else if flagged p \<and> reason_of p = '''' then [pointer] else []) (properties_of schema)))"
  by pat_completeness auto
termination
  by (relation "measure (\<lambda>(s, _). depth (JObj s))")
    (auto simp del: depth.simps dest!: depth_property dest: depth_item)

declare unknown_keys.simps [simp del] read_only_pointers.simps [simp del] flagged_without_reason.simps [simp del]

subsection \<open>Merge patch\<close>

function merge_patch :: "json \<Rightarrow> json \<Rightarrow> json" where
  "merge_patch target patch =
    (case as_obj patch of
       None \<Rightarrow> patch
     | Some ps \<Rightarrow>
         JObj (fold (\<lambda>(key, value) merged.
             if value = JNull then AList.delete key merged
             else if as_obj value \<noteq> None then AList.update key (merge_patch (field merged key) value) merged
             else AList.update key value merged) ps (obj_of target)))"
  by pat_completeness auto
termination
  by (relation "measure (\<lambda>(_, p). depth p)") (auto simp del: depth.simps dest: depth_entry)

declare merge_patch.simps [simp del]

subsection \<open>Values, rules and leaves at a pointer\<close>

definition value_at :: "json \<Rightarrow> string \<Rightarrow> json" where
  "value_at document pointer =
    fold (\<lambda>seg node. case as_obj node of None \<Rightarrow> JNull | Some m \<Rightarrow> field m seg) (segments_of pointer) document"

definition property_step :: "string \<Rightarrow> obj option \<Rightarrow> obj option" where
  "property_step seg property =
    (case property of
       None \<Rightarrow> None
     | Some p \<Rightarrow>
         (case as_obj (field (properties_of p) seg) of
            Some child \<Rightarrow> Some child
          | None \<Rightarrow> as_obj (field p ''additionalProperties'')))"

definition property_at :: "obj \<Rightarrow> string \<Rightarrow> obj option" where
  "property_at schema pointer = fold property_step (segments_of pointer) (Some schema)"

function leaves :: "json \<Rightarrow> string \<Rightarrow> (string \<times> json) list" where
  "leaves node base =
    (case as_obj node of
       None \<Rightarrow> [(base, node)]
     | Some m \<Rightarrow> concat (map (\<lambda>(key, value). leaves value (child_pointer base key)) m))"
  by pat_completeness auto
termination
  by (relation "measure (\<lambda>(n, _). depth n)") (auto simp del: depth.simps dest: depth_entry)

declare leaves.simps [simp del]

subsection \<open>The restart list\<close>

record restart_entry =
  re_pointer :: string
  re_title :: string
  re_reason :: string

definition sort_entries :: "restart_entry list \<Rightarrow> restart_entry list" where
  "sort_entries = sort_key re_pointer"

definition entry_keys :: "obj \<Rightarrow> obj \<Rightarrow> string list" where
  "entry_keys p n = first_seen [] (map fst p @ map fst n)"

function restart_diff :: "go_env \<Rightarrow> obj \<Rightarrow> obj \<Rightarrow> obj \<Rightarrow> string \<Rightarrow> restart_entry list" where
  "restart_diff g schema before after base =
    sort_entries (concat (map (\<lambda>(key, raw). case as_obj raw of
        None \<Rightarrow> []
      | Some p \<Rightarrow>
          let pointer = child_pointer base key; previous = field before key; next' = field after key
          in if has p ''properties'' then restart_diff g p (obj_of previous) (obj_of next') pointer
             else if is_map_schema p then
               concat (map (\<lambda>k.
                   let ep = child_pointer pointer k; a = field (obj_of previous) k; b = field (obj_of next') k
                   in if has (item_schema p) ''properties'' then restart_diff g (item_schema p) (obj_of a) (obj_of b) ep
                      else if flagged (item_schema p) \<and> \<not> json_same g a b
                      then [\<lparr>re_pointer = ep, re_title = title_of (item_schema p) k, re_reason = reason_of (item_schema p)\<rparr>]
                      else []) (entry_keys (obj_of previous) (obj_of next')))
             else if flagged p \<and> \<not> json_same g previous next'
             then [\<lparr>re_pointer = pointer, re_title = title_of p key, re_reason = reason_of p\<rparr>]
             else []) (properties_of schema)))"
  by pat_completeness auto
termination
  by (relation "measure (\<lambda>(_, s, _). depth (JObj s))")
    (auto simp del: depth.simps dest!: depth_property dest: depth_item)

declare restart_diff.simps [simp del]

end
