(* ===== verification/Texts.thy ===== *)
theory Texts
  imports Validation
begin

text \<open>
  Texts: what the code uses of \<^verbatim>\<open>strings\<close> (splitting, fields, prefixes and suffixes, substrings, trimming
  of one character), with the laws of splitting and joining that the components share.
\<close>

subsection \<open>Splitting and joining\<close>

lemma split_char_not_Nil [simp]: "split_char c s \<noteq> []"
  by (induction s) auto

lemma split_char_free: "e \<in> set (split_char c s) \<Longrightarrow> c \<notin> set e"
proof (induction s arbitrary: e)
  case (Cons x s)
  then show ?case using split_char_not_Nil [of c s]
    by (cases "split_char c s") (auto split: if_splits)
qed simp

lemma split_char_app: "split_char c (s @ c # t) = split_char c s @ split_char c t"
  using split_char_not_Nil by (induction s) (auto simp: hd_append tl_append split: list.splits)

lemma split_char_single: "c \<notin> set s \<Longrightarrow> split_char c s = [s]"
  by (induction s) auto

lemma split_char_append: "c \<notin> set s \<Longrightarrow> split_char c (s @ c # t) = s # split_char c t"
  by (simp add: split_char_app split_char_single)

lemma join_with_Cons: "join_with sep (x # xs) = (if xs = [] then x else x @ sep @ join_with sep xs)"
  by (cases xs) simp_all

lemma split_join: "ps \<noteq> [] \<Longrightarrow> \<forall>e\<in>set ps. c \<notin> set e \<Longrightarrow> split_char c (join_with [c] ps) = ps"
  by (induction ps) (auto simp: join_with_Cons split_char_single split_char_append)

lemma join_split: "join_with [c] (split_char c s) = s"
proof (induction s)
  case (Cons x s)
  obtain p ps where "split_char c s = p # ps" using split_char_not_Nil by (metis list.exhaust)
  then show ?case using Cons by (auto simp: join_with_Cons)
qed simp

lemma set_split_char: "(\<Union>p\<in>set (split_char c s). set p) = set s - {c}"
proof (induction s)
  case (Cons x s)
  obtain p ps where "split_char c s = p # ps" using split_char_not_Nil by (metis list.exhaust)
  then show ?case using Cons by auto
qed simp

lemma cut_before: "c \<notin> set s \<Longrightarrow> takeWhile (\<lambda>x. x \<noteq> c) (s @ c # t) = s"
  "c \<notin> set s \<Longrightarrow> dropWhile (\<lambda>x. x \<noteq> c) (s @ c # t) = c # t"
  by (induction s) auto

subsection \<open>Fields, prefixes, substrings\<close>

text \<open>\<^verbatim>\<open>strings.Fields\<close>: the maximal runs of runes that are no white space.\<close>

fun fields_of :: "string list \<Rightarrow> string \<Rightarrow> string list" where
  "fields_of [] cur = (if cur = [] then [] else [cur])"
| "fields_of (r # rs) cur =
    (if space_rune r then (if cur = [] then fields_of rs [] else cur # fields_of rs []) else fields_of rs (cur @ r))"

definition text_fields :: "string \<Rightarrow> string list" where
  "text_fields s = fields_of (runes s) []"

text \<open>On printable ASCII text a rune is one byte, and fields are the words between blanks.\<close>

definition plain_char :: "char \<Rightarrow> bool" where
  "plain_char c \<longleftrightarrow> 33 \<le> (of_char c :: nat) \<and> (of_char c :: nat) < 128"

lemma runes_ascii: "list_all (\<lambda>c. of_char c < (128 :: nat)) s \<Longrightarrow> runes s = map (\<lambda>c. [c]) s"
  by (induction s) (simp_all add: runes.simps [of "_ # _"] runes.simps [of "[]"])

lemma runes_plain: "list_all plain_char s \<Longrightarrow> runes s = map (\<lambda>c. [c]) s"
  by (rule runes_ascii) (auto simp: list_all_iff plain_char_def)

lemma plain_not_space: "plain_char c \<Longrightarrow> \<not> space_rune [c]"
  by (auto simp: plain_char_def space_rune_def Let_def)

lemma trim_plain: "list_all plain_char s \<Longrightarrow> trim_space s = s"
proof -
  assume s: "list_all plain_char s"
  have keep: "dropWhile space_rune (map (\<lambda>c. [c]) t) = map (\<lambda>c. [c]) t" if "list_all plain_char t" for t
    using that plain_not_space by (cases t) auto
  have "concat (map (\<lambda>c. [c]) t) = t" for t :: string by (induction t) auto
  then show ?thesis
    using keep [OF s] keep [of "rev s"] s by (simp add: trim_space_def runes_plain [OF s] rev_map [symmetric])
qed

lemma fields_word: "list_all plain_char w \<Longrightarrow> fields_of (map (\<lambda>c. [c]) w @ rs) cur = fields_of rs (cur @ w)"
  by (induction w arbitrary: cur) (simp_all add: plain_not_space)

lemma fields_words:
  assumes "list_all (\<lambda>w. w \<noteq> [] \<and> list_all plain_char w) ws"
  shows "text_fields (join_with '' '' ws) = ws"
proof -
  have sp: "space_rune '' ''" by (simp add: space_rune_def)
  have "list_all (\<lambda>c. of_char c < (128 :: nat)) (join_with '' '' ws)"
    using assms by (induction ws) (auto simp: join_with_Cons list_all_iff plain_char_def)
  moreover have "fields_of (map (\<lambda>c. [c]) (join_with '' '' ws)) [] = ws"
    using assms
  proof (induction ws)
    case (Cons w ws)
    then show ?case using sp fields_word [of w "[]" "[]"] by (simp add: join_with_Cons fields_word)
  qed simp
  ultimately show ?thesis by (simp add: text_fields_def runes_ascii)
qed

definition contains_text :: "string \<Rightarrow> string \<Rightarrow> bool" where
  "contains_text p s \<longleftrightarrow> list_ex (\<lambda>i. take (length p) (drop i s) = p) [0..<Suc (length s)]"

definition em_dash :: string where
  "em_dash = [CHR 0xE2, CHR 0x80, CHR 0x94]"

definition cut_suffix :: "string \<Rightarrow> string \<Rightarrow> string option" where
  "cut_suffix suf s =
    (if length suf \<le> length s \<and> drop (length s - length suf) s = suf then Some (take (length s - length suf) s) else None)"

definition trim_char :: "char \<Rightarrow> string \<Rightarrow> string" where
  "trim_char c s = rev (dropWhile (\<lambda>x. x = c) (rev (dropWhile (\<lambda>x. x = c) s)))"

end
