(* ===== verification/ConfigTreeLaws.thy ===== *)
theory ConfigTreeLaws
  imports ConfigTree Texts
begin

text \<open>
  Laws of the document tree: pointers round-trip, merge patch and default filling act key by key
  (both are folds of one kind, a locale), are idempotent, and the restart list of a change is exactly
  the set of its flagged changed leaves.
\<close>

subsection \<open>Pointers round-trip\<close>

lemma replace2_other: "x \<noteq> a \<Longrightarrow> replace2 a b r (x # s) = x # replace2 a b r s"
  by (cases s) simp_all

lemma escape_Nil [simp]: "escape [] = []"
  by (simp add: escape_def)

lemma escape_Cons: "escape (c # s) =
    (if c = CHR ''~'' then ''~0'' else if c = CHR ''/'' then ''~1'' else [c]) @ escape s"
  by (simp add: escape_def)

lemma replace2_escape:
  "replace2 CHR ''~'' CHR ''1'' CHR ''/'' (escape s) = concat (map (\<lambda>c. if c = CHR ''~'' then ''~0'' else [c]) s)"
  by (induction s) (simp_all add: escape_Cons replace2_other)

lemma replace2_tilde:
  "replace2 CHR ''~'' CHR ''0'' CHR ''~'' (concat (map (\<lambda>c. if c = CHR ''~'' then ''~0'' else [c]) s)) = s"
  by (induction s) (simp_all add: replace2_other)

lemma unescape_escape: "unescape (escape s) = s"
  by (simp add: unescape_def replace2_escape replace2_tilde)

lemma escape_no_slash: "CHR ''/'' \<notin> set (escape s)"
  by (induction s) (auto simp: escape_Cons)

definition pointer_of :: "string list \<Rightarrow> string" where
  "pointer_of ks = fold (\<lambda>k base. child_pointer base k) ks ''''"

lemma pointer_of_concat: "pointer_of ks = concat (map (\<lambda>k. CHR ''/'' # escape k) ks)"
proof -
  have "fold (\<lambda>k base. child_pointer base k) ks b = b @ concat (map (\<lambda>k. CHR ''/'' # escape k) ks)" for b
    by (induction ks arbitrary: b) (simp_all add: child_pointer_def)
  then show ?thesis by (simp add: pointer_of_def)
qed

lemma split_pointer: "ks \<noteq> [] \<Longrightarrow>
    split_char CHR ''/'' (concat (map (\<lambda>k. CHR ''/'' # escape k) ks)) = [] # map escape ks"
proof (induction ks)
  case (Cons k ks)
  show ?case
  proof (cases ks)
    case Nil
    then show ?thesis using escape_no_slash by (simp add: split_char_single)
  next
    case (Cons k' ks')
    then have "concat (map (\<lambda>k. CHR ''/'' # escape k) ks) =
        CHR ''/'' # escape k' @ concat (map (\<lambda>k. CHR ''/'' # escape k) ks')" by simp
    then have "split_char CHR ''/'' (escape k @ concat (map (\<lambda>k. CHR ''/'' # escape k) ks)) =
        escape k # split_char CHR ''/'' (escape k' @ concat (map (\<lambda>k. CHR ''/'' # escape k) ks'))"
      using split_char_append [OF escape_no_slash] by simp
    then show ?thesis using Cons.IH Cons by simp
  qed
qed simp

text \<open>
  escaping keys into a pointer and reading the pointer's segments gives the keys back, whatever
  characters they hold, the tilde and the slash included.
\<close>
theorem pointer_roundtrip: "segments_of (pointer_of ks) = ks"
proof (cases "ks = []")
  case False
  have "unescape \<circ> escape = id" by (simp add: fun_eq_iff unescape_escape)
  then show ?thesis using False split_pointer [OF False]
    by (cases ks) (simp_all add: segments_of_def pointer_of_concat unescape_escape)
qed (simp add: segments_of_def pointer_of_def)

subsection \<open>Folds that act key by key\<close>

locale keyed_fold =
  fixes step :: "string \<times> json \<Rightarrow> obj \<Rightarrow> obj"
    and effect :: "string \<Rightarrow> json \<Rightarrow> json option \<Rightarrow> json option"
  assumes at_key: "map_of (step (k, x) m) j = (if j = k then effect k x (map_of m k) else map_of m j)"
    and still: "effect k x (map_of m k) = map_of m k \<Longrightarrow> step (k, x) m = m"
    and keys: "distinct (map fst m) \<Longrightarrow> distinct (map fst (step (k, x) m))"
begin

lemma fold_other: "j \<notin> fst ` set xs \<Longrightarrow> map_of (fold step xs m) j = map_of m j"
  by (induction xs arbitrary: m) (auto simp: at_key)

lemma lookup_fold:
  "distinct (map fst xs) \<Longrightarrow> map_of (fold step xs m) j =
     (case map_of xs j of None \<Rightarrow> map_of m j | Some x \<Rightarrow> effect j x (map_of m j))"
proof (induction xs arbitrary: m)
  case (Cons kx xs)
  obtain k x where kx: "kx = (k, x)" by fastforce
  show ?case
  proof (cases "j = k")
    case True
    then have "j \<notin> fst ` set xs" using Cons.prems kx by simp
    then show ?thesis using True kx by (simp add: fold_other at_key)
  next
    case False
    then show ?thesis using Cons kx by (auto simp: at_key split: option.split)
  qed
qed simp

lemma fold_still:
  "(\<And>k x. (k, x) \<in> set xs \<Longrightarrow> effect k x (map_of m k) = map_of m k) \<Longrightarrow> fold step xs m = m"
  by (induction xs) (auto simp: still)

lemma fold_idem:
  assumes "distinct (map fst xs)"
    and "\<And>k x v. (k, x) \<in> set xs \<Longrightarrow> effect k x (effect k x v) = effect k x v"
  shows "fold step xs (fold step xs m) = fold step xs m"
  by (rule fold_still) (use assms lookup_fold [OF assms(1)] in simp)

lemma fold_keys: "distinct (map fst m) \<Longrightarrow> distinct (map fst (fold step xs m))"
proof (induction xs arbitrary: m)
  case (Cons x xs)
  then show ?case by (cases x) (simp add: keys)
qed simp

end

subsection \<open>Merge patch\<close>

definition patch_step :: "string \<times> json \<Rightarrow> obj \<Rightarrow> obj" where
  "patch_step = (\<lambda>(key, value) merged.
      if value = JNull then AList.delete key merged
      else AList.update key (merge_patch (field merged key) value) merged)"

definition patch_effect :: "string \<Rightarrow> json \<Rightarrow> json option \<Rightarrow> json option" where
  "patch_effect k value old =
    (if value = JNull then None else Some (merge_patch (opt_default JNull old) value))"

lemma field_opt: "field m k = opt_default JNull (map_of m k)"
  by (simp add: field_def split: option.split)

interpretation patched: keyed_fold patch_step patch_effect
proof
  fix k x m j
  show "map_of (patch_step (k, x) m) j = (if j = k then patch_effect k x (map_of m k) else map_of m j)"
    by (simp add: patch_step_def patch_effect_def field_opt update_conv' delete_conv')
  show "patch_effect k x (map_of m k) = map_of m k \<Longrightarrow> patch_step (k, x) m = m"
    using update_present [of m k] delete_absent [of m k]
    by (auto simp: patch_step_def patch_effect_def field_opt split: if_splits)
  show "distinct (map fst m) \<Longrightarrow> distinct (map fst (patch_step (k, x) m))"
    by (simp add: patch_step_def distinct_update distinct_delete)
qed

lemma merge_patch_scalar [simp]: "as_obj patch = None \<Longrightarrow> merge_patch t patch = patch"
  by (simp add: merge_patch.simps)

lemma merge_patch_obj: "merge_patch t (JObj ps) = JObj (fold patch_step ps (obj_of t))"
proof -
  have "(if v = JNull then AList.delete key merged
      else if as_obj v \<noteq> None then AList.update key (merge_patch (field merged key) v) merged
      else AList.update key v merged) = patch_step (key, v) merged" for key v merged
    by (cases v) (simp_all add: patch_step_def)
  then show ?thesis by (subst merge_patch.simps) (simp add: split_def)
qed

lemma merge_patch_idem: "wf_json patch \<Longrightarrow> merge_patch (merge_patch t patch) patch = merge_patch t patch"
proof (induction patch arbitrary: t rule: measure_induct_rule [of depth])
  case (less patch)
  show ?case
  proof (cases patch)
    case (JObj ps)
    have d: "distinct (map fst ps)" using less.prems JObj by simp
    have "patch_effect k v (patch_effect k v w) = patch_effect k v w" if "(k, v) \<in> set ps" for k v w
      using less.IH [of v] less.prems that depth_entry [OF that] unfolding JObj
      by (auto simp: patch_effect_def list_all_iff simp del: depth.simps)
    from patched.fold_idem [OF d this] show ?thesis unfolding JObj by (simp add: merge_patch_obj)
  qed simp_all
qed

lemma obj_of_merge: "obj_of (merge_patch t (JObj ps)) = fold patch_step ps (obj_of t)"
  by (simp add: merge_patch_obj)

text \<open>
  merging a patch follows RFC 7396 key by key: a key the patch does not name keeps its value, a
  null removes the key, any other value is merged into the old one; and applying the same patch again
  changes nothing.
\<close>
theorem merge_patch_spec:
  assumes "wf_json (JObj ps)"
  shows "(\<forall>k. map_of (obj_of (merge_patch t (JObj ps))) k =
      (case map_of ps k of
         None \<Rightarrow> map_of (obj_of t) k
       | Some v \<Rightarrow> if v = JNull then None else Some (merge_patch (field (obj_of t) k) v)))
    \<and> merge_patch (merge_patch t (JObj ps)) (JObj ps) = merge_patch t (JObj ps)"
  using assms patched.lookup_fold [of ps "obj_of t"] merge_patch_idem [OF assms, of t]
  by (auto simp: obj_of_merge patch_effect_def field_opt split: option.split)

theorem merge_patch_spec_witness:
  "map_of (obj_of (merge_patch (JObj [(''a'', JInt 1), (''b'', JObj [(''c'', JInt 2)])])
      (JObj [(''a'', JNull), (''b'', JObj [(''d'', JInt 3)])]))) ''b''
     = Some (JObj [(''c'', JInt 2), (''d'', JInt 3)])"
proof -
  have "merge_patch (JObj [(''c'', JInt 2)]) (JObj [(''d'', JInt 3)]) = JObj [(''c'', JInt 2), (''d'', JInt 3)]"
    by (simp add: merge_patch_obj patch_step_def)
  then show ?thesis
    using merge_patch_spec [of "[(''a'', JNull), (''b'', JObj [(''d'', JInt 3)])]"
        "JObj [(''a'', JInt 1), (''b'', JObj [(''c'', JInt 2)])]"]
    by (simp add: field_def)
qed

subsection \<open>Defaults\<close>

definition default_step :: "string \<times> json \<Rightarrow> obj \<Rightarrow> obj" where
  "default_step = (\<lambda>(key, raw) filled. case as_obj raw of
      None \<Rightarrow> filled
    | Some p \<Rightarrow>
        if has p ''properties'' then
          (if has filled key \<or> has_defaults p
           then AList.update key (JObj (fill_defaults p (obj_of (field filled key)))) filled else filled)
        else if \<not> has filled key \<and> has p ''default'' then AList.update key (field p ''default'') filled
        else filled)"

definition default_effect :: "string \<Rightarrow> json \<Rightarrow> json option \<Rightarrow> json option" where
  "default_effect key raw old =
    (case as_obj raw of
       None \<Rightarrow> old
     | Some p \<Rightarrow>
         if has p ''properties'' then
           (if old \<noteq> None \<or> has_defaults p then Some (JObj (fill_defaults p (obj_of (opt_default JNull old)))) else None)
         else if old = None \<and> has p ''default'' then Some (field p ''default'') else old)"

interpretation defaulted: keyed_fold default_step default_effect
proof
  fix k x m j
  show "map_of (default_step (k, x) m) j = (if j = k then default_effect k x (map_of m k) else map_of m j)"
    by (auto simp: default_step_def default_effect_def field_opt has_def update_conv' split: option.split)
  show "default_effect k x (map_of m k) = map_of m k \<Longrightarrow> default_step (k, x) m = m"
    using update_present [of m k]
    by (auto simp: default_step_def default_effect_def field_opt has_def split: option.splits if_splits)
  show "distinct (map fst m) \<Longrightarrow> distinct (map fst (default_step (k, x) m))"
    by (simp add: default_step_def distinct_update split: option.split)
qed

lemma fill_defaults_fold: "fill_defaults schema config = fold default_step (properties_of schema) config"
  by (subst fill_defaults.simps) (simp add: default_step_def)

lemma wf_properties: "wf_json (JObj s) \<Longrightarrow> distinct (map fst (properties_of s)) \<and> list_all (\<lambda>(k, v). wf_json v) (properties_of s)"
  using wf_field [of s "''properties''"] by (cases "field s ''properties''") (auto simp: properties_of_def obj_of_def)

lemma fill_defaults_idem:
  "wf_json (JObj s) \<Longrightarrow> fill_defaults s (fill_defaults s c) = fill_defaults s c"
proof (induction s arbitrary: c rule: measure_induct_rule [of "\<lambda>s. depth (JObj s)"])
  case (less s)
  note d = wf_properties [OF less.prems]
  have "default_effect k x (default_effect k x w) = default_effect k x w" if "(k, x) \<in> set (properties_of s)" for k x w
  proof (cases "as_obj x")
    case (Some p)
    then have "depth (JObj p) < depth (JObj s)" "wf_json (JObj p)"
      using depth_property [of k p s] that d by (force simp: list_all_iff simp del: depth.simps wf_json.simps)+
    from less.IH [OF this] show ?thesis using Some by (auto simp: default_effect_def)
  qed (simp add: default_effect_def)
  then show ?case unfolding fill_defaults_fold by (rule defaulted.fold_idem [OF d [THEN conjunct1]])
qed

text \<open>
  filling defaults keeps every value a document has at a leaf property and every unknown key,
  gives a missing leaf its declared default, recurses into the sections that are present or have
  defaults, and filling twice changes nothing more.
\<close>
theorem fill_defaults_spec:
  assumes "wf_json (JObj schema)"
  shows "(\<forall>k. map_of (fill_defaults schema config) k =
      (case map_of (properties_of schema) k of
         None \<Rightarrow> map_of config k
       | Some raw \<Rightarrow>
           (case as_obj raw of
              None \<Rightarrow> map_of config k
            | Some p \<Rightarrow>
                if has p ''properties'' then
                  (if has config k \<or> has_defaults p then Some (JObj (fill_defaults p (obj_of (field config k)))) else None)
                else if has config k then map_of config k
                else map_of p ''default'')))
    \<and> fill_defaults schema (fill_defaults schema config) = fill_defaults schema config"
proof -
  have "map_of (fill_defaults schema config) k =
      (case map_of (properties_of schema) k of None \<Rightarrow> map_of config k
       | Some raw \<Rightarrow> default_effect k raw (map_of config k))" for k
    unfolding fill_defaults_fold
    by (rule defaulted.lookup_fold) (use wf_properties [OF assms] in simp)
  then show ?thesis using fill_defaults_idem [OF assms, of config]
    by (auto simp: default_effect_def has_def field_opt split: option.split)
qed

theorem fill_defaults_spec_witness:
  "map_of (fill_defaults [(''properties'', JObj [(''port'', JObj [(''default'', JInt 80)])])] [(''x'', JInt 1)]) ''port''
     = Some (JInt 80)"
  using fill_defaults_spec [of "[(''properties'', JObj [(''port'', JObj [(''default'', JInt 80)])])]" "[(''x'', JInt 1)]"]
  by (simp add: properties_of_def field_def has_def)

subsection \<open>The restart list\<close>

text \<open>
  The leaves of a change that need a restart: flagged leaf properties and flagged map values whose
  JSON text differs, reached through nested sections and maps of objects.
\<close>

inductive restart_leaf :: "go_env \<Rightarrow> obj \<Rightarrow> obj \<Rightarrow> obj \<Rightarrow> string \<Rightarrow> restart_entry \<Rightarrow> bool" for g where
  rl_value: "(k, JObj p) \<in> set (properties_of s) \<Longrightarrow> \<not> has p ''properties'' \<Longrightarrow> \<not> is_map_schema p \<Longrightarrow>
    flagged p \<Longrightarrow> \<not> json_same g (field b k) (field a k) \<Longrightarrow>
    restart_leaf g s b a base \<lparr>re_pointer = child_pointer base k, re_title = title_of p k, re_reason = reason_of p\<rparr>"
| rl_section: "(k, JObj p) \<in> set (properties_of s) \<Longrightarrow> has p ''properties'' \<Longrightarrow>
    restart_leaf g p (obj_of (field b k)) (obj_of (field a k)) (child_pointer base k) e \<Longrightarrow> restart_leaf g s b a base e"
| rl_map_object: "(k, JObj p) \<in> set (properties_of s) \<Longrightarrow> \<not> has p ''properties'' \<Longrightarrow> is_map_schema p \<Longrightarrow>
    has (item_schema p) ''properties'' \<Longrightarrow> j \<in> fst ` set (obj_of (field b k)) \<union> fst ` set (obj_of (field a k)) \<Longrightarrow>
    restart_leaf g (item_schema p) (obj_of (field (obj_of (field b k)) j)) (obj_of (field (obj_of (field a k)) j))
      (child_pointer (child_pointer base k) j) e \<Longrightarrow> restart_leaf g s b a base e"
| rl_map_value: "(k, JObj p) \<in> set (properties_of s) \<Longrightarrow> \<not> has p ''properties'' \<Longrightarrow> is_map_schema p \<Longrightarrow>
    \<not> has (item_schema p) ''properties'' \<Longrightarrow> j \<in> fst ` set (obj_of (field b k)) \<union> fst ` set (obj_of (field a k)) \<Longrightarrow>
    flagged (item_schema p) \<Longrightarrow> \<not> json_same g (field (obj_of (field b k)) j) (field (obj_of (field a k)) j) \<Longrightarrow>
    restart_leaf g s b a base \<lparr>re_pointer = child_pointer (child_pointer base k) j,
      re_title = title_of (item_schema p) j, re_reason = reason_of (item_schema p)\<rparr>"

inductive_cases restart_leafE: "restart_leaf g s b a base e"

lemma set_entry_keys [simp]: "set (entry_keys p n) = fst ` set p \<union> fst ` set n"
  by (simp add: entry_keys_def)

lemma set_sort_entries [simp]: "set (sort_entries es) = set es"
  by (simp add: sort_entries_def)

text \<open>The entries one property contributes.\<close>

definition diff_at :: "go_env \<Rightarrow> obj \<Rightarrow> obj \<Rightarrow> string \<Rightarrow> string \<Rightarrow> obj \<Rightarrow> restart_entry list" where
  "diff_at g before after base key p =
    (let pointer = child_pointer base key; previous = field before key; next' = field after key
     in if has p ''properties'' then restart_diff g p (obj_of previous) (obj_of next') pointer
        else if is_map_schema p then
          concat (map (\<lambda>k.
              let ep = child_pointer pointer k; a = field (obj_of previous) k; b = field (obj_of next') k
              in if has (item_schema p) ''properties'' then restart_diff g (item_schema p) (obj_of a) (obj_of b) ep
                 else if flagged (item_schema p) \<and> \<not> json_same g a b
                 then [\<lparr>re_pointer = ep, re_title = title_of (item_schema p) k, re_reason = reason_of (item_schema p)\<rparr>]
                 else []) (entry_keys (obj_of previous) (obj_of next')))
        else if flagged p \<and> \<not> json_same g previous next'
        then [\<lparr>re_pointer = pointer, re_title = title_of p key, re_reason = reason_of p\<rparr>]
        else [])"

lemma restart_diff_eq: "restart_diff g s b a base =
    sort_entries (concat (map (\<lambda>(key, raw). case as_obj raw of None \<Rightarrow> [] | Some p \<Rightarrow> diff_at g b a base key p)
      (properties_of s)))"
  unfolding diff_at_def by (rule restart_diff.simps)

lemma set_restart_diff:
  "e \<in> set (restart_diff g s b a base) \<longleftrightarrow>
     (\<exists>k p. (k, JObj p) \<in> set (properties_of s) \<and> e \<in> set (diff_at g b a base k p))"
proof -
  have "e \<in> set (concat (map (\<lambda>(key, raw). case as_obj raw of None \<Rightarrow> [] | Some p \<Rightarrow> f key p) xs)) \<longleftrightarrow>
      (\<exists>k p. (k, JObj p) \<in> set xs \<and> e \<in> set (f k p))" for f and xs :: obj
  proof (induction xs)
    case (Cons x xs)
    obtain k r where x: "x = (k, r)" by fastforce
    show ?case unfolding x using Cons by (cases "as_obj r") auto
  qed simp
  then show ?thesis unfolding restart_diff_eq set_sort_entries by blast
qed

lemma diff_at_section: "has p ''properties'' \<Longrightarrow> diff_at g b a base k p =
    restart_diff g p (obj_of (field b k)) (obj_of (field a k)) (child_pointer base k)"
  by (simp add: diff_at_def)

lemma diff_at_map_object:
  "\<not> has p ''properties'' \<Longrightarrow> is_map_schema p \<Longrightarrow> has (item_schema p) ''properties'' \<Longrightarrow>
    e \<in> set (diff_at g b a base k p) \<longleftrightarrow> (\<exists>j\<in>fst ` set (obj_of (field b k)) \<union> fst ` set (obj_of (field a k)).
      e \<in> set (restart_diff g (item_schema p) (obj_of (field (obj_of (field b k)) j))
        (obj_of (field (obj_of (field a k)) j)) (child_pointer (child_pointer base k) j)))"
  by (auto simp: diff_at_def Let_def)

lemma diff_at_map_value:
  "\<not> has p ''properties'' \<Longrightarrow> is_map_schema p \<Longrightarrow> \<not> has (item_schema p) ''properties'' \<Longrightarrow>
    e \<in> set (diff_at g b a base k p) \<longleftrightarrow> (\<exists>j\<in>fst ` set (obj_of (field b k)) \<union> fst ` set (obj_of (field a k)).
      flagged (item_schema p) \<and> \<not> json_same g (field (obj_of (field b k)) j) (field (obj_of (field a k)) j)
      \<and> e = \<lparr>re_pointer = child_pointer (child_pointer base k) j, re_title = title_of (item_schema p) j,
             re_reason = reason_of (item_schema p)\<rparr>)"
  by (auto simp: diff_at_def Let_def)

lemma diff_at_value:
  "\<not> has p ''properties'' \<Longrightarrow> \<not> is_map_schema p \<Longrightarrow>
    e \<in> set (diff_at g b a base k p) \<longleftrightarrow> flagged p \<and> \<not> json_same g (field b k) (field a k)
      \<and> e = \<lparr>re_pointer = child_pointer base k, re_title = title_of p k, re_reason = reason_of p\<rparr>"
  by (auto simp: diff_at_def Let_def)

lemma diff_is_leaf: "e \<in> set (restart_diff g s b a base) \<Longrightarrow> restart_leaf g s b a base e"
proof (induction s arbitrary: b a base rule: measure_induct_rule [of "\<lambda>s. depth (JObj s)"])
  case (less s)
  then obtain k p where p: "(k, JObj p) \<in> set (properties_of s)" and e: "e \<in> set (diff_at g b a base k p)"
    unfolding set_restart_diff by blast
  note small = depth_property [OF p]
  consider (sect) "has p ''properties''"
    | (object) "\<not> has p ''properties''" "is_map_schema p" "has (item_schema p) ''properties''"
    | (mapped) "\<not> has p ''properties''" "is_map_schema p" "\<not> has (item_schema p) ''properties''"
    | (leaf) "\<not> has p ''properties''" "\<not> is_map_schema p" by blast
  then show ?case
  proof cases
    case sect
    then show ?thesis using e less.IH [OF small] rl_section [OF p sect] by (simp only: diff_at_section)
  next
    case object
    then have "depth (JObj (item_schema p)) < depth (JObj s)" using depth_item small less_trans by blast
    from less.IH [OF this] show ?thesis
      using e [unfolded diff_at_map_object [OF object]] rl_map_object [OF p object] by blast
  next
    case mapped
    then show ?thesis using e [unfolded diff_at_map_value [OF mapped]] rl_map_value [OF p mapped] by blast
  next
    case leaf
    then show ?thesis using e [unfolded diff_at_value [OF leaf]] rl_value [OF p leaf] by blast
  qed
qed

lemma leaf_in_diff: "restart_leaf g s b a base e \<Longrightarrow> e \<in> set (restart_diff g s b a base)"
proof (induction rule: restart_leaf.induct)
  case (rl_value k p s b a base)
  then show ?case unfolding set_restart_diff
    by (intro exI [of _ k] exI [of _ p]) (simp add: diff_at_value)
next
  case (rl_section k p s b a base e)
  then show ?case unfolding set_restart_diff [of _ _ s]
    by (intro exI [of _ k] exI [of _ p]) (simp add: diff_at_section)
next
  case (rl_map_object k p s j b a base e)
  then show ?case unfolding set_restart_diff [of _ _ s]
    by (intro exI [of _ k] exI [of _ p]) (auto simp: diff_at_map_object)
next
  case (rl_map_value k p s j b a base)
  then show ?case unfolding set_restart_diff [of _ _ s]
    by (intro exI [of _ k] exI [of _ p]) (auto simp: diff_at_map_value)
qed

lemma restart_diff_leaves: "e \<in> set (restart_diff g s b a base) \<longleftrightarrow> restart_leaf g s b a base e"
  using diff_is_leaf leaf_in_diff by blast

text \<open>
  the restart list of a change holds exactly the flagged leaves whose value differs between the
  two documents, in sections and maps at every level, sorted by pointer; a change to nothing lists
  nothing.
\<close>
theorem restart_diff_spec:
  "set (restart_diff g s before after base) = {e. restart_leaf g s before after base e}
   \<and> sorted (map re_pointer (restart_diff g s before after base))
   \<and> restart_diff g s same same base = []"
proof -
  have "restart_leaf g s b a base e \<Longrightarrow> b \<noteq> a" for s b a base e
    by (induction rule: restart_leaf.induct) (auto simp: json_same_def)
  then have none: "e \<notin> set (restart_diff g s same same base)" for e unfolding restart_diff_leaves by blast
  have "restart_diff g s same same base = []"
    using none [of "hd (restart_diff g s same same base)"] hd_in_set by blast
  moreover have "sorted (map re_pointer (restart_diff g s before after base))"
    by (subst restart_diff.simps) (simp add: sort_entries_def)
  ultimately show ?thesis by (auto simp: restart_diff_leaves)
qed

end
