(* ===== verification/ConfigEngine.thy ===== *)
theory ConfigEngine
  imports ConfigTreeLaws
begin

text \<open>
  The configuration engine (\<^verbatim>\<open>internal/configengine/engine.go\<close>, \<^verbatim>\<open>save.go\<close>): the cached raw and
  filled documents of the configuration files, loading, merge-patch saves, the all-or-nothing
  validation of several files, restore, the pending restart list and the setup token.

  The YAML library, the backend's rule hooks and the outcome of a file write are parameters: the
  context record holds the first two, every writing operation takes the set of paths that cannot be
  written. The validation fuel is part of the context; an operation whose validation runs out of it is
  \<open>None\<close>. Files hold their text; the notifications handed to \<^verbatim>\<open>OnSaved\<close> are recorded in order.
\<close>

type_synonym rule_hook = "string \<Rightarrow> json \<Rightarrow> string \<Rightarrow> obj \<Rightarrow> problem list"

record config_context =
  cc_go :: go_env
  cc_fuel :: nat
  yaml_marshal :: "obj \<Rightarrow> string option"
  yaml_parse :: "string \<Rightarrow> json option"
  writable_hook :: "rule_hook option"
  reachable_hook :: "rule_hook option"
  has_on_saved :: bool

record restart_status =
  restart_required :: bool
  requires_restart :: "restart_entry list"
  last_modified_by :: "string option"
  last_modified_time :: "string option"

record saved =
  sv_name :: string
  sv_actor :: string
  sv_status :: restart_status

record engine =
  e_names :: "string list"
  e_schemas :: "string \<Rightarrow> obj option"
  e_raw :: "string \<Rightarrow> obj option"
  e_filled :: "string \<Rightarrow> obj option"
  e_pending :: "(string \<times> restart_entry) list"
  e_last_by :: "string option"
  e_last_time :: "string option"
  e_files :: "string \<Rightarrow> string option"
  e_token :: "string option"
  e_notified :: "saved list"

definition map_at :: "(string \<Rightarrow> obj option) \<Rightarrow> string \<Rightarrow> obj" where
  "map_at m k = opt_default [] (m k)"

definition known :: "engine \<Rightarrow> string \<Rightarrow> bool" where
  "known e name \<longleftrightarrow> name \<in> set (e_names e)"

definition file_name :: "string \<Rightarrow> string" where
  "file_name name = name @ ''.config.yaml''"

subsection \<open>Evaluating a document\<close>

definition hook_errors :: "rule_hook option \<Rightarrow> rule_hook option \<Rightarrow> string \<Rightarrow> obj \<Rightarrow> obj \<Rightarrow> problem list" where
  "hook_errors writable reach name document scope =
    concat (map (\<lambda>(pointer, v).
        if v = JNull then []
        else let current = value_at (JObj document) pointer
             in (case writable of None \<Rightarrow> [] | Some h \<Rightarrow> h pointer current name document)
                @ (case reach of None \<Rightarrow> [] | Some h \<Rightarrow> h pointer current name document))
      (leaves (JObj scope) ''''))"

record prepared =
  p_name :: string
  p_merged :: obj
  p_filled :: obj
  p_errors :: "problem list"

definition prepare :: "config_context \<Rightarrow> engine \<Rightarrow> string \<Rightarrow> obj \<Rightarrow> prepared option" where
  "prepare cx e name body =
    (let schema = map_at (e_schemas e) name;
         merged = obj_of (merge_patch (JObj (map_at (e_raw e) name)) (JObj body));
         filled = fill_defaults schema merged
     in map_option (\<lambda>errs.
          \<lparr>p_name = name, p_merged = merged, p_filled = filled,
           p_errors = map (\<lambda>p. \<lparr>pe_pointer = p, pe_rule = ''readOnly'', pe_params = []\<rparr>) (read_only_pointers schema body '''')
             @ errs @ hook_errors (writable_hook cx) (reachable_hook cx) name filled body\<rparr>)
        (object_errors (cc_fuel cx) (cc_go cx) schema filled schema))"

subsection \<open>Writing\<close>

definition write_text :: "string set \<Rightarrow> string \<Rightarrow> string \<Rightarrow> (string \<Rightarrow> string option) \<Rightarrow> bool \<times> (string \<Rightarrow> string option)" where
  "write_text fails path text files = (if path \<in> fails then (False, files) else (True, files(path \<mapsto> text)))"

definition write_config :: "config_context \<Rightarrow> string set \<Rightarrow> string \<Rightarrow> obj \<Rightarrow> (string \<Rightarrow> string option) \<Rightarrow> bool \<times> (string \<Rightarrow> string option)" where
  "write_config cx fails name merged files =
    (let target = file_name name;
         (kept_ok, files1) = (case files target of
            None \<Rightarrow> (True, files)
          | Some current \<Rightarrow> write_text fails (target @ ''.bak'') current files)
     in if \<not> kept_ok then (False, files1)
        else case yaml_marshal cx merged of
               None \<Rightarrow> (False, files1)
             | Some text \<Rightarrow> write_text fails target text files1)"

definition pending_status :: "engine \<Rightarrow> restart_status" where
  "pending_status e =
    (let list = sort_entries (map snd (e_pending e))
     in \<lparr>restart_required = (0 < length list), requires_restart = list,
         last_modified_by = e_last_by e, last_modified_time = e_last_time e\<rparr>)"

definition commit :: "config_context \<Rightarrow> string set \<Rightarrow> string \<Rightarrow> prepared \<Rightarrow> string \<Rightarrow> engine \<Rightarrow> (restart_entry list \<times> saved) option \<times> engine" where
  "commit cx fails now p actor e =
    (let name = p_name p;
         diff = restart_diff (cc_go cx) (map_at (e_schemas e) name) (map_at (e_filled e) name) (p_filled p) '''';
         (written, files) = write_config cx fails name (p_merged p) (e_files e)
     in if \<not> written then (None, e\<lparr>e_files := files\<rparr>)
        else
          let e' = e\<lparr>e_files := files, e_raw := (e_raw e)(name \<mapsto> p_merged p),
                e_filled := (e_filled e)(name \<mapsto> p_filled p),
                e_pending := fold (\<lambda>entry. AList.update (re_pointer entry) entry) diff (e_pending e),
                e_last_by := Some actor, e_last_time := Some now\<rparr>
          in (Some (diff, \<lparr>sv_name = name, sv_actor = actor, sv_status = pending_status e'\<rparr>), e'))"

definition notify_saved :: "config_context \<Rightarrow> saved list \<Rightarrow> engine \<Rightarrow> engine" where
  "notify_saved cx writes e =
    (if has_on_saved cx then e\<lparr>e_notified := e_notified e @ writes\<rparr> else e)"

datatype save_result =
    Saved "restart_entry list"
  | UnknownName
  | Refused "problem list"
  | WriteFailed

definition commit_one :: "config_context \<Rightarrow> string set \<Rightarrow> string \<Rightarrow> prepared \<Rightarrow> string \<Rightarrow> engine \<Rightarrow> save_result \<times> engine" where
  "commit_one cx fails now p actor e =
    (case commit cx fails now p actor e of
       (None, e') \<Rightarrow> (WriteFailed, e')
     | (Some (diff, write), e') \<Rightarrow> (Saved diff, notify_saved cx [write] e'))"

definition save_config :: "config_context \<Rightarrow> string set \<Rightarrow> string \<Rightarrow> string \<Rightarrow> obj \<Rightarrow> string \<Rightarrow> engine \<Rightarrow> (save_result \<times> engine) option" where
  "save_config cx fails now name body actor e =
    (if \<not> known e name then Some (UnknownName, e)
     else map_option (\<lambda>p.
            if p_errors p \<noteq> [] then (Refused (p_errors p), e) else commit_one cx fails now p actor e)
          (prepare cx e name body))"

text \<open>\<^verbatim>\<open>SaveAll\<close>: every patch is prepared against the engine as it is, then the commits run in order.\<close>

fun prepare_all :: "config_context \<Rightarrow> engine \<Rightarrow> (string \<Rightarrow> obj option) \<Rightarrow> string list \<Rightarrow> prepared list option" where
  "prepare_all cx e patches [] = Some []"
| "prepare_all cx e patches (name # names) =
    (case patches name of
       None \<Rightarrow> prepare_all cx e patches names
     | Some body \<Rightarrow>
         (case prepare cx e name body of
            None \<Rightarrow> None
          | Some p \<Rightarrow> map_option ((#) p) (prepare_all cx e patches names)))"

fun commit_all :: "config_context \<Rightarrow> string set \<Rightarrow> string \<Rightarrow> prepared list \<Rightarrow> string \<Rightarrow> engine \<Rightarrow> saved list option \<times> engine" where
  "commit_all cx fails now [] actor e = (Some [], e)"
| "commit_all cx fails now (p # ps) actor e =
    (case commit cx fails now p actor e of
       (None, e') \<Rightarrow> (None, e')
     | (Some (diff, write), e') \<Rightarrow>
         (case commit_all cx fails now ps actor e' of
            (None, e'') \<Rightarrow> (None, e'')
          | (Some writes, e'') \<Rightarrow> (Some (write # writes), e'')))"

definition prefixed_errors :: "prepared \<Rightarrow> problem list" where
  "prefixed_errors p = map (\<lambda>f. f\<lparr>pe_pointer := ''/configs/'' @ p_name p @ pe_pointer f\<rparr>) (p_errors p)"

definition save_all :: "config_context \<Rightarrow> string set \<Rightarrow> string \<Rightarrow> (string \<Rightarrow> obj option) \<Rightarrow> string \<Rightarrow> engine \<Rightarrow> (save_result \<times> engine) option" where
  "save_all cx fails now patches actor e =
    map_option (\<lambda>ps.
        let errs = concat (map prefixed_errors ps)
        in if errs \<noteq> [] then (Refused errs, e)
           else case commit_all cx fails now ps actor e of
                  (None, e') \<Rightarrow> (WriteFailed, e')
                | (Some writes, e') \<Rightarrow> (Saved [], notify_saved cx writes e'))
      (prepare_all cx e patches (e_names e))"

definition restore :: "config_context \<Rightarrow> string set \<Rightarrow> string \<Rightarrow> string \<Rightarrow> obj \<Rightarrow> string \<Rightarrow> engine \<Rightarrow> (save_result \<times> engine) option" where
  "restore cx fails now name document actor e =
    (if \<not> known e name then Some (UnknownName, e)
     else
       let schema = map_at (e_schemas e) name; filled = fill_defaults schema document
       in map_option (\<lambda>es.
            let errs = es @ hook_errors (writable_hook cx) (reachable_hook cx) name filled filled
            in if errs \<noteq> [] then (Refused errs, e)
               else commit_one cx fails now
                 \<lparr>p_name = name, p_merged = document, p_filled = filled, p_errors = []\<rparr> actor e)
          (object_errors (cc_fuel cx) (cc_go cx) schema filled schema))"

definition clear_restart :: "engine \<Rightarrow> engine" where
  "clear_restart e = e\<lparr>e_pending := []\<rparr>"

subsection \<open>Replacing a section\<close>

text \<open>A patch that names a map section in full also deletes the entries it leaves out.\<close>

function with_map_deletions :: "obj \<Rightarrow> obj \<Rightarrow> obj \<Rightarrow> obj" where
  "with_map_deletions property raw patch =
    (if is_map_schema property
     then fold (\<lambda>(k, _) acc. if has acc k then acc else AList.update k JNull acc) raw patch
     else fold (\<lambda>(key, child) acc.
         case (as_obj child, as_obj (field acc key)) of
           (Some cp, Some cpatch) \<Rightarrow>
             AList.update key (JObj (with_map_deletions cp (obj_of (field raw key)) cpatch)) acc
         | _ \<Rightarrow> acc) (properties_of property) patch)"
  by pat_completeness auto
termination
  by (relation "measure (\<lambda>(p, _). depth (JObj p))") (auto simp del: depth.simps dest: depth_property)

declare with_map_deletions.simps [simp del]

definition deletion_entry :: "engine \<Rightarrow> string \<Rightarrow> string \<Rightarrow> json \<Rightarrow> json" where
  "deletion_entry e name key v =
    (case (as_obj (field (properties_of (map_at (e_schemas e) name)) key), as_obj v) of
       (Some p, Some sec) \<Rightarrow> JObj (with_map_deletions p (obj_of (field (map_at (e_raw e) name) key)) sec)
     | _ \<Rightarrow> v)"

definition with_deletions :: "engine \<Rightarrow> string \<Rightarrow> obj \<Rightarrow> obj" where
  "with_deletions e name body = map (\<lambda>(key, v). (key, deletion_entry e name key v)) body"

subsection \<open>Loading\<close>

definition read_raw :: "config_context \<Rightarrow> engine \<Rightarrow> string \<Rightarrow> obj option" where
  "read_raw cx e name =
    (case e_files e (file_name name) of
       None \<Rightarrow> None
     | Some text \<Rightarrow>
         (case yaml_parse cx text of
            None \<Rightarrow> None
          | Some v \<Rightarrow> if v = JNull then Some [] else as_obj v))"

definition load_one :: "config_context \<Rightarrow> (string \<Rightarrow> obj option) \<Rightarrow> string \<Rightarrow> engine \<Rightarrow> (bool \<times> engine) option" where
  "load_one cx schemas name e =
    (case schemas name of
       None \<Rightarrow> Some (False, e)
     | Some schema \<Rightarrow>
         let e1 = e\<lparr>e_schemas := (e_schemas e)(name \<mapsto> schema)\<rparr>
         in case read_raw cx e1 name of
              None \<Rightarrow> Some (False, e1)
            | Some raw \<Rightarrow>
                let filled = fill_defaults schema raw
                in map_option (\<lambda>es.
                     if es @ hook_errors (writable_hook cx) None name filled filled = []
                        \<and> flagged_without_reason schema '''' = []
                     then (True, e1\<lparr>e_raw := (e_raw e1)(name \<mapsto> raw), e_filled := (e_filled e1)(name \<mapsto> filled)\<rparr>)
                     else (False, e1))
                   (object_errors (cc_fuel cx) (cc_go cx) schema filled schema))"

fun load_names :: "config_context \<Rightarrow> (string \<Rightarrow> obj option) \<Rightarrow> string list \<Rightarrow> engine \<Rightarrow> (bool \<times> engine) option" where
  "load_names cx schemas [] e = Some (True, e)"
| "load_names cx schemas (name # names) e =
    (case load_one cx schemas name e of
       None \<Rightarrow> None
     | Some (ok, e') \<Rightarrow> map_option (\<lambda>(rest, e''). (ok \<and> rest, e'')) (load_names cx schemas names e'))"

subsection \<open>The setup token\<close>

definition fill_setup_token :: "string \<Rightarrow> engine \<Rightarrow> engine" where
  "fill_setup_token fresh e =
    (case e_token e of
       None \<Rightarrow> e
     | Some content \<Rightarrow> if blank_text content then e\<lparr>e_token := Some fresh\<rparr> else e)"

definition load_config :: "config_context \<Rightarrow> (string \<Rightarrow> obj option) \<Rightarrow> string \<Rightarrow> engine \<Rightarrow> (bool \<times> engine) option" where
  "load_config cx schemas fresh e =
    map_option (\<lambda>(ok, e'). if ok then (True, fill_setup_token fresh e') else (False, e'))
      (load_names cx schemas (e_names e) e)"

definition setup_complete :: "engine \<Rightarrow> bool" where
  "setup_complete e \<longleftrightarrow> e_token e = None"

definition token_matches :: "engine \<Rightarrow> string \<Rightarrow> bool" where
  "token_matches e token \<longleftrightarrow> token \<noteq> '''' \<and> \<not> setup_complete e \<and>
     (case e_token e of None \<Rightarrow> False
      | Some content \<Rightarrow> trim_space content \<noteq> '''' \<and> trim_space content = token)"

definition delete_setup_token :: "engine \<Rightarrow> engine" where
  "delete_setup_token e = e\<lparr>e_token := None\<rparr>"

end
