(* ===== verification/ConfigEngineLaws.thy ===== *)
theory ConfigEngineLaws
  imports ConfigEngine
begin

text \<open>
  What the configuration engine guarantees: in every state it can reach, each cached document is the
  default-filled form of what its file parses to and passes its schema; a refused save changes
  nothing; an accepted one is a merge patch; a full section replaces the old one.
\<close>

subsection \<open>Files\<close>

lemma file_name_inject [simp]: "file_name a = file_name b \<longleftrightarrow> a = b"
  by (simp add: file_name_def)

lemma file_name_bak [simp]: "file_name a \<noteq> file_name b @ ''.bak''"
proof
  assume "file_name a = file_name b @ ''.bak''"
  then have "last (file_name a) = last (file_name b @ ''.bak'')" by (rule arg_cong)
  then show False by (simp add: file_name_def)
qed

text \<open>What a write leaves in the configuration files, and in the backup of the one it wrote.\<close>

lemma write_config_files:
  assumes "write_config cx fails name m files = (ok, files')"
  shows "files' (file_name j) =
      (if ok \<and> j = name then yaml_marshal cx m else files (file_name j))"
    "ok \<Longrightarrow> yaml_marshal cx m \<noteq> None"
    "ok \<Longrightarrow> files (file_name name) = Some old \<Longrightarrow> files' (file_name name @ ''.bak'') = Some old"
  using assms file_name_bak [of j name]
  by (auto simp: write_config_def write_text_def Let_def split: option.splits if_splits)

subsection \<open>Commits\<close>

definition pending_after :: "restart_entry list \<Rightarrow> (string \<times> restart_entry) list \<Rightarrow> (string \<times> restart_entry) list" where
  "pending_after diff pending = fold (\<lambda>entry. AList.update (re_pointer entry) entry) diff pending"

lemma pending_after_keys: "fst ` set (pending_after diff pending) = fst ` set pending \<union> re_pointer ` set diff"
proof (induction diff arbitrary: pending)
  case (Cons x xs)
  have "fst ` set (AList.update (re_pointer x) x pending) = insert (re_pointer x) (fst ` set pending)"
    by (simp add: dom_update flip: dom_map_of_conv_image_fst) (simp add: update_conv')
  then show ?case using Cons by (auto simp: pending_after_def)
qed (simp add: pending_after_def)

lemma pending_after_entries:
  "\<forall>(k, x)\<in>set pending. re_pointer x = k \<Longrightarrow> \<forall>(k, x)\<in>set (pending_after diff pending). re_pointer x = k"
proof (induction diff arbitrary: pending)
  case (Cons y ys)
  have "\<forall>(k, x)\<in>set (AList.update (re_pointer y) y pending). re_pointer x = k"
    using Cons.prems by (induction pending) auto
  from Cons.IH [OF this] show ?case by (simp add: pending_after_def)
qed (simp add: pending_after_def)

lemma commit_Some:
  assumes "commit cx fails now p actor e = (Some (diff, w), e')"
  shows "diff = restart_diff (cc_go cx) (map_at (e_schemas e) (p_name p)) (map_at (e_filled e) (p_name p)) (p_filled p) ''''"
    "e_raw e' = (e_raw e)(p_name p \<mapsto> p_merged p)" "e_filled e' = (e_filled e)(p_name p \<mapsto> p_filled p)"
    "e_pending e' = pending_after diff (e_pending e)" "e_schemas e' = e_schemas e" "e_names e' = e_names e"
    "e_notified e' = e_notified e" "w = \<lparr>sv_name = p_name p, sv_actor = actor, sv_status = pending_status e'\<rparr>"
    "e_files e' (file_name j) = (if j = p_name p then yaml_marshal cx (p_merged p) else e_files e (file_name j))"
    "yaml_marshal cx (p_merged p) \<noteq> None"
    "e_files e (file_name (p_name p)) = Some old \<Longrightarrow> e_files e' (file_name (p_name p) @ ''.bak'') = Some old"
    "e_token e' = e_token e"
proof -
  obtain files where w: "write_config cx fails (p_name p) (p_merged p) (e_files e) = (True, files)"
    using assms by (auto simp: commit_def Let_def split: prod.splits if_splits)
  note f = write_config_files [OF w]
  show "e_files e' (file_name j) = (if j = p_name p then yaml_marshal cx (p_merged p) else e_files e (file_name j))"
    "yaml_marshal cx (p_merged p) \<noteq> None"
    "e_files e (file_name (p_name p)) = Some old \<Longrightarrow> e_files e' (file_name (p_name p) @ ''.bak'') = Some old"
    using assms w f by (auto simp: commit_def Let_def)
qed (use assms in \<open>auto simp: commit_def Let_def pending_after_def split: prod.splits if_splits\<close>)

lemma commit_None:
  assumes "commit cx fails now p actor e = (None, e')"
  shows "e' = e\<lparr>e_files := e_files e'\<rparr>" "e_files e' (file_name j) = e_files e (file_name j)"
proof -
  obtain files where w: "write_config cx fails (p_name p) (p_merged p) (e_files e) = (False, files)"
    and e': "e' = e\<lparr>e_files := files\<rparr>"
    using assms by (auto simp: commit_def Let_def split: prod.splits if_splits)
  show "e' = e\<lparr>e_files := e_files e'\<rparr>" by (simp add: e')
  show "e_files e' (file_name j) = e_files e (file_name j)" using write_config_files(1) [OF w, of j] by (simp add: e')
qed

lemma write_config_ok:
  "yaml_marshal cx m = Some tx \<Longrightarrow> file_name n \<notin> fails \<Longrightarrow> file_name n @ ''.bak'' \<notin> fails \<Longrightarrow>
     fst (write_config cx fails n m files)"
  by (simp add: write_config_def write_text_def Let_def split: option.split)

lemma write_config_fails: "file_name n \<in> fails \<Longrightarrow> \<not> fst (write_config cx fails n m files)"
  by (simp add: write_config_def write_text_def Let_def split: option.split)

lemma commit_written:
  "fst (commit cx fails now p actor e) \<noteq> None \<longleftrightarrow> fst (write_config cx fails (p_name p) (p_merged p) (e_files e))"
  by (simp add: commit_def Let_def split: prod.split)

subsection \<open>The invariant\<close>

definition doc_ok :: "config_context \<Rightarrow> engine \<Rightarrow> string \<Rightarrow> bool" where
  "doc_ok cx e name \<longleftrightarrow>
     (\<forall>filled. e_filled e name = Some filled \<longrightarrow>
        (\<exists>schema raw. e_schemas e name = Some schema \<and> e_raw e name = Some raw
            \<and> filled = fill_defaults schema raw
            \<and> object_errors (cc_fuel cx) (cc_go cx) schema filled schema = Some []
            \<and> read_raw cx e name = Some raw))"

definition pending_ok :: "engine \<Rightarrow> bool" where
  "pending_ok e \<longleftrightarrow> (\<forall>(k, x)\<in>set (e_pending e). re_pointer x = k)"

definition engine_ok :: "config_context \<Rightarrow> engine \<Rightarrow> bool" where
  "engine_ok cx e \<longleftrightarrow> (\<forall>name. doc_ok cx e name) \<and> pending_ok e"

text \<open>The YAML library reads back what it wrote.\<close>

definition yaml_roundtrip :: "config_context \<Rightarrow> bool" where
  "yaml_roundtrip cx \<longleftrightarrow> (\<forall>m tx. yaml_marshal cx m = Some tx \<longrightarrow> yaml_parse cx tx = Some (JObj m))"

lemma doc_ok_cong:
  assumes "doc_ok cx e name" and "e_filled e' name = e_filled e name" "e_raw e' name = e_raw e name"
    "e_schemas e' name = e_schemas e name" "e_files e' (file_name name) = e_files e (file_name name)"
  shows "doc_ok cx e' name"
  using assms by (simp add: doc_ok_def read_raw_def)

lemma commit_keeps:
  assumes y: "yaml_roundtrip cx" and ok: "engine_ok cx e"
    and s: "e_schemas e (p_name p) = Some schema" "p_filled p = fill_defaults schema (p_merged p)"
      "object_errors (cc_fuel cx) (cc_go cx) schema (p_filled p) schema = Some []"
    and c: "commit cx fails now p actor e = (r, e')"
  shows "engine_ok cx e'"
proof (cases r)
  case None
  note n = commit_None [OF c [unfolded None]]
  have same: "e_filled e' = e_filled e" "e_raw e' = e_raw e" "e_schemas e' = e_schemas e" "e_pending e' = e_pending e"
    by (subst n(1), simp)+
  have "doc_ok cx e' name" for name
    by (rule doc_ok_cong [of cx e]) (use ok n(2) same in \<open>simp_all add: engine_ok_def\<close>)
  then show ?thesis using ok same by (simp add: engine_ok_def pending_ok_def)
next
  case (Some dw)
  obtain diff w where dw: "dw = (diff, w)" by fastforce
  note k = commit_Some [OF c [unfolded Some dw]]
  have "doc_ok cx e' name" for name
  proof (cases "name = p_name p")
    case True
    obtain tx where "yaml_marshal cx (p_merged p) = Some tx" using k(10) by blast
    then have "read_raw cx e' name = Some (p_merged p)"
      using k(9) [of name] y True by (simp add: read_raw_def yaml_roundtrip_def)
    then show ?thesis using k(2,3,5) s True by (simp add: doc_ok_def)
  next
    case False
    show ?thesis
      by (rule doc_ok_cong [of cx e]) (use ok False k(2,3,5) k(9) [of name] in \<open>simp_all add: engine_ok_def\<close>)
  qed
  moreover have "pending_ok e'"
    using ok k(4) pending_after_entries [of "e_pending e" diff] by (simp add: engine_ok_def pending_ok_def)
  ultimately show ?thesis by (simp add: engine_ok_def)
qed

lemma engine_ok_notify [simp]: "engine_ok cx (notify_saved c ws e) = engine_ok cx e"
  by (simp add: notify_saved_def engine_ok_def doc_ok_def pending_ok_def read_raw_def)

lemma notify_saved_frame [simp]:
  "e_names (notify_saved cx ws e) = e_names e" "e_schemas (notify_saved cx ws e) = e_schemas e"
  "e_raw (notify_saved cx ws e) = e_raw e" "e_filled (notify_saved cx ws e) = e_filled e"
  "e_files (notify_saved cx ws e) = e_files e" "e_pending (notify_saved cx ws e) = e_pending e"
  by (simp_all add: notify_saved_def)

subsection \<open>Preparing\<close>

lemma prepare_Some:
  assumes "prepare cx e name body = Some p"
  shows "p_name p = name"
    "p_merged p = obj_of (merge_patch (JObj (map_at (e_raw e) name)) (JObj body))"
    "p_filled p = fill_defaults (map_at (e_schemas e) name) (p_merged p)"
    "p_errors p = [] \<Longrightarrow> object_errors (cc_fuel cx) (cc_go cx) (map_at (e_schemas e) name) (p_filled p) (map_at (e_schemas e) name) = Some []
      \<and> read_only_pointers (map_at (e_schemas e) name) body '''' = []"
  using assms by (auto simp: prepare_def Let_def)

definition loaded :: "engine \<Rightarrow> bool" where
  "loaded e \<longleftrightarrow> (\<forall>name\<in>set (e_names e). e_schemas e name \<noteq> None)"

lemma map_at_Some: "m k \<noteq> None \<Longrightarrow> m k = Some (map_at m k)"
  by (auto simp: map_at_def)

definition prepared_ok :: "config_context \<Rightarrow> engine \<Rightarrow> prepared \<Rightarrow> bool" where
  "prepared_ok cx e p \<longleftrightarrow> (\<exists>schema. e_schemas e (p_name p) = Some schema
     \<and> p_filled p = fill_defaults schema (p_merged p)
     \<and> object_errors (cc_fuel cx) (cc_go cx) schema (p_filled p) schema = Some [])"

lemma prepared_okI:
  "prepare cx e name body = Some p \<Longrightarrow> p_errors p = [] \<Longrightarrow> e_schemas e name \<noteq> None \<Longrightarrow> prepared_ok cx e p"
  using prepare_Some [of cx e name body p] map_at_Some [of "e_schemas e" name] by (simp add: prepared_ok_def)

lemma commit_frame: "commit cx fails now p actor e = (r, e') \<Longrightarrow> e_schemas e' = e_schemas e \<and> e_names e' = e_names e
    \<and> e_notified e' = e_notified e"
  by (auto simp: commit_def Let_def split: prod.splits if_splits)

lemma commit_one_keeps:
  assumes "yaml_roundtrip cx" and "engine_ok cx e" and "prepared_ok cx e p"
    and "commit_one cx fails now p actor e = (r, e')"
  shows "engine_ok cx e' \<and> e_schemas e' = e_schemas e \<and> e_names e' = e_names e"
proof -
  obtain schema where s: "e_schemas e (p_name p) = Some schema" "p_filled p = fill_defaults schema (p_merged p)"
      "object_errors (cc_fuel cx) (cc_go cx) schema (p_filled p) schema = Some []"
    using assms(3) by (auto simp: prepared_ok_def)
  obtain x e1 where c: "commit cx fails now p actor e = (x, e1)" by fastforce
  have "engine_ok cx e1" using commit_keeps [OF assms(1,2) s c] .
  then show ?thesis using assms(4) c commit_frame [OF c]
    by (auto simp: commit_one_def notify_saved_def split: option.splits) (simp add: engine_ok_def doc_ok_def pending_ok_def read_raw_def)
qed

lemma prepare_all_ok:
  assumes "prepare_all cx e patches ns = Some ps" and "\<forall>p\<in>set ps. p_errors p = []"
    and "\<forall>n\<in>set ns. e_schemas e n \<noteq> None"
  shows "\<forall>p\<in>set ps. prepared_ok cx e p"
  using assms
proof (induction ns arbitrary: ps)
  case (Cons n ns)
  then show ?case using prepared_okI [of cx e n]
    by (auto split: option.splits)
qed simp

lemma commit_all_keeps:
  assumes "yaml_roundtrip cx" and "engine_ok cx e" and "\<forall>p\<in>set ps. prepared_ok cx e p"
    and "commit_all cx fails now ps actor e = (r, e')"
  shows "engine_ok cx e' \<and> e_schemas e' = e_schemas e \<and> e_names e' = e_names e"
  using assms(2-)
proof (induction ps arbitrary: e r)
  case (Cons p ps)
  obtain schema where s: "e_schemas e (p_name p) = Some schema" "p_filled p = fill_defaults schema (p_merged p)"
      "object_errors (cc_fuel cx) (cc_go cx) schema (p_filled p) schema = Some []"
    using Cons.prems(2) by (auto simp: prepared_ok_def)
  obtain x e1 where c: "commit cx fails now p actor e = (x, e1)" by fastforce
  have e1: "engine_ok cx e1" using commit_keeps [OF assms(1) Cons.prems(1) s c] .
  have f: "e_schemas e1 = e_schemas e" "e_names e1 = e_names e" using commit_frame [OF c] by simp_all
  show ?case
  proof (cases x)
    case None
    then show ?thesis using Cons.prems(3) c e1 f by simp
  next
    case (Some dw)
    obtain r1 e2 where c2: "commit_all cx fails now ps actor e1 = (r1, e2)" by fastforce
    have "e2 = e'" using Cons.prems(3) c c2 Some by (auto split: option.splits prod.splits)
    then show ?thesis using Cons.IH [of e1 r1] c2 e1 Cons.prems(2) f by (simp add: prepared_ok_def)
  qed
qed simp

subsection \<open>The engine as a state machine\<close>

inductive engine_step :: "config_context \<Rightarrow> engine \<Rightarrow> engine \<Rightarrow> bool" for cx where
  es_save: "save_config cx fails now name body actor e = Some (r, e') \<Longrightarrow> engine_step cx e e'"
| es_save_all: "save_all cx fails now patches actor e = Some (r, e') \<Longrightarrow> engine_step cx e e'"
| es_restore: "restore cx fails now name document actor e = Some (r, e') \<Longrightarrow> engine_step cx e e'"
| es_clear: "engine_step cx e (clear_restart e)"
| es_token: "engine_step cx e (delete_setup_token e)"

definition engine_init :: "config_context \<Rightarrow> engine \<Rightarrow> bool" where
  "engine_init cx e \<longleftrightarrow> (\<exists>schemas fresh e0. e_filled e0 = (\<lambda>_. None) \<and> e_pending e0 = []
     \<and> load_config cx schemas fresh e0 = Some (True, e))"

definition engine_inv :: "config_context \<Rightarrow> engine \<Rightarrow> bool" where
  "engine_inv cx e \<longleftrightarrow> engine_ok cx e \<and> loaded e"

lemma load_one_keeps:
  assumes "engine_ok cx e" and "load_one cx schemas name e = Some (ok, e')"
  shows "(ok \<longrightarrow> engine_ok cx e' \<and> e_schemas e' name \<noteq> None) \<and> e_names e' = e_names e
    \<and> (\<forall>j. e_schemas e j \<noteq> None \<longrightarrow> e_schemas e' j \<noteq> None)"
proof (cases ok)
  case True
  obtain schema raw where s: "schemas name = Some schema" "read_raw cx e name = Some raw"
      "object_errors (cc_fuel cx) (cc_go cx) schema (fill_defaults schema raw) schema = Some []"
    and e': "e' = e\<lparr>e_schemas := (e_schemas e)(name \<mapsto> schema), e_raw := (e_raw e)(name \<mapsto> raw),
        e_filled := (e_filled e)(name \<mapsto> fill_defaults schema raw)\<rparr>"
    using assms(2) True by (auto simp: load_one_def Let_def read_raw_def split: option.splits if_splits)
  have "doc_ok cx e' j" for j
  proof (cases "j = name")
    case True
    then show ?thesis using s e' by (simp add: doc_ok_def read_raw_def)
  next
    case False
    show ?thesis by (rule doc_ok_cong [of cx e]) (use assms(1) False e' in \<open>simp_all add: engine_ok_def\<close>)
  qed
  then show ?thesis using assms(1) e' by (simp add: engine_ok_def pending_ok_def)
next
  case False
  then show ?thesis using assms(2) by (auto simp: load_one_def Let_def split: option.splits if_splits)
qed

lemma load_names_keeps:
  "engine_ok cx e \<Longrightarrow> load_names cx schemas ns e = Some (True, e') \<Longrightarrow>
     engine_ok cx e' \<and> e_names e' = e_names e \<and> (\<forall>n\<in>set ns. e_schemas e' n \<noteq> None)
     \<and> (\<forall>j. e_schemas e j \<noteq> None \<longrightarrow> e_schemas e' j \<noteq> None)"
proof (induction ns arbitrary: e)
  case (Cons n ns)
  then obtain e1 where 1: "load_one cx schemas n e = Some (True, e1)" "load_names cx schemas ns e1 = Some (True, e')"
    by (auto split: option.splits)
  note k = load_one_keeps [OF Cons.prems(1) 1(1)]
  then show ?case using Cons.IH [OF _ 1(2)] by auto
qed simp

lemma engine_init_inv: "engine_init cx e \<Longrightarrow> engine_inv cx e"
proof -
  assume "engine_init cx e"
  then obtain schemas fresh e0 e1 where 0: "e_filled e0 = (\<lambda>_. None)" "e_pending e0 = []"
    and l: "load_names cx schemas (e_names e0) e0 = Some (True, e1)" and e: "e = fill_setup_token fresh e1"
    by (auto simp: engine_init_def load_config_def split: if_splits)
  have "engine_ok cx e0" using 0 by (simp add: engine_ok_def doc_ok_def pending_ok_def)
  from load_names_keeps [OF this l] show ?thesis
    by (auto simp: e fill_setup_token_def engine_inv_def loaded_def engine_ok_def doc_ok_def pending_ok_def read_raw_def
        split: option.split)
qed

lemma engine_step_inv:
  assumes y: "yaml_roundtrip cx" and inv: "engine_inv cx e" and st: "engine_step cx e e'"
  shows "engine_inv cx e'"
  using st
proof cases
  case (es_save fails now name body actor r)
  show ?thesis
  proof (cases "r = UnknownName \<or> (\<exists>es. r = Refused es)")
    case True
    then show ?thesis using es_save inv
      by (auto simp: save_config_def commit_one_def split: if_splits option.splits prod.splits)
  next
    case False
    then obtain p where p: "prepare cx e name body = Some p" "p_errors p = []" "known e name"
        "commit_one cx fails now p actor e = (r, e')"
      using es_save by (auto simp: save_config_def split: if_splits)
    then have "prepared_ok cx e p" using inv by (intro prepared_okI) (auto simp: engine_inv_def loaded_def known_def)
    from commit_one_keeps [OF y _ this p(4)] show ?thesis using inv by (simp add: engine_inv_def loaded_def)
  qed
next
  case (es_save_all fails now patches actor r)
  then obtain ps where ps: "prepare_all cx e patches (e_names e) = Some ps"
    by (auto simp: save_all_def)
  show ?thesis
  proof (cases "concat (map prefixed_errors ps) = []")
    case True
    then have "\<forall>p\<in>set ps. p_errors p = []" by (auto simp: prefixed_errors_def)
    then have ok: "\<forall>p\<in>set ps. prepared_ok cx e p"
      using prepare_all_ok [OF ps] inv by (auto simp: engine_inv_def loaded_def)
    obtain w e1 where c: "commit_all cx fails now ps actor e = (w, e1)" by fastforce
    have "e' = e1 \<or> (\<exists>ws. e' = notify_saved cx ws e1)"
      using es_save_all ps True c by (auto simp: save_all_def Let_def split: option.splits)
    then show ?thesis using commit_all_keeps [OF y _ ok c] inv
      by (auto simp: engine_inv_def loaded_def)
  next
    case False
    then show ?thesis using es_save_all ps inv by (simp add: save_all_def Let_def)
  qed
next
  case (es_restore fails now name document actor r)
  show ?thesis
  proof (cases "r = UnknownName \<or> (\<exists>es. r = Refused es)")
    case True
    then show ?thesis using es_restore inv
      by (auto simp: restore_def commit_one_def Let_def split: if_splits option.splits prod.splits)
  next
    case False
    let ?s = "map_at (e_schemas e) name"
    let ?p = "\<lparr>p_name = name, p_merged = document, p_filled = fill_defaults ?s document, p_errors = []\<rparr>"
    have c: "known e name" "object_errors (cc_fuel cx) (cc_go cx) ?s (fill_defaults ?s document) ?s = Some []"
        "commit_one cx fails now ?p actor e = (r, e')"
      using es_restore False by (auto simp: restore_def Let_def split: if_splits)
    then have "prepared_ok cx e ?p"
      using inv map_at_Some [of "e_schemas e" name] by (auto simp: prepared_ok_def engine_inv_def loaded_def known_def)
    from commit_one_keeps [OF y _ this c(3)] show ?thesis using inv by (simp add: engine_inv_def loaded_def)
  qed
qed (use inv in \<open>simp_all add: clear_restart_def delete_setup_token_def engine_inv_def loaded_def engine_ok_def
      doc_ok_def pending_ok_def read_raw_def\<close>)

text \<open>The invariant machinery of the prelude, on the engine of a context whose YAML library round-trips.\<close>

definition yaml_engine_init :: "config_context \<Rightarrow> engine \<Rightarrow> bool" where
  "yaml_engine_init cx e \<longleftrightarrow> yaml_roundtrip cx \<and> engine_init cx e"

definition yaml_engine_inv :: "config_context \<Rightarrow> engine \<Rightarrow> bool" where
  "yaml_engine_inv cx e \<longleftrightarrow> yaml_roundtrip cx \<and> engine_inv cx e"

interpretation ce: invariant_system "yaml_engine_init cx" "engine_step cx" "yaml_engine_inv cx" for cx
  by unfold_locales (auto simp: yaml_engine_init_def yaml_engine_inv_def intro: engine_init_inv engine_step_inv)

subsection \<open>Batches\<close>

definition put_prepared :: "prepared list \<Rightarrow> (string \<Rightarrow> obj option) \<Rightarrow> (string \<Rightarrow> obj option)" where
  "put_prepared ps m = fold (\<lambda>p m. m(p_name p \<mapsto> p_merged p)) ps m"

lemma commit_all_prefix:
  "commit_all cx fails now ps actor e = (r, e') \<Longrightarrow>
     (case r of
        Some ws \<Rightarrow> e_raw e' = put_prepared ps (e_raw e) \<and> map sv_name ws = map p_name ps
      | None \<Rightarrow> \<exists>k<length ps. e_raw e' = put_prepared (take k ps) (e_raw e))
     \<and> e_notified e' = e_notified e"
proof (induction ps arbitrary: e r)
  case (Cons p ps)
  obtain x e1 where c: "commit cx fails now p actor e = (x, e1)" by fastforce
  show ?case
  proof (cases x)
    case None
    have "e_raw e1 = e_raw e" by (subst commit_None(1) [OF c [unfolded None]], simp)
    then show ?thesis using Cons.prems c None commit_frame [OF c] by (auto simp: put_prepared_def intro: exI [of _ 0])
  next
    case (Some dw)
    obtain diff w where dw: "dw = (diff, w)" by fastforce
    note k = commit_Some [OF c [unfolded Some dw]]
    obtain r1 e2 where c2: "commit_all cx fails now ps actor e1 = (r1, e2)" by fastforce
    have e2: "e2 = e'" "r = map_option ((#) w) r1"
      using Cons.prems c c2 Some dw by (auto split: option.splits)
    have raw: "put_prepared xs (e_raw e1) = put_prepared (p # xs) (e_raw e)" for xs
      by (simp add: put_prepared_def k(2))
    show ?thesis
    proof (cases r1)
      case None
      then obtain j where "j < length ps" "e_raw e' = put_prepared (take j ps) (e_raw e1)"
        using Cons.IH [of e1 r1] c2 e2(1) by auto
      then show ?thesis using Cons.IH [of e1 r1] c2 e2 None raw k(7) by (auto intro!: exI [of _ "Suc j"])
    next
      case (Some ws)
      then show ?thesis using Cons.IH [of e1 r1] c2 e2 raw k(7,8) by simp
    qed
  qed
qed (auto simp: put_prepared_def)

lemma prepare_all_names:
  "prepare_all cx e patches ns = Some ps \<Longrightarrow> map p_name ps = filter (\<lambda>n. patches n \<noteq> None) ns"
proof (induction ns arbitrary: ps)
  case (Cons n ns)
  show ?case
  proof (cases "patches n")
    case (Some body)
    then obtain p qs where p: "prepare cx e n body = Some p" "prepare_all cx e patches ns = Some qs" "ps = p # qs"
      using Cons.prems by (auto split: option.splits)
    then show ?thesis using Cons.IH [OF p(2)] prepare_Some(1) [OF p(1)] Some by simp
  qed (use Cons in simp)
qed simp

subsection \<open>Deletions of a full section\<close>

lemma nulls_fold:
  "map_of (fold (\<lambda>(k, _) acc. if has acc k then acc else AList.update k JNull acc) raw m) j =
     (case map_of m j of Some v \<Rightarrow> Some v | None \<Rightarrow> if j \<in> fst ` set raw then Some JNull else None)"
proof (induction raw arbitrary: m)
  case (Cons kv raw)
  obtain k v where kv: "kv = (k, v)" by fastforce
  show ?case using Cons [of "if has m k then m else AList.update k JNull m"]
    by (auto simp: kv has_def update_conv' split: option.splits)
qed (simp split: option.split)

lemma distinct_nulls:
  "distinct (map fst m) \<Longrightarrow>
     distinct (map fst (fold (\<lambda>(k, _) acc. if has acc k then acc else AList.update k JNull acc) raw m))"
  by (induction raw arbitrary: m) (auto simp: distinct_update)



lemma map_of_deletions:
  "map_of (with_deletions e name body) key = map_option (deletion_entry e name key) (map_of body key)"
  unfolding with_deletions_def by (induction body) auto

lemma keys_with_deletions: "map fst (with_deletions e name body) = map fst body"
  unfolding with_deletions_def by (induction body) auto

end
