(* ===== verification/ConfigProps.thy ===== *)
theory ConfigProps
  imports ConfigEngineLaws
begin

text \<open>
  The properties of the configuration engine, each with an instance on a small configuration: one
  file, \<open>web\<close>, with a port, and a YAML library given by a finite table.
\<close>

definition web_schema :: obj where
  "web_schema = [(''properties'', JObj
     [(''port'', JObj [(''type'', JStr ''integer''), (''default'', JInt 80), (''requiresRestart'', JBool True),
        (''restartReason'', JStr ''rebind'')])])]"

definition web_yaml :: "(string \<times> obj) list" where
  "web_yaml = [(''port: 8080'', [(''port'', JInt 8080)]), (''{}'', [])]"

definition web_context :: config_context where
  "web_context = \<lparr>cc_go = plain_env, cc_fuel = 6,
     yaml_marshal = (\<lambda>m. map_of (map (\<lambda>(t, d). (d, t)) web_yaml) m),
     yaml_parse = (\<lambda>t. map_option JObj (map_of web_yaml t)),
     writable_hook = None, reachable_hook = None, has_on_saved = True\<rparr>"

definition web_start :: engine where
  "web_start = \<lparr>e_names = [''web''], e_schemas = (\<lambda>_. None), e_raw = (\<lambda>_. None), e_filled = (\<lambda>_. None),
     e_pending = [], e_last_by = None, e_last_time = None,
     e_files = [''web.config.yaml'' \<mapsto> ''{}''], e_token = Some ''s3cret '', e_notified = []\<rparr>"

definition web_engine :: engine where
  "web_engine = web_start\<lparr>e_schemas := [''web'' \<mapsto> web_schema], e_raw := [''web'' \<mapsto> []],
     e_filled := [''web'' \<mapsto> [(''port'', JInt 80)]]\<rparr>"

lemma web_yaml_roundtrip: "yaml_roundtrip web_context"
  by (auto simp: yaml_roundtrip_def web_context_def web_yaml_def split: if_splits)

lemma web_fill: "fill_defaults web_schema c = (if has c ''port'' then c else AList.update ''port'' (JInt 80) c)"
  by (simp add: fill_defaults_fold default_step_def web_schema_def properties_of_def field_def has_def)

lemma web_errors: "object_errors 6 plain_env web_schema [(''port'', JInt n)] web_schema = Some []"
  by (simp add: object_errors_def eval_nat_numeral web_schema_def walk_property_def visible_def str_of_def
      field_def has_def resolve_def required_of_def passes_if_def arr_of_def names_in_def
      value_errors_def checks_for_def type_check_def type_ok_def non_blank_check_def length_check_def
      pattern_check_def bounds_check_def range_check_def num_of_def enum_check_def format_check_def
      items_check_def not_check_def at_pointer_def Let_def List.map_filter_def)

lemma web_flagged: "flagged_without_reason web_schema '''' = []"
  by (simp add: flagged_without_reason.simps web_schema_def properties_of_def field_def has_def
      is_map_schema_def flagged_def reason_of_def str_of_def)

lemma web_load: "load_config web_context [''web'' \<mapsto> web_schema] ''fresh'' web_start = Some (True, web_engine)"
proof -
  have "\<not> blank_text ''s3cret ''"
    by (simp add: blank_text_def trim_space_def runes.simps space_rune_def)
  then show ?thesis
    using web_errors [of 80] web_flagged
    by (simp add: load_config_def load_one_def read_raw_def web_start_def web_engine_def web_context_def file_name_def
        web_yaml_def web_fill has_def Let_def hook_errors_def leaves.simps fill_setup_token_def)
qed

lemma web_reachable: "reachable (yaml_engine_init web_context) (engine_step web_context) web_engine"
  by (rule reachable_init)
    (use web_yaml_roundtrip web_load in \<open>auto simp: yaml_engine_init_def engine_init_def web_start_def intro!: exI\<close>)

subsection \<open>Cached documents\<close>

text \<open>
  C4: in every state the engine reaches after a successful load, through any saves, batch saves,
  restores and failed writes, a served document is the default-filled form of the raw document, the
  raw document is what the file on disk parses to, and the served document passes its schema.
\<close>
theorem served_config_valid:
  assumes "reachable (yaml_engine_init cx) (engine_step cx) e" and "e_filled e name = Some filled"
  shows "\<exists>schema raw. e_schemas e name = Some schema \<and> e_raw e name = Some raw
    \<and> filled = fill_defaults schema raw
    \<and> object_errors (cc_fuel cx) (cc_go cx) schema filled schema = Some []
    \<and> read_raw cx e name = Some raw"
  using ce.always [OF assms(1)] assms(2)
  by (auto simp: yaml_engine_inv_def engine_inv_def engine_ok_def doc_ok_def)

theorem served_config_valid_witness:
  "read_raw web_context web_engine ''web'' = Some [] \<and> e_filled web_engine ''web'' = Some [(''port'', JInt 80)]"
  using served_config_valid [OF web_reachable, of "''web''" "[(''port'', JInt 80)]"]
  by (auto simp: web_engine_def)

subsection \<open>Saving\<close>

text \<open>
  C11: an accepted save merges the patch into the raw document, serves its default-filled form, keeps
  the other documents, leaves the previous file as the backup, answers the restart list of the change,
  adds it to the pending list and tells the after-write function the pending list that results.
\<close>
theorem save_applies_patch:
  assumes "save_config cx fails now name body actor e = Some (Saved diff, e')"
  shows "known e name
    \<and> e_raw e' name = Some (obj_of (merge_patch (JObj (map_at (e_raw e) name)) (JObj body)))
    \<and> e_filled e' name = Some (fill_defaults (map_at (e_schemas e) name) (map_at (e_raw e') name))
    \<and> (\<forall>j. j \<noteq> name \<longrightarrow> e_raw e' j = e_raw e j \<and> e_filled e' j = e_filled e j)
    \<and> e_files e' (file_name name) = yaml_marshal cx (map_at (e_raw e') name)
    \<and> (\<forall>old. e_files e (file_name name) = Some old \<longrightarrow> e_files e' (file_name name @ ''.bak'') = Some old)
    \<and> diff = restart_diff (cc_go cx) (map_at (e_schemas e) name) (map_at (e_filled e) name) (map_at (e_filled e') name) ''''
    \<and> fst ` set (e_pending e') = fst ` set (e_pending e) \<union> re_pointer ` set diff
    \<and> e_notified e' = e_notified e @
        (if has_on_saved cx then [\<lparr>sv_name = name, sv_actor = actor, sv_status = pending_status e'\<rparr>] else [])"
proof -
  obtain p e1 w where p: "known e name" "prepare cx e name body = Some p"
      "commit cx fails now p actor e = (Some (diff, w), e1)" "e' = notify_saved cx [w] e1"
    using assms by (auto simp: save_config_def commit_one_def split: if_splits option.splits prod.splits)
  note pr = prepare_Some [OF p(2)] and k = commit_Some [OF p(3)]
  have st: "pending_status e' = pending_status e1"
    by (simp add: p(4) notify_saved_def pending_status_def)
  have "e_notified e' = e_notified e @ (if has_on_saved cx then [w] else [])"
    by (simp add: p(4) notify_saved_def k(7))
  then show ?thesis using p(1) pr k(1-6,8,9,11) st pending_after_keys [of diff "e_pending e"]
    by (simp add: p(4) map_at_def)
qed

definition web_saved :: engine where
  "web_saved = snd (the (save_config web_context {} ''t1'' ''web'' [(''port'', JInt 8080)] ''admin'' web_engine))"

lemma web_save: "\<exists>diff. save_config web_context {} ''t1'' ''web'' [(''port'', JInt 8080)] ''admin'' web_engine
    = Some (Saved diff, web_saved)"
proof -
  have ro: "read_only_pointers web_schema [(''port'', JInt 8080)] '''' = []"
    by (simp add: read_only_pointers.simps web_schema_def properties_of_def field_def has_def is_map_schema_def)
  have m: "merge_patch (JObj []) (JObj [(''port'', JInt 8080)]) = JObj [(''port'', JInt 8080)]"
    by (simp add: merge_patch_obj patch_step_def)
  obtain p where p: "prepare web_context web_engine ''web'' [(''port'', JInt 8080)] = Some p"
      "p_errors p = []" "p_merged p = [(''port'', JInt 8080)]" "p_name p = ''web''"
    using ro m web_errors [of 8080]
    by (simp add: prepare_def web_engine_def web_context_def map_at_def web_fill has_def Let_def hook_errors_def
        leaves.simps web_start_def)
  have "\<exists>diff w e1. commit web_context {} ''t1'' p ''admin'' web_engine = (Some (diff, w), e1)"
    by (simp add: commit_def write_config_def write_text_def web_context_def web_yaml_def p Let_def split: option.split prod.split)
  then obtain diff w e1 where c: "commit web_context {} ''t1'' p ''admin'' web_engine = (Some (diff, w), e1)" by blast
  have "known web_engine ''web''" by (simp add: known_def web_engine_def web_start_def)
  then have s: "save_config web_context {} ''t1'' ''web'' [(''port'', JInt 8080)] ''admin'' web_engine
      = Some (Saved diff, notify_saved web_context [w] e1)"
    by (simp add: save_config_def p c commit_one_def)
  then show ?thesis by (simp add: web_saved_def)
qed

theorem save_applies_patch_witness:
  "e_raw web_saved ''web'' = Some [(''port'', JInt 8080)]
   \<and> e_files web_saved ''web.config.yaml.bak'' = Some ''{}''"
proof -
  obtain diff where s: "save_config web_context {} ''t1'' ''web'' [(''port'', JInt 8080)] ''admin'' web_engine
      = Some (Saved diff, web_saved)" using web_save by blast
  show ?thesis
    using save_applies_patch [OF s]
    by (simp add: web_engine_def web_start_def map_at_def merge_patch_obj patch_step_def file_name_def)
qed

text \<open>
  a save, batch save or restore that is refused (unknown name, failing rule) leaves the engine as
  it was; a single save or restore whose write fails leaves every served and raw document, the pending
  list, the configuration file and the notifications as they were.
\<close>
theorem refused_save_changes_nothing:
  assumes "save_config cx fails now name body actor e = Some (r, e')
    \<or> restore cx fails now name body actor e = Some (r, e')"
    and "\<And>diff. r \<noteq> Saved diff"
  shows "if r = WriteFailed
    then e_raw e' = e_raw e \<and> e_filled e' = e_filled e \<and> e_pending e' = e_pending e
      \<and> e_notified e' = e_notified e \<and> (\<forall>j. e_files e' (file_name j) = e_files e (file_name j))
    else e' = e"
proof -
  have one: "if r = WriteFailed
    then e_raw e' = e_raw e \<and> e_filled e' = e_filled e \<and> e_pending e' = e_pending e
      \<and> e_notified e' = e_notified e \<and> (\<forall>j. e_files e' (file_name j) = e_files e (file_name j))
    else e' = e" if c: "commit_one cx fails now p actor e = (r, e')" for p
  proof -
    have n: "commit cx fails now p actor e = (None, e')" "r = WriteFailed"
      using c assms(2) by (auto simp: commit_one_def split: prod.splits option.splits)
    have "e_raw e' = e_raw e" "e_filled e' = e_filled e" "e_pending e' = e_pending e" "e_notified e' = e_notified e"
      by (subst commit_None(1) [OF n(1)], simp)+
    then show ?thesis using commit_None(2) [OF n(1)] n(2) by simp
  qed
  from assms(1) show ?thesis
  proof
    assume "save_config cx fails now name body actor e = Some (r, e')"
    then show ?thesis using one by (auto simp: save_config_def split: if_splits)
  next
    assume "restore cx fails now name body actor e = Some (r, e')"
    then show ?thesis using one by (auto simp: restore_def Let_def split: if_splits)
  qed
qed

theorem refused_save_changes_nothing_witness:
  "save_config web_context {} ''t1'' ''db'' [] ''admin'' web_engine = Some (UnknownName, web_engine)"
proof -
  obtain r e' where s: "save_config web_context {} ''t1'' ''db'' [] ''admin'' web_engine = Some (r, e')"
    by (simp add: save_config_def known_def web_engine_def web_start_def)
  then have r: "r = UnknownName" by (simp add: save_config_def known_def web_engine_def web_start_def)
  from refused_save_changes_nothing [OF disjI1 [OF s]] show ?thesis using s r by simp
qed

text \<open>
  a batch validates every patch before any file is written: when one is refused nothing changes
  and all the errors come back under \<open>/configs/<name>\<close>. Otherwise the files are written in name order;
  when all succeed the after-write function hears of each, and when one fails the ones before it stay
  saved while the after-write function hears of none.
\<close>
theorem save_all_spec:
  assumes "save_all cx fails now patches actor e = Some (r, e')"
  shows "\<exists>ps. prepare_all cx e patches (e_names e) = Some ps
    \<and> map p_name ps = filter (\<lambda>n. patches n \<noteq> None) (e_names e)
    \<and> (case r of
         Refused es \<Rightarrow> e' = e \<and> es = concat (map prefixed_errors ps) \<and> es \<noteq> []
       | Saved _ \<Rightarrow> list_all (\<lambda>p. p_errors p = []) ps \<and> e_raw e' = put_prepared ps (e_raw e)
           \<and> map sv_name (drop (length (e_notified e)) (e_notified e')) = (if has_on_saved cx then map p_name ps else [])
       | WriteFailed \<Rightarrow> (\<exists>k<length ps. e_raw e' = put_prepared (take k ps) (e_raw e)) \<and> e_notified e' = e_notified e
       | UnknownName \<Rightarrow> False)"
proof -
  obtain ps where ps: "prepare_all cx e patches (e_names e) = Some ps"
    and r: "(if concat (map prefixed_errors ps) \<noteq> [] then (Refused (concat (map prefixed_errors ps)), e)
       else case commit_all cx fails now ps actor e of
              (None, e') \<Rightarrow> (WriteFailed, e') | (Some writes, e') \<Rightarrow> (Saved [], notify_saved cx writes e')) = (r, e')"
    using assms by (auto simp: save_all_def Let_def)
  show ?thesis
  proof (cases "concat (map prefixed_errors ps) = []")
    case False
    then show ?thesis using r ps prepare_all_names [OF ps] by auto
  next
    case True
    then have errs: "list_all (\<lambda>p. p_errors p = []) ps" by (auto simp: prefixed_errors_def list_all_iff)
    obtain w e1 where c: "commit_all cx fails now ps actor e = (w, e1)" by fastforce
    show ?thesis
      using r ps prepare_all_names [OF ps] True errs c commit_all_prefix [OF c]
      by (cases w) (auto simp: notify_saved_def split: if_splits)
  qed
qed

definition pair_engine :: engine where
  "pair_engine = web_engine\<lparr>e_names := [''web'', ''db''],
     e_schemas := [''web'' \<mapsto> web_schema, ''db'' \<mapsto> web_schema],
     e_raw := [''web'' \<mapsto> [], ''db'' \<mapsto> []],
     e_files := [''web.config.yaml'' \<mapsto> ''{}'', ''db.config.yaml'' \<mapsto> ''{}'']\<rparr>"

definition pair_patches :: "string \<Rightarrow> obj option" where
  "pair_patches = [''web'' \<mapsto> [(''port'', JInt 8080)], ''db'' \<mapsto> [(''port'', JInt 8080)]]"

lemma pair_prepare:
  assumes "n = ''web'' \<or> n = ''db''"
  shows "prepare web_context pair_engine n [(''port'', JInt 8080)] =
    Some \<lparr>p_name = n, p_merged = [(''port'', JInt 8080)], p_filled = [(''port'', JInt 8080)], p_errors = []\<rparr>"
proof -
  have "read_only_pointers web_schema [(''port'', JInt 8080)] '''' = []"
    by (simp add: read_only_pointers.simps web_schema_def properties_of_def field_def has_def is_map_schema_def)
  then show ?thesis using assms web_errors [of 8080]
    by (auto simp: prepare_def pair_engine_def web_engine_def web_context_def map_at_def web_fill has_def Let_def
        hook_errors_def leaves.simps merge_patch_obj patch_step_def)
qed

text \<open>The write of the second file fails: the first stays saved, and nobody is told.\<close>

theorem save_all_spec_witness:
  "\<exists>e'. save_all web_context {file_name ''db''} ''t1'' pair_patches ''admin'' pair_engine = Some (WriteFailed, e')
     \<and> e_raw e' ''web'' = Some [(''port'', JInt 8080)] \<and> e_notified e' = []"
proof -
  have n: "e_names pair_engine = [''web'', ''db'']" "e_notified pair_engine = []"
    by (simp_all add: pair_engine_def web_engine_def web_start_def)
let ?p = "\<lambda>n. \<lparr>p_name = n, p_merged = [(''port'', JInt 8080)], p_filled = [(''port'', JInt 8080)], p_errors = []\<rparr>"
  have pa: "prepare_all web_context pair_engine pair_patches [''web'', ''db''] = Some [?p ''web'', ?p ''db'']"
    by (simp add: pair_patches_def pair_prepare)
  have y: "yaml_marshal web_context [(''port'', JInt 8080)] = Some ''port: 8080''"
    by (simp add: web_context_def web_yaml_def)
  obtain diff w e1 where c1: "commit web_context {file_name ''db''} ''t1'' (?p ''web'') ''admin'' pair_engine = (Some (diff, w), e1)"
    using commit_written [of web_context "{file_name ''db''}" "''t1''" "?p ''web''" "''admin''" pair_engine]
      write_config_ok [OF y, of "''web''" "{file_name ''db''}"] file_name_bak [of "''db''" "''web''"]
    by (cases "commit web_context {file_name ''db''} ''t1'' (?p ''web'') ''admin'' pair_engine") auto
  obtain e' where c2: "commit web_context {file_name ''db''} ''t1'' (?p ''db'') ''admin'' e1 = (None, e')"
    using commit_written [of web_context "{file_name ''db''}" "''t1''" "?p ''db''" "''admin''" e1]
      write_config_fails [of "''db''" "{file_name ''db''}" web_context "[(''port'', JInt 8080)]" "e_files e1"]
    by (cases "fst (commit web_context {file_name ''db''} ''t1'' (?p ''db'') ''admin'' e1)")
      (auto, metis prod.collapse)
  have "e_raw e' = e_raw e1" by (subst commit_None(1) [OF c2], simp)
  then have raw: "e_raw e' ''web'' = Some [(''port'', JInt 8080)]" using commit_Some(2) [OF c1] by simp
  have c: "commit_all web_context {file_name ''db''} ''t1'' [?p ''web'', ?p ''db''] ''admin'' pair_engine = (None, e')"
    using c1 c2 by simp
  have s: "save_all web_context {file_name ''db''} ''t1'' pair_patches ''admin'' pair_engine = Some (WriteFailed, e')"
    using c by (simp add: save_all_def n pa prefixed_errors_def del: commit_all.simps prepare_all.simps)

  then show ?thesis using save_all_spec [OF s] n raw by auto
qed

text \<open>
  A patch that gives a map section in full, saved through the deletions the engine adds, leaves in
  that section exactly the entries the patch gives (those it sets to null apart): no entry of the old
  section survives by being left out.
\<close>
theorem full_section_replaces:
  assumes "wf_json (JObj body)" and "map_of body key = Some (JObj sec)"
    and "field (properties_of (map_at (e_schemas e) name)) key = JObj p" and "is_map_schema p"
  shows "has (obj_of (field (obj_of (merge_patch (JObj (map_at (e_raw e) name)) (JObj (with_deletions e name body)))) key)) k
    \<longleftrightarrow> has sec k \<and> field sec k \<noteq> JNull"
proof -
  let ?raw = "map_at (e_raw e) name"
  let ?sec = "with_map_deletions p (obj_of (field ?raw key)) sec"
  have wf: "distinct (map fst body)" "distinct (map fst sec)"
    using assms(1,2) by (auto simp: list_all_iff dest!: map_of_SomeD)
  have sec: "?sec = fold (\<lambda>(k, _) acc. if has acc k then acc else AList.update k JNull acc) (obj_of (field ?raw key)) sec"
    using assms(4) by (subst with_map_deletions.simps) simp
  have d: "distinct (map fst ?sec)" unfolding sec by (rule distinct_nulls [OF wf(2)])
  have body: "map_of (with_deletions e name body) key = Some (JObj ?sec)"
    using assms(2,3) by (simp add: map_of_deletions deletion_entry_def)
  have "map_of (fold patch_step (with_deletions e name body) ?raw) key = Some (merge_patch (field ?raw key) (JObj ?sec))"
    using patched.lookup_fold [of "with_deletions e name body" ?raw key] wf(1) body
    by (simp add: keys_with_deletions patch_effect_def field_opt)
  then have "obj_of (field (obj_of (merge_patch (JObj ?raw) (JObj (with_deletions e name body)))) key)
      = fold patch_step ?sec (obj_of (field ?raw key))"
    by (simp add: obj_of_merge field_def)
  then have goal: "has (obj_of (field (obj_of (merge_patch (JObj ?raw) (JObj (with_deletions e name body)))) key)) k
      \<longleftrightarrow> map_of (fold patch_step ?sec (obj_of (field ?raw key))) k \<noteq> None"
    by (simp add: has_def)
  note look = patched.lookup_fold [OF d, of "obj_of (field ?raw key)" k]
  note nulls = nulls_fold [of "obj_of (field ?raw key)" sec k, folded sec]
  show ?thesis
  proof (cases "map_of sec k")
    case (Some v)
    then show ?thesis unfolding goal look nulls by (simp add: patch_effect_def has_def field_def)
  next
    case None
    then have "map_of (obj_of (field ?raw key)) k = None" if "k \<notin> fst ` set (obj_of (field ?raw key))"
      using that by (simp add: map_of_eq_None_iff)
    then show ?thesis unfolding goal look nulls using None by (simp add: patch_effect_def has_def)
  qed
qed

definition hosts_schema :: obj where
  "hosts_schema = [(''properties'', JObj [(''hosts'', JObj [(''additionalProperties'', JObj [(''type'', JStr ''integer'')])])])]"

definition hosts_engine :: engine where
  "hosts_engine = web_start\<lparr>e_names := [''net''], e_schemas := [''net'' \<mapsto> hosts_schema],
     e_raw := [''net'' \<mapsto> [(''hosts'', JObj [(''a'', JInt 1), (''b'', JInt 2)])]]\<rparr>"

theorem full_section_replaces_witness:
  "\<not> has (obj_of (field (obj_of (merge_patch (JObj (map_at (e_raw hosts_engine) ''net''))
      (JObj (with_deletions hosts_engine ''net'' [(''hosts'', JObj [(''b'', JInt 3)])])))) ''hosts'')) ''a''"
  using full_section_replaces [of "[(''hosts'', JObj [(''b'', JInt 3)])]" "''hosts''" "[(''b'', JInt 3)]" hosts_engine "''net''"
      "[(''additionalProperties'', JObj [(''type'', JStr ''integer'')])]" "''a''"]
  by (simp add: hosts_engine_def hosts_schema_def map_at_def properties_of_def field_def is_map_schema_def has_def)

subsection \<open>The setup token\<close>

text \<open>
  The setup token is accepted exactly when setup is still open and the file's trimmed content is
  that token and not empty; after setup deletes it no text is accepted, and an unset token file is
  given a fresh token, a set one keeps its own.
\<close>
theorem setup_token_spec:
  "token_matches e t = (\<exists>content. e_token e = Some content \<and> trim_space content = t \<and> t \<noteq> '''')
   \<and> \<not> token_matches (delete_setup_token e) t
   \<and> e_token (fill_setup_token fresh e) =
       (case e_token e of None \<Rightarrow> None | Some content \<Rightarrow> Some (if blank_text content then fresh else content))"
  by (auto simp: token_matches_def setup_complete_def delete_setup_token_def fill_setup_token_def split: option.split)

subsection \<open>A section that is not an object\<close>

text \<open>
  A scalar in the place of a section is accepted: filling defaults replaces it by the section's
  defaults before the schema is evaluated, so the document validates as if the section were empty,
  while the raw document, and the file a save writes, keep the scalar.
\<close>
theorem scalar_section_accepted:
  assumes "wf_json (JObj schema)" and "map_of (properties_of schema) k = Some (JObj p)" and "has p ''properties''"
    and "as_obj v = None" and "v \<noteq> JNull"
  shows "map_of (fill_defaults schema (AList.update k v config)) =
      map_of (fill_defaults schema (AList.update k (JObj []) config))
    \<and> map_of (obj_of (merge_patch (JObj config) (JObj [(k, v)]))) k = Some v"
proof -
  have d: "distinct (map fst (properties_of schema))" using wf_properties [OF assms(1)] by simp
  have "map_of (fill_defaults schema (AList.update k v config)) j =
      map_of (fill_defaults schema (AList.update k (JObj []) config)) j" for j
  proof (cases "j = k")
    case True
    then show ?thesis unfolding fill_defaults_fold defaulted.lookup_fold [OF d]
      using assms(2-4) by (simp add: default_effect_def update_conv')
  next
    case False
    then have "map_of (AList.update k v config) j = map_of (AList.update k (JObj []) config) j"
      by (simp add: update_conv')
    then show ?thesis unfolding fill_defaults_fold defaulted.lookup_fold [OF d] by (simp only:)
  qed
  moreover have "merge_patch w v = v" for w using assms(4) by simp
  ultimately show ?thesis using assms(5)
    by (auto simp: obj_of_merge patch_step_def update_conv')
qed

theorem scalar_section_accepted_witness:
  "map_of (fill_defaults [(''properties'', JObj [(''web'', JObj [(''properties'', JObj [(''port'', JObj [(''default'', JInt 80)])])])])]
      (AList.update ''web'' (JInt 5) [])) ''web''
   = map_of (fill_defaults [(''properties'', JObj [(''web'', JObj [(''properties'', JObj [(''port'', JObj [(''default'', JInt 80)])])])])]
      (AList.update ''web'' (JObj []) [])) ''web''"
proof -
  let ?s = "[(''properties'', JObj [(''web'', JObj [(''properties'', JObj [(''port'', JObj [(''default'', JInt 80)])])])])] :: obj"
  have p: "map_of (properties_of ?s) ''web'' = Some (JObj [(''properties'', JObj [(''port'', JObj [(''default'', JInt 80)])])])"
    by (simp add: properties_of_def field_def)
  show ?thesis using scalar_section_accepted [OF _ p, of "JInt 5" "[]"] by (simp add: has_def)
qed

end
