(* ===== verification/KeyStore.thy ===== *)
theory KeyStore
  imports Prelude
begin

text \<open>
  The API-key store (\<^verbatim>\<open>internal/keys/keys.go\<close>): the list of keys in file order, the cache of
  material already verified in this process, and the file. Writes may fail: each mutating operation
  takes whether the file can be written. The bcrypt library and SHA-256 are parameters. \<^verbatim>\<open>Verify\<close> scans
  a snapshot without the lock and then confirms under it: the halves are separate operations.
\<close>

record api_key =
  key_id :: int
  key_name :: string
  key_hash :: string
  key_description :: string
  key_role :: string
  key_active :: bool
  key_created :: int
  key_last_used :: int

record key_store =
  next_id :: int
  keys :: "api_key list"
  verified :: "string \<Rightarrow> int option"
  last_flush :: int
  key_file :: "(int \<times> api_key list) option"

datatype key_error = KeyNotFound | LastAdmin | PersistFailed | HashFailed

record crypto =
  bcrypt_hash :: "string \<Rightarrow> int \<Rightarrow> string option"
  bcrypt_ok :: "string \<Rightarrow> string \<Rightarrow> bool"
  sha256 :: "string \<Rightarrow> string"

definition open_store :: "(int \<times> api_key list) option \<Rightarrow> key_store" where
  "open_store file =
    (case file of
       None \<Rightarrow> \<lparr>next_id = 1, keys = [], verified = (\<lambda>_. None), last_flush = 0, key_file = None\<rparr>
     | Some (n, ks) \<Rightarrow>
         \<lparr>next_id = (if n < 1 then 1 else n), keys = ks, verified = (\<lambda>_. None), last_flush = 0, key_file = file\<rparr>)"

definition persist_keys :: "bool \<Rightarrow> int \<Rightarrow> key_store \<Rightarrow> key_store option" where
  "persist_keys writable now s =
    (if writable then Some (s\<lparr>key_file := Some (next_id s, keys s), last_flush := now\<rparr>) else None)"

definition truncate_for_bcrypt :: "string \<Rightarrow> string" where
  "truncate_for_bcrypt k = (if 72 < length k then take 72 k else k)"

definition find_key :: "key_store \<Rightarrow> int \<Rightarrow> api_key option" where
  "find_key s i = find (\<lambda>k. key_id k = i) (keys s)"

text \<open>Writing through the pointer \<^verbatim>\<open>find\<close> returned: the first key with that identifier.\<close>

primrec update_first :: "int \<Rightarrow> (api_key \<Rightarrow> api_key) \<Rightarrow> api_key list \<Rightarrow> api_key list" where
  "update_first i f [] = []"
| "update_first i f (k # ks) = (if key_id k = i then f k # ks else k # update_first i f ks)"

definition update_key :: "int \<Rightarrow> (api_key \<Rightarrow> api_key) \<Rightarrow> key_store \<Rightarrow> key_store" where
  "update_key i f s = s\<lparr>keys := update_first i f (keys s)\<rparr>"

definition is_last_active_admin :: "key_store \<Rightarrow> api_key \<Rightarrow> bool" where
  "is_last_active_admin s k \<longleftrightarrow> key_role k = ''admin'' \<and> key_active k
     \<and> \<not> list_ex (\<lambda>other. key_id other \<noteq> key_id k \<and> key_active other \<and> key_role other = ''admin'') (keys s)"

definition drop_verified :: "int \<Rightarrow> key_store \<Rightarrow> key_store" where
  "drop_verified i s = s\<lparr>verified := (\<lambda>d. if verified s d = Some i then None else verified s d)\<rparr>"

subsection \<open>Creating\<close>

definition create_key :: "crypto \<Rightarrow> bool \<Rightarrow> int \<Rightarrow> string \<Rightarrow> string \<Rightarrow> string \<Rightarrow> string \<Rightarrow> int \<Rightarrow> key_store \<Rightarrow> (key_error + api_key) \<times> key_store" where
  "create_key cr writable now material name description role rounds s =
    (case bcrypt_hash cr (truncate_for_bcrypt material) rounds of
       None \<Rightarrow> (Inl HashFailed, s)
     | Some h \<Rightarrow>
         (let k = \<lparr>key_id = next_id s, key_name = name, key_hash = h, key_description = description,
                key_role = role, key_active = True, key_created = now, key_last_used = now\<rparr>
          in case persist_keys writable now (s\<lparr>next_id := next_id s + 1, keys := keys s @ [k]\<rparr>) of
               None \<Rightarrow> (Inl PersistFailed, s)
             | Some s' \<Rightarrow> (Inr k, s')))"

subsection \<open>Verifying\<close>

definition record_use :: "bool \<Rightarrow> int \<Rightarrow> int \<Rightarrow> key_store \<Rightarrow> (key_error + api_key option) \<times> key_store" where
  "record_use writable now i s =
    (let s1 = update_key i (\<lambda>k. k\<lparr>key_last_used := now\<rparr>) s
     in if 60 * 10 ^ 9 < now - last_flush s1 then
          (case persist_keys writable now s1 of
             None \<Rightarrow> (Inl PersistFailed, s1)
           | Some s2 \<Rightarrow> (Inr (find_key s2 i), s2))
        else (Inr (find_key s1 i), s1))"

text \<open>The cached half: an answer, or the snapshot of active keys to scan.\<close>

definition verify_cached :: "crypto \<Rightarrow> bool \<Rightarrow> int \<Rightarrow> string \<Rightarrow> key_store \<Rightarrow>
    ((key_error + api_key option) + api_key list) \<times> key_store" where
  "verify_cached cr writable now material s =
    (let d = sha256 cr (truncate_for_bcrypt material);
         scan = (\<lambda>t. (Inr (filter key_active (keys t)), t))
     in case verified s d of
          None \<Rightarrow> scan s
        | Some i \<Rightarrow>
            (case find_key s i of
               Some k \<Rightarrow>
                 (if key_active k then (let (r, s') = record_use writable now i s in (Inl r, s'))
                  else scan (s\<lparr>verified := (verified s)(d := None)\<rparr>))
             | None \<Rightarrow> scan (s\<lparr>verified := (verified s)(d := None)\<rparr>)))"

definition verify_scan :: "crypto \<Rightarrow> string \<Rightarrow> api_key list \<Rightarrow> api_key option" where
  "verify_scan cr material active = find (\<lambda>k. bcrypt_ok cr (key_hash k) (truncate_for_bcrypt material)) active"

definition verify_confirm :: "crypto \<Rightarrow> bool \<Rightarrow> int \<Rightarrow> string \<Rightarrow> api_key option \<Rightarrow> key_store \<Rightarrow>
    (key_error + api_key option) \<times> key_store" where
  "verify_confirm cr writable now material hit s =
    (case hit of
       None \<Rightarrow> (Inr None, s)
     | Some k \<Rightarrow>
         (case find_key s (key_id k) of
            None \<Rightarrow> (Inr None, s)
          | Some live \<Rightarrow>
              if \<not> key_active live then (Inr None, s)
              else record_use writable now (key_id k)
                (s\<lparr>verified := (verified s)(sha256 cr (truncate_for_bcrypt material) \<mapsto> key_id k)\<rparr>)))"

definition verify_key :: "crypto \<Rightarrow> bool \<Rightarrow> int \<Rightarrow> string \<Rightarrow> key_store \<Rightarrow> (key_error + api_key option) \<times> key_store" where
  "verify_key cr writable now material s =
    (case verify_cached cr writable now material s of
       (Inl r, s') \<Rightarrow> (r, s')
     | (Inr active, s') \<Rightarrow> verify_confirm cr writable now material (verify_scan cr material active) s')"

subsection \<open>Deleting and revoking\<close>

definition delete_key :: "bool \<Rightarrow> int \<Rightarrow> int \<Rightarrow> key_store \<Rightarrow> (key_error + api_key) \<times> key_store" where
  "delete_key writable now i s =
    (case find_key s i of
       None \<Rightarrow> (Inl KeyNotFound, s)
     | Some k \<Rightarrow>
         if is_last_active_admin s k then (Inl LastAdmin, s)
         else
           let s1 = drop_verified i (s\<lparr>keys := filter (\<lambda>other. key_id other \<noteq> i) (keys s)\<rparr>)
           in (case persist_keys writable now s1 of
                 None \<Rightarrow> (Inl PersistFailed, s1)
               | Some s2 \<Rightarrow> (Inr k, s2)))"

definition revoke_key :: "bool \<Rightarrow> int \<Rightarrow> int \<Rightarrow> key_store \<Rightarrow> (key_error + api_key) \<times> key_store" where
  "revoke_key writable now i s =
    (case find_key s i of
       None \<Rightarrow> (Inl KeyNotFound, s)
     | Some k \<Rightarrow>
         if is_last_active_admin s k then (Inl LastAdmin, s)
         else
           let s1 = drop_verified i (update_key i (\<lambda>k. k\<lparr>key_active := False\<rparr>) s)
           in (case persist_keys writable now s1 of
                 None \<Rightarrow> (Inl PersistFailed, update_key i (\<lambda>k. k\<lparr>key_active := True\<rparr>) s1)
               | Some s2 \<Rightarrow> (Inr (k\<lparr>key_active := False\<rparr>), s2)))"

definition has_prefix :: "string \<Rightarrow> string \<Rightarrow> bool" where
  "has_prefix p s \<longleftrightarrow> take (length p) s = p"

definition prune_victims :: "string \<Rightarrow> nat \<Rightarrow> key_store \<Rightarrow> int list" where
  "prune_victims prefix keep s =
    (let matching = filter (\<lambda>k. has_prefix prefix (key_description k)) (keys s)
     in map key_id (filter (\<lambda>k. \<not> is_last_active_admin s k) (take (length matching - keep) matching)))"

definition prune_keys :: "bool \<Rightarrow> int \<Rightarrow> string \<Rightarrow> nat \<Rightarrow> key_store \<Rightarrow> (key_error + nat) \<times> key_store" where
  "prune_keys writable now prefix keep s =
    (let victims = prune_victims prefix keep s
     in if victims = [] then (Inr 0, s)
        else
          let s1 = fold drop_verified victims (s\<lparr>keys := filter (\<lambda>k. key_id k \<notin> set victims) (keys s)\<rparr>)
          in (case persist_keys writable now s1 of
                None \<Rightarrow> (Inl PersistFailed, s1)
              | Some s2 \<Rightarrow> (Inr (length (remdups victims)), s2)))"

subsection \<open>Reading\<close>

definition list_keys :: "key_store \<Rightarrow> api_key list" where
  "list_keys s = rev (keys s)"

definition get_key :: "int \<Rightarrow> key_store \<Rightarrow> key_error + api_key" where
  "get_key i s = (case find_key s i of None \<Rightarrow> Inl KeyNotFound | Some k \<Rightarrow> Inr k)"

definition count_keys :: "key_store \<Rightarrow> nat" where
  "count_keys s = length (keys s)"

definition valid_roles :: "string list" where
  "valid_roles = [''admin'', ''operator'', ''viewer'']"

definition role_valid :: "string \<Rightarrow> bool" where
  "role_valid r \<longleftrightarrow> r \<in> set valid_roles"

end
