(* ===== verification/KeyLaws.thy ===== *)
theory KeyLaws
  imports KeyStore
begin

text \<open>
  The key store as a state machine. A verification reads the cache and takes a snapshot under the
  lock, scans the snapshot without it, and confirms under it again: a state holds the store and the
  scans under way, and other operations run in between. The invariant ties every cache entry and
  every scanned key to the material it was verified with.
\<close>

subsection \<open>Looking keys up\<close>

lemma find_key_Some: "find_key s i = Some k \<Longrightarrow> k \<in> set (keys s) \<and> key_id k = i"
  by (auto simp: find_key_def dest: find_Some_in)

lemma find_key_distinct:
  "distinct (map key_id (keys s)) \<Longrightarrow> k \<in> set (keys s) \<Longrightarrow> find_key s (key_id k) = Some k"
  using find_distinct_key [of key_id "keys s" k] by (simp add: find_key_def)

lemma find_update_key:
  assumes "\<And>k. key_id (f k) = key_id k"
  shows "find_key (update_key i f s) j = (if j = i then map_option f (find_key s j) else find_key s j)"
proof -
  have "find (\<lambda>k. key_id k = j) (update_first i f ks) =
      (if j = i then map_option f (find (\<lambda>k. key_id k = j) ks) else find (\<lambda>k. key_id k = j) ks)" for ks
    by (induction ks) (auto simp: assms)
  then show ?thesis by (simp add: find_key_def update_key_def)
qed

lemma map_update_first:
  assumes "\<And>k. g (f k) = g k"
  shows "map g (update_first i f ks) = map g ks"
  by (induction ks) (auto simp: assms)

lemma update_key_frame [simp]:
  "next_id (update_key i f s) = next_id s" "verified (update_key i f s) = verified s"
  "last_flush (update_key i f s) = last_flush s" "key_file (update_key i f s) = key_file s"
  by (simp_all add: update_key_def)

lemma find_filter_key:
  "find (\<lambda>k. key_id k = j) (filter (\<lambda>k. P (key_id k)) ks) = (if P j then find (\<lambda>k. key_id k = j) ks else None)"
  by (induction ks) auto

subsection \<open>The cache is a registry\<close>

definition cache_put :: "string \<Rightarrow> int \<Rightarrow> key_store \<Rightarrow> key_store" where
  "cache_put d i s = s\<lparr>verified := (verified s)(d \<mapsto> i)\<rparr>"

definition cache_drop :: "string \<Rightarrow> key_store \<Rightarrow> key_store" where
  "cache_drop d s = s\<lparr>verified := (verified s)(d := None)\<rparr>"

interpretation cached: registry verified cache_put cache_drop
  by unfold_locales (simp_all add: cache_put_def cache_drop_def)

subsection \<open>The invariant\<close>

definition ids_ok :: "key_store \<Rightarrow> bool" where
  "ids_ok s \<longleftrightarrow> distinct (map key_id (keys s)) \<and> list_all (\<lambda>i. i < next_id s) (map key_id (keys s))"

definition matches_key :: "crypto \<Rightarrow> key_store \<Rightarrow> string \<Rightarrow> int \<Rightarrow> bool" where
  "matches_key cr s candidate i \<longleftrightarrow> i < next_id s \<and>
     (\<forall>k. find_key s i = Some k \<longrightarrow> bcrypt_ok cr (key_hash k) candidate)"

definition cache_ok :: "crypto \<Rightarrow> key_store \<Rightarrow> bool" where
  "cache_ok cr s \<longleftrightarrow> (\<forall>d i. verified s d = Some i \<longrightarrow>
     (\<exists>candidate. d = sha256 cr candidate \<and> matches_key cr s candidate i))"

definition scan_ok :: "key_store \<Rightarrow> api_key list \<Rightarrow> bool" where
  "scan_ok s active \<longleftrightarrow> (\<forall>k\<in>set active. key_id k < next_id s \<and>
     (\<forall>live. find_key s (key_id k) = Some live \<longrightarrow> key_hash live = key_hash k))"

text \<open>
  What an operation may do to the keys: identifiers grow, and a key that is still there under an old
  identifier keeps its hash.
\<close>

definition evolves :: "key_store \<Rightarrow> key_store \<Rightarrow> bool" where
  "evolves s s' \<longleftrightarrow> next_id s \<le> next_id s' \<and> ids_ok s' \<and>
     (\<forall>i k'. i < next_id s \<longrightarrow> find_key s' i = Some k' \<longrightarrow>
        (\<exists>k. find_key s i = Some k \<and> key_hash k' = key_hash k \<and> key_role k' = key_role k))"

lemma evolves_refl: "ids_ok s \<Longrightarrow> evolves s s"
  by (simp add: evolves_def)

lemma evolves_trans: "evolves a b \<Longrightarrow> evolves b c \<Longrightarrow> evolves a c"
  unfolding evolves_def by (smt (verit))

lemma evolves_matches: "evolves s s' \<Longrightarrow> matches_key cr s c i \<Longrightarrow> matches_key cr s' c i"
  unfolding evolves_def matches_key_def by fastforce

lemma evolves_scan: "evolves s s' \<Longrightarrow> scan_ok s active \<Longrightarrow> scan_ok s' active"
  unfolding evolves_def scan_ok_def by fastforce

text \<open>The operations' effects on the key list, one lemma each.\<close>

lemma evolves_cong:
  "evolves s t \<Longrightarrow> keys t' = keys t \<Longrightarrow> next_id t' = next_id t \<Longrightarrow> evolves s t'"
  by (simp add: evolves_def ids_ok_def find_key_def)

lemma evolves_update:
  assumes "ids_ok s" and "\<And>k. key_id (f k) = key_id k \<and> key_hash (f k) = key_hash k \<and> key_role (f k) = key_role k"
  shows "evolves s (update_key i f s)"
proof -
  have "map key_id (keys (update_key i f s)) = map key_id (keys s)"
    unfolding update_key_def using map_update_first [of key_id f i "keys s"] assms(2) by simp
  then have "ids_ok (update_key i f s)" using assms(1) unfolding ids_ok_def by simp
  moreover have "\<exists>k. find_key s j = Some k \<and> key_hash k' = key_hash k \<and> key_role k' = key_role k"
    if "find_key (update_key i f s) j = Some k'" for j k'
    using that assms(2) find_update_key [of f i s j] by (auto split: if_splits)
  ultimately show ?thesis by (simp add: evolves_def)
qed

lemma evolves_filter:
  assumes "ids_ok s" and "keys t = filter (\<lambda>k. P (key_id k)) (keys s)" and "next_id t = next_id s"
  shows "evolves s t"
proof -
  have "find_key t i = Some k \<Longrightarrow> find_key s i = Some k" for i k
    by (simp add: find_key_def assms(2) find_filter_key split: if_splits)
  moreover have "ids_ok t" using assms by (auto simp: ids_ok_def distinct_map_filter list_all_iff)
  ultimately show ?thesis using assms(3) by (fastforce simp: evolves_def)
qed

lemma evolves_append:
  assumes "ids_ok s" and "keys t = keys s @ [k]" and "key_id k = next_id s" and "next_id t = next_id s + 1"
  shows "evolves s t"
proof -
  have "find_key s i = Some k'" if "find_key t i = Some k'" "i < next_id s" for i k'
    using that assms(2,3) by (auto simp: find_key_def find_append_key split: option.splits)
  moreover have "ids_ok t" using assms by (auto simp: ids_ok_def list_all_iff)
  ultimately show ?thesis using assms(4) by (fastforce simp: evolves_def)
qed

lemma persist_frame:
  "persist_keys w now s = Some t \<Longrightarrow> keys t = keys s \<and> next_id t = next_id s \<and> verified t = verified s"
  by (auto simp: persist_keys_def split: if_splits)

lemma drop_verified_frame [simp]:
  "keys (drop_verified i s) = keys s" "next_id (drop_verified i s) = next_id s"
  by (simp_all add: drop_verified_def)

lemma fold_drop_frame [simp]:
  "keys (fold drop_verified is' s) = keys s" "next_id (fold drop_verified is' s) = next_id s"
  by (induction is' arbitrary: s) simp_all

text \<open>An operation that only forgets cache entries, or remembers one for a matching key, keeps the cache.\<close>

definition forgets :: "key_store \<Rightarrow> key_store \<Rightarrow> bool" where
  "forgets s s' \<longleftrightarrow> (\<forall>d i. verified s' d = Some i \<longrightarrow> verified s d = Some i)"

definition quiet :: "key_store \<Rightarrow> key_store \<Rightarrow> bool" where
  "quiet s s' \<longleftrightarrow> evolves s s' \<and> forgets s s'"

lemma forgets_refl [simp]: "forgets s s"
  by (simp add: forgets_def)

lemma forgets_drop: "forgets s t \<Longrightarrow> forgets s (drop_verified i t)"
  by (auto simp: forgets_def drop_verified_def)

lemma forgets_fold_drop: "forgets s t \<Longrightarrow> forgets s (fold drop_verified is' t)"
  by (induction is' arbitrary: t) (auto intro: forgets_drop)

lemma cache_keeps: "quiet s s' \<Longrightarrow> cache_ok cr s \<Longrightarrow> cache_ok cr s'"
  using evolves_matches unfolding quiet_def forgets_def cache_ok_def by blast

lemma quiet_refl: "ids_ok s \<Longrightarrow> quiet s s"
  by (simp add: quiet_def evolves_refl)

lemma quiet_trans: "quiet a b \<Longrightarrow> quiet b c \<Longrightarrow> quiet a c"
  unfolding quiet_def forgets_def using evolves_trans by blast

lemma quiet_ids: "quiet s t \<Longrightarrow> ids_ok t"
  by (simp add: quiet_def evolves_def)

lemma quiet_persist: "quiet s t \<Longrightarrow> persist_keys w now t = Some t' \<Longrightarrow> quiet s t'"
  using persist_frame [of w now t t'] evolves_cong [of s t t'] by (simp add: quiet_def forgets_def)

lemma quiet_update:
  assumes "quiet s t" and "\<And>k. key_id (f k) = key_id k \<and> key_hash (f k) = key_hash k \<and> key_role (f k) = key_role k"
  shows "quiet s (update_key i f t)"
proof -
  have "evolves t (update_key i f t)" by (rule evolves_update [OF quiet_ids [OF assms(1)] assms(2)])
  then have "quiet t (update_key i f t)" by (simp add: quiet_def forgets_def)
  with assms(1) show ?thesis by (rule quiet_trans)
qed

lemma quiet_drop: "quiet s t \<Longrightarrow> quiet s (drop_verified i t)"
  using evolves_cong [of s t "drop_verified i t"] by (simp add: quiet_def forgets_drop)

lemma quiet_fold_drop: "quiet s t \<Longrightarrow> quiet s (fold drop_verified is' t)"
  by (induction is' arbitrary: t) (auto intro: quiet_drop)

lemma quiet_filter: "ids_ok s \<Longrightarrow> quiet s (s\<lparr>keys := filter (\<lambda>k. P (key_id k)) (keys s)\<rparr>)"
  using evolves_filter [of s "s\<lparr>keys := filter (\<lambda>k. P (key_id k)) (keys s)\<rparr>" P]
  by (simp add: quiet_def forgets_def)

text \<open>Each operation, on each of its branches.\<close>

lemma quiet_create: "ids_ok s \<Longrightarrow> quiet s (snd (create_key cr w now m n d r rounds s))"
proof -
  assume ids: "ids_ok s"
  have app: "key_id k = next_id s \<Longrightarrow> quiet s (s\<lparr>next_id := next_id s + 1, keys := keys s @ [k]\<rparr>)" for k
    using evolves_append [OF ids, of "s\<lparr>next_id := next_id s + 1, keys := keys s @ [k]\<rparr>" k]
    by (simp add: quiet_def forgets_def)
  show ?thesis
    using quiet_refl [OF ids]
    by (auto simp: create_key_def Let_def split: option.split intro: quiet_persist [rotated, OF _ app])
qed

lemma quiet_record_use: "quiet s t \<Longrightarrow> quiet s (snd (record_use w now i t))"
proof -
  assume "quiet s t"
  then have u: "quiet s (update_key i (\<lambda>k. k\<lparr>key_last_used := now\<rparr>) t)" by (rule quiet_update) simp
  show ?thesis
    using u quiet_persist [OF u] by (simp add: record_use_def Let_def split: option.split)
qed

lemma quiet_delete: "ids_ok s \<Longrightarrow> quiet s (snd (delete_key w now i s))"
proof -
  assume ids: "ids_ok s"
  have q: "quiet s (drop_verified i (s\<lparr>keys := filter (\<lambda>other. key_id other \<noteq> i) (keys s)\<rparr>))"
    by (rule quiet_drop [OF quiet_filter [OF ids]])
  show ?thesis
    using q quiet_persist [OF q] quiet_refl [OF ids]
    by (simp add: delete_key_def Let_def split: option.split)
qed

lemma quiet_revoke: "ids_ok s \<Longrightarrow> quiet s (snd (revoke_key w now i s))"
proof -
  assume ids: "ids_ok s"
  have off: "quiet s (drop_verified i (update_key i (\<lambda>k. k\<lparr>key_active := False\<rparr>) s))"
    by (rule quiet_drop [OF quiet_update [OF quiet_refl [OF ids]]]) simp
  have on: "quiet s (update_key i (\<lambda>k. k\<lparr>key_active := True\<rparr>)
      (drop_verified i (update_key i (\<lambda>k. k\<lparr>key_active := False\<rparr>) s)))"
    by (rule quiet_update [OF off]) simp
  show ?thesis
    using on quiet_persist [OF off] quiet_refl [OF ids]
    by (simp add: revoke_key_def Let_def split: option.split)
qed

lemma quiet_prune: "ids_ok s \<Longrightarrow> quiet s (snd (prune_keys w now p n s))"
proof -
  assume ids: "ids_ok s"
  let ?v = "prune_victims p n s"
  have q: "quiet s (fold drop_verified ?v (s\<lparr>keys := filter (\<lambda>k. key_id k \<notin> set ?v) (keys s)\<rparr>))"
    by (rule quiet_fold_drop [OF quiet_filter [OF ids]])
  show ?thesis
    using q quiet_persist [OF q] quiet_refl [OF ids]
    by (simp add: prune_keys_def Let_def split: option.split)
qed

lemma quiet_cached: "ids_ok s \<Longrightarrow> quiet s (snd (verify_cached cr w now m s))"
proof -
  assume ids: "ids_ok s"
  have "quiet s (s\<lparr>verified := (verified s)(d := None)\<rparr>)" for d
    using evolves_cong [OF evolves_refl [OF ids], of "s\<lparr>verified := (verified s)(d := None)\<rparr>"]
    by (simp add: quiet_def forgets_def)
  then show ?thesis
    using quiet_record_use [OF quiet_refl [OF ids], of w now] quiet_refl [OF ids]
    by (simp add: verify_cached_def Let_def split: option.split prod.split) (metis snd_conv)
qed

subsection \<open>The store with its scans under way\<close>

record key_sys =
  key_st :: key_store
  scans :: "(string \<times> api_key list) list"

datatype key_event = Changed | Answered string "key_error + api_key option"

inductive key_step :: "crypto \<Rightarrow> key_sys \<Rightarrow> key_event \<Rightarrow> key_sys \<Rightarrow> bool" for cr :: crypto where
  step_create: "key_step cr \<sigma> Changed (\<sigma>\<lparr>key_st := snd (create_key cr w now m n d r rounds (key_st \<sigma>))\<rparr>)"
| step_delete: "key_step cr \<sigma> Changed (\<sigma>\<lparr>key_st := snd (delete_key w now i (key_st \<sigma>))\<rparr>)"
| step_revoke: "key_step cr \<sigma> Changed (\<sigma>\<lparr>key_st := snd (revoke_key w now i (key_st \<sigma>))\<rparr>)"
| step_prune: "key_step cr \<sigma> Changed (\<sigma>\<lparr>key_st := snd (prune_keys w now p c (key_st \<sigma>))\<rparr>)"
| step_hit: "verify_cached cr w now m (key_st \<sigma>) = (Inl r, s') \<Longrightarrow>
    key_step cr \<sigma> (Answered m r) (\<sigma>\<lparr>key_st := s'\<rparr>)"
| step_scan: "verify_cached cr w now m (key_st \<sigma>) = (Inr active, s') \<Longrightarrow>
    key_step cr \<sigma> Changed (\<sigma>\<lparr>key_st := s', scans := (m, active) # scans \<sigma>\<rparr>)"
| step_confirm: "(m, active) \<in> set (scans \<sigma>) \<Longrightarrow>
    verify_confirm cr w now m (verify_scan cr m active) (key_st \<sigma>) = (r, s') \<Longrightarrow>
    key_step cr \<sigma> (Answered m r) (\<sigma>\<lparr>key_st := s', scans := remove1 (m, active) (scans \<sigma>)\<rparr>)"
| step_restart: "key_step cr \<sigma> Changed \<lparr>key_st = open_store (key_file (key_st \<sigma>)), scans = []\<rparr>"

definition key_init :: "key_sys \<Rightarrow> bool" where
  "key_init \<sigma> \<longleftrightarrow> (\<exists>file. ids_ok (open_store file) \<and> \<sigma> = \<lparr>key_st = open_store file, scans = []\<rparr>)"

definition key_move :: "crypto \<Rightarrow> key_sys \<Rightarrow> key_sys \<Rightarrow> bool" where
  "key_move cr \<sigma> \<sigma>' \<longleftrightarrow> (\<exists>e. key_step cr \<sigma> e \<sigma>')"

definition key_inv :: "crypto \<Rightarrow> key_sys \<Rightarrow> bool" where
  "key_inv cr \<sigma> \<longleftrightarrow> ids_ok (key_st \<sigma>) \<and> ids_ok (open_store (key_file (key_st \<sigma>))) \<and> cache_ok cr (key_st \<sigma>)
     \<and> (\<forall>(m, active)\<in>set (scans \<sigma>). scan_ok (key_st \<sigma>) active)"

text \<open>The file is never ahead of the list: it was there before, or it is the list a write stored.\<close>

definition file_from :: "key_store \<Rightarrow> key_store \<Rightarrow> bool" where
  "file_from s t \<longleftrightarrow> (ids_ok s \<longrightarrow> ids_ok (open_store (key_file s)) \<longrightarrow> ids_ok t \<longrightarrow> ids_ok (open_store (key_file t)))"

lemma ids_ok_open: "ids_ok t \<Longrightarrow> key_file u = Some (next_id t, keys t) \<Longrightarrow> ids_ok (open_store (key_file u))"
  by (auto simp: ids_ok_def open_store_def list_all_iff)

lemma file_persist: "persist_keys w now t = Some u \<Longrightarrow> ids_ok u \<Longrightarrow> ids_ok (open_store (key_file u))"
  by (rule ids_ok_open [of t]) (auto simp: persist_keys_def ids_ok_def split: if_splits)

lemma file_same: "key_file t = key_file s \<Longrightarrow> file_from s t"
  by (simp add: file_from_def)

lemma file_stored: "persist_keys w now t = Some u \<Longrightarrow> file_from s u"
  by (simp add: file_from_def file_persist)

lemma drop_verified_file [simp]: "key_file (drop_verified i s) = key_file s"
  by (simp add: drop_verified_def)

lemma fold_drop_file [simp]: "key_file (fold drop_verified is' s) = key_file s"
  by (induction is' arbitrary: s) simp_all

lemma file_from_create: "file_from s (snd (create_key cr w now m n d r rounds s))"
  by (auto simp: create_key_def Let_def intro: file_same file_stored split: option.split)

lemma file_from_delete: "file_from s (snd (delete_key w now i s))"
  by (auto simp: delete_key_def Let_def intro: file_same file_stored split: option.split)

lemma file_from_revoke: "file_from s (snd (revoke_key w now i s))"
  by (auto simp: revoke_key_def Let_def intro: file_same file_stored split: option.split)

lemma file_from_prune: "file_from s (snd (prune_keys w now p c s))"
  by (auto simp: prune_keys_def Let_def intro: file_same file_stored split: option.split)

lemma file_from_use: "key_file t = key_file s \<Longrightarrow> file_from s (snd (record_use w now i t))"
  by (auto simp: record_use_def Let_def intro: file_same file_stored split: option.split)

lemma file_from_cached: "file_from s (snd (verify_cached cr w now m s))"
  using file_from_use [of s s w now]
  by (auto simp: verify_cached_def Let_def intro: file_same split: option.split prod.split) (metis snd_conv)+

lemma file_from_confirm: "file_from s (snd (verify_confirm cr w now m hit s))"
  by (auto simp: verify_confirm_def intro: file_same file_from_use split: option.split)

lemma quiet_remember:
  assumes "ids_ok s" and "cache_ok cr s" and "matches_key cr s c i" and "d = sha256 cr c"
  shows "evolves s (s\<lparr>verified := (verified s)(d \<mapsto> i)\<rparr>) \<and> cache_ok cr (s\<lparr>verified := (verified s)(d \<mapsto> i)\<rparr>)"
proof -
  have "evolves s (s\<lparr>verified := (verified s)(d \<mapsto> i)\<rparr>)"
    by (rule evolves_cong [OF evolves_refl [OF assms(1)]]) simp_all
  moreover have "matches_key cr (s\<lparr>verified := v\<rparr>) = matches_key cr s" for v
    by (intro ext) (simp add: matches_key_def find_key_def)
  ultimately show ?thesis using assms(2-4) by (auto simp: cache_ok_def)
qed

text \<open>Confirming a scan: the hash of the live key is the hash the scan compared.\<close>

lemma scan_hit:
  assumes "verify_scan cr m active = Some k" and "scan_ok s active" and "find_key s (key_id k) = Some live"
  shows "key_id k < next_id s \<and> bcrypt_ok cr (key_hash live) (truncate_for_bcrypt m)"
proof -
  have "k \<in> set active \<and> bcrypt_ok cr (key_hash k) (truncate_for_bcrypt m)"
    by (rule find_Some_in) (use assms(1) in \<open>simp add: verify_scan_def\<close>)
  then show ?thesis using assms(2,3) by (auto simp: scan_ok_def)
qed

lemma confirm_keeps:
  assumes "ids_ok s" and "cache_ok cr s" and "scan_ok s active"
  shows "evolves s (snd (verify_confirm cr w now m (verify_scan cr m active) s))
    \<and> cache_ok cr (snd (verify_confirm cr w now m (verify_scan cr m active) s))"
proof (cases "verify_scan cr m active")
  case None
  then show ?thesis using assms by (simp add: verify_confirm_def evolves_refl)
next
  case (Some k)
  show ?thesis
  proof (cases "\<exists>live. find_key s (key_id k) = Some live \<and> key_active live")
    case True
    then obtain live where live: "find_key s (key_id k) = Some live" "key_active live" by blast
    let ?t = "s\<lparr>verified := (verified s)(sha256 cr (truncate_for_bcrypt m) \<mapsto> key_id k)\<rparr>"
    have "matches_key cr s (truncate_for_bcrypt m) (key_id k)"
      using scan_hit [OF Some assms(3) live(1)] live by (simp add: matches_key_def)
    then have t: "evolves s ?t" "cache_ok cr ?t"
      using quiet_remember [OF assms(1,2), of "truncate_for_bcrypt m" "key_id k"] by simp_all
    then have "ids_ok ?t" by (simp add: evolves_def)
    then have q: "quiet ?t (snd (record_use w now (key_id k) ?t))" by (intro quiet_record_use quiet_refl)
    then show ?thesis
      using t cache_keeps [OF q t(2)] evolves_trans [OF t(1)] Some live by (simp add: verify_confirm_def quiet_def)
  next
    case False
    then show ?thesis using assms Some by (auto simp: verify_confirm_def evolves_refl split: option.split)
  qed
qed

subsection \<open>The invariant holds in every reachable state\<close>

lemma key_inv_evolves:
  assumes "key_inv cr \<sigma>" and "evolves (key_st \<sigma>) s'" and "cache_ok cr s'" and "file_from (key_st \<sigma>) s'"
    and "\<forall>(m, active)\<in>set sc. (m, active) \<in> set (scans \<sigma>) \<or> scan_ok s' active"
  shows "key_inv cr (\<sigma>\<lparr>key_st := s', scans := sc\<rparr>)"
  using assms evolves_scan [OF assms(2)] by (fastforce simp: key_inv_def file_from_def evolves_def)

lemma key_inv_quiet:
  assumes "key_inv cr \<sigma>" and "quiet (key_st \<sigma>) s'" and "file_from (key_st \<sigma>) s'"
  shows "key_inv cr (\<sigma>\<lparr>key_st := s'\<rparr>)"
  using key_inv_evolves [OF assms(1), of s' "scans \<sigma>"] assms cache_keeps [OF assms(2)]
  by (auto simp: key_inv_def quiet_def)

lemma fresh_scan: "ids_ok s \<Longrightarrow> scan_ok s (filter key_active (keys s))"
  by (auto simp: scan_ok_def ids_ok_def list_all_iff find_key_distinct)

lemma scan_is_snapshot:
  "verify_cached cr w now m s = (Inr active, s') \<Longrightarrow> active = filter key_active (keys s) \<and> keys s' = keys s"
  by (auto simp: verify_cached_def Let_def split: option.splits prod.splits if_splits)

lemma open_file: "key_file (open_store stored) = stored"
  by (auto simp: open_store_def split: option.split)

lemma open_cache_empty: "cache_ok cr (open_store file)"
  by (auto simp: cache_ok_def open_store_def split: option.split)

lemma key_inv_step: "key_step cr \<sigma> e \<sigma>' \<Longrightarrow> key_inv cr \<sigma> \<Longrightarrow> key_inv cr \<sigma>'"
proof (induction rule: key_step.induct)
  case (step_create \<sigma> w now m n d r rounds)
  then show ?case by (intro key_inv_quiet quiet_create file_from_create) (auto simp: key_inv_def)
next
  case (step_delete \<sigma> w now i)
  then show ?case by (intro key_inv_quiet quiet_delete file_from_delete) (auto simp: key_inv_def)
next
  case (step_revoke \<sigma> w now i)
  then show ?case by (intro key_inv_quiet quiet_revoke file_from_revoke) (auto simp: key_inv_def)
next
  case (step_prune \<sigma> w now p c)
  then show ?case by (intro key_inv_quiet quiet_prune file_from_prune) (auto simp: key_inv_def)
next
  case (step_hit w now m \<sigma> r s')
  then show ?case
    using quiet_cached [of "key_st \<sigma>" cr w now m] file_from_cached [of "key_st \<sigma>" cr w now m]
    by (intro key_inv_quiet) (auto simp: key_inv_def)
next
  case (step_scan w now m \<sigma> active s')
  have q: "quiet (key_st \<sigma>) s'" "file_from (key_st \<sigma>) s'"
    using step_scan quiet_cached [of "key_st \<sigma>" cr w now m] file_from_cached [of "key_st \<sigma>" cr w now m]
    by (auto simp: key_inv_def)
  then have "scan_ok s' active"
    using scan_is_snapshot [OF step_scan(1)] fresh_scan [OF quiet_ids [OF q(1)]] by simp
  then show ?case
    using q step_scan(2) cache_keeps [OF q(1)] by (intro key_inv_evolves) (auto simp: key_inv_def quiet_def)
next
  case (step_confirm m active \<sigma> w now r s')
  have "scan_ok (key_st \<sigma>) active" using step_confirm by (auto simp: key_inv_def)
  then have "evolves (key_st \<sigma>) s'" "cache_ok cr s'" "file_from (key_st \<sigma>) s'"
    using step_confirm confirm_keeps [of "key_st \<sigma>" cr active w now m]
      file_from_confirm [of "key_st \<sigma>" cr w now m "verify_scan cr m active"] by (auto simp: key_inv_def)
  then show ?case
    using step_confirm(3) set_remove1_subset [of "(m, active)" "scans \<sigma>"] by (intro key_inv_evolves) auto
next
  case (step_restart \<sigma>)
  then show ?case by (simp add: key_inv_def open_cache_empty open_file)
qed

lemma key_inv_init: "key_init \<sigma> \<Longrightarrow> key_inv cr \<sigma>"
  by (auto simp: key_init_def key_inv_def open_cache_empty open_file)

interpretation kt: invariant_system key_init "key_move cr" "key_inv cr" for cr
  by unfold_locales (auto simp: key_move_def intro: key_inv_init key_inv_step)

subsection \<open>What an answer means\<close>

lemma used_key: "snd (record_use w now i s) = t \<Longrightarrow> fst (record_use w now i s) = Inr (Some k) \<Longrightarrow>
    find_key s i = Some live \<Longrightarrow>
    k = live\<lparr>key_last_used := now\<rparr>"
  using find_update_key [of "\<lambda>k. k\<lparr>key_last_used := now\<rparr>" i s i]
  by (auto simp: record_use_def Let_def find_key_def persist_keys_def split: if_splits)

lemma cached_answer:
  assumes "verify_cached cr w now m s = (Inl (Inr (Some k)), s')" and "cache_ok cr s"
    and "\<forall>a b. sha256 cr a = sha256 cr b \<longrightarrow> a = b"
  shows "\<exists>live\<in>set (keys s). key_active live \<and> bcrypt_ok cr (key_hash live) (truncate_for_bcrypt m)
    \<and> k = live\<lparr>key_last_used := now\<rparr>"
proof -
  obtain i live where v: "verified s (sha256 cr (truncate_for_bcrypt m)) = Some i"
    and l: "find_key s i = Some live" "key_active live" and r: "fst (record_use w now i s) = Inr (Some k)"
    using assms(1) by (auto simp: verify_cached_def Let_def split: option.splits prod.splits if_splits)
  have "bcrypt_ok cr (key_hash live) (truncate_for_bcrypt m)"
    using assms(2,3) v l(1) by (fastforce simp: cache_ok_def matches_key_def)
  moreover have "k = live\<lparr>key_last_used := now\<rparr>" by (rule used_key [OF refl r l(1)])
  ultimately show ?thesis using l find_key_Some [OF l(1)] by blast
qed

lemma confirmed_answer:
  assumes "verify_confirm cr w now m (verify_scan cr m active) s = (Inr (Some k), s')" and "scan_ok s active"
  shows "\<exists>live\<in>set (keys s). key_active live \<and> bcrypt_ok cr (key_hash live) (truncate_for_bcrypt m)
    \<and> k = live\<lparr>key_last_used := now\<rparr>"
proof -
  obtain hit live where h: "verify_scan cr m active = Some hit" and l: "find_key s (key_id hit) = Some live" "key_active live"
    and r: "fst (record_use w now (key_id hit)
      (s\<lparr>verified := (verified s)(sha256 cr (truncate_for_bcrypt m) \<mapsto> key_id hit)\<rparr>)) = Inr (Some k)"
    using assms(1) by (auto simp: verify_confirm_def split: option.splits if_splits)
  have l2: "find_key (s\<lparr>verified := (verified s)(sha256 cr (truncate_for_bcrypt m) \<mapsto> key_id hit)\<rparr>) (key_id hit) = Some live"
    using l(1) by (simp add: find_key_def)
  show ?thesis
    using scan_hit [OF h assms(2) l(1)] used_key [OF refl r l2] l find_key_Some [OF l(1)] by blast
qed

inductive_cases answered_cases: "key_step cr \<sigma> (Answered m r) \<sigma>'"

subsection \<open>The lockout guard\<close>

definition admin_left :: "key_store \<Rightarrow> bool" where
  "admin_left s \<longleftrightarrow> (\<exists>k\<in>set (keys s). key_active k \<and> key_role k = ''admin'')"

lemma persist_admin: "persist_keys w now s = Some t \<Longrightarrow> admin_left t \<longleftrightarrow> admin_left s"
  by (auto simp: persist_keys_def admin_left_def split: if_splits)

lemma guarded_other:
  assumes "find_key s i = Some k" and "\<not> is_last_active_admin s k" and "admin_left s" and "ids_ok s"
  obtains other where "other \<in> set (keys s)" "key_id other \<noteq> i" "key_active other" "key_role other = ''admin''"
proof -
  have k: "k \<in> set (keys s)" "key_id k = i" using find_key_Some [OF assms(1)] by auto
  obtain a where a: "a \<in> set (keys s)" "key_active a" "key_role a = ''admin''" using assms(3) by (auto simp: admin_left_def)
  show thesis
  proof (cases "key_id a = i")
    case True
    then have "a = k" using find_key_distinct [of s a] assms(1,4) a(1) by (simp add: ids_ok_def)
    then show ?thesis using assms(2) a k that by (auto simp: is_last_active_admin_def list_ex_iff)
  next
    case False
    then show ?thesis using a that by blast
  qed
qed

lemma set_update_first: "x \<in> set ks \<Longrightarrow> key_id x \<noteq> i \<Longrightarrow> x \<in> set (update_first i f ks)"
  by (induction ks) auto

lemma update_admin:
  assumes "a \<in> set (keys s)" "key_id a \<noteq> i" "key_active a" "key_role a = ''admin''"
  shows "admin_left (update_key i f s)"
  using assms set_update_first [of a "keys s" i f] by (auto simp: admin_left_def update_key_def)

lemma drop_admin [simp]: "admin_left (drop_verified i s) \<longleftrightarrow> admin_left s"
  by (simp add: admin_left_def)

lemma activate_admin: "admin_left s \<Longrightarrow> admin_left (update_key i (\<lambda>k. k\<lparr>key_active := True\<rparr>) s)"
proof -
  have "(\<exists>k\<in>set ks. key_active k \<and> key_role k = ''admin'') \<Longrightarrow>
      (\<exists>k\<in>set (update_first i (\<lambda>k. k\<lparr>key_active := True\<rparr>) ks). key_active k \<and> key_role k = ''admin'')" for ks
    by (induction ks) auto
  then show "admin_left s \<Longrightarrow> ?thesis" by (simp add: admin_left_def update_key_def)
qed

lemma delete_keeps_admin: "ids_ok s \<Longrightarrow> admin_left s \<Longrightarrow> admin_left (snd (delete_key w now i s))"
proof -
  assume s: "ids_ok s" "admin_left s"
  have left: "admin_left (drop_verified i (s\<lparr>keys := filter (\<lambda>other. key_id other \<noteq> i) (keys s)\<rparr>))"
    if "find_key s i = Some k" "\<not> is_last_active_admin s k" for k
    using guarded_other [OF that s(2,1)] by (auto simp: admin_left_def)
  show ?thesis
    using left s by (auto simp: delete_key_def Let_def persist_admin split: option.split)
qed

lemma revoke_keeps_admin: "ids_ok s \<Longrightarrow> admin_left s \<Longrightarrow> admin_left (snd (revoke_key w now i s))"
proof -
  assume s: "ids_ok s" "admin_left s"
  have left: "admin_left (drop_verified i (update_key i (\<lambda>k. k\<lparr>key_active := False\<rparr>) s))"
    if "find_key s i = Some k" "\<not> is_last_active_admin s k" for k
  proof -
    note guard = that
    obtain other where "other \<in> set (keys s)" "key_id other \<noteq> i" "key_active other" "key_role other = ''admin''"
      by (rule guarded_other [OF guard s(2,1)])
    then show ?thesis unfolding drop_admin by (rule update_admin)
  qed
  show ?thesis
    using left s by (auto simp: revoke_key_def Let_def persist_admin activate_admin split: option.split)
qed

lemma create_keeps_admin: "admin_left s \<Longrightarrow> admin_left (snd (create_key cr w now m n d r rounds s))"
proof -
  assume "admin_left s"
  then have "admin_left (s\<lparr>next_id := i, keys := keys s @ [k]\<rparr>)" for i k by (auto simp: admin_left_def)
  then have stored: "persist_keys w now (s\<lparr>next_id := i, keys := keys s @ [k]\<rparr>) = Some t \<Longrightarrow> admin_left t" for i k t
    using persist_admin by blast
  show ?thesis
    using \<open>admin_left s\<close> by (auto simp: create_key_def Let_def split: option.split intro: stored)
qed

lemma used_answer:
  assumes "find_key s i = Some live"
  shows "fst (record_use True now i s) = Inr (Some (live\<lparr>key_last_used := now\<rparr>))"
proof -
  have "find_key (update_key i (\<lambda>k. k\<lparr>key_last_used := now\<rparr>) s) i = Some (live\<lparr>key_last_used := now\<rparr>)"
    using find_update_key [of "\<lambda>k. k\<lparr>key_last_used := now\<rparr>" i s i] assms by simp
  then show ?thesis by (simp add: record_use_def Let_def persist_keys_def find_key_def)
qed

subsection \<open>A key that is gone\<close>

lemma find_drop [simp]: "find_key (drop_verified i s) j = find_key s j"
  by (simp add: find_key_def)

lemma find_persist: "persist_keys w now s = Some t \<Longrightarrow> find_key t j = find_key s j"
  by (auto simp: persist_keys_def find_key_def split: if_splits)

lemma revoked_inactive:
  assumes "fst (revoke_key w now i s) = Inr k"
  shows "\<exists>x. find_key (snd (revoke_key w now i s)) i = Some x \<and> \<not> key_active x"
proof -
  let ?t = "drop_verified i (update_key i (\<lambda>k. k\<lparr>key_active := False\<rparr>) s)"
  obtain x t where x: "find_key s i = Some x" "\<not> is_last_active_admin s x" and t: "persist_keys w now ?t = Some t"
    using assms by (auto simp: revoke_key_def Let_def split: option.splits if_splits)
  have "find_key t i = Some (x\<lparr>key_active := False\<rparr>)"
    using find_persist [OF t] find_update_key [of "\<lambda>k. k\<lparr>key_active := False\<rparr>" i s i] x by simp
  moreover have "snd (revoke_key w now i s) = t" using x t by (simp add: revoke_key_def Let_def)
  ultimately show ?thesis by simp
qed

lemma deleted_gone:
  assumes "fst (delete_key w now i s) = Inr k"
  shows "find_key (snd (delete_key w now i s)) i = None"
proof -
  let ?t = "drop_verified i (s\<lparr>keys := filter (\<lambda>other. key_id other \<noteq> i) (keys s)\<rparr>)"
  obtain x t where x: "find_key s i = Some x" "\<not> is_last_active_admin s x" and t: "persist_keys w now ?t = Some t"
    using assms by (auto simp: delete_key_def Let_def split: option.splits if_splits)
  have "find_key t i = None" using find_persist [OF t, of i] by (simp add: find_key_def find_None_iff)
  moreover have "snd (delete_key w now i s) = t" using x t by (simp add: delete_key_def Let_def)
  ultimately show ?thesis by simp
qed

subsection \<open>The store as a map\<close>

lemma map_create:
  assumes "ids_ok s" and "fst (create_key cr w now m n d r rounds s) = Inr k"
  shows "find_key s (key_id k) = None \<and> find_key (snd (create_key cr w now m n d r rounds s)) = (find_key s)(key_id k \<mapsto> k)"
proof -
  obtain t where t: "persist_keys w now (s\<lparr>next_id := next_id s + 1, keys := keys s @ [k]\<rparr>) = Some t"
    and k: "key_id k = next_id s" and res: "snd (create_key cr w now m n d r rounds s) = t"
    using assms(2) by (auto simp: create_key_def Let_def split: option.splits)
  have none: "find_key s (next_id s) = None"
    using assms(1) by (auto simp: find_key_def find_None_iff ids_ok_def list_all_iff)
  have "find_key t j = ((find_key s)(key_id k \<mapsto> k)) j" for j
    unfolding find_persist [OF t] using none k
    by (auto simp: find_key_def find_append_key split: option.split)
  then have "find_key t = (find_key s)(key_id k \<mapsto> k)" by (rule ext)
  then show ?thesis using none k res by simp
qed

lemma map_delete:
  assumes "fst (delete_key w now i s) = Inr k"
  shows "find_key (snd (delete_key w now i s)) = (find_key s)(i := None)"
proof -
  let ?t = "drop_verified i (s\<lparr>keys := filter (\<lambda>other. key_id other \<noteq> i) (keys s)\<rparr>)"
  obtain t where t: "persist_keys w now ?t = Some t" and res: "snd (delete_key w now i s) = t"
    using assms by (auto simp: delete_key_def Let_def split: option.splits if_splits)
  have "find_key t j = ((find_key s)(i := None)) j" for j
    unfolding find_persist [OF t] using find_filter_key [of j "\<lambda>x. x \<noteq> i" "keys s"] by (simp add: find_key_def)
  then show ?thesis using res by auto
qed

lemma map_revoke:
  assumes "fst (revoke_key w now i s) = Inr k"
  shows "find_key (snd (revoke_key w now i s)) = (find_key s)(i \<mapsto> k)"
proof -
  let ?t = "drop_verified i (update_key i (\<lambda>k. k\<lparr>key_active := False\<rparr>) s)"
  obtain x t where x: "find_key s i = Some x" "k = x\<lparr>key_active := False\<rparr>" and t: "persist_keys w now ?t = Some t"
    and res: "snd (revoke_key w now i s) = t"
    using assms by (auto simp: revoke_key_def Let_def split: option.splits if_splits)
  have "find_key t j = ((find_key s)(i \<mapsto> k)) j" for j
    unfolding find_persist [OF t] using find_update_key [of "\<lambda>k. k\<lparr>key_active := False\<rparr>" i s j] x by simp
  then show ?thesis using res by auto
qed

lemma find_fold_drop [simp]: "find_key (fold drop_verified is' s) j = find_key s j"
  by (simp add: find_key_def)

lemma map_prune:
  assumes "fst (prune_keys w now p c s) = Inr cnt"
  shows "find_key (snd (prune_keys w now p c s)) = find_key s |` (- set (prune_victims p c s))"
proof (cases "prune_victims p c s = []")
  case True
  then show ?thesis by (simp add: prune_keys_def restrict_map_def)
next
  case False
  let ?v = "prune_victims p c s"
  let ?t = "fold drop_verified ?v (s\<lparr>keys := filter (\<lambda>k. key_id k \<notin> set ?v) (keys s)\<rparr>)"
  obtain t where t: "persist_keys w now ?t = Some t" and res: "snd (prune_keys w now p c s) = t"
    using assms False by (auto simp: prune_keys_def Let_def split: option.splits)
  have "find_key t j = (find_key s |` (- set ?v)) j" for j
    unfolding find_persist [OF t] find_fold_drop using find_filter_key [of j "\<lambda>x. x \<notin> set ?v" "keys s"]
    by (simp add: find_key_def restrict_map_def)
  then show ?thesis using res by auto
qed

lemma map_use:
  "map_option (key_last_used_update (\<lambda>_. 0)) (find_key (snd (record_use w now i s)) j) =
   map_option (key_last_used_update (\<lambda>_. 0)) (find_key s j)"
proof -
  have u: "map_option (key_last_used_update (\<lambda>_. 0)) (find_key (update_key i (\<lambda>k. k\<lparr>key_last_used := now\<rparr>) s) j) =
      map_option (key_last_used_update (\<lambda>_. 0)) (find_key s j)"
    using find_update_key [of "\<lambda>k. k\<lparr>key_last_used := now\<rparr>" i s j] by (cases "find_key s j") auto
  show ?thesis
    using u find_persist [of w now "update_key i (\<lambda>k. k\<lparr>key_last_used := now\<rparr>) s" _ j]
    by (auto simp: record_use_def Let_def split: option.split)
qed

lemma find_cache [simp]: "find_key (s\<lparr>verified := v\<rparr>) j = find_key s j"
  by (simp add: find_key_def)

lemma map_verify:
  "(\<lambda>j. map_option (key_last_used_update (\<lambda>_. 0)) (find_key (snd (verify_key cr w now m s)) j)) =
   (\<lambda>j. map_option (key_last_used_update (\<lambda>_. 0)) (find_key s j))"
proof
  fix j
  let ?u = "\<lambda>s. map_option (key_last_used_update (\<lambda>_. 0)) (find_key s j)"
  have use: "record_use w now i t = (r, t') \<Longrightarrow> ?u t' = ?u t" for i t r t'
    using map_use [of w now i t j] by simp
  have conf: "?u (snd (verify_confirm cr w now m h t)) = ?u t" for h t
    using map_use [of w now _ "t\<lparr>verified := _\<rparr>" j] by (simp add: verify_confirm_def split: option.split)
  have "?u (snd (verify_cached cr w now m s)) = ?u s"
    using use by (simp add: verify_cached_def Let_def split: option.split prod.split)
  then show "?u (snd (verify_key cr w now m s)) = ?u s"
    using conf by (cases "verify_cached cr w now m s") (simp add: verify_key_def split: sum.split)
qed

end
