(* ===== verification/KeyProps.thy ===== *)
theory KeyProps
  imports KeyLaws
begin

text \<open>
  The properties of the key store: an answered verification is for a key that is active and whose
  hash the material passes, whatever ran between its two halves; the lockout guard; rollback; and
  what a failed write leaves behind.
\<close>

abbreviation plain_crypto :: crypto where
  "plain_crypto \<equiv> \<lparr>bcrypt_hash = (\<lambda>m r. Some m), bcrypt_ok = (\<lambda>h m. h = m), sha256 = (\<lambda>m. m)\<rparr>"

abbreviation admin_key :: "int \<Rightarrow> string \<Rightarrow> api_key" where
  "admin_key i m \<equiv> \<lparr>key_id = i, key_name = ''k'', key_hash = m, key_description = ''tray handoff'',
     key_role = ''admin'', key_active = True, key_created = 0, key_last_used = 0\<rparr>"

abbreviation store_of :: "int \<Rightarrow> api_key list \<Rightarrow> key_store" where
  "store_of n ks \<equiv> \<lparr>next_id = n, keys = ks, verified = (\<lambda>_. None), last_flush = 0, key_file = Some (n, ks)\<rparr>"

subsection \<open>Verification\<close>

text \<open>C2: Whatever other operations run between the halves of a verification, when it answers a key,
  that key is in the store, active at that moment, and the submitted material passes its hash.\<close>
theorem verify_sound:
  assumes "reachable key_init (key_move cr) \<sigma>" and "key_step cr \<sigma> (Answered m (Inr (Some k))) \<sigma>'"
    and "\<forall>a b. sha256 cr a = sha256 cr b \<longrightarrow> a = b"
  shows "\<exists>live\<in>set (keys (key_st \<sigma>)). key_active live \<and> bcrypt_ok cr (key_hash live) (truncate_for_bcrypt m)
    \<and> key_id k = key_id live \<and> key_role k = key_role live"
proof -
  have inv: "key_inv cr \<sigma>" using assms(1) by (rule kt.always)
  from assms(2) show ?thesis
  proof (rule answered_cases)
    fix w now s'
    assume "verify_cached cr w now m (key_st \<sigma>) = (Inl (Inr (Some k)), s')"
    then show ?thesis using cached_answer [of cr w now m "key_st \<sigma>" k s'] inv assms(3) by (auto simp: key_inv_def)
  next
    fix active w now s'
    assume "(m, active) \<in> set (scans \<sigma>)"
      and c: "verify_confirm cr w now m (verify_scan cr m active) (key_st \<sigma>) = (Inr (Some k), s')"
    then have "scan_ok (key_st \<sigma>) active" using inv by (auto simp: key_inv_def)
    then show ?thesis using confirmed_answer [OF c] by auto
  qed
qed

lemma witness_scanned:
  "reachable key_init (key_move plain_crypto)
    \<lparr>key_st = store_of 2 [admin_key 1 ''hw_a''], scans = [(''hw_a'', [admin_key 1 ''hw_a''])]\<rparr>"
proof -
  let ?s = "\<lparr>key_st = store_of 2 [admin_key 1 ''hw_a''], scans = []\<rparr>"
  have "key_init ?s"
    unfolding key_init_def by (rule exI [of _ "Some (2, [admin_key 1 ''hw_a''])"]) (simp add: open_store_def ids_ok_def)
  then have r: "reachable key_init (key_move plain_crypto) ?s" by (rule reachable_init)
  have "verify_cached plain_crypto True 5 ''hw_a'' (key_st ?s) = (Inr [admin_key 1 ''hw_a''], key_st ?s)"
    by (simp add: verify_cached_def truncate_for_bcrypt_def)
  from step_scan [OF this] have "key_move plain_crypto ?s
      \<lparr>key_st = store_of 2 [admin_key 1 ''hw_a''], scans = [(''hw_a'', [admin_key 1 ''hw_a''])]\<rparr>"
    by (auto simp: key_move_def)
  with r show ?thesis by (rule reachable_step)
qed

theorem verify_sound_witness:
  "\<exists>live\<in>{admin_key 1 ''hw_a''}. key_active live \<and> key_hash live = ''hw_a''"
proof -
  let ?s = "\<lparr>key_st = store_of 2 [admin_key 1 ''hw_a''], scans = [(''hw_a'', [admin_key 1 ''hw_a''])]\<rparr>"
  have "verify_confirm plain_crypto True 5 ''hw_a'' (verify_scan plain_crypto ''hw_a'' [admin_key 1 ''hw_a'']) (key_st ?s)
      = (Inr (Some (admin_key 1 ''hw_a''\<lparr>key_last_used := 5\<rparr>)),
         (key_st ?s)\<lparr>keys := [admin_key 1 ''hw_a''\<lparr>key_last_used := 5\<rparr>], verified := [''hw_a'' \<mapsto> 1]\<rparr>)"
    by (simp add: verify_confirm_def verify_scan_def truncate_for_bcrypt_def find_key_def record_use_def update_key_def)
  from step_confirm [OF _ this] obtain t where
    "key_step plain_crypto ?s (Answered ''hw_a'' (Inr (Some (admin_key 1 ''hw_a''\<lparr>key_last_used := 5\<rparr>)))) t" by auto
  from verify_sound [OF witness_scanned this] show ?thesis by (simp add: truncate_for_bcrypt_def)
qed

text \<open>Run without interruption, a verification finds a key whenever an active one matches the
  material (bcrypt compared against every active key), and answers none otherwise: the cache
  never changes the answer.\<close>
theorem verify_complete:
  assumes "ids_ok s" and "cache_ok cr s" and "\<forall>a b. sha256 cr a = sha256 cr b \<longrightarrow> a = b"
  shows "(fst (verify_key cr True now m s) \<noteq> Inr None) \<longleftrightarrow>
    (\<exists>k\<in>set (keys s). key_active k \<and> bcrypt_ok cr (key_hash k) (truncate_for_bcrypt m))"
proof (cases "\<exists>i live. verified s (sha256 cr (truncate_for_bcrypt m)) = Some i \<and> find_key s i = Some live \<and> key_active live")
  case True
  then obtain i live where h: "verified s (sha256 cr (truncate_for_bcrypt m)) = Some i"
    "find_key s i = Some live" "key_active live" by blast
  then have "bcrypt_ok cr (key_hash live) (truncate_for_bcrypt m)"
    using assms(2,3) by (fastforce simp: cache_ok_def matches_key_def)
  moreover have "fst (verify_key cr True now m s) = Inr (Some (live\<lparr>key_last_used := now\<rparr>))"
    using h used_answer [OF h(2), of now]
    by (cases "record_use True now i s") (simp add: verify_key_def verify_cached_def)
  ultimately show ?thesis using h find_key_Some [OF h(2)] by auto
next
  case False
  then have "\<exists>s'. verify_cached cr True now m s = (Inr (filter key_active (keys s)), s') \<and> keys s' = keys s"
    by (auto simp: verify_cached_def Let_def split: option.split)
  then obtain s' where c: "verify_cached cr True now m s = (Inr (filter key_active (keys s)), s')" and k: "keys s' = keys s"
    by blast
  let ?hit = "verify_scan cr m (filter key_active (keys s))"
  have "fst (verify_confirm cr True now m ?hit s') \<noteq> Inr None \<longleftrightarrow> ?hit \<noteq> None"
  proof (cases ?hit)
    case (Some k)
    then have "k \<in> set (keys s)" "key_active k"
      using find_Some_in [of _ "filter key_active (keys s)" k] by (auto simp: verify_scan_def)
    then have "find_key s' (key_id k) = Some k" "key_active k"
      using find_key_distinct [of s' k] assms(1) \<open>keys s' = keys s\<close> by (auto simp: ids_ok_def)
    then show ?thesis using Some by (simp add: verify_confirm_def used_answer find_key_def)
  qed (simp add: verify_confirm_def)
  then show ?thesis using c by (auto simp: verify_key_def verify_scan_def find_None_iff)
qed

theorem verify_complete_witness:
  "fst (verify_key plain_crypto True 7 ''hw_a'' (store_of 2 [admin_key 1 ''hw_a''])) \<noteq> Inr None"
proof -
  have "ids_ok (store_of 2 [admin_key 1 ''hw_a''])" by (simp add: ids_ok_def)
  moreover have "cache_ok plain_crypto (store_of 2 [admin_key 1 ''hw_a''])" by (simp add: cache_ok_def)
  moreover have "\<forall>a b. sha256 plain_crypto a = sha256 plain_crypto b \<longrightarrow> a = b" by simp
  ultimately have "fst (verify_key plain_crypto True 7 ''hw_a'' (store_of 2 [admin_key 1 ''hw_a''])) \<noteq> Inr None \<longleftrightarrow>
      (\<exists>k\<in>set (keys (store_of 2 [admin_key 1 ''hw_a''])). key_active k
        \<and> bcrypt_ok plain_crypto (key_hash k) (truncate_for_bcrypt ''hw_a''))"
    by (rule verify_complete)
  then show ?thesis by (simp add: truncate_for_bcrypt_def)
qed

subsection \<open>The lockout guard and failed writes\<close>

text \<open>C17: Creating, deleting or revoking a key, whether or not the store can be written, never takes
  the last active admin key away.\<close>
theorem last_admin_kept:
  assumes "ids_ok s" and "admin_left s"
  shows "admin_left (snd (create_key cr w now m n d r rounds s)) \<and> admin_left (snd (delete_key w now i s))
    \<and> admin_left (snd (revoke_key w now i s))"
  using assms by (simp_all add: create_keeps_admin delete_keeps_admin revoke_keeps_admin)

theorem last_admin_kept_witness:
  "admin_left (snd (delete_key True 5 1 (store_of 2 [admin_key 1 ''hw_a''])))"
proof -
  have "ids_ok (store_of 2 [admin_key 1 ''hw_a''])" and "admin_left (store_of 2 [admin_key 1 ''hw_a''])"
    by (simp_all add: ids_ok_def admin_left_def)
  from last_admin_kept [OF this] show ?thesis by blast
qed

text \<open>The guard of the pruning checks each victim against the full list, so two active admins
  that are pruned together protect each other: with five newer revoked keys of the same
  description the call deletes both and no active admin is left.\<close>
theorem prune_locks_out:
  "\<exists>s. ids_ok s \<and> admin_left s \<and> fst (prune_keys True 5 ''tray handoff'' 5 s) = Inr 2
    \<and> \<not> admin_left (snd (prune_keys True 5 ''tray handoff'' 5 s))"
proof -
  let ?off = "\<lambda>i. admin_key i ''x''\<lparr>key_active := False\<rparr>"
  let ?s = "store_of 8 [admin_key 1 ''a'', admin_key 2 ''b'', ?off 3, ?off 4, ?off 5, ?off 6, ?off 7]"
  have "ids_ok ?s" "admin_left ?s" by (simp_all add: ids_ok_def admin_left_def)
  moreover have v: "prune_victims ''tray handoff'' 5 ?s = [1, 2]"
    by (simp add: prune_victims_def has_prefix_def is_last_active_admin_def numeral_eq_Suc)
  moreover have "fst (prune_keys True 5 ''tray handoff'' 5 ?s) = Inr 2"
    using v by (simp add: prune_keys_def persist_keys_def)
  moreover have "\<not> admin_left (snd (prune_keys True 5 ''tray handoff'' 5 ?s))"
    using v by (simp add: prune_keys_def persist_keys_def admin_left_def)
  ultimately show ?thesis by blast
qed

text \<open>C34: A write that fails leaves different traces: a creation is undone; a revocation is undone by
  setting the key active, also one that was revoked before; a deletion stays in memory while the
  file keeps the key, so a restart brings the deleted key back.\<close>
theorem failed_write_effects:
  assumes "ids_ok s" and "find_key s i = Some k" and "\<not> is_last_active_admin s k"
  shows "snd (create_key cr False now m n d r rounds s) = s
    \<and> fst (revoke_key False now i s) = Inl PersistFailed
    \<and> find_key (snd (revoke_key False now i s)) i = Some (k\<lparr>key_active := True\<rparr>)
    \<and> fst (delete_key False now i s) = Inl PersistFailed
    \<and> find_key (snd (delete_key False now i s)) i = None
    \<and> key_file (snd (delete_key False now i s)) = key_file s"
proof -
  have "snd (create_key cr False now m n d r rounds s) = s"
    by (simp add: create_key_def persist_keys_def Let_def split: option.split)
  moreover have "find_key (drop_verified i t) j = find_key t j" for t j by (simp add: find_key_def)
  then have "find_key (snd (revoke_key False now i s)) i = Some (k\<lparr>key_active := True\<rparr>)"
    using assms(2,3) by (simp add: revoke_key_def persist_keys_def Let_def find_update_key)
  moreover have "find_key (snd (delete_key False now i s)) i = None"
    using assms(2,3) by (simp add: delete_key_def persist_keys_def Let_def find_key_def find_None_iff)
  ultimately show ?thesis using assms(2,3) by (simp add: revoke_key_def delete_key_def persist_keys_def Let_def)
qed

theorem failed_write_effects_witness:
  "find_key (snd (revoke_key False 5 2 (store_of 3 [admin_key 1 ''a'', admin_key 2 ''b''\<lparr>key_active := False\<rparr>]))) 2
     = Some (admin_key 2 ''b'')"
proof -
  let ?s = "store_of 3 [admin_key 1 ''a'', admin_key 2 ''b''\<lparr>key_active := False\<rparr>]"
  have "ids_ok ?s" "find_key ?s 2 = Some (admin_key 2 ''b''\<lparr>key_active := False\<rparr>)"
    "\<not> is_last_active_admin ?s (admin_key 2 ''b''\<lparr>key_active := False\<rparr>)"
    by (simp_all add: ids_ok_def find_key_def is_last_active_admin_def)
  from failed_write_effects [OF this] show ?thesis by simp
qed

end
