(* ===== verification/SafePath.thy ===== *)
theory SafePath
  imports Validation
begin

text \<open>
  Path and executable validation (\<^verbatim>\<open>internal/safepath/safepath.go\<close>), with what it uses of Go's
  \<^verbatim>\<open>path/filepath\<close> on a Unix host (Clean, Join, Abs, Rel), and the atomic write: temp file beside
  the target, then rename, as the sequence of file-system states another process may see.
\<close>

subsection \<open>What the code uses of path/filepath\<close>

definition rooted :: "string \<Rightarrow> bool" where
  "rooted p \<longleftrightarrow> p \<noteq> [] \<and> hd p = CHR ''/''"

text \<open>One element of \<^verbatim>\<open>Clean\<close>: empty and dot elements go, a dot-dot eats the element before it.\<close>

definition clean_part :: "bool \<Rightarrow> string \<Rightarrow> string list \<Rightarrow> string list" where
  "clean_part ab part out =
    (if part = [] \<or> part = ''.'' then out
     else if part = ''..'' then
       (if out \<noteq> [] \<and> last out \<noteq> ''..'' then butlast out else if ab then out else out @ [part])
     else out @ [part])"

definition clean_parts :: "bool \<Rightarrow> string list \<Rightarrow> string list" where
  "clean_parts ab ps = fold (clean_part ab) ps []"

definition print_path :: "bool \<Rightarrow> string list \<Rightarrow> string" where
  "print_path ab ps = (if ab then CHR ''/'' # join_with ''/'' ps else if ps = [] then ''.'' else join_with ''/'' ps)"

definition clean_path :: "string \<Rightarrow> string" where
  "clean_path p = print_path (rooted p) (clean_parts (rooted p) (split_char CHR ''/'' p))"

definition join_path :: "string \<Rightarrow> string \<Rightarrow> string" where
  "join_path a b = (if a = [] \<and> b = [] then [] else if a = [] then clean_path b else clean_path (a @ CHR ''/'' # b))"

definition abs_path :: "string option \<Rightarrow> string \<Rightarrow> string option" where
  "abs_path cwd p = (if rooted p then Some (clean_path p) else map_option (\<lambda>wd. join_path wd p) cwd)"

text \<open>The elements of a cleaned path.\<close>

definition parts_of :: "string \<Rightarrow> string list" where
  "parts_of p = filter (\<lambda>e. e \<noteq> [] \<and> e \<noteq> ''.'') (split_char CHR ''/'' p)"

fun rel_parts :: "string list \<Rightarrow> string list \<Rightarrow> string list" where
  "rel_parts (b # bs) (t # ts) = (if b = t then rel_parts bs ts else map (\<lambda>_. ''..'') (b # bs) @ t # ts)"
| "rel_parts bs ts = map (\<lambda>_. ''..'') bs @ ts"

text \<open>\<^verbatim>\<open>Rel\<close> of two cleaned absolute paths, as the code calls it: never an error.\<close>

definition rel_path :: "string \<Rightarrow> string \<Rightarrow> string" where
  "rel_path base targ = print_path False (rel_parts (parts_of base) (parts_of targ))"

subsection \<open>The package\<close>

datatype path_error = EmptyPath | UnresolvedPath | EscapesBase | StatFailed | NotRegular | NotExecutable
  | NotAppBundle | NotADirectory

definition clean_abs :: "string option \<Rightarrow> string \<Rightarrow> path_error + string" where
  "clean_abs cwd p =
    (if trim_space p = [] then Inl EmptyPath
     else case abs_path cwd p of None \<Rightarrow> Inl UnresolvedPath | Some a \<Rightarrow> Inr (clean_path a))"

definition under :: "string option \<Rightarrow> string \<Rightarrow> string \<Rightarrow> path_error + string" where
  "under cwd base_dir name =
    (case clean_abs cwd base_dir of
       Inl e \<Rightarrow> Inl e
     | Inr base \<Rightarrow>
         (let joined = clean_path (join_path base name); rel = rel_path base joined
          in if rel = ''..'' \<or> take 3 rel = ''../'' then Inl EscapesBase else Inr joined))"

record file_info =
  is_regular :: bool
  is_dir :: bool
  exec_bits :: bool

definition validate_executable :: "string option \<Rightarrow> (string \<Rightarrow> file_info option) \<Rightarrow> bool \<Rightarrow> string \<Rightarrow> path_error + string" where
  "validate_executable cwd stat windows p =
    (case clean_abs cwd p of
       Inl e \<Rightarrow> Inl e
     | Inr c \<Rightarrow>
         (case stat c of
            None \<Rightarrow> Inl StatFailed
          | Some info \<Rightarrow>
              if \<not> is_regular info then Inl NotRegular
              else if \<not> windows \<and> \<not> exec_bits info then Inl NotExecutable else Inr c))"

definition ends_with :: "string \<Rightarrow> string \<Rightarrow> bool" where
  "ends_with suffix s \<longleftrightarrow> length suffix \<le> length s \<and> drop (length s - length suffix) s = suffix"

definition validate_app_bundle :: "string option \<Rightarrow> (string \<Rightarrow> file_info option) \<Rightarrow> string \<Rightarrow> path_error + string" where
  "validate_app_bundle cwd stat p =
    (case clean_abs cwd p of
       Inl e \<Rightarrow> Inl e
     | Inr c \<Rightarrow>
         if \<not> ends_with ''.app'' c then Inl NotAppBundle
         else (case stat c of
                 None \<Rightarrow> Inl StatFailed
               | Some info \<Rightarrow> if \<not> is_dir info then Inl NotADirectory else Inr c))"

subsection \<open>The atomic write\<close>

text \<open>
  The outcome of each system call of one write: whether the temp file opens, how many bytes reach it,
  whether write, close and rename succeed. A run answers success and the file systems it goes through.
\<close>

type_synonym files = "string \<Rightarrow> string option"

record io_outcome =
  opens :: bool
  written :: nat
  writes :: bool
  closes :: bool
  renames :: bool

definition renamed :: "string \<Rightarrow> string \<Rightarrow> files \<Rightarrow> files" where
  "renamed from to fs = fs(to := fs from, from := None)"

definition write_file :: "string option \<Rightarrow> io_outcome \<Rightarrow> string \<Rightarrow> string \<Rightarrow> files \<Rightarrow> bool \<times> files list" where
  "write_file cwd io p data fs =
    (case clean_abs cwd p of
       Inl e \<Rightarrow> (False, [fs])
     | Inr c \<Rightarrow>
         (let tmp = clean_path (c @ ''.tmp'') in
          if \<not> opens io then (False, [fs])
          else
            let fs1 = fs(tmp \<mapsto> ''''); fs2 = fs1(tmp \<mapsto> if writes io then data else take (written io) data) in
            if \<not> writes io then (False, [fs, fs1, fs2])
            else if \<not> closes io then (False, [fs, fs1, fs2])
            else if \<not> renames io then (False, [fs, fs1, fs2])
            else (True, [fs, fs1, fs2, renamed (c @ ''.tmp'') c fs2])))"

definition write_file_from :: "string option \<Rightarrow> io_outcome \<Rightarrow> string \<Rightarrow> string \<Rightarrow> files \<Rightarrow> bool \<times> files list" where
  "write_file_from cwd io p data fs =
    (case clean_abs cwd p of
       Inl e \<Rightarrow> (False, [fs])
     | Inr c \<Rightarrow>
         (let tmp = clean_path (c @ ''.tmp'') in
          if \<not> opens io then (False, [fs])
          else
            let fs1 = fs(tmp \<mapsto> ''''); fs2 = fs1(tmp \<mapsto> if writes io then data else take (written io) data);
                gone = fs2(c @ ''.tmp'' := None) in
            if \<not> writes io \<or> \<not> closes io then (False, [fs, fs1, fs2, gone])
            else if \<not> renames io then (False, [fs, fs1, fs2, gone])
            else (True, [fs, fs1, fs2, renamed (c @ ''.tmp'') c fs2])))"

definition read_file :: "string option \<Rightarrow> string \<Rightarrow> files \<Rightarrow> string option" where
  "read_file cwd p fs = (case clean_abs cwd p of Inl e \<Rightarrow> None | Inr c \<Rightarrow> fs (clean_path c))"

end
