(* ===== verification/SafePathLaws.thy ===== *)
theory SafePathLaws
  imports SafePath Texts "HOL-Library.Sublist"
begin

text \<open>
  Cleaned absolute paths are their lists of elements: printing and splitting are inverse on elements
  that hold no slash and are neither empty nor dots. On this form joining runs the name's elements
  over the base's, and the escape test compares prefixes.
\<close>

definition plain_part :: "string \<Rightarrow> bool" where
  "plain_part e \<longleftrightarrow> e \<noteq> [] \<and> e \<noteq> ''.'' \<and> e \<noteq> ''..'' \<and> CHR ''/'' \<notin> set e"

subsection \<open>Cleaning\<close>

lemma clean_part_plain:
  assumes "\<forall>e\<in>set out. plain_part e" and "CHR ''/'' \<notin> set part"
  shows "\<forall>e\<in>set (clean_part True part out). plain_part e"
  using assms by (auto simp: clean_part_def plain_part_def dest: in_set_butlastD)

lemma fold_clean_plain:
  "\<forall>e\<in>set out. plain_part e \<Longrightarrow> \<forall>e\<in>set ps. CHR ''/'' \<notin> set e \<Longrightarrow> \<forall>e\<in>set (fold (clean_part True) ps out). plain_part e"
proof (induction ps arbitrary: out)
  case (Cons p ps)
  have "\<forall>e\<in>set (clean_part True p out). plain_part e" using clean_part_plain [of out p] Cons.prems by simp
  then show ?case using Cons.IH [of "clean_part True p out"] Cons.prems by simp
qed simp

lemma clean_plain_id: "\<forall>e\<in>set ps. plain_part e \<Longrightarrow> fold (clean_part True) ps out = out @ ps"
  by (induction ps arbitrary: out) (auto simp: clean_part_def plain_part_def)

lemma clean_split_plain: "\<forall>e\<in>set (clean_parts True (split_char CHR ''/'' p)). plain_part e"
  unfolding clean_parts_def by (rule fold_clean_plain) (auto dest: split_char_free)

lemma split_print:
  assumes "\<forall>e\<in>set ps. plain_part e"
  shows "split_char CHR ''/'' (print_path True ps) = [] # (if ps = [] then [[]] else ps)"
  using assms split_join [of ps "CHR ''/''"] by (auto simp: print_path_def plain_part_def)

lemma parts_print: "\<forall>e\<in>set ps. plain_part e \<Longrightarrow> parts_of (print_path True ps) = ps"
  unfolding parts_of_def split_print by (auto simp: plain_part_def filter_id_conv)

lemma rooted_print [simp]: "rooted (print_path True ps)"
  by (simp add: rooted_def print_path_def)

lemma clean_rooted: "rooted p \<Longrightarrow> clean_path p = print_path True (clean_parts True (split_char CHR ''/'' p))"
  by (simp add: clean_path_def)

lemma clean_print: "\<forall>e\<in>set ps. plain_part e \<Longrightarrow> clean_path (print_path True ps) = print_path True ps"
proof -
  assume "\<forall>e\<in>set ps. plain_part e"
  moreover from this have "clean_parts True (split_char CHR ''/'' (print_path True ps)) = ps"
    unfolding split_print [OF \<open>\<forall>e\<in>set ps. plain_part e\<close>] clean_parts_def
    using clean_plain_id [of ps "[]"] by (simp add: clean_part_def)
  ultimately show ?thesis by (simp add: clean_rooted)
qed

definition cwd_ok :: "string option \<Rightarrow> bool" where
  "cwd_ok cwd \<longleftrightarrow> (case cwd of None \<Rightarrow> True | Some wd \<Rightarrow> rooted wd)"

lemma join_rooted:
  assumes "rooted a"
  shows "join_path a b = print_path True (clean_parts True (split_char CHR ''/'' a @ split_char CHR ''/'' b))"
proof -
  have "rooted (a @ CHR ''/'' # b)" using assms by (simp add: rooted_def)
  moreover have "a \<noteq> []" using assms by (auto simp: rooted_def)
  ultimately show ?thesis by (simp add: join_path_def clean_rooted split_char_app)
qed

lemma abs_path_form:
  assumes "cwd_ok cwd" and "abs_path cwd p = Some a"
  shows "\<exists>ps. a = print_path True ps \<and> (\<forall>e\<in>set ps. plain_part e)"
proof (cases "rooted p")
  case True
  then show ?thesis using assms(2) clean_split_plain [of p] by (auto simp: abs_path_def clean_rooted)
next
  case False
  then obtain wd where wd: "cwd = Some wd" "a = join_path wd p" using assms(2) by (auto simp: abs_path_def)
  then have "a = print_path True (clean_parts True (split_char CHR ''/'' wd @ split_char CHR ''/'' p))"
    using assms(1) join_rooted by (simp add: cwd_ok_def)
  moreover have "\<forall>e\<in>set (clean_parts True (split_char CHR ''/'' wd @ split_char CHR ''/'' p)). plain_part e"
    unfolding clean_parts_def by (rule fold_clean_plain) (auto dest: split_char_free)
  ultimately show ?thesis by blast
qed

lemma clean_abs_form:
  assumes "cwd_ok cwd" and "clean_abs cwd p = Inr c"
  obtains ps where "c = print_path True ps" "\<forall>e\<in>set ps. plain_part e"
proof -
  obtain a where "abs_path cwd p = Some a" "c = clean_path a"
    using assms(2) by (auto simp: clean_abs_def split: option.splits if_splits)
  moreover from this(1) obtain ps where "a = print_path True ps" "\<forall>e\<in>set ps. plain_part e"
    using abs_path_form [OF assms(1)] by blast
  ultimately show thesis using that clean_print by auto
qed

subsection \<open>The escape test\<close>

lemma rel_prefix: "rel_parts bs (bs @ rest) = rest"
proof (induction bs)
  case Nil
  then show ?case by (cases rest) simp_all
qed simp

lemma rel_not_prefix: "\<not> prefix bs ts \<Longrightarrow> \<exists>rest. rel_parts bs ts = ''..'' # rest"
proof (induction bs arbitrary: ts)
  case (Cons b bs)
  then show ?case by (cases ts) auto
qed simp

lemma print_dots: "print_path False (''..'' # rest) = ''..'' \<or> take 3 (print_path False (''..'' # rest)) = ''../''"
  by (cases rest) (auto simp: print_path_def)

lemma print_no_dots:
  assumes "\<forall>e\<in>set rest. plain_part e"
  shows "print_path False rest \<noteq> ''..'' \<and> take 3 (print_path False rest) \<noteq> ''../''"
proof (cases rest)
  case Nil
  then show ?thesis by (simp add: print_path_def)
next
  case (Cons e es)
  let ?s = "join_with ''/'' rest"
  have sp: "split_char CHR ''/'' ?s = rest"
    using split_join [of rest "CHR ''/''"] Cons assms by (auto simp: plain_part_def)
  have "hd rest = ''..''" if "take 3 ?s = ''../''"
  proof -
    have "?s = ''..'' @ CHR ''/'' # drop 3 ?s" using append_take_drop_id [of 3 ?s] that by simp
    then have "split_char CHR ''/'' ?s = ''..'' # split_char CHR ''/'' (drop 3 ?s)"
      using split_char_app [of "CHR ''/''" "''..''" "drop 3 ?s"] by simp
    then show ?thesis using sp by (metis list.sel(1))
  qed
  moreover have "hd rest = ''..''" if "?s = ''..''"
    using sp split_char_single [of "CHR ''/''" "''..''"] unfolding that by auto
  moreover have "hd rest \<noteq> ''..''" using Cons assms by (simp add: plain_part_def)
  moreover have "print_path False rest = ?s" using Cons by (simp add: print_path_def)
  ultimately show ?thesis by auto
qed

subsection \<open>Containment\<close>

text \<open>The elements of the joined path: the name's elements cleaned over the base's.\<close>

definition over_base :: "string list \<Rightarrow> string \<Rightarrow> string list" where
  "over_base base name = fold (clean_part True) (split_char CHR ''/'' name) base"

lemma over_base_plain: "\<forall>e\<in>set base. plain_part e \<Longrightarrow> \<forall>e\<in>set (over_base base name). plain_part e"
  unfolding over_base_def by (rule fold_clean_plain) (auto dest: split_char_free)

lemma join_over_base:
  assumes "\<forall>e\<in>set base. plain_part e"
  shows "join_path (print_path True base) name = print_path True (over_base base name)"
proof -
  have "clean_parts True (split_char CHR ''/'' (print_path True base) @ split_char CHR ''/'' name) = over_base base name"
    unfolding split_print [OF assms] clean_parts_def over_base_def
    using clean_plain_id [OF assms, of "[]"] by (simp add: clean_part_def)
  then show ?thesis by (simp add: join_rooted)
qed

lemma under_form:
  assumes "clean_abs cwd dir = Inr (print_path True base)" and "\<forall>e\<in>set base. plain_part e"
  shows "under cwd dir name =
    (if prefix base (over_base base name) then Inr (print_path True (over_base base name)) else Inl EscapesBase)"
proof -
  have over: "\<forall>e\<in>set (over_base base name). plain_part e" by (rule over_base_plain [OF assms(2)])
  have rel: "rel_path (print_path True base) (print_path True (over_base base name)) =
      print_path False (rel_parts base (over_base base name))"
    by (simp add: rel_path_def parts_print assms(2) over)
  show ?thesis
  proof (cases "prefix base (over_base base name)")
    case True
    then obtain rest where rest: "over_base base name = base @ rest" by (auto simp: prefix_def)
    then show ?thesis
      using True rel print_no_dots [of rest] over clean_print [OF over] join_over_base [OF assms(2)]
      by (simp add: under_def assms(1) rel_prefix)
  next
    case False
    then obtain rest where "rel_parts base (over_base base name) = ''..'' # rest" using rel_not_prefix by blast
    then show ?thesis
      using False rel print_dots [of rest] clean_print [OF over] join_over_base [OF assms(2)]
      by (simp add: under_def assms(1))
  qed
qed

subsection \<open>The atomic write\<close>

lemma tmp_path:
  assumes "c = print_path True ps" and "\<forall>e\<in>set ps. plain_part e"
  shows "clean_path (c @ ''.tmp'') = c @ ''.tmp''"
proof -
  have tmp_part: "plain_part (e @ ''.tmp'')" if "CHR ''/'' \<notin> set e" for e
    using that by (cases e) (auto simp: plain_part_def)
  have print_snoc: "join_with ''/'' (qs @ [e]) @ s = join_with ''/'' (qs @ [e @ s])" for qs e s
    by (induction "''/''" qs rule: join_with.induct) auto
  show ?thesis
  proof (cases ps rule: rev_cases)
    case Nil
    then show ?thesis using clean_print [of "[''.tmp'']"] assms(1) by (simp add: print_path_def plain_part_def)
  next
    case (snoc qs e)
    then have "c @ ''.tmp'' = print_path True (qs @ [e @ ''.tmp''])"
      using print_snoc [of qs e "''.tmp''"] assms(1) by (simp add: print_path_def)
    moreover have "\<forall>x\<in>set (qs @ [e @ ''.tmp'']). plain_part x"
      using assms(2) snoc tmp_part by (auto simp: plain_part_def)
    ultimately show ?thesis using clean_print by metis
  qed
qed

lemma written_at_end:
  assumes "cwd_ok cwd" and "clean_abs cwd p = Inr c" and "write_file cwd io p data fs = (True, trace)"
  shows "last trace c = Some data"
proof -
  obtain ps where "c = print_path True ps" "\<forall>e\<in>set ps. plain_part e"
    by (rule clean_abs_form [OF assms(1,2)])
  then have "clean_path (c @ ''.tmp'') = c @ ''.tmp''" by (rule tmp_path)
  then show ?thesis
    using assms(2,3) by (auto simp: write_file_def Let_def renamed_def split: if_splits)
qed

subsection \<open>Cleaning an already clean path\<close>

lemma trim_rooted: "rooted p \<Longrightarrow> trim_space p \<noteq> []"
proof -
  assume "rooted p"
  then obtain t where p: "p = CHR ''/'' # t" by (cases p) (auto simp: rooted_def)
  have ns: "\<not> space_rune ''/''" by code_simp
  have "runes p = ''/'' # runes t" by (simp add: p runes.simps [of "CHR ''/'' # t"])
  then have "trim_space p = ''/'' @ concat (rev (dropWhile space_rune (rev (runes t))))"
    using ns dropWhile_append3 [of space_rune "''/''" "rev (runes t)" "[]"] by (simp add: trim_space_def)
  then show ?thesis by simp
qed

lemma clean_abs_again:
  assumes "cwd_ok cwd" and "clean_abs cwd p = Inr c"
  shows "clean_abs cwd c = Inr c"
proof -
  obtain ps where ps: "c = print_path True ps" "\<forall>e\<in>set ps. plain_part e"
    by (rule clean_abs_form [OF assms])
  then show ?thesis
    using trim_rooted [of c] clean_print [OF ps(2)] by (simp add: clean_abs_def abs_path_def)
qed

end
