(* ===== verification/SafePathProps.thy ===== *)
theory SafePathProps
  imports SafePathLaws
begin

text \<open>The properties of the path helpers: containment, clean absolute results, and the atomic write.\<close>

text \<open>C16: A name joined under a base directory is accepted exactly when the cleaned result stays at or
  below the base, and then the answer is a clean absolute path whose elements start with the
  base's and never climb.\<close>
theorem under_contained:
  assumes "cwd_ok cwd"
  shows "(\<exists>e. clean_abs cwd dir = Inl e \<and> under cwd dir name = Inl e) \<or>
    (\<exists>base. clean_abs cwd dir = Inr base \<and>
      (if prefix (parts_of base) (over_base (parts_of base) name)
       then \<exists>p. under cwd dir name = Inr p \<and> clean_path p = p \<and> rooted p
         \<and> parts_of p = over_base (parts_of base) name \<and> prefix (parts_of base) (parts_of p)
         \<and> ''..'' \<notin> set (parts_of p)
       else under cwd dir name = Inl EscapesBase))"
proof (cases "clean_abs cwd dir")
  case (Inl e)
  then show ?thesis by (simp add: under_def)
next
  case (Inr base)
  then obtain ps where base: "base = print_path True ps" and ps: "\<forall>e\<in>set ps. plain_part e"
    by (rule clean_abs_form [OF assms])
  have over: "\<forall>e\<in>set (over_base ps name). plain_part e" by (rule over_base_plain [OF ps])
  then have "''..'' \<notin> set (over_base ps name)" by (auto simp: plain_part_def)
  then show ?thesis
    using under_form [of cwd dir ps name] Inr ps over clean_print [OF over]
    by (simp add: base parts_print)
qed

theorem under_contained_witness:
  "under (Some ''/srv'') ''backups'' ''../../etc'' = Inl EscapesBase"
proof -
  have "cwd_ok (Some ''/srv'')" by (simp add: cwd_ok_def rooted_def)
  note spec = under_contained [OF this, of "''backups''" "''../../etc''"]
  have "clean_abs (Some ''/srv'') ''backups'' = Inr ''/srv/backups''" by code_simp
  moreover have "parts_of ''/srv/backups'' = [''srv'', ''backups'']" by code_simp
  moreover have "over_base [''srv'', ''backups''] ''../../etc'' = [''etc'']" by code_simp
  ultimately show ?thesis using spec by simp
qed

text \<open>C18: At every moment of a write of an absolute path the target holds its old content or the whole
  new one, never a part of it; the write answers success exactly when the target has the new
  content at the end.\<close>
theorem write_file_atomic:
  assumes "cwd_ok cwd" and "clean_abs cwd p = Inr c" and "write_file cwd io p data fs = (done_ok, trace)"
  shows "(\<forall>t\<in>set trace. t c = fs c \<or> t c = Some data) \<and> (if done_ok then last trace c = Some data else last trace c = fs c)
    \<and> (\<forall>q. q \<noteq> c \<longrightarrow> q \<noteq> c @ ''.tmp'' \<longrightarrow> last trace q = fs q)"
proof -
  obtain ps where "c = print_path True ps" "\<forall>e\<in>set ps. plain_part e"
    by (rule clean_abs_form [OF assms(1,2)])
  then have "clean_path (c @ ''.tmp'') = c @ ''.tmp''" by (rule tmp_path)
  moreover have "c @ ''.tmp'' \<noteq> c" by simp
  ultimately show ?thesis
    using assms(2,3) by (auto simp: write_file_def Let_def renamed_def split: if_splits)
qed

theorem write_file_atomic_witness:
  "last (snd (write_file None \<lparr>opens = True, written = 1, writes = False, closes = True, renames = True\<rparr>
      ''/k'' ''new'' [''/k'' \<mapsto> ''old''])) ''/k'' = Some ''old''"
proof -
  let ?io = "\<lparr>opens = True, written = 1, writes = False, closes = True, renames = True\<rparr>"
  let ?run = "write_file None ?io ''/k'' ''new'' [''/k'' \<mapsto> ''old'']"
  have "cwd_ok None" by (simp add: cwd_ok_def)
  moreover have c: "clean_abs None ''/k'' = Inr ''/k''" by code_simp
  moreover have "?run = (False, snd ?run)" using c by (simp add: write_file_def Let_def)
  ultimately show ?thesis
    using write_file_atomic [of None "''/k''" "''/k''" ?io "''new''" "[''/k'' \<mapsto> ''old'']" False "snd ?run"] by simp
qed


end
