(* ===== verification/Access.thy ===== *)
theory Access
  imports Json KeyStore
begin

text \<open>
  Who may call what (\<^verbatim>\<open>internal/auth/middleware.go\<close>): the role policy on method and path, the
  credential a request carries, the challenge of a refusal and net/http's cross-origin check.
\<close>

subsection \<open>The role policy\<close>

definition role_level :: "string \<Rightarrow> nat" where
  "role_level r = (if r = ''viewer'' then 1 else if r = ''operator'' then 2 else if r = ''admin'' then 3 else 0)"

definition admin_write_prefixes :: "string list" where
  "admin_write_prefixes = [''/api/server'', ''/api/system/host'', ''/api/system/users'', ''/api/system/groups'',
     ''/api/system/roles'', ''/api/database'', ''/api/app'']"

definition admin_always_prefixes :: "string list" where
  "admin_always_prefixes = [''/api/api-keys'', ''/api/config'', ''/api/term'']"

definition under_prefix :: "string \<Rightarrow> string list \<Rightarrow> bool" where
  "under_prefix path prefixes \<longleftrightarrow> list_ex (\<lambda>p. path = p \<or> has_prefix (p @ ''/'') path) prefixes"

definition required_role :: "string \<Rightarrow> string \<Rightarrow> string" where
  "required_role method path =
    (if path = ''/api/api-keys/info'' \<or> path = ''/api/auth/logout'' \<or> under_prefix path [''/api/user''] then ''viewer''
     else if under_prefix path admin_always_prefixes then ''admin''
     else if path = ''/api/ws-ticket'' \<or> under_prefix path [''/api/filesystem''] then ''operator''
     else if method = ''GET'' \<or> method = ''HEAD'' then ''viewer''
     else if under_prefix path admin_write_prefixes then ''admin''
     else ''operator'')"

subsection \<open>Requests and credentials\<close>

text \<open>What the middleware reads of a request; an absent header is the empty string.\<close>

record request =
  req_method :: string
  req_path :: string
  api_key_header :: string
  authorization :: "string list"
  session_cookie :: "string option"
  fetch_site :: string
  origin :: string
  req_host :: string

datatype scheme = NoScheme | SchemeAPIKey | SchemeBearer | SchemeDPoP

datatype credential_error = ErrAmbiguous | ErrScheme

text \<open>\<^verbatim>\<open>strings.Cut\<close> at one byte; \<^verbatim>\<open>strings.EqualFold\<close> against an ASCII word without k and s folds ASCII only.\<close>

definition cut_at :: "char \<Rightarrow> string \<Rightarrow> (string \<times> string) option" where
  "cut_at c s = (case dropWhile (\<lambda>x. x \<noteq> c) s of [] \<Rightarrow> None | _ # rest \<Rightarrow> Some (takeWhile (\<lambda>x. x \<noteq> c) s, rest))"

definition lower_char :: "char \<Rightarrow> char" where
  "lower_char c = (if CHR ''A'' \<le> c \<and> c \<le> CHR ''Z'' then char_of (of_char c + 32 :: nat) else c)"

definition equal_fold :: "string \<Rightarrow> string \<Rightarrow> bool" where
  "equal_fold a b \<longleftrightarrow> map lower_char a = map lower_char b"

definition credential :: "request \<Rightarrow> credential_error + scheme \<times> string" where
  "credential r =
    (if api_key_header r \<noteq> '''' then Inr (SchemeAPIKey, api_key_header r)
     else case authorization r of
       [] \<Rightarrow> Inr (NoScheme, '''')
     | [v] \<Rightarrow>
         (case cut_at CHR '' '' v of
            None \<Rightarrow> Inl ErrScheme
          | Some (name, rest) \<Rightarrow>
              (let token = trim_space rest in
               if token = '''' then Inl ErrScheme
               else if equal_fold name ''Bearer'' then Inr (SchemeBearer, token)
               else if equal_fold name ''DPoP'' then Inr (SchemeDPoP, token)
               else Inl ErrScheme))
     | _ \<Rightarrow> Inl ErrAmbiguous)"

definition quoted :: "string \<Rightarrow> string" where
  "quoted s = [CHR 0x22] @ s @ [CHR 0x22]"

definition challenge :: "scheme \<Rightarrow> string \<Rightarrow> string" where
  "challenge sch code =
    (if code = '''' then ''Bearer, DPoP algs='' @ quoted ''ES256''
     else if sch = SchemeDPoP then ''DPoP error='' @ quoted code @ '', algs='' @ quoted ''ES256''
     else ''Bearer error='' @ quoted code @ '', DPoP algs='' @ quoted ''ES256'')"

text \<open>
  net/http's \<^verbatim>\<open>CrossOriginProtection.Check\<close> with no trusted origin and no bypass: the refusal, if
  any. The host an origin names is URL parsing, a parameter.
\<close>

definition cross_origin :: "(string \<Rightarrow> string option) \<Rightarrow> request \<Rightarrow> string option" where
  "cross_origin origin_host r =
    (if req_method r \<in> {''GET'', ''HEAD'', ''OPTIONS''} then None
     else if fetch_site r = ''same-origin'' \<or> fetch_site r = ''none'' then None
     else if fetch_site r \<noteq> '''' then Some ''cross-origin request detected from Sec-Fetch-Site header''
     else if origin r = '''' then None
     else if origin_host (origin r) = Some (req_host r) then None
     else Some ''cross-origin request detected, and/or browser is out of date: Sec-Fetch-Site is missing, and Origin does not match Host'')"

subsection \<open>Answers\<close>

record identity =
  id_key :: int
  id_name :: string
  id_description :: string
  id_role :: string

definition identity_of :: "api_key \<Rightarrow> identity" where
  "identity_of k = \<lparr>id_key = key_id k, id_name = key_name k, id_description = key_description k, id_role = key_role k\<rparr>"

text \<open>A refusal: status, challenge header, the detail of the problem body, and whether the session cookie is cleared.\<close>

datatype answer =
    Refused nat "string option" string bool
  | Served identity

definition write_msg :: "nat \<Rightarrow> string \<Rightarrow> answer" where
  "write_msg status msg = Refused status None msg False"

definition unauthorized :: "scheme \<Rightarrow> string \<Rightarrow> string \<Rightarrow> answer" where
  "unauthorized sch code detail = Refused 401 (Some (challenge sch code)) detail False"

fun clearing_cookie :: "answer \<Rightarrow> answer" where
  "clearing_cookie (Refused st ch d c) = Refused st ch d True"
| "clearing_cookie a = a"

definition authorize :: "request \<Rightarrow> identity \<Rightarrow> answer" where
  "authorize r who =
    (let needed = required_role (req_method r) (req_path r) in
     if role_level (id_role who) < role_level needed
     then write_msg 403 (''Insufficient role: this operation requires '' @ [CHR 0x27] @ needed @ [CHR 0x27]
       @ '' (key role: '' @ [CHR 0x27] @ id_role who @ [CHR 0x27] @ '')'')
     else Served who)"

text \<open>The problem type of a status (\<^verbatim>\<open>problem.TypeFor\<close>).\<close>

definition problem_types :: "(nat \<times> string) list" where
  "problem_types = [(400, ''bad-request''), (401, ''authentication''), (403, ''forbidden''), (404, ''not-found''),
     (405, ''method-not-allowed''), (409, ''conflict''), (413, ''payload-too-large''), (422, ''validation''),
     (429, ''throttled''), (500, ''internal''), (502, ''bad-gateway''), (503, ''not-configured'')]"

definition type_for :: "nat \<Rightarrow> string" where
  "type_for status = (case map_of problem_types status of Some t \<Rightarrow> t | None \<Rightarrow> ''internal'')"

end
