(* ===== verification/Sessions.thy ===== *)
theory Sessions
  imports SafePath KeyStore
begin

text \<open>
  Browser sessions (\<^verbatim>\<open>internal/auth/sessions.go\<close>), the tray's one-time tokens
  (\<^verbatim>\<open>traytoken.go\<close>) and the setup token (\<^verbatim>\<open>setuptoken.go\<close>). Random values and the
  digest are arguments.
\<close>

subsection \<open>Sessions\<close>

record session =
  session_key :: int
  session_created :: int

record sessions =
  entries :: "string \<Rightarrow> session option"
  session_file :: "(string \<Rightarrow> session option) option"

definition put_session :: "string \<Rightarrow> session \<Rightarrow> sessions \<Rightarrow> sessions" where
  "put_session d e s = s\<lparr>entries := (entries s)(d \<mapsto> e)\<rparr>"

definition drop_session :: "string \<Rightarrow> sessions \<Rightarrow> sessions" where
  "drop_session d s = s\<lparr>entries := (entries s)(d := None)\<rparr>"

definition open_sessions :: "(string \<Rightarrow> session option) option \<Rightarrow> sessions" where
  "open_sessions stored = \<lparr>entries = (case stored of None \<Rightarrow> (\<lambda>_. None) | Some m \<Rightarrow> m), session_file = stored\<rparr>"

definition persist_sessions :: "bool \<Rightarrow> sessions \<Rightarrow> bool \<times> sessions" where
  "persist_sessions writable s = (if writable then (True, s\<lparr>session_file := Some (entries s)\<rparr>) else (False, s))"

definition create_session :: "(string \<Rightarrow> string) \<Rightarrow> bool \<Rightarrow> int \<Rightarrow> string option \<Rightarrow> int \<Rightarrow> (int \<Rightarrow> bool) \<Rightarrow> sessions \<Rightarrow>
    string option \<times> sessions" where
  "create_session digest writable now random key alive s =
    (case random of
       None \<Rightarrow> (None, s)
     | Some handle \<Rightarrow>
         (let kept = s\<lparr>entries := (\<lambda>d. case entries s d of Some e \<Rightarrow> if alive (session_key e) then Some e else None | None \<Rightarrow> None)\<rparr>;
              (ok, s') = persist_sessions writable (put_session (digest handle) \<lparr>session_key = key, session_created = now\<rparr> kept)
          in (if ok then Some handle else None, s')))"

definition key_of_session :: "(string \<Rightarrow> string) \<Rightarrow> string \<Rightarrow> sessions \<Rightarrow> int option" where
  "key_of_session digest handle s = map_option session_key (entries s (digest handle))"

definition end_session :: "(string \<Rightarrow> string) \<Rightarrow> bool \<Rightarrow> string \<Rightarrow> sessions \<Rightarrow> bool \<times> sessions" where
  "end_session digest writable handle s =
    (if entries s (digest handle) = None then (True, s)
     else persist_sessions writable (drop_session (digest handle) s))"

interpretation session_registry: registry entries put_session drop_session
  by unfold_locales (simp_all add: put_session_def drop_session_def)

subsection \<open>Tray tokens\<close>

record tray_grant =
  grant_expiry :: int
  grant_key :: int

type_synonym tray = "string \<Rightarrow> tray_grant option"

definition tray_ttl :: int where
  "tray_ttl = 60 * 10 ^ 9"

definition put_grant :: "string \<Rightarrow> tray_grant \<Rightarrow> tray \<Rightarrow> tray" where
  "put_grant tok g t = t(tok \<mapsto> g)"

definition drop_grant :: "string \<Rightarrow> tray \<Rightarrow> tray" where
  "drop_grant tok t = t(tok := None)"

definition mint :: "string option \<Rightarrow> int \<Rightarrow> int \<Rightarrow> tray \<Rightarrow> string option \<times> tray" where
  "mint random now key t =
    (case random of
       None \<Rightarrow> (None, t)
     | Some tok \<Rightarrow>
         (Some tok, put_grant tok \<lparr>grant_expiry = now + tray_ttl, grant_key = key\<rparr>
            (\<lambda>x. case t x of Some g \<Rightarrow> if grant_expiry g < now then None else Some g | None \<Rightarrow> None)))"

definition mint_plain :: "string option \<Rightarrow> int \<Rightarrow> tray \<Rightarrow> string option \<times> tray" where
  "mint_plain random now t = mint random now 0 t"

definition mint_for_key :: "string option \<Rightarrow> int \<Rightarrow> int \<Rightarrow> tray \<Rightarrow> string option \<times> tray" where
  "mint_for_key random now key t = mint random now key t"

definition claim :: "string \<Rightarrow> int \<Rightarrow> tray \<Rightarrow> int option \<times> tray" where
  "claim tok now t =
    (case t tok of
       None \<Rightarrow> (None, t)
     | Some g \<Rightarrow> (if grant_expiry g < now then None else Some (grant_key g), drop_grant tok t))"

interpretation tray_registry: registry "\<lambda>t. t" put_grant drop_grant
  by unfold_locales (simp_all add: put_grant_def drop_grant_def)

subsection \<open>The setup token\<close>

definition hex_digit :: "nat \<Rightarrow> char" where
  "hex_digit d = char_of (if d < 10 then 48 + d else 87 + d)"

definition hex_text :: "string \<Rightarrow> string" where
  "hex_text raw = concat (map (\<lambda>c. [hex_digit (of_char c div 16), hex_digit (of_char c mod 16)]) raw)"

definition token_hex_length :: nat where
  "token_hex_length = 64"

definition read_setup_token :: "string option \<Rightarrow> string \<Rightarrow> files \<Rightarrow> string" where
  "read_setup_token cwd p fs = (case read_file cwd p fs of None \<Rightarrow> '''' | Some raw \<Rightarrow> trim_space raw)"

definition setup_token_for :: "string option \<Rightarrow> io_outcome \<Rightarrow> string \<Rightarrow> string option \<Rightarrow> files \<Rightarrow> string \<times> files" where
  "setup_token_for cwd io p random fs =
    (case clean_abs cwd p of
       Inl e \<Rightarrow> ('''', fs)
     | Inr c \<Rightarrow>
         (let existing = read_setup_token cwd c fs in
          if length existing = token_hex_length then (existing, fs)
          else case random of
            None \<Rightarrow> ('''', fs)
          | Some raw \<Rightarrow>
              (let token = hex_text raw; (ok, trace) = write_file cwd io c token fs
               in (if ok then token else '''', last trace))))"

definition verify_setup_token :: "string option \<Rightarrow> string \<Rightarrow> string \<Rightarrow> files \<Rightarrow> bool" where
  "verify_setup_token cwd p supplied fs =
    (let stored = read_setup_token cwd p fs
     in if stored = '''' \<or> length supplied \<noteq> length stored then False else supplied = stored)"

end
