(* ===== verification/Gate.thy ===== *)
theory Gate
  imports Access Sessions Texts
begin

text \<open>
  The door of the agent: the middleware every protected route passes (\<^verbatim>\<open>internal/auth/middleware.go\<close>)
  and the handlers that open and end sessions and manage keys (\<^verbatim>\<open>internal/server/trayclaim.go\<close>,
  \<^verbatim>\<open>apikeys.go\<close>), over the key store, the sessions, the tray tokens and the log of key names
  whose idle consoles were told to end. The environment holds what one request meets: the clock,
  which writes succeed, and the token validator, a function argument in the code as well.
\<close>

record door =
  key_db :: key_store
  session_db :: sessions
  tray_db :: tray
  consoles_ended :: "string list"

record door_env =
  crypto_of :: crypto
  digest_of :: "string \<Rightarrow> string"
  clock :: int
  keys_writable :: bool
  sessions_writable :: bool
  origin_host :: "string \<Rightarrow> string option"
  token_validator :: "(request \<Rightarrow> scheme \<Rightarrow> string \<Rightarrow> identity option \<times> string option) option"

subsection \<open>The middleware\<close>

definition is_jwt :: "string \<Rightarrow> bool" where
  "is_jwt c \<longleftrightarrow> length (filter (\<lambda>x. x = CHR ''.'') c) = 2 \<and> \<not> has_prefix ''hw_'' c"

definition session_owner :: "door_env \<Rightarrow> string \<Rightarrow> door \<Rightarrow> api_key option" where
  "session_owner env handle d =
    (case key_of_session (digest_of env) handle (session_db d) of
       None \<Rightarrow> None
     | Some i \<Rightarrow> (case get_key i (key_db d) of Inl e \<Rightarrow> None | Inr k \<Rightarrow> if key_active k then Some k else None))"

definition session_identity :: "door_env \<Rightarrow> request \<Rightarrow> string \<Rightarrow> door \<Rightarrow> (answer + identity) \<times> door" where
  "session_identity env r handle d =
    (case session_owner env handle d of
       None \<Rightarrow>
         (Inl (clearing_cookie (unauthorized NoScheme '''' ''The session has ended - sign in again'')),
          d\<lparr>session_db := snd (end_session (digest_of env) (sessions_writable env) handle (session_db d))\<rparr>)
     | Some k \<Rightarrow>
         (case cross_origin (origin_host env) r of
            Some e \<Rightarrow> (Inl (write_msg 403 (''Cross-origin request refused: '' @ e)), d)
          | None \<Rightarrow> (Inr (identity_of k), d)))"

definition token_refusal :: "scheme \<Rightarrow> string option \<Rightarrow> answer" where
  "token_refusal sch err =
    (let code = (case err of Some e \<Rightarrow> if contains_text ''DPoP proof'' e then ''invalid_dpop_proof'' else ''invalid_token''
                 | None \<Rightarrow> ''invalid_token'')
     in unauthorized sch code (opt_default ''Invalid bearer token'' err))"

definition key_identity :: "door_env \<Rightarrow> string \<Rightarrow> door \<Rightarrow> (answer + identity) \<times> door" where
  "key_identity env cred d =
    (case verify_key (crypto_of env) (keys_writable env) (clock env) cred (key_db d) of
       (res, db) \<Rightarrow>
         (case res of
            Inl e \<Rightarrow> Inl (write_msg 500 ''API key validation failed'')
          | Inr None \<Rightarrow> Inl (write_msg 403 ''Invalid API key'')
          | Inr (Some k) \<Rightarrow> Inr (identity_of k), d\<lparr>key_db := db\<rparr>))"

definition credential_identity :: "door_env \<Rightarrow> request \<Rightarrow> scheme \<Rightarrow> string \<Rightarrow> door \<Rightarrow> (answer + identity) \<times> door" where
  "credential_identity env r sch cred d =
    (if sch = SchemeDPoP \<and> \<not> is_jwt cred then
       (Inl (unauthorized SchemeDPoP ''invalid_token'' ''An API key is never key-bound; send it as Bearer or X-API-Key''), d)
     else case token_validator env of
       Some tokens \<Rightarrow>
         (if is_jwt cred then
            (case tokens r sch cred of
               (None, err) \<Rightarrow> (Inl (token_refusal sch err), d)
             | (Some who, _) \<Rightarrow> (Inr who, d))
          else key_identity env cred d)
     | None \<Rightarrow> key_identity env cred d)"

definition admit :: "request \<Rightarrow> (answer + identity) \<times> door \<Rightarrow> answer \<times> door" where
  "admit r res = (case res of (Inl a, d) \<Rightarrow> (a, d) | (Inr who, d) \<Rightarrow> (authorize r who, d))"

definition middleware :: "door_env \<Rightarrow> request \<Rightarrow> door \<Rightarrow> answer \<times> door" where
  "middleware env r d =
    (case credential r of
       Inl ErrAmbiguous \<Rightarrow> (write_msg 400 ''Multiple methods used to include an access token'', d)
     | Inl ErrScheme \<Rightarrow> (unauthorized NoScheme '''' ''Authorization scheme must be Bearer or DPoP'', d)
     | Inr (sch, cred) \<Rightarrow>
         (if cred = '''' then
            (case session_cookie r of
               None \<Rightarrow> (unauthorized NoScheme ''''
                 ''API key required - provide either X-API-Key header or Authorization: Bearer header'', d)
             | Some handle \<Rightarrow>
                 (if handle = '''' then (unauthorized NoScheme ''''
                    ''API key required - provide either X-API-Key header or Authorization: Bearer header'', d)
                  else admit r (session_identity env r handle d)))
          else admit r (credential_identity env r sch cred d)))"

subsection \<open>Sessions: the tray claim, the pasted key, the logout\<close>

datatype cookie = NoCookie | SetCookie string | ClearCookie

datatype reply =
    Problem nat string
  | Invalid "(string \<times> string) list"
  | NoContent cookie
  | Payload obj

definition key_alive :: "key_store \<Rightarrow> int \<Rightarrow> bool" where
  "key_alive db i = (case get_key i db of Inl e \<Rightarrow> False | Inr k \<Rightarrow> key_active k)"

text \<open>\<open>random\<close> is the session handle drawn, if the random source answers.\<close>

definition open_session :: "door_env \<Rightarrow> string option \<Rightarrow> int \<Rightarrow> door \<Rightarrow> reply \<times> door" where
  "open_session env random i d =
    (case create_session (digest_of env) (sessions_writable env) (clock env) random i (key_alive (key_db d)) (session_db d) of
       (None, s) \<Rightarrow> (Problem 500 ''The session could not be opened'', d\<lparr>session_db := s\<rparr>)
     | (Some handle, s) \<Rightarrow> (NoContent (SetCookie handle), d\<lparr>session_db := s\<rparr>))"

definition tray_key_name :: "string option \<Rightarrow> string" where
  "tray_key_name user =
    (case user of
       None \<Rightarrow> ''Tray-Login''
     | Some u \<Rightarrow>
         if u = '''' then ''Tray-Login''
         else if CHR 0x5C \<in> set u then rev (takeWhile (\<lambda>c. c \<noteq> CHR 0x5C) (rev u)) else u)"

definition tray_key_description_prefix :: string where
  "tray_key_description_prefix = ''Created by the tray Open handoff ''"

definition tray_keys_kept :: nat where
  "tray_keys_kept = 5"

record key_config =
  bootstrap_enabled :: bool
  bootstrap_auto_disable :: bool
  bootstrap_require_claim_token :: bool
  hash_rounds :: int

text \<open>The material a new key gets (\<^verbatim>\<open>GenerateKeyString\<close> on the bytes drawn), its unpadded URL-safe base64 written out.\<close>

definition b64_char :: "nat \<Rightarrow> char" where
  "b64_char v = (if v < 26 then char_of (65 + v) else if v < 52 then char_of (71 + v)
     else if v < 62 then char_of (v - 4) else if v = 62 then CHR ''-'' else CHR ''_'')"

fun b64_text :: "nat list \<Rightarrow> string" where
  "b64_text [] = []"
| "b64_text [a] = [b64_char (a div 4), b64_char (a mod 4 * 16)]"
| "b64_text [a, b] = [b64_char (a div 4), b64_char (a mod 4 * 16 + b div 16), b64_char (b mod 16 * 4)]"
| "b64_text (a # b # c # rest) =
     [b64_char (a div 4), b64_char (a mod 4 * 16 + b div 16), b64_char (b mod 16 * 4 + c div 64), b64_char (c mod 64)]
     @ b64_text rest"

definition generate_key_string :: "nat list option \<Rightarrow> string option" where
  "generate_key_string raw = map_option (\<lambda>bytes. ''hw_'' @ b64_text bytes) raw"

definition tray_claim :: "door_env \<Rightarrow> key_config \<Rightarrow> string option \<Rightarrow> string \<Rightarrow> nat list option \<Rightarrow> string option \<Rightarrow> string option \<Rightarrow>
    door \<Rightarrow> reply \<times> door" where
  "tray_claim env cfg user stamp raw random body d =
    (case body of
       None \<Rightarrow> (Problem 400 ''Tray token required'', d)
     | Some token \<Rightarrow>
         (if token = '''' then (Problem 400 ''Tray token required'', d)
          else case claim token (clock env) (tray_db d) of
            (None, t) \<Rightarrow> (Problem 403 ''Invalid or expired tray token'', d\<lparr>tray_db := t\<rparr>)
          | (Some bound, t) \<Rightarrow>
              (let d1 = d\<lparr>tray_db := t\<rparr> in
               if bound \<noteq> 0 then open_session env random bound d1
               else case generate_key_string raw of
                 None \<Rightarrow> (Problem 500 ''Tray login failed'', d1)
               | Some material \<Rightarrow>
                   (case create_key (crypto_of env) (keys_writable env) (clock env) material (tray_key_name user)
                       (tray_key_description_prefix @ stamp) ''admin'' (hash_rounds cfg) (key_db d1) of
                      (Inl e, db) \<Rightarrow> (Problem 500 ''Tray login failed'', d1\<lparr>key_db := db\<rparr>)
                    | (Inr k, db) \<Rightarrow>
                        (let db' = snd (prune_keys (keys_writable env) (clock env) tray_key_description_prefix tray_keys_kept db)
                         in open_session env random (key_id k) (d1\<lparr>key_db := db'\<rparr>))))))"

definition paste_session :: "door_env \<Rightarrow> string option \<Rightarrow> string option \<Rightarrow> door \<Rightarrow> reply \<times> door" where
  "paste_session env random body d =
    (case body of
       None \<Rightarrow> (Problem 400 ''API key required'', d)
     | Some key \<Rightarrow>
         (if key = '''' then (Problem 400 ''API key required'', d)
          else case verify_key (crypto_of env) (keys_writable env) (clock env) key (key_db d) of
            (Inl e, db) \<Rightarrow> (Problem 500 ''API key validation failed'', d\<lparr>key_db := db\<rparr>)
          | (Inr None, db) \<Rightarrow> (Problem 401 ''Unknown or revoked API key'', d\<lparr>key_db := db\<rparr>)
          | (Inr (Some k), db) \<Rightarrow> open_session env random (key_id k) (d\<lparr>key_db := db\<rparr>)))"

definition logout :: "door_env \<Rightarrow> request \<Rightarrow> identity \<Rightarrow> door \<Rightarrow> reply \<times> door" where
  "logout env r who d =
    (let db = (case session_cookie r of
                 None \<Rightarrow> session_db d
               | Some handle \<Rightarrow>
                   if handle = '''' then session_db d
                   else snd (end_session (digest_of env) (sessions_writable env) handle (session_db d)))
     in (NoContent ClearCookie, d\<lparr>session_db := db, consoles_ended := consoles_ended d @ [id_name who]\<rparr>))"

subsection \<open>Key management\<close>

record bootstrap_body =
  b_name :: string
  b_description :: string
  b_setup_token :: string

definition bootstrap :: "door_env \<Rightarrow> key_config \<Rightarrow> (string \<Rightarrow> bool) \<Rightarrow> nat list option \<Rightarrow> bootstrap_body option \<Rightarrow>
    door \<Rightarrow> reply \<times> door" where
  "bootstrap env cfg claim_ok raw body d =
    (if \<not> bootstrap_enabled cfg then (Problem 403 ''Bootstrap endpoint is disabled'', d)
     else if 0 < count_keys (key_db d) \<and> bootstrap_auto_disable cfg then
       (Problem 403 ''Bootstrap endpoint auto-disabled after first use'', d)
     else case body of
       None \<Rightarrow> (Problem 400 ''Invalid JSON body'', d)
     | Some b \<Rightarrow>
         (if bootstrap_require_claim_token cfg \<and> \<not> claim_ok (b_setup_token b) then
            (Problem 403 ''Invalid or missing setup token. Read it from the agent host (setup.token beside the config file, or the startup log) and send it as setup_token.'', d)
          else case generate_key_string raw of
            None \<Rightarrow> (Problem 500 ''Bootstrap failed'', d)
          | Some material \<Rightarrow>
              (let name = (if b_name b = '''' then ''Bootstrap-Key'' else b_name b);
                   description = (if b_description b = '''' then ''Initial bootstrap API key'' else b_description b)
               in case create_key (crypto_of env) (keys_writable env) (clock env) material name description ''admin''
                    (hash_rounds cfg) (key_db d) of
                    (Inl e, db) \<Rightarrow> (Problem 500 ''Bootstrap failed'', d\<lparr>key_db := db\<rparr>)
                  | (Inr k, db) \<Rightarrow>
                      (Payload [(''api_key'', JStr material),
                         (''message'', JStr ''Bootstrap API key generated successfully''),
                         (''note'', JStr (if bootstrap_auto_disable cfg
                            then ''Bootstrap endpoint will be auto-disabled for future requests''
                            else ''Bootstrap endpoint remains enabled per configuration''))],
                       d\<lparr>key_db := db\<rparr>))))"

record generate_body =
  g_name :: string
  g_description :: string
  g_role :: string

definition generate_failures :: "generate_body \<Rightarrow> (string \<times> string) list" where
  "generate_failures b =
    (if g_name b = '''' then [(''/name'', ''required'')] else [])
    @ (if role_valid (if g_role b = '''' then ''admin'' else g_role b) then [] else [(''/role'', ''enum'')])"

definition generate_key :: "door_env \<Rightarrow> key_config \<Rightarrow> nat list option \<Rightarrow> generate_body option \<Rightarrow> door \<Rightarrow> reply \<times> door" where
  "generate_key env cfg raw body d =
    (case body of
       None \<Rightarrow> (Problem 400 '''', d)
     | Some b \<Rightarrow>
         (let role = (if g_role b = '''' then ''admin'' else g_role b) in
          if generate_failures b \<noteq> [] then (Invalid (generate_failures b), d)
          else case generate_key_string raw of
            None \<Rightarrow> (Problem 500 ''Failed to generate API key'', d)
          | Some material \<Rightarrow>
              (case create_key (crypto_of env) (keys_writable env) (clock env) material (g_name b) (g_description b) role
                  (hash_rounds cfg) (key_db d) of
                 (Inl e, db) \<Rightarrow> (Problem 500 ''Failed to generate API key'', d\<lparr>key_db := db\<rparr>)
               | (Inr k, db) \<Rightarrow>
                   (Payload [(''api_key'', JStr material), (''entity_id'', JInt (key_id k)), (''name'', JStr (key_name k)),
                      (''description'', JStr (key_description k)), (''role'', JStr (key_role k)),
                      (''message'', JStr ''API key generated successfully'')],
                    d\<lparr>key_db := db\<rparr>))))"

definition entity_json :: "(int \<Rightarrow> json) \<Rightarrow> api_key \<Rightarrow> json" where
  "entity_json time k = JObj [(''id'', JInt (key_id k)), (''name'', JStr (key_name k)),
     (''description'', JStr (key_description k)), (''role'', JStr (key_role k)), (''is_active'', JBool (key_active k)),
     (''created_at'', time (key_created k)), (''last_used'', time (key_last_used k))]"

definition list_keys_reply :: "(int \<Rightarrow> json) \<Rightarrow> door \<Rightarrow> reply" where
  "list_keys_reply time d = Payload [(''entities'', JArr (map (entity_json time) (list_keys (key_db d)))),
     (''total'', JInt (int (length (list_keys (key_db d)))))]"

text \<open>The federated identity of a key (email, customer, subject) is the OIDC component's, an argument.\<close>

definition key_info :: "(int \<Rightarrow> json) \<Rightarrow> string \<Rightarrow> (int \<Rightarrow> (string \<times> string \<times> string) option) \<Rightarrow> identity option \<Rightarrow> door \<Rightarrow> reply" where
  "key_info time issuer sso who d =
    (case who of
       None \<Rightarrow> Problem 401 ''API key required''
     | Some i \<Rightarrow>
         (case get_key (id_key i) (key_db d) of
            Inl e \<Rightarrow> Problem 404 ''Entity not found''
          | Inr k \<Rightarrow>
              Payload ([(''id'', JInt (key_id k)), (''name'', JStr (key_name k)), (''description'', JStr (key_description k)),
                 (''role'', JStr (key_role k)), (''created_at'', time (key_created k)), (''last_used'', time (key_last_used k))]
                @ filter (\<lambda>(n, v). v \<noteq> JStr '''')
                    (case sso (key_id k) of
                       None \<Rightarrow> []
                     | Some (email, customer, subject) \<Rightarrow>
                         [(''auth_provider'', JStr ''oidc''), (''email'', JStr email), (''customer_id'', JStr customer),
                          (''issuer'', JStr issuer), (''subject'', JStr subject)]))))"

text \<open>U+2014 in UTF-8.\<close>

definition key_gone :: "string \<Rightarrow> string \<Rightarrow> string \<Rightarrow> (key_error + api_key) \<times> key_store \<Rightarrow> string \<Rightarrow> door \<Rightarrow> reply \<times> door" where
  "key_gone conflict failed success res id_text d =
    (case res of
       (Inl KeyNotFound, db) \<Rightarrow> (Problem 404 ''API key not found'', d\<lparr>key_db := db\<rparr>)
     | (Inl LastAdmin, db) \<Rightarrow> (Problem 409 conflict, d\<lparr>key_db := db\<rparr>)
     | (Inl e, db) \<Rightarrow> (Problem 500 failed, d\<lparr>key_db := db\<rparr>)
     | (Inr k, db) \<Rightarrow>
         (Payload [(''message'', JStr success), (''entity_id'', JStr id_text), (''name'', JStr (key_name k))],
          d\<lparr>key_db := db, consoles_ended := consoles_ended d @ [key_name k]\<rparr>))"

definition delete_key_reply :: "door_env \<Rightarrow> string \<Rightarrow> door \<Rightarrow> reply \<times> door" where
  "delete_key_reply env id_text d =
    (case parse_int64 id_text of
       None \<Rightarrow> (Problem 404 ''API key not found'', d)
     | Some i \<Rightarrow>
         key_gone (''Cannot delete the last active admin API key '' @ em_dash @ '' create another admin key first'')
           ''Failed to delete API key'' ''API key deleted successfully''
           (delete_key (keys_writable env) (clock env) i (key_db d)) id_text d)"

definition revoke_key_reply :: "door_env \<Rightarrow> string \<Rightarrow> door \<Rightarrow> reply \<times> door" where
  "revoke_key_reply env id_text d =
    (case parse_int64 id_text of
       None \<Rightarrow> (Problem 404 ''API key not found'', d)
     | Some i \<Rightarrow>
         key_gone (''Cannot revoke the last active admin API key '' @ em_dash @ '' create another admin key first'')
           ''Failed to revoke API key'' ''API key revoked successfully''
           (revoke_key (keys_writable env) (clock env) i (key_db d)) id_text d)"

text \<open>A route behind the middleware.\<close>

definition protected :: "door_env \<Rightarrow> request \<Rightarrow> (identity \<Rightarrow> door \<Rightarrow> reply \<times> door) \<Rightarrow> door \<Rightarrow> (answer + reply) \<times> door" where
  "protected env r handler d =
    (case middleware env r d of
       (Served who, d') \<Rightarrow> (case handler who d' of (rep, d2) \<Rightarrow> (Inr rep, d2))
     | (refusal, d') \<Rightarrow> (Inl refusal, d'))"

end
