(* ===== verification/GateLaws.thy ===== *)
theory GateLaws
  imports Gate KeyLaws
begin

text \<open>
  Facts about the door: which way an identity came, what the prefix lists have in common, what the
  handlers leave of the key store, and texts that trimming does not change.
\<close>

subsection \<open>Prefixes\<close>

lemma has_prefix_take: "has_prefix p s \<Longrightarrow> n \<le> length p \<Longrightarrow> take n s = take n p"
  unfolding has_prefix_def by (metis min.absorb1 take_take)

lemma under_take: "under_prefix s ps \<Longrightarrow> \<exists>p\<in>set ps. \<forall>n\<le>length p. take n s = take n p"
proof -
  assume "under_prefix s ps"
  then obtain p where "p \<in> set ps" and "s = p \<or> has_prefix (p @ ''/'') s" by (auto simp: under_prefix_def list_ex_iff)
  then show ?thesis using has_prefix_take [of "p @ ''/''" s] by (auto intro!: bexI [of _ p])
qed

lemma user_not_admin:
  assumes "under_prefix s [''/api/user'']"
  shows "\<not> under_prefix s admin_always_prefixes" and "\<not> under_prefix s admin_write_prefixes"
proof -
  have u: "take 9 s = ''/api/user''" using under_take [OF assms] by simp
  show "\<not> under_prefix s admin_always_prefixes"
  proof
    assume "under_prefix s admin_always_prefixes"
    then obtain p where p: "p \<in> set admin_always_prefixes" "\<forall>n\<le>length p. take n s = take n p" using under_take by blast
    then have "take 9 s = take 9 p" by (auto simp: admin_always_prefixes_def)
    then show False using u p(1) by (auto simp: admin_always_prefixes_def)
  qed
  show "\<not> under_prefix s admin_write_prefixes"
  proof
    assume "under_prefix s admin_write_prefixes"
    then obtain p where p: "p \<in> set admin_write_prefixes" "\<forall>n\<le>length p. take n s = take n p" using under_take by blast
    then have "take 8 s = take 8 p" by (auto simp: admin_write_prefixes_def)
    moreover have "take 8 s = ''/api/use''" using arg_cong [OF u, of "take 8"] by simp
    ultimately show False using p(1) by (auto simp: admin_write_prefixes_def)
  qed
qed

subsection \<open>Where an identity comes from\<close>

lemma admit_served: "admit r res = (Served who, d') \<Longrightarrow>
    res = (Inr who, d') \<and> role_level (required_role (req_method r) (req_path r)) \<le> role_level (id_role who)"
  if "\<forall>a. fst res = Inl a \<longrightarrow> \<not> (\<exists>w. a = Served w)"
  using that by (auto simp: admit_def authorize_def write_msg_def Let_def split: prod.splits sum.splits if_splits)

lemma session_refusals: "fst (session_identity env r h d) = Inl a \<Longrightarrow> \<not> (\<exists>w. a = Served w)"
  by (auto simp: session_identity_def write_msg_def unauthorized_def split: option.splits)

lemma key_refusals: "fst (key_identity env cred d) = Inl a \<Longrightarrow> \<not> (\<exists>w. a = Served w)"
  by (auto simp: key_identity_def write_msg_def split: option.splits prod.splits sum.splits)

lemma credential_refusals: "fst (credential_identity env r sch cred d) = Inl a \<Longrightarrow> \<not> (\<exists>w. a = Served w)"
  using key_refusals [of env cred d a]
  by (auto simp: credential_identity_def token_refusal_def unauthorized_def Let_def split: option.splits prod.splits if_splits)

lemma key_identity_Inr:
  "key_identity env cred d = (Inr who, d') \<Longrightarrow>
    \<exists>k. fst (verify_key (crypto_of env) (keys_writable env) (clock env) cred (key_db d)) = Inr (Some k) \<and> who = identity_of k"
  by (auto simp: key_identity_def split: prod.splits sum.splits option.splits)

lemma session_identity_Inr:
  "session_identity env r h d = (Inr who, d') \<Longrightarrow>
    \<exists>k. session_owner env h d = Some k \<and> who = identity_of k \<and> cross_origin (origin_host env) r = None"
  by (auto simp: session_identity_def split: option.splits)

lemma credential_identity_Inr:
  "credential_identity env r sch cred d = (Inr who, d') \<Longrightarrow>
    (\<exists>k. fst (verify_key (crypto_of env) (keys_writable env) (clock env) cred (key_db d)) = Inr (Some k) \<and> who = identity_of k)
    \<or> (\<exists>tokens err. token_validator env = Some tokens \<and> is_jwt cred \<and> tokens r sch cred = (Some who, err))"
  using key_identity_Inr [of env cred d who d']
  by (auto simp: credential_identity_def split: option.splits prod.splits if_splits)

lemma verified_live:
  assumes "ids_ok s" and "cache_ok cr s" and "\<forall>a b. sha256 cr a = sha256 cr b \<longrightarrow> a = b"
    and "fst (verify_key cr w now m s) = Inr (Some k)"
  shows "\<exists>live\<in>set (keys s). key_active live \<and> bcrypt_ok cr (key_hash live) (truncate_for_bcrypt m)
    \<and> identity_of k = identity_of live"
proof (cases "verify_cached cr w now m s")
  case (Pair a s')
  show ?thesis
  proof (cases a)
    case (Inl r)
    then show ?thesis
      using assms(4) Pair cached_answer [OF _ assms(2,3), of w now m k s'] by (auto simp: verify_key_def identity_of_def)
  next
    case (Inr active)
    then have snap: "active = filter key_active (keys s)" "keys s' = keys s"
      using scan_is_snapshot [of cr w now m s active s'] Pair by simp_all
    moreover have "ids_ok s'" using quiet_ids [OF quiet_cached [OF assms(1), of cr w now m]] Pair by simp
    ultimately have "scan_ok s' active" using fresh_scan [of s'] by simp
    moreover obtain t where "verify_confirm cr w now m (verify_scan cr m active) s' = (Inr (Some k), t)"
      using assms(4) Pair Inr by (cases "verify_confirm cr w now m (verify_scan cr m active) s'") (simp add: verify_key_def)
    ultimately show ?thesis using confirmed_answer [of cr w now m active s' k t] snap(2) by (auto simp: identity_of_def)
  qed
qed

subsection \<open>Roles in the vocabulary\<close>

definition roles_ok :: "key_store \<Rightarrow> bool" where
  "roles_ok s \<longleftrightarrow> list_all (\<lambda>k. role_valid (key_role k)) (keys s)"

lemma roles_persist: "persist_keys w now s = Some t \<Longrightarrow> roles_ok t = roles_ok s"
  by (auto simp: persist_keys_def roles_ok_def split: if_splits)

lemma roles_update: "roles_ok s \<Longrightarrow> (\<And>k. key_role (f k) = key_role k) \<Longrightarrow> roles_ok (update_key i f s)"
proof -
  assume "roles_ok s" and f: "\<And>k. key_role (f k) = key_role k"
  moreover have "map key_role (update_first i f ks) = map key_role ks" for ks by (rule map_update_first) (rule f)
  ultimately have "list_all role_valid (map key_role (update_first i f (keys s)))"
    by (simp add: roles_ok_def list_all_iff)
  then show ?thesis by (simp add: roles_ok_def update_key_def list_all_iff)
qed

lemma roles_create: "roles_ok s \<Longrightarrow> role_valid r \<Longrightarrow> roles_ok (snd (create_key cr w now m n d r rounds s))"
  by (simp add: create_key_def Let_def persist_keys_def roles_ok_def split: option.split)

lemma roles_use: "roles_ok s \<Longrightarrow> roles_ok (snd (record_use w now i s))"
  using roles_update [of s "\<lambda>k. k\<lparr>key_last_used := now\<rparr>" i] by (auto simp: record_use_def Let_def persist_keys_def roles_ok_def)

lemma roles_verified [simp]: "roles_ok (s\<lparr>verified := v\<rparr>) = roles_ok s"
  by (simp add: roles_ok_def)

lemma roles_verify: "roles_ok s \<Longrightarrow> roles_ok (snd (verify_key cr w now m s))"
proof -
  assume s: "roles_ok s"
  have conf: "roles_ok (snd (verify_confirm cr w now m h t))" if "roles_ok t" for h t
    using that by (auto simp: verify_confirm_def intro!: roles_use split: option.split)
  have "roles_ok (snd (verify_cached cr w now m s))"
    using roles_use [OF s, of w now] s
    by (simp add: verify_cached_def Let_def split: option.split prod.split) (metis snd_conv)
  then show ?thesis using conf
    by (auto simp: verify_key_def split: prod.split sum.split)
qed

lemma roles_drop [simp]: "roles_ok (drop_verified i s) = roles_ok s"
  by (simp add: roles_ok_def)

lemma roles_fold_drop [simp]: "roles_ok (fold drop_verified is' s) = roles_ok s"
  by (simp add: roles_ok_def)

lemma roles_filter: "roles_ok s \<Longrightarrow> roles_ok (s\<lparr>keys := filter P (keys s)\<rparr>)"
  by (auto simp: roles_ok_def list_all_iff)

lemma roles_delete: "roles_ok s \<Longrightarrow> roles_ok (snd (delete_key w now i s))"
  by (auto simp: delete_key_def Let_def persist_keys_def roles_filter roles_ok_def list_all_iff split: option.split)

lemma roles_revoke: "roles_ok s \<Longrightarrow> roles_ok (snd (revoke_key w now i s))"
  using roles_update [of s "\<lambda>k. k\<lparr>key_active := False\<rparr>" i]
    roles_update [of "drop_verified i (update_key i (\<lambda>k. k\<lparr>key_active := False\<rparr>) s)" "\<lambda>k. k\<lparr>key_active := True\<rparr>" i]
  by (auto simp: revoke_key_def Let_def persist_keys_def split: option.split) (simp_all add: roles_ok_def)

lemma roles_prune: "roles_ok s \<Longrightarrow> roles_ok (snd (prune_keys w now p n s))"
  by (auto simp: prune_keys_def Let_def persist_keys_def roles_ok_def list_all_iff)

subsection \<open>Texts of hexadecimal digits\<close>

lemma hex_plain: "list_all plain_char (hex_text raw)"
proof -
  have "plain_char (hex_digit d)" if "d < 16" for d
    using that by (auto simp: plain_char_def hex_digit_def)
  moreover have "(of_char c :: nat) div 16 < 16" for c :: char
    using nat_of_char_less_256 [of c] by (simp add: less_mult_imp_div_less)
  ultimately show ?thesis by (induction raw) (auto simp: hex_text_def)
qed

lemma hex_length: "length (hex_text raw) = 2 * length raw"
  by (induction raw) (simp_all add: hex_text_def)

subsection \<open>What the door does to the key store\<close>

lemma admit_door [simp]: "snd (admit r res) = snd res"
  by (simp add: admit_def split: prod.split sum.split)

lemma session_identity_keys [simp]: "key_db (snd (session_identity env r h d)) = key_db d"
  by (simp add: session_identity_def split: option.split)

lemma key_identity_keys [simp]:
  "key_db (snd (key_identity env cred d)) = snd (verify_key (crypto_of env) (keys_writable env) (clock env) cred (key_db d))"
  by (simp add: key_identity_def split: prod.split)

lemma open_session_keys [simp]: "key_db (snd (open_session env random i d)) = key_db d"
  by (simp add: open_session_def split: prod.split option.split)

lemma roles_key_identity: "roles_ok (key_db d) \<Longrightarrow> roles_ok (key_db (snd (key_identity env cred d)))"
  by (simp add: roles_verify)

lemma roles_credential: "roles_ok (key_db d) \<Longrightarrow> roles_ok (key_db (snd (credential_identity env r sch cred d)))"
  using roles_key_identity [of d env cred] by (simp add: credential_identity_def split: option.split prod.split)

lemma roles_middleware: "roles_ok (key_db d) \<Longrightarrow> roles_ok (key_db (snd (middleware env r d)))"
  using roles_credential [of d env r]
  by (simp add: middleware_def split: sum.split credential_error.split prod.split option.split)

lemma roles_created:
  assumes "roles_ok s" and "role_valid r" and "create_key cr w now m n d r rounds s = (res, db)"
  shows "roles_ok db"
  using roles_create [OF assms(1,2), of cr w now m n d rounds] assms(3) by simp

lemma roles_tray_claim: "roles_ok (key_db d) \<Longrightarrow> roles_ok (key_db (snd (tray_claim env cfg user stamp raw random body d)))"
proof -
  assume d: "roles_ok (key_db d)"
  have admin: "role_valid ''admin''" by (simp add: role_valid_def valid_roles_def)
  have failed: "roles_ok db" if "create_key cr w' now' m n ds ''admin'' rounds (key_db d) = (res, db)"
    for db cr w' now' m n ds rounds res
    using roles_created [OF d admin that] .
  show ?thesis
    unfolding tray_claim_def Let_def
    by (simp add: d split: option.split prod.split sum.split) (use d in \<open>auto intro: roles_prune failed\<close>)
qed

lemma roles_paste: "roles_ok (key_db d) \<Longrightarrow> roles_ok (key_db (snd (paste_session env random pasted d)))"
proof -
  assume "roles_ok (key_db d)"
  then have "verify_key cr w now m (key_db d) = (res, db) \<Longrightarrow> roles_ok db" for cr w now m res db
    using roles_verify [of "key_db d" cr w now m] by simp
  then show ?thesis using \<open>roles_ok (key_db d)\<close>
    by (auto simp: paste_session_def split: option.split prod.split sum.split)
qed

lemma split_if_roles:
  "(c \<Longrightarrow> roles_ok (key_db (snd a))) \<Longrightarrow> (\<not> c \<Longrightarrow> roles_ok (key_db (snd b))) \<Longrightarrow> roles_ok (key_db (snd (if c then a else b)))"
  by simp

lemma split_option_roles:
  "roles_ok (key_db (snd a)) \<Longrightarrow> (\<And>y. x = Some y \<Longrightarrow> roles_ok (key_db (snd (f y)))) \<Longrightarrow>
    roles_ok (key_db (snd (case x of None \<Rightarrow> a | Some y \<Rightarrow> f y)))"
  by (cases x) simp_all

lemma roles_bootstrap: "roles_ok (key_db d) \<Longrightarrow> roles_ok (key_db (snd (bootstrap env cfg claim_ok raw body d)))"
proof -
  assume d: "roles_ok (key_db d)"
  have admin: "role_valid ''admin''" by (simp add: role_valid_def valid_roles_def)
  have stored: "roles_ok (key_db (snd (case create_key cr w now m n ds ''admin'' rounds (key_db d) of
      (Inl e, db) \<Rightarrow> (a, d\<lparr>key_db := db\<rparr>) | (Inr k, db) \<Rightarrow> (b, d\<lparr>key_db := db\<rparr>))))" for cr w now m n ds rounds a b
    using roles_create [OF d admin, of cr w now m n ds rounds]
    by (cases "create_key cr w now m n ds ''admin'' rounds (key_db d)") (simp split: sum.split)
  show ?thesis
    unfolding bootstrap_def Let_def by (intro split_if_roles split_option_roles stored; simp add: d)
qed

lemma roles_generate: "roles_ok (key_db d) \<Longrightarrow> roles_ok (key_db (snd (generate_key env cfg raw body d)))"
proof -
  assume d: "roles_ok (key_db d)"
  have failed: "roles_ok db"
    if "role_valid r" and "create_key cr w' now' m n ds r rounds (key_db d) = (res, db)"
    for db cr w' now' m n ds r rounds res
    using roles_created [OF d that] .
  have valid: "role_valid (if g_role b = '''' then ''admin'' else g_role b)" if "generate_failures b = []" for b
    using that by (auto simp: generate_failures_def split: if_splits)
  show ?thesis
    unfolding generate_key_def Let_def
    by (simp add: d split: option.split prod.split sum.split del: if_split) (use d in \<open>auto intro: failed [OF valid]\<close>)
qed

lemma roles_gone: "roles_ok (snd res) \<Longrightarrow> roles_ok (key_db (snd (key_gone a b c res i d)))"
  by (auto simp: key_gone_def split: prod.split sum.split key_error.split)

lemma roles_removals:
  assumes "roles_ok (key_db d)"
  shows "roles_ok (key_db (snd (delete_key_reply env i d)))" and "roles_ok (key_db (snd (revoke_key_reply env i d)))"
  using assms roles_delete roles_revoke
  by (auto simp: delete_key_reply_def revoke_key_reply_def split: option.split intro!: roles_gone)

end
