(* ===== verification/GateProps.thy ===== *)
theory GateProps
  imports GateLaws SafePathLaws KeyProps
begin

text \<open>
  The properties of the door: who is served, what the role policy asks for, how sessions and
  one-time tokens end, when a first key is handed out, and the roles and keys the handlers leave.
\<close>

abbreviation plain_env :: door_env where
  "plain_env \<equiv> \<lparr>crypto_of = plain_crypto, digest_of = (\<lambda>h. h), clock = 5, keys_writable = True,
     sessions_writable = True, origin_host = (\<lambda>_. None), token_validator = None\<rparr>"

abbreviation get_request :: "string \<Rightarrow> string \<Rightarrow> string option \<Rightarrow> request" where
  "get_request path key session \<equiv> \<lparr>req_method = ''GET'', req_path = path, api_key_header = key, authorization = [],
     session_cookie = session, fetch_site = '''', origin = '''', req_host = ''localhost''\<rparr>"

abbreviation door_of :: "key_store \<Rightarrow> sessions \<Rightarrow> door" where
  "door_of ks ss \<equiv> \<lparr>key_db = ks, session_db = ss, tray_db = (\<lambda>_. None), consoles_ended = []\<rparr>"

abbreviation session_of :: "string \<Rightarrow> int \<Rightarrow> sessions" where
  "session_of h i \<equiv> \<lparr>entries = [h \<mapsto> \<lparr>session_key = i, session_created = 0\<rparr>],
     session_file = Some [h \<mapsto> \<lparr>session_key = i, session_created = 0\<rparr>]\<rparr>"

subsection \<open>The middleware\<close>

text \<open>C3: A request reaches its handler only with a role at least the one its method and path require,
  and its identity is that of an active key whose hash the credential passes, or of the active key
  of a live session on a request that is not cross-origin, or one the token validator answered.\<close>
theorem served_only_if_entitled:
  assumes "middleware env r d = (Served who, d')"
    and "ids_ok (key_db d)" and "cache_ok (crypto_of env) (key_db d)"
    and "\<forall>a b. sha256 (crypto_of env) a = sha256 (crypto_of env) b \<longrightarrow> a = b"
  shows "role_level (required_role (req_method r) (req_path r)) \<le> role_level (id_role who) \<and>
    ((\<exists>sch cred. credential r = Inr (sch, cred) \<and>
        (\<exists>k\<in>set (keys (key_db d)). key_active k \<and> who = identity_of k
           \<and> bcrypt_ok (crypto_of env) (key_hash k) (truncate_for_bcrypt cred)))
     \<or> (\<exists>handle. session_cookie r = Some handle \<and> cross_origin (origin_host env) r = None \<and>
        (\<exists>k\<in>set (keys (key_db d)). key_active k \<and> who = identity_of k
           \<and> key_of_session (digest_of env) handle (session_db d) = Some (key_id k)))
     \<or> (\<exists>tokens sch cred err. token_validator env = Some tokens \<and> credential r = Inr (sch, cred) \<and> is_jwt cred
        \<and> tokens r sch cred = (Some who, err)))"
proof -
  obtain sch cred where c: "credential r = Inr (sch, cred)"
    using assms(1) by (auto simp: middleware_def write_msg_def unauthorized_def split: sum.splits credential_error.splits)
  show ?thesis
  proof (cases "cred = ''''")
    case True
    then obtain handle where h: "session_cookie r = Some handle"
      and a: "admit r (session_identity env r handle d) = (Served who, d')"
      using assms(1) c by (auto simp: middleware_def unauthorized_def split: option.splits if_splits)
    have ad: "session_identity env r handle d = (Inr who, d')"
      "role_level (required_role (req_method r) (req_path r)) \<le> role_level (id_role who)"
      using admit_served [OF _ a] session_refusals by auto
    obtain k where k: "session_owner env handle d = Some k" "who = identity_of k" "cross_origin (origin_host env) r = None"
      using session_identity_Inr [OF ad(1)] by blast
    then have "k \<in> set (keys (key_db d))" "key_active k" "key_of_session (digest_of env) handle (session_db d) = Some (key_id k)"
      by (auto simp: session_owner_def get_key_def dest: find_key_Some split: option.splits sum.splits if_splits)
    then show ?thesis using ad(2) h k by blast
  next
    case False
    then have a: "admit r (credential_identity env r sch cred d) = (Served who, d')"
      using assms(1) c by (simp add: middleware_def)
    have ad: "credential_identity env r sch cred d = (Inr who, d')"
      "role_level (required_role (req_method r) (req_path r)) \<le> role_level (id_role who)"
      using admit_served [OF _ a] credential_refusals by auto
    from credential_identity_Inr [OF ad(1)] show ?thesis
    proof
      assume "\<exists>k. fst (verify_key (crypto_of env) (keys_writable env) (clock env) cred (key_db d)) = Inr (Some k) \<and> who = identity_of k"
      then show ?thesis using verified_live [OF assms(2-4)] ad(2) c by metis
    next
      assume "\<exists>tokens err. token_validator env = Some tokens \<and> is_jwt cred \<and> tokens r sch cred = (Some who, err)"
      then show ?thesis using ad(2) c by blast
    qed
  qed
qed

theorem served_only_if_entitled_witness:
  "role_level (required_role ''GET'' ''/api/api-keys'') \<le> role_level ''admin''"
proof -
  let ?d = "door_of (store_of 2 [admin_key 1 ''hw_a'']) (session_of ''h'' 1)"
  let ?r = "get_request ''/api/api-keys'' '''' (Some ''h'')"
  have "middleware plain_env ?r ?d = (Served (identity_of (admin_key 1 ''hw_a'')), ?d)"
    by (simp add: middleware_def credential_def session_identity_def session_owner_def key_of_session_def get_key_def
        find_key_def cross_origin_def admit_def authorize_def identity_of_def role_level_def Let_def)
  moreover have "ids_ok (key_db ?d)" "cache_ok (crypto_of plain_env) (key_db ?d)" by (simp_all add: ids_ok_def cache_ok_def)
  moreover have "\<forall>a b. sha256 (crypto_of plain_env) a = sha256 (crypto_of plain_env) b \<longrightarrow> a = b" by simp
  ultimately have "role_level (required_role (req_method ?r) (req_path ?r)) \<le> role_level (id_role (identity_of (admin_key 1 ''hw_a'')))"
    by (rule served_only_if_entitled [THEN conjunct1])
  then show ?thesis by (simp add: identity_of_def)
qed

text \<open>The policy: every method other than GET and HEAD needs at least an operator except on the caller's
  own surfaces; keys, configuration and terminal need an admin for every method (the caller's own key
  info apart); and the mutation of the listed system surfaces needs an admin.\<close>
theorem role_policy:
  "(m \<notin> {''GET'', ''HEAD''} \<and> path \<notin> {''/api/api-keys/info'', ''/api/auth/logout''} \<and> \<not> under_prefix path [''/api/user'']
      \<longrightarrow> 2 \<le> role_level (required_role m path))
   \<and> (under_prefix path admin_always_prefixes \<and> path \<noteq> ''/api/api-keys/info'' \<longrightarrow> required_role m path = ''admin'')
   \<and> (under_prefix path admin_write_prefixes \<and> m \<notin> {''GET'', ''HEAD''} \<longrightarrow> required_role m path = ''admin'')"
proof -
  have logout: "\<not> under_prefix ''/api/auth/logout'' admin_always_prefixes" "\<not> under_prefix ''/api/auth/logout'' admin_write_prefixes"
    "\<not> under_prefix ''/api/api-keys/info'' admin_write_prefixes" "\<not> under_prefix ''/api/ws-ticket'' admin_write_prefixes"
    by code_simp+
  have fs: "\<not> under_prefix path admin_write_prefixes" if "under_prefix path [''/api/filesystem'']"
  proof
    assume "under_prefix path admin_write_prefixes"
    then obtain p where p: "p \<in> set admin_write_prefixes" "\<forall>n\<le>length p. take n path = take n p" using under_take by blast
    moreover have "take 7 path = ''/api/fi''" using under_take [OF that] by simp
    ultimately show False by (auto simp: admin_write_prefixes_def)
  qed
  show ?thesis
    using logout fs user_not_admin [of path] by (auto simp: required_role_def role_level_def)
qed

theorem role_policy_witness: "required_role ''GET'' ''/api/config/web'' = ''admin''"
proof -
  have "under_prefix ''/api/config/web'' admin_always_prefixes" by code_simp
  then show ?thesis using role_policy [of "''GET''" "''/api/config/web''"] by simp
qed

text \<open>A session of a key that has been revoked or deleted is refused with 401, its cookie is cleared
  and the session is forgotten; the handle opens nothing any more.\<close>
theorem gone_key_ends_session:
  assumes "key_of_session (digest_of env) handle (session_db d) = Some i"
    and "fst (revoke_key w now i s) = Inr k \<and> key_db d = snd (revoke_key w now i s)
      \<or> fst (delete_key w now i s) = Inr k \<and> key_db d = snd (delete_key w now i s)"
    and "credential r = Inr (sch, '''')" and "session_cookie r = Some handle" and "handle \<noteq> ''''"
  shows "(\<exists>ch msg. fst (middleware env r d) = Refused 401 ch msg True)
    \<and> key_of_session (digest_of env) handle (session_db (snd (middleware env r d))) = None"
proof -
  have inactive: "\<forall>x. find_key (key_db d) i = Some x \<longrightarrow> \<not> key_active x"
    using assms(2) revoked_inactive [of w now i s k] deleted_gone [of w now i s k] by auto
  then have "session_owner env handle d = None"
    using assms(1) by (auto simp: session_owner_def get_key_def split: option.splits)
  then show ?thesis
    using assms(1,3-5)
    by (auto simp: middleware_def session_identity_def admit_def unauthorized_def end_session_def persist_sessions_def
        key_of_session_def drop_session_def split: option.splits)
qed

theorem gone_key_ends_session_witness:
  "\<exists>ch msg. fst (middleware plain_env (get_request ''/api/machines'' '''' (Some ''h''))
      (door_of (snd (delete_key True 5 2 (store_of 3 [admin_key 1 ''a'', admin_key 2 ''b'']))) (session_of ''h'' 2)))
    = Refused 401 ch msg True"
proof -
  let ?s = "store_of 3 [admin_key 1 ''a'', admin_key 2 ''b'']"
  let ?d = "door_of (snd (delete_key True 5 2 ?s)) (session_of ''h'' 2)"
  have "key_of_session (digest_of plain_env) ''h'' (session_db ?d) = Some 2" by (simp add: key_of_session_def)
  moreover have "fst (delete_key True 5 2 ?s) = Inr (admin_key 2 ''b'')"
    by (simp add: delete_key_def find_key_def is_last_active_admin_def persist_keys_def Let_def)
  moreover have "credential (get_request ''/api/machines'' '''' (Some ''h'')) = Inr (NoScheme, '''')" by (simp add: credential_def)
  ultimately show ?thesis
    using gone_key_ends_session [of plain_env "''h''" ?d 2 True 5 ?s "admin_key 2 ''b''"
      "get_request ''/api/machines'' '''' (Some ''h'')" NoScheme] by simp
qed

subsection \<open>Sessions and one-time tokens\<close>

text \<open>Ending a session whose file cannot be written reports the failure, but a second attempt answers
  success without writing: the handle opens nothing in this process while the file keeps it, and
  after a restart the signed-out handle opens its session again.\<close>
theorem ended_session_returns:
  assumes "entries s (digest handle) = Some e" and "session_file s = Some (entries s)"
  shows "\<not> fst (end_session digest False handle s)
    \<and> fst (end_session digest True handle (snd (end_session digest False handle s)))
    \<and> key_of_session digest handle (snd (end_session digest True handle (snd (end_session digest False handle s)))) = None
    \<and> key_of_session digest handle (open_sessions (session_file
        (snd (end_session digest True handle (snd (end_session digest False handle s)))))) = Some (session_key e)"
  using assms by (simp add: end_session_def persist_sessions_def key_of_session_def open_sessions_def drop_session_def)

theorem ended_session_returns_witness:
  "key_of_session (\<lambda>h. h) ''h'' (open_sessions (session_file
     (snd (end_session (\<lambda>h. h) True ''h'' (snd (end_session (\<lambda>h. h) False ''h'' (session_of ''h'' 1))))))) = Some 1"
  using ended_session_returns [of "session_of ''h'' 1" "\<lambda>h. h" "''h''" "\<lparr>session_key = 1, session_created = 0\<rparr>"] by simp

text \<open>A minted one-time token opens exactly once and only for sixty seconds: the claim answers its key
  when the time is not past the expiry, and every later claim of the same token is refused, whatever
  the clock says, as long as it is not minted again.\<close>
theorem tray_token_single_use:
  assumes "mint (Some tok) now key t = (Some tok, t1)"
  shows "fst (claim tok later t1) = (if later \<le> now + tray_ttl then Some key else None)
    \<and> fst (claim tok again (snd (claim tok later t1))) = None
    \<and> (\<forall>other. other \<noteq> tok \<longrightarrow> snd (claim tok later t1) other = t1 other)"
  using assms tray_registry.lookup_put tray_registry.lookup_drop by (auto simp: mint_def claim_def)

theorem tray_token_single_use_witness:
  "fst (claim ''tok'' (7 + tray_ttl) (snd (mint (Some ''tok'') 7 3 (\<lambda>_. None)))) = Some 3"
proof -
  have "mint (Some ''tok'') 7 3 (\<lambda>_. None) = (Some ''tok'', snd (mint (Some ''tok'') 7 3 (\<lambda>_. None)))"
    by (simp add: mint_def)
  from tray_token_single_use [OF this, of "7 + tray_ttl" 0] show ?thesis by simp
qed

text \<open>The setup token that startup answers is the one the bootstrap accepts, and asking again answers
  the same token and writes nothing: after a start that answered a token, only that text verifies.\<close>
theorem setup_token_roundtrip:
  assumes "cwd_ok cwd" and "setup_token_for cwd io p random fs = (token, fs')" and "token \<noteq> ''''"
    and "\<And>raw. random = Some raw \<Longrightarrow> length raw = 32"
  shows "length token = 64 \<and> (\<forall>supplied. verify_setup_token cwd p supplied fs' \<longleftrightarrow> supplied = token)
    \<and> setup_token_for cwd io2 p random2 fs' = (token, fs')"
proof -
  obtain c where c: "clean_abs cwd p = Inr c" using assms(2,3) by (auto simp: setup_token_for_def split: sum.splits)
  then obtain ps where ps: "c = print_path True ps" "\<forall>e\<in>set ps. plain_part e" by (rule clean_abs_form [OF assms(1)])
  have cc: "clean_abs cwd c = Inr c" by (rule clean_abs_again [OF assms(1) c])
  have rd: "read_setup_token cwd q fs = (case fs c of None \<Rightarrow> '''' | Some raw \<Rightarrow> trim_space raw)" if "clean_abs cwd q = Inr c" for q fs
    using that clean_print [OF ps(2)] ps(1) by (simp add: read_setup_token_def read_file_def)
  have "length token = 64 \<and> read_setup_token cwd c fs' = token"
  proof (cases "length (read_setup_token cwd c fs) = token_hex_length")
    case True
    then show ?thesis using assms(2) c by (auto simp: setup_token_for_def token_hex_length_def)
  next
    case False
    then obtain raw where raw: "random = Some raw"
      using assms(2,3) c by (auto simp: setup_token_for_def split: option.splits)
    obtain ok trace where w: "write_file cwd io c (hex_text raw) fs = (ok, trace)" by fastforce
    then have ok: "ok" "token = hex_text raw" "fs' = last trace"
      using assms(2,3) c False raw by (auto simp: setup_token_for_def split: if_splits)
    then have "fs' c = Some token" using written_at_end [OF assms(1) cc, of io "hex_text raw" fs trace] w by simp
    then show ?thesis using rd [OF cc] ok(2) trim_plain [OF hex_plain] hex_length assms(4) [OF raw] by simp
  qed
  then show ?thesis
    using rd [OF c] rd [OF cc] c by (auto simp: verify_setup_token_def setup_token_for_def token_hex_length_def Let_def)
qed

theorem setup_token_roundtrip_witness:
  "verify_setup_token None ''/t'' (hex_text (replicate 32 (CHR ''a'')))
     (snd (setup_token_for None \<lparr>opens = True, written = 0, writes = True, closes = True, renames = True\<rparr> ''/t''
       (Some (replicate 32 (CHR ''a''))) (\<lambda>_. None)))"
proof -
  let ?io = "\<lparr>opens = True, written = 0, writes = True, closes = True, renames = True\<rparr>"
  let ?raw = "replicate 32 (CHR ''a'')"
  have c: "clean_abs None ''/t'' = Inr ''/t''" by code_simp
  have tmp: "clean_path ''/t'' = ''/t''" by code_simp
  have a: "setup_token_for None ?io ''/t'' (Some ?raw) (\<lambda>_. None) =
      (hex_text ?raw, snd (setup_token_for None ?io ''/t'' (Some ?raw) (\<lambda>_. None)))"
    using c tmp by (simp add: setup_token_for_def read_setup_token_def read_file_def token_hex_length_def write_file_def Let_def)
  have "cwd_ok None" by (simp add: cwd_ok_def)
  moreover have "hex_text ?raw \<noteq> ''''" using hex_length [of ?raw] by auto
  ultimately show ?thesis
    using setup_token_roundtrip [OF _ a, of ?io None] by simp
qed

subsection \<open>Handing out keys\<close>

text \<open>The bootstrap hands out a key only when it is enabled, no key exists yet unless it stays open,
  and the claim token is right where one is required; what it adds is one active admin key under a
  fresh identifier. Once a key exists and it closes itself, it refuses every call.\<close>
theorem bootstrap_gate:
  "(\<forall>reply. fst (bootstrap env cfg claim_ok raw body d) = Payload reply \<longrightarrow>
      bootstrap_enabled cfg \<and> (keys (key_db d) = [] \<or> \<not> bootstrap_auto_disable cfg)
      \<and> (bootstrap_require_claim_token cfg \<longrightarrow> (\<exists>b. body = Some b \<and> claim_ok (b_setup_token b)))
      \<and> (\<exists>k. keys (key_db (snd (bootstrap env cfg claim_ok raw body d))) = keys (key_db d) @ [k]
           \<and> key_role k = ''admin'' \<and> key_active k \<and> key_id k = next_id (key_db d)))
   \<and> (bootstrap_auto_disable cfg \<and> keys (key_db d) \<noteq> [] \<longrightarrow>
      (\<exists>msg. fst (bootstrap env cfg claim_ok raw body d) = Problem 403 msg) \<and> snd (bootstrap env cfg claim_ok raw body d) = d)"
  by (auto simp: bootstrap_def count_keys_def create_key_def persist_keys_def Let_def
      split: option.splits prod.splits sum.splits if_splits)

theorem bootstrap_gate_witness:
  "\<exists>msg. fst (bootstrap plain_env \<lparr>bootstrap_enabled = True, bootstrap_auto_disable = True,
     bootstrap_require_claim_token = False, hash_rounds = 12\<rparr> (\<lambda>_. True) (Some [1]) None
     (door_of (store_of 2 [admin_key 1 ''a'']) (session_of ''h'' 1))) = Problem 403 msg"
  using bootstrap_gate [of plain_env "\<lparr>bootstrap_enabled = True, bootstrap_auto_disable = True,
     bootstrap_require_claim_token = False, hash_rounds = 12\<rparr>" "\<lambda>_. True" "Some [1]" None
     "door_of (store_of 2 [admin_key 1 ''a'']) (session_of ''h'' 1)"] by simp

text \<open>Every key of the store has a role of the vocabulary, and every operation of the door keeps it so:
  the middleware, the claims and sessions, and the handlers that create, delete and revoke keys.\<close>
theorem roles_stay_typed:
  assumes "roles_ok (key_db d)"
  shows "roles_ok (key_db (snd (middleware env r d)))
    \<and> roles_ok (key_db (snd (tray_claim env cfg user stamp raw random tok d)))
    \<and> roles_ok (key_db (snd (paste_session env random pasted d)))
    \<and> roles_ok (key_db (snd (bootstrap env cfg claim_ok raw bb d)))
    \<and> roles_ok (key_db (snd (generate_key env cfg raw gb d)))
    \<and> roles_ok (key_db (snd (delete_key_reply env i d)))
    \<and> roles_ok (key_db (snd (revoke_key_reply env i d)))"
  using assms by (simp add: roles_middleware roles_tray_claim roles_paste roles_bootstrap roles_generate roles_removals)

theorem roles_stay_typed_witness:
  "roles_ok (key_db (snd (middleware plain_env (get_request ''/api/machines'' ''hw_a'' None)
     (door_of (store_of 2 [admin_key 1 ''hw_a'']) (session_of ''h'' 1)))))"
proof -
  have "roles_ok (key_db (door_of (store_of 2 [admin_key 1 ''hw_a'']) (session_of ''h'' 1)))"
    by (simp add: roles_ok_def role_valid_def valid_roles_def)
  from roles_stay_typed [OF this] show ?thesis by blast
qed

subsection \<open>The key store as a map\<close>



end
