(* ===== verification/Schedules.thy ===== *)
theory Schedules
  imports TaskStore Access
begin

text \<open>
  The services that queue work on their own: the snapshot rotation
  (\<^verbatim>\<open>internal/machines/snapshot_rotation.go\<close>) and the boot orchestration
  (\<^verbatim>\<open>internal/machines/orchestration.go\<close>, \<^verbatim>\<open>internal/server/orchestration.go\<close>), over the rows of
  the machine table they read and the task store they write.
\<close>

subsection \<open>What they read of a machine\<close>

text \<open>
  \<open>m_config\<close> is the configuration column parsed as JSON, \<open>None\<close> when absent or no JSON;
  \<open>m_spec\<close> is the creation document, \<open>None\<close> when absent or not of its struct's shape.
\<close>

record spec =
  sp_settings :: obj
  sp_vbox :: obj

record machine =
  m_name :: string
  m_status :: string
  m_uuid :: "string option"
  m_orphaned :: bool
  m_config :: "json option"
  m_spec :: "spec option"

definition parse_configuration :: "machine \<Rightarrow> obj" where
  "parse_configuration m = (case m_config m of Some (JObj c) \<Rightarrow> c | _ \<Rightarrow> [])"

definition config_section :: "obj \<Rightarrow> string \<Rightarrow> obj" where
  "config_section c key = (case map_of c key of Some (JObj s) \<Rightarrow> s | _ \<Rightarrow> [])"

subsection \<open>Decoding a policy\<close>

text \<open>
  \<^verbatim>\<open>decodeInto\<close> prints the override and reads it into the struct: the keys arrive in byte order and
  match the field names without regard to case, a value of another type leaves its field alone.
\<close>

record snapshot_policy =
  sp_type :: string
  sp_quiesce :: bool
  sp_keep :: int
  sp_max_age :: int
  sp_tiers :: "(string \<times> int) list"

definition zero_policy :: snapshot_policy where
  "zero_policy = \<lparr>sp_type = '''', sp_quiesce = False, sp_keep = 0, sp_max_age = 0, sp_tiers = []\<rparr>"

fun json_int64 :: "json \<Rightarrow> int option" where
  "json_int64 (JInt n) = (if int64_ok n then Some n else None)"
| "json_int64 (JFloat x) =
     (if x = of_int \<lfloor>x\<rfloor> \<and> \<bar>x\<bar> < 10 ^ 21 \<and> int64_ok \<lfloor>x\<rfloor> then Some \<lfloor>x\<rfloor> else None)"
| "json_int64 _ = None"

definition decode_int :: "json \<Rightarrow> int \<Rightarrow> int" where
  "decode_int v old = (case json_int64 v of Some n \<Rightarrow> n | None \<Rightarrow> old)"

definition decode_tier :: "json \<Rightarrow> int" where
  "decode_tier v = (case v of
     JObj o' \<Rightarrow> fold (\<lambda>(k, x) keep. if equal_fold k ''keep'' then decode_int x keep else keep) (sort_key fst o') 0
   | _ \<Rightarrow> 0)"

definition decode_policy_field :: "string \<times> json \<Rightarrow> snapshot_policy \<Rightarrow> snapshot_policy" where
  "decode_policy_field = (\<lambda>(k, v) p.
     if equal_fold k ''type'' then (case v of JStr s \<Rightarrow> p\<lparr>sp_type := s\<rparr> | _ \<Rightarrow> p)
     else if equal_fold k ''quiesce'' then (case v of JBool b \<Rightarrow> p\<lparr>sp_quiesce := b\<rparr> | _ \<Rightarrow> p)
     else if equal_fold k ''keep'' then p\<lparr>sp_keep := decode_int v (sp_keep p)\<rparr>
     else if equal_fold k ''max_age_days'' then p\<lparr>sp_max_age := decode_int v (sp_max_age p)\<rparr>
     else if equal_fold k ''tiers'' then
       (case v of
          JObj o' \<Rightarrow> p\<lparr>sp_tiers := fold (\<lambda>(t, x). AList.update t (decode_tier x)) (sort_key fst o') (sp_tiers p)\<rparr>
        | JNull \<Rightarrow> p\<lparr>sp_tiers := []\<rparr>
        | _ \<Rightarrow> p)
     else p)"

definition decode_policy :: "obj \<Rightarrow> snapshot_policy" where
  "decode_policy o' = fold decode_policy_field (sort_key fst o') zero_policy"

definition effective_policy :: "snapshot_policy \<Rightarrow> machine \<Rightarrow> snapshot_policy" where
  "effective_policy dflt m =
    (let override = config_section (parse_configuration m) ''snapshots''
     in case map_of override ''type'' of
          Some (JStr kind) \<Rightarrow> if kind \<noteq> '''' then decode_policy override else dflt
        | _ \<Rightarrow> dflt)"

subsection \<open>The wall clock\<close>

text \<open>Local time in seconds since 1970-01-01 00:00, a Thursday.\<close>

definition local_minute :: "int \<Rightarrow> int" where "local_minute t = t div 60 mod 60"
definition local_hour :: "int \<Rightarrow> int" where "local_hour t = t div 3600 mod 24"
definition local_weekday :: "int \<Rightarrow> int" where "local_weekday t = (t div 86400 + 4) mod 7"

definition due_rotation_tiers :: "int \<Rightarrow> string list" where
  "due_rotation_tiers t =
    (if local_minute t \<noteq> 0 then []
     else if local_hour t \<noteq> 0 then [''hourly'']
     else if local_weekday t = 6 then [''weekly'']
     else [''daily''])"

definition default_rotation_tiers :: "(string \<times> int) list" where
  "default_rotation_tiers = [(''hourly'', 2), (''daily'', 3), (''weekly'', 2)]"

definition tier_keep :: "(string \<times> int) list \<Rightarrow> string \<Rightarrow> int" where
  "tier_keep tiers t = opt_default 0 (map_of tiers t)"

subsection \<open>The snapshot tick\<close>

text \<open>
  One creation draws an identifier and a time: \<open>draw n\<close> is the \<open>n\<close>-th of this tick. The state of a tick
  is the number of creations so far and the task store.
\<close>

type_synonym draws = "nat \<Rightarrow> string \<times> time"

definition snapshot_take_op :: string where
  "snapshot_take_op = ''snapshot_take''"

definition snapshot_filter :: "string \<Rightarrow> task_status \<Rightarrow> list_filter" where
  "snapshot_filter name s = no_filter\<lparr>f_machine_name := name, f_operation := snapshot_take_op, f_status := status_text s, f_limit := 1\<rparr>"

definition queue_snapshot :: "go_env \<Rightarrow> draws \<Rightarrow> string \<Rightarrow> obj \<Rightarrow> nat \<times> store \<Rightarrow> nat \<times> store" where
  "queue_snapshot g draw name meta = (\<lambda>(n, st).
     if list_tasks (snapshot_filter name Pending) st \<noteq> [] then (n, st)
     else if list_tasks (snapshot_filter name Running) st \<noteq> [] then (n, st)
     else (Suc n, snd (create (fst (draw n)) (snd (draw n))
       \<lparr>nt_machine_name = name, nt_operation = snapshot_take_op, nt_priority = priority_background,
        nt_created_by = ''snapshot_rotation'', nt_depends_on = None, nt_parent_task_id = None,
        nt_metadata = Some (marshal g (JObj meta)), nt_parent = False, nt_prepared = False, nt_notify = None\<rparr> st)))"

definition machine_snapshots :: "string list \<Rightarrow> bool \<Rightarrow> snapshot_policy \<Rightarrow> obj list" where
  "machine_snapshots tiers fire p =
    (if sp_type p = ''rotation'' then
       (let configured = (if sp_tiers p = [] then default_rotation_tiers else sp_tiers p)
        in map (\<lambda>t. let keep = tier_keep configured t; keep' = (if keep < 1 then tier_keep default_rotation_tiers t else keep)
              in [(''prefix'', JStr t), (''retention'', JInt keep'), (''quiesce'', JBool (sp_quiesce p))]) tiers)
     else if sp_type p = ''simple'' then
       (if fire then [[(''prefix'', JStr ''auto''), (''retention'', JInt (if sp_keep p < 1 then 3 else sp_keep p)),
          (''quiesce'', JBool (sp_quiesce p))]] else [])
     else if sp_type p = ''age'' then
       (if fire then [[(''prefix'', JStr ''auto''), (''retention'', JInt 0),
          (''max_age_days'', JInt (if sp_max_age p < 1 then 7 else sp_max_age p)), (''quiesce'', JBool (sp_quiesce p))]] else [])
     else [])"

definition has_vm :: "machine \<Rightarrow> bool" where
  "has_vm m \<longleftrightarrow> m_uuid m \<noteq> None \<and> m_uuid m \<noteq> Some '''' \<and> \<not> m_orphaned m"

definition tick_machine :: "go_env \<Rightarrow> draws \<Rightarrow> string list \<Rightarrow> bool \<Rightarrow> snapshot_policy \<Rightarrow> machine \<Rightarrow> nat \<times> store \<Rightarrow> nat \<times> store" where
  "tick_machine g draw tiers fire dflt m ns =
    (if \<not> has_vm m then ns
     else fold (queue_snapshot g draw (m_name m)) (machine_snapshots tiers fire (effective_policy dflt m)) ns)"

definition snapshot_tick :: "go_env \<Rightarrow> draws \<Rightarrow> int \<Rightarrow> bool \<Rightarrow> snapshot_policy \<Rightarrow> machine list \<Rightarrow> store \<Rightarrow> store" where
  "snapshot_tick g draw t fire dflt ms st =
    snd (fold (tick_machine g draw (due_rotation_tiers t) fire dflt) ms (0, st))"

text \<open>The loop's case of one timer tick: the simple and age cadence rides on the last time it fired.\<close>

record rotation =
  rot_interval :: int
  rot_default :: snapshot_policy
  rot_last_simple :: "int option"

definition fire_simple :: "int \<Rightarrow> rotation \<Rightarrow> bool" where
  "fire_simple now r = (case rot_last_simple r of None \<Rightarrow> True | Some fired \<Rightarrow> rot_interval r \<le> now - fired)"

definition rotation_tick :: "go_env \<Rightarrow> draws \<Rightarrow> int \<Rightarrow> int \<Rightarrow> machine list \<Rightarrow> rotation \<times> store \<Rightarrow> rotation \<times> store" where
  "rotation_tick g draw now wall ms = (\<lambda>(r, st).
     (if fire_simple now r then r\<lparr>rot_last_simple := Some now\<rparr> else r,
      snapshot_tick g draw wall (fire_simple now r) (rot_default r) ms st))"

subsection \<open>Boot priorities\<close>

definition default_boot_priority :: int where
  "default_boot_priority = 95"

text \<open>\<^verbatim>\<open>intOr\<close>: a float is truncated; out of the 64-bit range the conversion's result is out of the range of priorities too.\<close>

fun int_or :: "json \<Rightarrow> int \<Rightarrow> int" where
  "int_or (JInt n) fallback = (if int64_ok n then n else fallback)"
| "int_or (JFloat x) fallback = (if 0 \<le> x then \<lfloor>x\<rfloor> else \<lceil>x\<rceil>)"
| "int_or (JStr s) fallback = (case parse_int64 (trim_space s) of Some n \<Rightarrow> n | None \<Rightarrow> fallback)"
| "int_or _ fallback = fallback"

definition extract_priority :: "spec option \<Rightarrow> int" where
  "extract_priority sp =
    (case sp of
       None \<Rightarrow> default_boot_priority
     | Some s \<Rightarrow>
         (let p = int_or (field (sp_settings s) ''boot_priority'') default_boot_priority
          in if p < 1 \<or> 100 < p then default_boot_priority else p))"

record priority_entry =
  pr_name :: string
  pr_priority :: int
  pr_state :: string

definition prioritized :: "machine list \<Rightarrow> priority_entry list" where
  "prioritized ms = map (\<lambda>m. \<lparr>pr_name = m_name m, pr_priority = extract_priority (m_spec m), pr_state = m_status m\<rparr>) ms"

definition bucket :: "priority_entry \<Rightarrow> int" where
  "bucket e = (pr_priority e - 1) div 10 * 10 + 10"

text \<open>\<^verbatim>\<open>sort.Slice\<close> leaves entries of equal priority in some order; this is the one of a stable sort.\<close>

definition group_by_priority :: "priority_entry list \<Rightarrow> (int \<times> priority_entry list) list" where
  "group_by_priority es =
    map (\<lambda>r. (r, sort_key pr_priority (filter (\<lambda>e. bucket e = r) es))) (sort (remdups (map bucket es)))"

subsection \<open>Booting the autostart machines\<close>

fun string_or :: "go_env \<Rightarrow> json \<Rightarrow> string \<Rightarrow> string" where
  "string_or g (JStr s) fallback = (if s \<noteq> '''' then s else fallback)"
| "string_or g (JInt n) fallback = int_text n"
| "string_or g (JFloat x) fallback = float_plain g x"
| "string_or g _ fallback = fallback"

definition on_off :: "go_env \<Rightarrow> json \<Rightarrow> string" where
  "on_off g v =
    (case v of
       JBool b \<Rightarrow> if b then ''on'' else ''off''
     | _ \<Rightarrow> if map lower_char (string_or g v '''') \<in> {''on'', ''true'', ''1'', ''yes''} then ''on'' else ''off'')"

definition map_or :: "json \<Rightarrow> obj" where
  "map_or v = (case v of JObj m \<Rightarrow> m | _ \<Rightarrow> [])"

definition start_op :: string where "start_op = ''start''"
definition status_running :: string where "status_running = ''running''"

definition boots :: "go_env \<Rightarrow> string set \<Rightarrow> machine \<Rightarrow> bool" where
  "boots g live m =
    (case m_spec m of
       None \<Rightarrow> False
     | Some s \<Rightarrow> on_off g (field (map_or (field (sp_vbox s) ''autostart'')) ''enabled'') = ''on''
         \<and> \<not> (m_name m \<in> live \<or> (case m_uuid m of Some u \<Rightarrow> u \<in> live | None \<Rightarrow> False) \<or> m_status m = status_running))"

definition boot_candidates :: "go_env \<Rightarrow> string set \<Rightarrow> machine list \<Rightarrow> (string \<times> int) list" where
  "boot_candidates g live ms =
    sort_key (\<lambda>c. - snd c) (map (\<lambda>m. (m_name m, extract_priority (m_spec m))) (filter (boots g live) ms))"

definition boot_task :: "string \<Rightarrow> new_task" where
  "boot_task name =
    \<lparr>nt_machine_name = name, nt_operation = start_op, nt_priority = priority_high,
     nt_created_by = ''orchestration_startup'', nt_depends_on = None, nt_parent_task_id = None,
     nt_metadata = None, nt_parent = False, nt_prepared = False, nt_notify = None\<rparr>"

definition startup_orchestration :: "go_env \<Rightarrow> draws \<Rightarrow> string set \<Rightarrow> machine list \<Rightarrow> store \<Rightarrow> store" where
  "startup_orchestration g draw live ms st =
    snd (fold (\<lambda>c (n, s). (Suc n, snd (create (fst (draw n)) (snd (draw n)) (boot_task (fst c)) s)))
      (boot_candidates g live ms) (0, st))"

subsection \<open>The dry run\<close>

definition strategies :: "string list" where
  "strategies = [''sequential'', ''parallel_by_priority'', ''staggered'']"

record orchestration_config =
  oc_strategy :: string
  oc_priority_delay :: int
  oc_shutdown_timeout :: int

datatype test_answer =
    BadStrategy
  | NothingRunning
  | TestPlan int "(int \<times> priority_entry list) list" string int

definition orchestration_test :: "orchestration_config \<Rightarrow> string \<Rightarrow> machine list \<Rightarrow> test_answer" where
  "orchestration_test cfg requested ms =
    (let strategy = (if requested = '''' then oc_strategy cfg else requested) in
     if strategy \<notin> set strategies then BadStrategy
     else
       let up = filter (\<lambda>e. pr_state e = status_running) (prioritized ms) in
       if up = [] then NothingRunning
       else
         let plan = group_by_priority up;
             largest = fold (\<lambda>grp n. if n < length (snd grp) then length (snd grp) else n) plan 0
         in TestPlan (int (length plan) * oc_priority_delay cfg + int largest * oc_shutdown_timeout cfg)
              plan strategy (int (length up)))"

end
