(* ===== verification/ScheduleProps.thy ===== *)
theory ScheduleProps
  imports Schedules TaskStoreLaws "HOL-Library.Multiset"
begin

text \<open>
  The properties of the services that queue work: the rotation tiers of a week, the bound of one
  active snapshot per machine, the groups of the boot order and the tasks the boot queues.
\<close>

subsection \<open>Active snapshots\<close>

definition active_take :: "string \<Rightarrow> task \<Rightarrow> bool" where
  "active_take name t \<longleftrightarrow> machine_name t = name \<and> operation t = snapshot_take_op \<and> status t \<in> {Pending, Running}"

definition active_takes :: "store \<Rightarrow> string \<Rightarrow> task list" where
  "active_takes st name = filter (active_take name) (rows st)"

lemma list_tasks_empty: "list_tasks f st = [] \<longleftrightarrow> (\<forall>t\<in>set (rows st). \<not> matches f t)"
proof -
  have "order_rows b k ts = [] \<longleftrightarrow> ts = []" for b k and ts :: "task list"
    by (simp add: order_rows_def)
  moreover have "0 < effective_limit l" for l by (simp add: effective_limit_def)
  ultimately show ?thesis by (simp add: list_tasks_def filter_empty_conv less_imp_neq [THEN not_sym])
qed

lemma matches_snapshot:
  "name \<noteq> '''' \<Longrightarrow> matches (snapshot_filter name s) t \<longleftrightarrow>
    machine_name t = name \<and> operation t = snapshot_take_op \<and> status t = s"
proof -
  assume "name \<noteq> ''''"
  moreover have "status_text s \<noteq> ''''" by (cases s) simp_all
  moreover have "status_text (status t) = status_text s \<longleftrightarrow> status t = s" using status_text_inject by blast
  ultimately show ?thesis
    by (auto simp: matches_def snapshot_filter_def no_filter_def snapshot_take_op_def)
qed

lemma no_active_take:
  "name \<noteq> '''' \<Longrightarrow> list_tasks (snapshot_filter name Pending) st = [] \<and> list_tasks (snapshot_filter name Running) st = []
    \<longleftrightarrow> active_takes st name = []"
  by (auto simp: list_tasks_empty matches_snapshot active_takes_def filter_empty_conv active_take_def)

lemma create_rows:
  "rows (snd (create i now nt st)) = (if get st i = None then rows st @ [new_row i now nt] else rows st)"
  by (simp add: create_def Let_def split: option.split)

text \<open>One queueing: nothing when a take is active, else at most one new one.\<close>

lemma queue_snapshot_active:
  assumes "name \<noteq> ''''" and "length (active_takes st name) \<le> 1"
  shows "length (active_takes (snd (queue_snapshot g draw name meta (n, st))) name) \<le> 1"
proof (cases "active_takes st name = []")
  case True
  then have "list_tasks (snapshot_filter name Pending) st = []" "list_tasks (snapshot_filter name Running) st = []"
    using no_active_take [OF assms(1)] by blast+
  then show ?thesis
    using True by (simp add: queue_snapshot_def active_takes_def create_rows)
next
  case False
  then have "list_tasks (snapshot_filter name Pending) st \<noteq> [] \<or> list_tasks (snapshot_filter name Running) st \<noteq> []"
    using no_active_take [OF assms(1)] by blast
  then show ?thesis using assms(2) by (auto simp: queue_snapshot_def)
qed

lemma queue_snapshot_other:
  assumes "other \<noteq> name"
  shows "active_takes (snd (queue_snapshot g draw name meta (n, st))) other = active_takes st other"
  using assms by (simp add: queue_snapshot_def active_takes_def create_rows active_take_def new_row_def)

lemma queue_fold_active:
  assumes "name \<noteq> ''''" and "length (active_takes (snd ns) name) \<le> 1"
  shows "length (active_takes (snd (fold (queue_snapshot g draw name) metas ns)) name) \<le> 1"
  using assms(2)
proof (induction metas arbitrary: ns)
  case (Cons meta metas)
  then show ?case using queue_snapshot_active [OF assms(1), of "snd ns" g draw meta "fst ns"] by simp
qed simp

lemma queue_fold_other:
  assumes "other \<noteq> name"
  shows "active_takes (snd (fold (queue_snapshot g draw name) metas ns)) other = active_takes (snd ns) other"
proof (induction metas arbitrary: ns)
  case (Cons meta metas)
  then show ?case using queue_snapshot_other [OF assms, of g draw meta "fst ns" "snd ns"] by simp
qed simp

lemma tick_machine_active:
  assumes "m_name m \<noteq> ''''" and "length (active_takes (snd ns) name) \<le> 1"
  shows "length (active_takes (snd (tick_machine g draw tiers fire dflt m ns)) name) \<le> 1"
  using assms queue_fold_active queue_fold_other by (cases "m_name m = name") (simp_all add: tick_machine_def)

text \<open>A queueing only appends rows, and with an identifier that is free it leaves an active take.\<close>

definition fresh_from :: "draws \<Rightarrow> nat \<Rightarrow> store \<Rightarrow> bool" where
  "fresh_from draw n st \<longleftrightarrow> inj (fst \<circ> draw) \<and> (\<forall>k\<ge>n. get st (fst (draw k)) = None)"

definition grows :: "(task \<Rightarrow> bool) \<Rightarrow> draws \<Rightarrow> nat \<times> store \<Rightarrow> nat \<times> store \<Rightarrow> bool" where
  "grows P draw ns ns' \<longleftrightarrow> (\<exists>new. rows (snd ns') = rows (snd ns) @ new \<and> (\<forall>t\<in>set new. P t))
     \<and> (fresh_from draw (fst ns) (snd ns) \<longrightarrow> fresh_from draw (fst ns') (snd ns'))"

lemma grows_refl: "grows P draw ns ns"
  by (simp add: grows_def)

lemma grows_trans: "grows P draw a b \<Longrightarrow> grows P draw b c \<Longrightarrow> grows P draw a c"
  unfolding grows_def by (elim conjE exE) (auto intro!: exI [of _ "_ @ _"])

lemma grows_fold: "(\<And>x ns. x \<in> set xs \<Longrightarrow> grows P draw ns (f x ns)) \<Longrightarrow> grows P draw ns (fold f xs ns)"
proof (induction xs arbitrary: ns)
  case (Cons x xs)
  have "grows P draw (f x ns) (fold f xs (f x ns))" using Cons by simp
  with Cons.prems [of x ns] show ?case using grows_trans by fastforce
qed (simp add: grows_refl)

lemma get_append_row:
  "get (st\<lparr>rows := rows st @ [row], notified := x\<rparr>) i = (if get st i = None \<and> task_id row = i then Some row else get st i)"
  "get (st\<lparr>rows := rows st @ [row]\<rparr>) i = (if get st i = None \<and> task_id row = i then Some row else get st i)"
  by (simp_all add: get_def find_append_key split: option.split)

lemma get_create:
  "get (snd (create i now nt st)) j = (if get st j = None \<and> j = i then Some (new_row i now nt) else get st j)"
  by (cases "get st i") (auto simp: create_def Let_def get_append_row new_row_def)

lemma fresh_create:
  assumes "fresh_from draw n st"
  shows "fresh_from draw (Suc n) (snd (create (fst (draw n)) now nt st))"
proof -
  have "fst (draw k) \<noteq> fst (draw n)" if "Suc n \<le> k" for k
  proof
    assume "fst (draw k) = fst (draw n)"
    moreover have "inj (fst \<circ> draw)" using assms by (simp add: fresh_from_def)
    ultimately have "k = n" by (auto dest: injD [of _ k n])
    then show False using that by simp
  qed
  then have "get (snd (create (fst (draw n)) now nt st)) (fst (draw k)) = None" if "Suc n \<le> k" for k
    using assms that by (simp add: get_create fresh_from_def)
  then show ?thesis using assms by (simp add: fresh_from_def)
qed

lemma grows_create:
  assumes "P (new_row (fst (draw n)) now nt)"
  shows "grows P draw (n, st) (Suc n, snd (create (fst (draw n)) now nt st))"
  using assms fresh_create by (simp add: grows_def create_rows)

lemma grows_queue:
  "grows (\<lambda>t. operation t = snapshot_take_op \<and> machine_name t = name) draw ns (queue_snapshot g draw name meta ns)"
  by (cases ns) (simp add: queue_snapshot_def grows_refl grows_create new_row_def)

lemma grows_weaken: "grows P draw a b \<Longrightarrow> (\<And>t. P t \<Longrightarrow> Q t) \<Longrightarrow> grows Q draw a b"
  by (auto simp: grows_def)

lemma active_grows: "grows P draw ns ns' \<Longrightarrow> active_takes (snd ns) name \<noteq> [] \<Longrightarrow> active_takes (snd ns') name \<noteq> []"
  by (auto simp: grows_def active_takes_def)

lemma queue_snapshot_makes:
  assumes "name \<noteq> ''''" and "fresh_from draw n st"
  shows "active_takes (snd (queue_snapshot g draw name meta (n, st))) name \<noteq> []"
proof (cases "active_takes st name = []")
  case True
  then have e: "list_tasks (snapshot_filter name Pending) st = []" "list_tasks (snapshot_filter name Running) st = []"
    using no_active_take [OF assms(1)] by blast+
  have "get st (fst (draw n)) = None" using assms(2) by (simp add: fresh_from_def)
  then show ?thesis
    using e by (simp add: queue_snapshot_def active_takes_def create_rows active_take_def new_row_def create_status_def)
next
  case False
  then show ?thesis using active_grows [OF grows_queue [of name draw "(n, st)" g meta]] by simp
qed

definition due :: "int \<Rightarrow> bool \<Rightarrow> snapshot_policy \<Rightarrow> machine \<Rightarrow> bool" where
  "due wall fire dflt m \<longleftrightarrow> has_vm m \<and> machine_snapshots (due_rotation_tiers wall) fire (effective_policy dflt m) \<noteq> []"

definition due_take :: "int \<Rightarrow> bool \<Rightarrow> snapshot_policy \<Rightarrow> machine list \<Rightarrow> task \<Rightarrow> bool" where
  "due_take wall fire dflt ms t \<longleftrightarrow>
     operation t = snapshot_take_op \<and> (\<exists>m\<in>set ms. m_name m = machine_name t \<and> due wall fire dflt m)"

lemma grows_machine:
  assumes "m \<in> set ms"
  shows "grows (due_take wall fire dflt ms) draw ns (tick_machine g draw (due_rotation_tiers wall) fire dflt m ns)"
proof (cases "due wall fire dflt m")
  case True
  then have "grows (due_take wall fire dflt ms) draw ns' (queue_snapshot g draw (m_name m) meta ns')" for meta ns'
    using assms by (intro grows_weaken [OF grows_queue]) (auto simp: due_take_def)
  then show ?thesis by (simp add: tick_machine_def grows_refl grows_fold)
qed (auto simp: tick_machine_def due_def grows_refl)

lemma tick_machine_makes:
  assumes "due wall fire dflt m" and "m_name m \<noteq> ''''" and "fresh_from draw (fst ns) (snd ns)"
  shows "active_takes (snd (tick_machine g draw (due_rotation_tiers wall) fire dflt m ns)) (m_name m) \<noteq> []"
proof -
  obtain meta metas where ms: "machine_snapshots (due_rotation_tiers wall) fire (effective_policy dflt m) = meta # metas"
    using assms(1) by (auto simp: due_def neq_Nil_conv)
  let ?ns = "queue_snapshot g draw (m_name m) meta ns"
  have "active_takes (snd ?ns) (m_name m) \<noteq> []"
    using queue_snapshot_makes [OF assms(2), of draw "fst ns" "snd ns" g meta] assms(3) by simp
  then have "active_takes (snd (fold (queue_snapshot g draw (m_name m)) metas ?ns)) (m_name m) \<noteq> []"
    by (rule active_grows [OF grows_fold [OF grows_queue]])
  then show ?thesis using assms(1) ms by (simp add: tick_machine_def due_def)
qed

lemma tick_makes:
  assumes "due wall fire dflt m" and "m \<in> set ms" and "m_name m \<noteq> ''''" and "fresh_from draw (fst ns) (snd ns)"
  shows "active_takes (snd (fold (tick_machine g draw (due_rotation_tiers wall) fire dflt) ms ns)) (m_name m) \<noteq> []"
proof -
  let ?f = "tick_machine g draw (due_rotation_tiers wall) fire dflt"
  obtain us vs where ms: "ms = us @ m # vs" using assms(2) by (meson split_list)
  have g: "grows (due_take wall fire dflt ms) draw a (fold ?f xs a)" if "set xs \<subseteq> set ms" for xs a
    using that by (intro grows_fold grows_machine) auto
  have "fresh_from draw (fst (fold ?f us ns)) (snd (fold ?f us ns))"
    using g [of us ns] assms(4) ms by (auto simp: grows_def)
  then have "active_takes (snd (?f m (fold ?f us ns))) (m_name m) \<noteq> []"
    by (rule tick_machine_makes [OF assms(1,3)])
  moreover have "set vs \<subseteq> set ms" using ms by auto
  ultimately have "active_takes (snd (fold ?f vs (?f m (fold ?f us ns)))) (m_name m) \<noteq> []"
    using active_grows [OF g] by blast
  then show ?thesis by (simp add: ms)
qed

text \<open>After a tick of the snapshot rotation every machine with a VM whose policy is due has exactly one
  active snapshot_take, if it had at most one before: a slow one is never stacked upon, a missing one
  is queued. Only due machines get one, and no row of the table changes.\<close>
theorem one_snapshot_per_machine:
  assumes "\<forall>x\<in>set ms. m_name x \<noteq> ''''" and "m \<in> set ms" and "length (active_takes st (m_name m)) \<le> 1"
    and "fresh_from draw 0 st" and "rotation_tick g draw now wall ms (r, st) = (r', st')"
  shows "length (active_takes st' (m_name m)) \<le> 1
    \<and> (due wall (fire_simple now r) (rot_default r) m \<longrightarrow> length (active_takes st' (m_name m)) = 1)
    \<and> (\<exists>new. rows st' = rows st @ new \<and> (\<forall>t\<in>set new. due_take wall (fire_simple now r) (rot_default r) ms t))"
proof -
  let ?f = "tick_machine g draw (due_rotation_tiers wall) (fire_simple now r) (rot_default r)"
  have st': "st' = snd (fold ?f ms (0, st))" using assms(5) by (simp add: rotation_tick_def snapshot_tick_def)
  have "length (active_takes (snd (fold ?f xs ns)) (m_name m)) \<le> 1"
    if "length (active_takes (snd ns) (m_name m)) \<le> 1" "set xs \<subseteq> set ms" for xs ns
    using that assms(1) tick_machine_active by (induction xs arbitrary: ns) simp_all
  from this [of "(0, st)" ms] have le: "length (active_takes st' (m_name m)) \<le> 1" using assms(3) st' by simp
  have "active_takes st' (m_name m) \<noteq> []" if "due wall (fire_simple now r) (rot_default r) m"
    using tick_makes [OF that assms(2), of draw "(0, st)" g] assms(1,2,4) st' by auto
  then have "length (active_takes st' (m_name m)) = 1" if "due wall (fire_simple now r) (rot_default r) m"
    using that le by (cases "active_takes st' (m_name m)") auto
  moreover have "grows (due_take wall (fire_simple now r) (rot_default r) ms) draw (0, st) (fold ?f ms (0, st))"
    by (rule grows_fold) (rule grows_machine)
  ultimately show ?thesis using le st' by (auto simp: grows_def)
qed

theorem one_snapshot_per_machine_witness:
  "length (active_takes (snd (rotation_tick \<lparr>regexp_compile = (\<lambda>_. None), parse_float = (\<lambda>_. None), url_scheme = (\<lambda>_. None),
      float_plain = (\<lambda>_. ''''), float_json = (\<lambda>_. '''')\<rparr> (\<lambda>n. (replicate n CHR ''x'', 7)) 7 0
      [\<lparr>m_name = ''web'', m_status = ''running'', m_uuid = Some ''u'', m_orphaned = False, m_config = None, m_spec = None\<rparr>]
      (\<lparr>rot_interval = 60, rot_default = zero_policy\<lparr>sp_type := ''rotation''\<rparr>, rot_last_simple = None\<rparr>,
       \<lparr>rows = [], has_notify = False, notified = []\<rparr>))) ''web'') = 1"
proof -
  let ?g = "\<lparr>regexp_compile = (\<lambda>_. None), parse_float = (\<lambda>_. None), url_scheme = (\<lambda>_. None),
      float_plain = (\<lambda>_. ''''), float_json = (\<lambda>_. '''')\<rparr>"
  let ?m = "\<lparr>m_name = ''web'', m_status = ''running'', m_uuid = Some ''u'', m_orphaned = False, m_config = None, m_spec = None\<rparr>"
  let ?r = "\<lparr>rot_interval = 60, rot_default = zero_policy\<lparr>sp_type := ''rotation''\<rparr>, rot_last_simple = None\<rparr>"
  let ?st = "\<lparr>rows = [], has_notify = False, notified = []\<rparr>"
  let ?draw = "\<lambda>n. (replicate n CHR ''x'', 7)"
  have "inj (fst \<circ> ?draw)" by (rule injI) (metis comp_apply fst_conv length_replicate)
  then have f: "fresh_from ?draw 0 ?st" by (simp add: fresh_from_def get_def)
  have d: "due 0 (fire_simple 7 ?r) (rot_default ?r) ?m"
    by (simp add: due_def has_vm_def machine_snapshots_def effective_policy_def parse_configuration_def config_section_def
        due_rotation_tiers_def local_minute_def local_hour_def local_weekday_def Let_def)
  have names: "\<forall>x\<in>set [?m]. m_name x \<noteq> ''''" by simp
  have zero: "length (active_takes ?st (m_name ?m)) \<le> 1" by (simp add: active_takes_def)
  have run: "rotation_tick ?g ?draw 7 0 [?m] (?r, ?st) =
      (fst (rotation_tick ?g ?draw 7 0 [?m] (?r, ?st)), snd (rotation_tick ?g ?draw 7 0 [?m] (?r, ?st)))" by simp
  have "?m \<in> set [?m]" by simp
  from one_snapshot_per_machine [OF names this zero f run] d show ?thesis by simp
qed

subsection \<open>Tiers and groups\<close>

text \<open>Exactly one rotation tier is due at the start of every hour and none at any other minute: the weekly
  one at Saturday's midnight, the daily one at the other midnights, the hourly one at the other
  hours; over any week that makes one weekly and six daily ones.\<close>
theorem rotation_tiers_partition:
  "(local_minute t \<noteq> 0 \<longrightarrow> due_rotation_tiers t = [])
   \<and> (local_minute t = 0 \<longrightarrow> (\<exists>tier\<in>{''hourly'', ''daily'', ''weekly''}. due_rotation_tiers t = [tier]))
   \<and> due_rotation_tiers (t + 604800) = due_rotation_tiers t
   \<and> (\<exists>!d. d \<in> {0..<7} \<and> due_rotation_tiers (86400 * (t + d)) = [''weekly''])
   \<and> (\<forall>d. due_rotation_tiers (86400 * d) = [''weekly''] \<or> due_rotation_tiers (86400 * d) = [''daily''])"
proof -
  have midnight: "due_rotation_tiers (86400 * d) = (if (d + 4) mod 7 = 6 then [''weekly''] else [''daily''])" for d
  proof -
    have "86400 * d div 60 = 1440 * d" "86400 * d div 3600 = 24 * d" "86400 * d div 86400 = d"
      by (simp_all add: div_mult_self1_is_m)
    then have "local_minute (86400 * d) = 0" "local_hour (86400 * d) = 0" "local_weekday (86400 * d) = (d + 4) mod 7"
      by (simp_all add: local_minute_def local_hour_def local_weekday_def)
    then show ?thesis by (simp add: due_rotation_tiers_def)
  qed
  have week: "due_rotation_tiers (t + 604800) = due_rotation_tiers t"
  proof -
    have "(t + 10080 * 60) div 60 = 10080 + t div 60" "(t + 168 * 3600) div 3600 = 168 + t div 3600"
      "(t + 7 * 86400) div 86400 = 7 + t div 86400"
      by (rule div_mult_self1, simp)+
    then have d: "(t + 604800) div 60 = t div 60 + 168 * 60" "(t + 604800) div 3600 = t div 3600 + 7 * 24"
      "(t + 604800) div 86400 = t div 86400 + 7" by simp_all
    have "(t div 86400 + 7 + 4) mod 7 = (t div 86400 + 4 + 7) mod 7" by (rule arg_cong [of _ _ "\<lambda>n. n mod 7"]) simp
    then have "local_minute (t + 604800) = local_minute t" "local_hour (t + 604800) = local_hour t"
      "local_weekday (t + 604800) = local_weekday t"
      unfolding local_minute_def local_hour_def local_weekday_def d by (simp_all only: mod_mult_self1 mod_add_self2)
    then show ?thesis by (simp add: due_rotation_tiers_def)
  qed
  have "\<exists>!d. d \<in> {0..<7} \<and> (t + d + 4) mod 7 = 6"
  proof
    show "(2 - t) mod 7 \<in> {0..<7} \<and> (t + (2 - t) mod 7 + 4) mod 7 = 6" by (simp, presburger)
    show "d \<in> {0..<7} \<and> (t + d + 4) mod 7 = 6 \<Longrightarrow> d = (2 - t) mod 7" for d by (simp, presburger)
  qed
  moreover have "due_rotation_tiers (86400 * d) = [''weekly''] \<longleftrightarrow> (d + 4) mod 7 = 6" for d by (simp add: midnight)
  ultimately have "\<exists>!d. d \<in> {0..<7} \<and> due_rotation_tiers (86400 * (t + d)) = [''weekly'']"
    by (simp del: distrib_left_numeral)
  moreover have "local_minute t \<noteq> 0 \<longrightarrow> due_rotation_tiers t = []"
    "local_minute t = 0 \<longrightarrow> (\<exists>tier\<in>{''hourly'', ''daily'', ''weekly''}. due_rotation_tiers t = [tier])"
    by (simp_all add: due_rotation_tiers_def)
  ultimately show ?thesis using midnight week by simp
qed

theorem rotation_tiers_partition_witness:
  "due_rotation_tiers 172800 = [''weekly''] \<and> due_rotation_tiers (172800 + 604800) = due_rotation_tiers 172800
    \<and> due_rotation_tiers 60 = []"
proof -
  have "local_minute 60 \<noteq> 0" by (simp add: local_minute_def)
  then have "due_rotation_tiers 60 = []" using rotation_tiers_partition [of 60] by blast
  moreover have "due_rotation_tiers 172800 = [''weekly'']"
    by (simp add: due_rotation_tiers_def local_minute_def local_hour_def local_weekday_def)
  ultimately show ?thesis using rotation_tiers_partition [of 172800] by simp
qed

text \<open>Grouping by priority loses and invents nothing: the groups hold the entries, each in the range of
  ten its priority falls in, the ranges ascend without repetition, no group is empty and inside one
  the priorities ascend.\<close>
theorem priority_groups_partition:
  "mset (concat (map snd (group_by_priority es))) = mset es
   \<and> sorted_wrt (<) (map fst (group_by_priority es))
   \<and> list_all (\<lambda>(r, grp). grp \<noteq> [] \<and> sorted (map pr_priority grp) \<and> list_all (\<lambda>e. r - 10 < pr_priority e \<and> pr_priority e \<le> r) grp)
       (group_by_priority es)"
proof -
  have count: "mset (concat (map (\<lambda>r. sort_key k (filter (\<lambda>e. b e = r) es)) rs)) = filter_mset (\<lambda>e. b e \<in> set rs) (mset es)"
    if "distinct rs" for rs and k b :: "priority_entry \<Rightarrow> int" and es
    using that
  proof (induction rs)
    case (Cons r rs)
    have "filter_mset (\<lambda>e. b e = r \<or> b e \<in> set rs) (mset es) =
        filter_mset (\<lambda>e. b e = r) (mset es) + filter_mset (\<lambda>e. b e \<in> set rs) (mset es)"
      using Cons.prems by (induction es) auto
    then show ?case using Cons by simp
  qed simp
  let ?rs = "sort (remdups (map bucket es))"
  have rs: "distinct ?rs" "set ?rs = bucket ` set es" "sorted ?rs" by auto
  have "mset (concat (map snd (group_by_priority es))) = filter_mset (\<lambda>e. bucket e \<in> set ?rs) (mset es)"
    using count [OF rs(1), of pr_priority bucket es] by (simp add: group_by_priority_def comp_def)
  also have "\<dots> = mset es" using rs(2) by (simp add: filter_mset_eq_conv)
  finally have "mset (concat (map snd (group_by_priority es))) = mset es" .
  moreover have "map fst (group_by_priority es) = ?rs" by (simp add: group_by_priority_def comp_def)
  then have "sorted_wrt (<) (map fst (group_by_priority es))"
    using rs(1,3) by (simp add: strict_sorted_iff)
  moreover have range: "bucket e - 10 < pr_priority e" "pr_priority e \<le> bucket e" for e
    unfolding bucket_def by presburger+
  then have "list_all (\<lambda>(r, grp). grp \<noteq> [] \<and> sorted (map pr_priority grp)
      \<and> list_all (\<lambda>e. r - 10 < pr_priority e \<and> pr_priority e \<le> r) grp) (group_by_priority es)"
    using rs(2) by (auto simp: group_by_priority_def list_all_iff filter_empty_conv) (metis range)+
  ultimately show ?thesis by blast
qed

subsection \<open>The boot order\<close>

definition boot_rows :: "draws \<Rightarrow> nat \<Rightarrow> (string \<times> int) list \<Rightarrow> task list" where
  "boot_rows draw n cs = map (\<lambda>(i, c). new_row (fst (draw i)) (snd (draw i)) (boot_task (fst c))) (enumerate n cs)"

lemma startup_rows:
  assumes "fresh_from draw 0 st"
  shows "rows (startup_orchestration g draw live ms st) = rows st @ boot_rows draw 0 (boot_candidates g live ms)"
proof -
  have "rows (snd (fold (\<lambda>c (n, s). (Suc n, snd (create (fst (draw n)) (snd (draw n)) (boot_task (fst c)) s))) cs (n, st)))
      = rows st @ boot_rows draw n cs" if "fresh_from draw n st" for cs n st
    using that
  proof (induction cs arbitrary: n st)
    case (Cons c cs)
    have "get st (fst (draw n)) = None" using Cons.prems by (simp add: fresh_from_def)
    then show ?case using Cons.IH [OF fresh_create [OF Cons.prems]] by (simp add: create_rows boot_rows_def)
  qed (simp add: boot_rows_def)
  then show ?thesis using assms by (simp add: startup_orchestration_def)
qed

lemma boot_row_fields:
  "machine_name (new_row i now (boot_task m)) = m" "operation (new_row i now (boot_task m)) = start_op"
  "status (new_row i now (boot_task m)) = Pending" "depends_on (new_row i now (boot_task m)) = None"
  "priority (new_row i now (boot_task m)) = priority_high"
  "pick_key (new_row i now (boot_task m)) = (- priority_high, now)"
  by (simp_all add: new_row_def boot_task_def create_status_def pick_key_def priority_high_def)

lemma eligible_append:
  assumes "list_all (\<lambda>t. status t = Pending) new" and "t \<in> set (rows st)" and "rows st' = rows st @ new"
  shows "eligible busy st' t \<longleftrightarrow> eligible busy st t"
  using assms by (auto simp: eligible_def dependency_met_def list_ex_iff list_all_iff split: option.split) 

text \<open>The boot queues one start task for each autostart machine that is not running, in descending order of
  boot priority, and the task queue picks the one of highest boot priority first (its machine free and
  no other eligible task of high priority waiting).\<close>
theorem boots_highest_first:
  assumes "fresh_from draw 0 st" and "\<forall>i j. i \<le> j \<longrightarrow> snd (draw i) \<le> snd (draw j)"
    and "boot_candidates g live ms = c # cs" and "fst c \<notin> set busy"
    and "\<forall>t\<in>set (rows st). eligible busy st t \<longrightarrow> priority t < priority_high"
  shows "(\<exists>t. next_pending busy (startup_orchestration g draw live ms st) = Some t \<and> machine_name t = fst c \<and> operation t = start_op)
    \<and> map machine_name (drop (length (rows st)) (rows (startup_orchestration g draw live ms st))) = map fst (c # cs)
    \<and> sorted_wrt (\<ge>) (map snd (c # cs))
    \<and> mset (c # cs) = mset (map (\<lambda>m. (m_name m, extract_priority (m_spec m))) (filter (boots g live) ms))"
proof -
  let ?st = "startup_orchestration g draw live ms st"
  let ?new = "boot_rows draw 0 (c # cs)"
  let ?h = "new_row (fst (draw 0)) (snd (draw 0)) (boot_task (fst c))"
  have rows: "rows ?st = rows st @ ?new" using startup_rows [OF assms(1)] assms(3) by metis
  have new: "?new = ?h # boot_rows draw 1 cs" by (simp add: boot_rows_def)
  have news: "t \<in> set (boot_rows draw n xs) \<Longrightarrow> \<exists>i\<ge>n. \<exists>m. t = new_row (fst (draw i)) (snd (draw i)) (boot_task m)" for t n xs
    by (auto simp: boot_rows_def in_set_enumerate_eq)
  have pend: "list_all (\<lambda>t. status t = Pending) ?new" using news by (fastforce simp: list_all_iff boot_row_fields)
  have h: "eligible busy ?st ?h"
    using assms(4) by (simp add: eligible_def dependency_met_def boot_row_fields)
  have low: "pick_key ?h < pick_key t" if "t \<in> set (rows st)" "eligible busy ?st t" for t
    using that assms(5) eligible_append [OF pend that(1) rows, of busy]
    by (auto simp: boot_row_fields pick_key_def less_prod_def')
  have later: "pick_key ?h \<le> pick_key t" if "t \<in> set (boot_rows draw 1 cs)" for t
    using news [OF that] assms(2) by (auto simp: boot_row_fields less_eq_prod_def)
  obtain t where t: "next_pending busy ?st = Some t"
    using h rows new next_pending_None_iff [of busy ?st] by (cases "next_pending busy ?st") auto
  obtain us vs where split: "rows ?st = us @ t # vs" and et: "eligible busy ?st t"
    and before: "\<forall>u\<in>set us. eligible busy ?st u \<longrightarrow> pick_key t < pick_key u"
    and after: "\<forall>v\<in>set vs. eligible busy ?st v \<longrightarrow> pick_key t \<le> pick_key v"
    using next_pending_head [OF t] by blast
  have "t = ?h"
  proof -
    have eq: "us @ t # vs = rows st @ ?h # boot_rows draw 1 cs" using split rows new by simp
    have "t \<notin> set (rows st)"
    proof
      assume "t \<in> set (rows st)"
      from low [OF this et] have lt: "pick_key ?h < pick_key t" .
      have "?h \<in> set us \<or> ?h = t \<or> ?h \<in> set vs" using eq by (metis in_set_conv_decomp set_ConsD Un_iff set_append)
      then show False using before after h lt by (auto dest: order.strict_trans)
    qed
    moreover have "?h \<notin> set us"
    proof
      assume "?h \<in> set us"
      then have lt: "pick_key t < pick_key ?h" using before h by blast
      have "t \<in> set (rows st) \<union> {?h} \<union> set (boot_rows draw 1 cs)" using arg_cong [OF eq, of set] by auto
      with \<open>t \<notin> set (rows st)\<close> lt later [of t] show False by auto
    qed
    ultimately show ?thesis using eq
      by (auto simp: append_eq_append_conv2 Cons_eq_append_conv append_eq_Cons_conv) (metis in_set_conv_decomp)
  qed
  moreover have "map machine_name ?new = map fst (map snd (enumerate 0 (c # cs)))"
    by (simp add: boot_rows_def comp_def case_prod_beta boot_row_fields del: map_snd_enumerate)
  then have "map machine_name ?new = map fst (c # cs)" by (simp only: map_snd_enumerate)
  moreover have "sorted_wrt (\<ge>) (map snd (c # cs))"
    using sorted_sort_key [of "\<lambda>c. - snd c" "map (\<lambda>m. (m_name m, extract_priority (m_spec m))) (filter (boots g live) ms)"] assms(3)
    unfolding boot_candidates_def by (simp add: sorted_map sorted_wrt_map)
  moreover have "mset (c # cs) = mset (map (\<lambda>m. (m_name m, extract_priority (m_spec m))) (filter (boots g live) ms))"
    using mset_sort [of "\<lambda>c. - snd c"] assms(3) unfolding boot_candidates_def by metis
  ultimately show ?thesis using t rows by (auto simp: boot_row_fields)
qed

theorem boots_highest_first_witness:
  "\<exists>t. next_pending [''nas''] (startup_orchestration \<lparr>regexp_compile = (\<lambda>_. None), parse_float = (\<lambda>_. None),
      url_scheme = (\<lambda>_. None), float_plain = (\<lambda>_. ''''), float_json = (\<lambda>_. '''')\<rparr> (\<lambda>n. (replicate n CHR ''x'', 7)) {''up''}
      [\<lparr>m_name = ''web'', m_status = ''stopped'', m_uuid = Some ''u'', m_orphaned = False, m_config = None,
          m_spec = Some \<lparr>sp_settings = [(''boot_priority'', JInt 10)], sp_vbox = [(''autostart'', JObj [(''enabled'', JBool True)])]\<rparr>\<rparr>,
       \<lparr>m_name = ''db'', m_status = ''stopped'', m_uuid = Some ''v'', m_orphaned = False, m_config = None,
          m_spec = Some \<lparr>sp_settings = [(''boot_priority'', JInt 90)], sp_vbox = [(''autostart'', JObj [(''enabled'', JBool True)])]\<rparr>\<rparr>]
      \<lparr>rows = [], has_notify = False, notified = []\<rparr>) = Some t \<and> machine_name t = ''db''"
proof -
  let ?g = "\<lparr>regexp_compile = (\<lambda>_. None), parse_float = (\<lambda>_. None),
      url_scheme = (\<lambda>_. None), float_plain = (\<lambda>_. ''''), float_json = (\<lambda>_. '''')\<rparr>"
  let ?draw = "\<lambda>n. (replicate n CHR ''x'', 7)"
  let ?ms = "[\<lparr>m_name = ''web'', m_status = ''stopped'', m_uuid = Some ''u'', m_orphaned = False, m_config = None,
          m_spec = Some \<lparr>sp_settings = [(''boot_priority'', JInt 10)], sp_vbox = [(''autostart'', JObj [(''enabled'', JBool True)])]\<rparr>\<rparr>,
       \<lparr>m_name = ''db'', m_status = ''stopped'', m_uuid = Some ''v'', m_orphaned = False, m_config = None,
          m_spec = Some \<lparr>sp_settings = [(''boot_priority'', JInt 90)], sp_vbox = [(''autostart'', JObj [(''enabled'', JBool True)])]\<rparr>\<rparr>]"
  let ?st = "\<lparr>rows = [], has_notify = False, notified = []\<rparr>"
  have "inj (fst \<circ> ?draw)" by (rule injI) (metis comp_apply fst_conv length_replicate)
  then have f: "fresh_from ?draw 0 ?st" by (simp add: fresh_from_def get_def)
  have mono: "\<forall>i j. i \<le> j \<longrightarrow> snd (?draw i) \<le> (snd (?draw j) :: int)" by simp
  have cands: "boot_candidates ?g {''up''} ?ms = (''db'', 90) # [(''web'', 10)]"
    by (simp add: boot_candidates_def boots_def on_off_def map_or_def field_def extract_priority_def status_running_def int64_ok_def)
  have free: "fst (''db'', 90 :: int) \<notin> set [''nas'']" by simp
  have low: "\<forall>t\<in>set (rows ?st). eligible [''nas''] ?st t \<longrightarrow> priority t < priority_high" by simp
  from boots_highest_first [OF f mono cands free low] show ?thesis by auto
qed

end
