(* ===== verification/Ip.thy ===== *)
theory Ip
  imports Texts "HOL-Library.Word"
begin

text \<open>
  What the code uses of Go's \<^verbatim>\<open>net.IP\<close> and \<^verbatim>\<open>net.IPNet\<close>: parsing and printing of addresses and CIDR
  notation. An address is its 16-byte form, a 128-bit word; IPv4 addresses are the words under the
  prefix \<^verbatim>\<open>::ffff:0:0/96\<close>. \<open>IpLaws\<close> shows that parsing undoes printing.
\<close>

unbundle bit_operations_syntax

type_synonym ip = "128 word"

subsection \<open>Digits of a number\<close>

text \<open>The last \<open>k\<close> digits of \<open>n\<close> in base \<open>b\<close>, highest first, and back.\<close>

fun base_digits :: "nat \<Rightarrow> nat \<Rightarrow> nat \<Rightarrow> nat list" where
  "base_digits b 0 n = []"
| "base_digits b (Suc k) n = base_digits b k (n div b) @ [n mod b]"

definition horner :: "nat \<Rightarrow> nat list \<Rightarrow> nat" where
  "horner b ds = foldl (\<lambda>n d. b * n + d) 0 ds"

definition group_digit :: "nat \<Rightarrow> char" where
  "group_digit d = char_of (if d < 10 then 48 + d else 87 + d)"

function group_text :: "nat \<Rightarrow> string" where
  "group_text n = (if n < 16 then [group_digit n] else group_text (n div 16) @ [group_digit (n mod 16)])"
  by pat_completeness auto
termination by (relation "measure id") auto

declare group_text.simps [simp del]

definition hex_value :: "char \<Rightarrow> nat option" where
  "hex_value c = (let n = of_char c :: nat in
     if 48 \<le> n \<and> n \<le> 57 then Some (n - 48) else if 97 \<le> n \<and> n \<le> 102 then Some (n - 87)
     else if 65 \<le> n \<and> n \<le> 70 then Some (n - 55) else None)"

definition hex_char :: "char \<Rightarrow> bool" where
  "hex_char c \<longleftrightarrow> hex_value c \<noteq> None"

definition hexes_value :: "string \<Rightarrow> nat" where
  "hexes_value s = foldl (\<lambda>n c. 16 * n + opt_default 0 (hex_value c)) 0 s"

subsection \<open>IPv4\<close>

definition embed4 :: "32 word \<Rightarrow> ip" where
  "embed4 w = 0xFFFF00000000 + ucast w"

definition to4 :: "ip \<Rightarrow> 32 word option" where
  "to4 a = (if drop_bit 32 a = 0xFFFF then Some (ucast a) else None)"

definition dotted :: "32 word \<Rightarrow> string" where
  "dotted w = join_with ''.'' (map nat_text (base_digits 256 4 (unat w)))"

definition octet_text :: "string \<Rightarrow> bool" where
  "octet_text p \<longleftrightarrow> p \<noteq> [] \<and> list_all digit_char p \<and> (1 < length p \<longrightarrow> hd p \<noteq> CHR ''0'') \<and> digits_value p \<le> 255"

definition parse_dotted :: "string \<Rightarrow> 32 word option" where
  "parse_dotted s =
    (let parts = split_char CHR ''.'' s
     in if length parts = 4 \<and> list_all octet_text parts then Some (of_nat (horner 256 (map digits_value parts))) else None)"

subsection \<open>IPv6\<close>

text \<open>
  The parser reads groups of at most four hexadecimal digits; \<open>e\<close> is the position of a double colon, if one
  was seen. The last two groups may be in IPv4 notation. The first argument is the number of groups
  there is still room for.
\<close>

fun v6_groups :: "nat \<Rightarrow> nat list \<Rightarrow> nat option \<Rightarrow> string \<Rightarrow> (nat list \<times> nat option \<times> string) option" where
  "v6_groups 0 gs e s = Some (gs, e, s)"
| "v6_groups (Suc k) gs e s =
    (let hs = takeWhile hex_char s; rest = dropWhile hex_char s; gs' = gs @ [hexes_value hs]
     in if hs = [] \<or> 4 < length hs then None
        else if rest = [] then Some (gs', e, [])
        else if hd rest = CHR ''.'' then
          (if (e = None \<and> length gs \<noteq> 6) \<or> k = 0 then None
           else case parse_dotted s of None \<Rightarrow> None | Some w \<Rightarrow> Some (gs @ base_digits 65536 2 (unat w), e, []))
        else if hd rest \<noteq> CHR '':'' \<or> tl rest = [] then None
        else if hd (tl rest) = CHR '':'' then
          (if e \<noteq> None then None
           else if tl (tl rest) = [] then Some (gs', Some (length gs'), [])
           else v6_groups k gs' (Some (length gs')) (tl (tl rest)))
        else v6_groups k gs' e (tl rest))"

definition v6_fill :: "nat list \<Rightarrow> nat option \<Rightarrow> nat list option" where
  "v6_fill gs e =
    (if length gs < 8 then
       (case e of None \<Rightarrow> None | Some i \<Rightarrow> Some (take i gs @ replicate (8 - length gs) 0 @ drop i gs))
     else if e \<noteq> None then None else Some gs)"

definition parse_v6 :: "string \<Rightarrow> ip option" where
  "parse_v6 s =
    (let lead = take 2 s = ''::'' in
     if lead \<and> length s = 2 then Some 0
     else case (if lead then v6_groups 8 [] (Some 0) (drop 2 s) else v6_groups 8 [] None s) of
       None \<Rightarrow> None
     | Some (gs, e, rest) \<Rightarrow>
         if rest \<noteq> [] then None else map_option (\<lambda>gs. of_nat (horner 65536 gs)) (v6_fill gs e))"

text \<open>The longest run of at least two zero groups, the first of that length.\<close>

definition zeros_at :: "nat list \<Rightarrow> nat \<Rightarrow> nat" where
  "zeros_at gs i = length (takeWhile (\<lambda>g. g = 0) (drop i gs))"

definition zero_run :: "nat list \<Rightarrow> (nat \<times> nat) option" where
  "zero_run gs = fold (\<lambda>i best. if 2 \<le> zeros_at gs i \<and> opt_default 0 (map_option snd best) < zeros_at gs i
     then Some (i, zeros_at gs i) else best) [0..<length gs] None"

definition v6_text :: "nat list \<Rightarrow> string" where
  "v6_text gs =
    (case zero_run gs of
       None \<Rightarrow> join_with '':'' (map group_text gs)
     | Some (i, l) \<Rightarrow> join_with '':'' (map group_text (take i gs)) @ ''::'' @ join_with '':'' (map group_text (drop (i + l) gs)))"

subsection \<open>Addresses\<close>

text \<open>\<^verbatim>\<open>netip.ParseAddr\<close>: the first dot or colon decides; \<open>Inl\<close> is an IPv4 text. A zone makes \<^verbatim>\<open>net\<close> refuse.\<close>

definition parse_addr :: "string \<Rightarrow> (32 word + ip) option" where
  "parse_addr s =
    (case find (\<lambda>c. c \<in> {CHR ''.'', CHR '':'', CHR ''%''}) s of
       Some c \<Rightarrow>
         if c = CHR ''.'' then map_option Inl (parse_dotted s)
         else if c = CHR '':'' \<and> CHR ''%'' \<notin> set s then map_option Inr (parse_v6 s) else None
     | None \<Rightarrow> None)"

definition parse_ip :: "string \<Rightarrow> ip option" where
  "parse_ip s = map_option (case_sum embed4 id) (parse_addr s)"

definition ip_text :: "ip \<Rightarrow> string" where
  "ip_text a = (case to4 a of Some w \<Rightarrow> dotted w | None \<Rightarrow> v6_text (base_digits 65536 8 (unat a)))"

text \<open>\<^verbatim>\<open>net.ParseCIDR\<close>: the address and the length of its mask.\<close>

definition parse_cidr :: "string \<Rightarrow> (ip \<times> nat) option" where
  "parse_cidr s =
    (let addr = takeWhile (\<lambda>c. c \<noteq> CHR ''/'') s; rest = dropWhile (\<lambda>c. c \<noteq> CHR ''/'') s
     in if rest = [] then None
        else case parse_addr addr of
          None \<Rightarrow> None
        | Some a \<Rightarrow>
            let bits = (case a of Inl _ \<Rightarrow> 32 | Inr _ \<Rightarrow> 128); ds = tl rest
            in if ds = [] \<or> \<not> list_all digit_char ds \<or> bits < digits_value ds then None
               else Some (case_sum embed4 id a, digits_value ds))"

text \<open>An \<^verbatim>\<open>net.IPNet\<close> whose mask has \<open>net_ones\<close> leading ones (32 bits for IPv4, 128 for IPv6).\<close>

record ip_net =
  net_ip :: ip
  net_ones :: nat

definition net_text :: "ip_net \<Rightarrow> string" where
  "net_text n = ip_text (net_ip n) @ ''/'' @ nat_text (net_ones n)"

definition mask4 :: "nat \<Rightarrow> 32 word" where
  "mask4 ones = NOT (mask (32 - ones))"

end
