(* ===== verification/HostNet.thy ===== *)
theory HostNet
  imports Ip TaskStore Access
begin

text \<open>
  The host's name and addresses: the handlers of \<^verbatim>\<open>internal/server/netconfig.go\<close>,
  \<^verbatim>\<open>netaddresses.go\<close> and \<^verbatim>\<open>netconfig_addresses.go\<close>, which refuse a request or queue a task, and the executors
  of \<^verbatim>\<open>internal/netaddr\<close> and \<^verbatim>\<open>internal/hostname\<close>, which run the platform's tools. A run is the list
  of the commands it executed and of what it wrote to the task's output; the tools answer as a
  parameter says.
\<close>

definition nl :: string where
  "nl = [CHR 0x0A]"

subsection \<open>What a request and an executor meet\<close>

text \<open>
  \<open>goos\<close> is \<^verbatim>\<open>runtime.GOOS\<close>; an interface or the whole enumeration may be unreadable, and \<open>lookup_error\<close> is
  what the lookup of an interface's addresses then says.
\<close>

record nic =
  nic_name :: string
  nic_up :: bool
  nic_addrs :: "ip_net list option"

type_synonym tools = "string list list \<Rightarrow> string list \<Rightarrow> string \<times> string option"

record host_env =
  goos :: string
  nics :: "nic list option"
  lookup_error :: "string \<Rightarrow> string"
  tools_of :: tools
  hostnamectl_found :: bool
  etc_write_error :: "string option"
  task_id_of :: string
  now_of :: time
  caller :: string
  store_error_text :: "store_error \<Rightarrow> string"

record tool_run =
  ran :: "string list list"
  out_log :: "(string \<times> string) list"

datatype host_error =
    NoMetadata
  | BadAddrObj string
  | NoInterface string
  | NotAnAddress string
  | NotCarried string string "string list"
  | CarriesNone string string
  | CarriesSeveral string string "string list"
  | DhcpElsewhere
  | TypeNotCreatable string
  | NotCidr string
  | UnreadableCidr string
  | ToolFailed string string
  | IllegalHostname string
  | EtcNotWritten string

type_synonym execution = "tool_run \<Rightarrow> tool_run \<times> host_error option"

text \<open>\<open>nil\<close> goes on, an error returns.\<close>

definition next_do :: "execution \<Rightarrow> execution \<Rightarrow> execution" where
  "next_do a b r = (case a r of (r', None) \<Rightarrow> b r' | (r', Some e) \<Rightarrow> (r', Some e))"

definition fails :: "host_error \<Rightarrow> execution" where
  "fails e r = (r, Some e)"

definition emit :: "string \<Rightarrow> string \<Rightarrow> execution" where
  "emit stream txt r = (r\<lparr>out_log := out_log r @ [(stream, txt @ nl)]\<rparr>, None)"

definition run_tool :: "host_env \<Rightarrow> string \<Rightarrow> string list \<Rightarrow> execution" where
  "run_tool env noun argv r =
    (case tools_of env (ran r) argv of
       (combined, failed) \<Rightarrow>
         (let r1 = fst (emit ''stdout'' (''Executing: '' @ join_with '' '' argv) r);
              r2 = r1\<lparr>ran := ran r @ [argv]\<rparr>;
              r3 = (if combined = '''' then r2 else r2\<lparr>out_log := out_log r2 @ [(''stdout'', combined)]\<rparr>)
          in case failed of
               None \<Rightarrow> (r3, None)
             | Some err \<Rightarrow> (fst (emit ''stderr'' (noun @ '' command failed: '' @ err) r3), Some (ToolFailed (hd argv) err))))"

subsection \<open>Address objects\<close>

record addr_meta =
  am_interface :: string
  am_type :: string
  am_addrobj :: string
  am_address :: string
  am_current :: string
  am_primary :: bool
  am_wait :: int
  am_temporary :: bool
  am_down :: bool
  am_release :: bool

definition no_meta :: addr_meta where
  "no_meta = \<lparr>am_interface = '''', am_type = '''', am_addrobj = '''', am_address = '''', am_current = '''',
     am_primary = False, am_wait = 0, am_temporary = False, am_down = False, am_release = False\<rparr>"

text \<open>The document of a task: the struct's fields in order, empty ones left out.\<close>

definition json_members :: "(string \<times> string) list \<Rightarrow> string" where
  "json_members ms = ''{'' @ join_with '','' (map (\<lambda>(k, v). json_string k @ '':'' @ v) ms) @ ''}''"

definition str_member :: "string \<Rightarrow> string \<Rightarrow> (string \<times> string) list" where
  "str_member k s = (if s = '''' then [] else [(k, json_string s)])"

definition bool_member :: "string \<Rightarrow> bool \<Rightarrow> (string \<times> string) list" where
  "bool_member k b = (if b then [(k, ''true'')] else [])"

definition metadata_json :: "addr_meta \<Rightarrow> string" where
  "metadata_json m = json_members
    (str_member ''interface'' (am_interface m) @ str_member ''type'' (am_type m) @ [(''addrobj'', json_string (am_addrobj m))]
     @ str_member ''address'' (am_address m) @ str_member ''current'' (am_current m) @ bool_member ''primary'' (am_primary m)
     @ (if am_wait m = 0 then [] else [(''wait'', int_text (am_wait m))])
     @ bool_member ''temporary'' (am_temporary m) @ bool_member ''down'' (am_down m) @ bool_member ''release'' (am_release m))"

definition split_addrobj :: "string \<Rightarrow> (string \<times> string) option" where
  "split_addrobj s =
    (let version = rev (takeWhile (\<lambda>c. c \<noteq> CHR ''/'') (rev s)); iface = take (length s - length version - 1) s
     in if CHR ''/'' \<notin> set s \<or> iface = '''' \<or> (version \<noteq> ''v4'' \<and> version \<noteq> ''v6'') then None else Some (iface, version))"

definition nic_by_name :: "host_env \<Rightarrow> string \<Rightarrow> nic option" where
  "nic_by_name env name = (case nics env of None \<Rightarrow> None | Some ns \<Rightarrow> find (\<lambda>n. nic_name n = name) ns)"

definition interface_addresses :: "host_env \<Rightarrow> string \<Rightarrow> string \<Rightarrow> string list option" where
  "interface_addresses env iface version =
    (case nic_by_name env iface of
       None \<Rightarrow> None
     | Some n \<Rightarrow> map_option
         (\<lambda>as. map net_text (filter (\<lambda>a. (version = ''v4'') = (to4 (net_ip a) \<noteq> None)) as)) (nic_addrs n))"

subsection \<open>The address executors\<close>

definition mask_text :: "nat \<Rightarrow> string" where
  "mask_text prefix = (if prefix \<le> 32 then dotted (mask4 prefix) else ''<nil>'')"

definition skipped :: "string \<Rightarrow> bool \<Rightarrow> execution" where
  "skipped name is_set =
    (if is_set then emit ''stderr'' (name @ '' has no analog on this platform (ipadm vocabulary) '' @ em_dash @ '' skipped'')
     else (\<lambda>r. (r, None)))"

definition add_command :: "string \<Rightarrow> addr_meta \<Rightarrow> ip \<Rightarrow> nat \<Rightarrow> string list" where
  "add_command os m a prefix =
    (let v4 = (to4 a \<noteq> None) in
     if os = ''windows'' then
       (if v4 then [''netsh'', ''interface'', ''ipv4'', ''add'', ''address'', ''name='' @ am_interface m,
          ''addr='' @ ip_text a, ''mask='' @ mask_text prefix]
        else [''netsh'', ''interface'', ''ipv6'', ''add'', ''address'', ''interface='' @ am_interface m,
          ''address='' @ ip_text a @ ''/'' @ nat_text prefix])
     else if os = ''darwin'' then
       (if v4 then [''ifconfig'', am_interface m, ''alias'', ip_text a, ''netmask'', mask_text prefix]
        else [''ifconfig'', am_interface m, ''inet6'', ip_text a, ''prefixlen'', nat_text prefix, ''alias''])
     else [''ip'', ''addr'', ''add'', am_address m, ''dev'', am_interface m])"

definition create_address :: "host_env \<Rightarrow> addr_meta \<Rightarrow> execution" where
  "create_address env m =
    next_do (skipped ''primary'' (am_primary m)) (next_do (skipped ''temporary'' (am_temporary m)) (next_do (skipped ''down'' (am_down m))
     (if am_type m = ''dhcp'' then
        (if goos env \<noteq> ''windows'' then fails DhcpElsewhere
         else next_do (run_tool env ''Address'' [''netsh'', ''interface'', ''ipv4'', ''set'', ''address'', ''name='' @ am_interface m, ''source=dhcp''])
           (emit ''stdout'' (''Interface '' @ am_interface m @ '' switched to DHCP'')))
      else if am_type m \<noteq> ''static'' then fails (TypeNotCreatable (am_type m))
      else case parse_cidr (am_address m) of
        None \<Rightarrow> fails (NotCidr (am_address m))
      | Some (a, prefix) \<Rightarrow>
          next_do (if goos env = ''darwin'' then emit ''stdout''
              ''macOS note: the address applies live (ifconfig) and does not persist across reboot'' else (\<lambda>r. (r, None)))
           (next_do (run_tool env ''Address'' (add_command (goos env) m a prefix))
             (emit ''stdout'' (''Address '' @ am_address m @ '' added to '' @ am_interface m))))))"

definition resolve_delete :: "host_env \<Rightarrow> addr_meta \<Rightarrow> host_error + string \<times> string \<times> bool" where
  "resolve_delete env m =
    (case split_addrobj (am_addrobj m) of
       None \<Rightarrow> Inl (BadAddrObj (am_addrobj m))
     | Some (iface, version) \<Rightarrow>
         (case interface_addresses env iface version of
            None \<Rightarrow> Inl (NoInterface iface)
          | Some live \<Rightarrow>
              if am_address m \<noteq> '''' then
                (case (case parse_cidr (am_address m) of Some (a, _) \<Rightarrow> Some a | None \<Rightarrow> parse_ip (am_address m)) of
                   None \<Rightarrow> Inl (NotAnAddress (am_address m))
                 | Some want \<Rightarrow>
                     (case find (\<lambda>c. case parse_cidr c of Some (a, _) \<Rightarrow> a = want | None \<Rightarrow> False) live of
                        Some c \<Rightarrow> Inr (iface, c, version = ''v4'')
                      | None \<Rightarrow> Inl (NotCarried iface (am_address m) live)))
              else (case live of
                 [] \<Rightarrow> Inl (CarriesNone iface version)
               | [c] \<Rightarrow> Inr (iface, c, version = ''v4'')
               | _ \<Rightarrow> Inl (CarriesSeveral iface version live))))"

definition delete_command :: "string \<Rightarrow> string \<Rightarrow> bool \<Rightarrow> ip \<Rightarrow> nat \<Rightarrow> string list" where
  "delete_command os iface v4 a prefix =
    (if os = ''windows'' then
       (if v4 then [''netsh'', ''interface'', ''ipv4'', ''delete'', ''address'', ''name='' @ iface, ''addr='' @ ip_text a]
        else [''netsh'', ''interface'', ''ipv6'', ''delete'', ''address'', ''interface='' @ iface, ''address='' @ ip_text a])
     else if os = ''darwin'' then
       (if v4 then [''ifconfig'', iface, ''-alias'', ip_text a] else [''ifconfig'', iface, ''inet6'', ip_text a, ''-alias''])
     else [''ip'', ''addr'', ''del'', ip_text a @ ''/'' @ nat_text prefix, ''dev'', iface])"

definition remove_address :: "host_env \<Rightarrow> string \<Rightarrow> string \<Rightarrow> bool \<Rightarrow> execution" where
  "remove_address env iface cidr v4 =
    (case parse_cidr cidr of
       None \<Rightarrow> fails (UnreadableCidr cidr)
     | Some (a, prefix) \<Rightarrow>
         next_do (run_tool env ''Address'' (delete_command (goos env) iface v4 a prefix))
           (emit ''stdout'' (''Address '' @ cidr @ '' removed from '' @ iface)))"

definition release_lease :: "host_env \<Rightarrow> string \<Rightarrow> execution" where
  "release_lease env iface r =
    (if goos env = ''windows'' then
       (case run_tool env ''Address'' [''ipconfig'', ''/release'', iface] r of
          (r', Some (ToolFailed tool err)) \<Rightarrow> emit ''stderr'' (''DHCP release failed (continuing with the delete): '' @ tool @ '': '' @ err) r'
        | (r', _) \<Rightarrow> (r', None))
     else emit ''stderr'' (''release has no analog on this platform '' @ em_dash @ '' skipped'') r)"

definition delete_address :: "host_env \<Rightarrow> addr_meta \<Rightarrow> execution" where
  "delete_address env m =
    (case resolve_delete env m of
       Inl e \<Rightarrow> fails e
     | Inr (iface, cidr, v4) \<Rightarrow>
         next_do (if am_release m then release_lease env iface else (\<lambda>r. (r, None))) (remove_address env iface cidr v4))"

definition modify_address :: "host_env \<Rightarrow> addr_meta \<Rightarrow> execution" where
  "modify_address env m =
    (if am_current m \<noteq> '''' then
       (case resolve_delete env (no_meta\<lparr>am_addrobj := am_addrobj m, am_address := am_current m\<rparr>) of
          Inl e \<Rightarrow> fails e
        | Inr (iface, cidr, v4) \<Rightarrow> next_do (remove_address env iface cidr v4) (create_address env m))
     else create_address env m)"

definition interface_toggle :: "host_env \<Rightarrow> bool \<Rightarrow> addr_meta \<Rightarrow> execution" where
  "interface_toggle env up m =
    (case split_addrobj (am_addrobj m) of
       None \<Rightarrow> fails (BadAddrObj (am_addrobj m))
     | Some (iface, _) \<Rightarrow>
         (let word_of = (if up then ''enabled'' else ''disabled''); state_of = (if up then ''up'' else ''down'') in
          next_do (emit ''stdout'' (''Interface-level toggle: this platform has no per-address enable '' @ em_dash @ '' '' @ iface
              @ '' itself is being '' @ word_of))
           (next_do (run_tool env ''Address''
               (if goos env = ''windows'' then [''netsh'', ''interface'', ''set'', ''interface'', ''name='' @ iface, ''admin='' @ word_of]
                else if goos env = ''darwin'' then [''ifconfig'', iface, state_of]
                else [''ip'', ''link'', ''set'', ''dev'', iface, state_of]))
             (emit ''stdout'' (''Interface '' @ iface @ '' '' @ word_of)))))"

text \<open>The executor of an operation, on the task's document, \<open>None\<close> when absent or unreadable.\<close>

definition op_create :: string where "op_create = ''create_ip_address''"
definition op_delete :: string where "op_delete = ''delete_ip_address''"
definition op_enable :: string where "op_enable = ''enable_ip_address''"
definition op_disable :: string where "op_disable = ''disable_ip_address''"
definition op_modify :: string where "op_modify = ''modify_ip_address''"

definition with_meta :: "addr_meta option \<Rightarrow> (addr_meta \<Rightarrow> execution) \<Rightarrow> execution" where
  "with_meta m k = (case m of None \<Rightarrow> fails NoMetadata | Some m \<Rightarrow> k m)"

definition address_executor :: "host_env \<Rightarrow> string \<Rightarrow> (addr_meta option \<Rightarrow> execution) option" where
  "address_executor env op =
    map_option (\<lambda>k m. with_meta m k) (map_of
      [(op_create, create_address env), (op_delete, delete_address env), (op_enable, interface_toggle env True),
       (op_disable, interface_toggle env False), (op_modify, modify_address env)] op)"

subsection \<open>The address handlers\<close>

text \<open>What a handler answers: a refusal with its status and text, or the queued task.\<close>

record addr_response =
  ar_message :: string
  ar_task_id :: string
  ar_addrobj :: string
  ar_type :: string
  ar_interface :: string
  ar_release :: "bool option"
  ar_note :: string

datatype addr_answer =
    AddrRefused nat string
  | AddrQueued string addr_meta addr_response

definition queued_response :: "string \<Rightarrow> addr_response" where
  "queued_response msg = \<lparr>ar_message = msg, ar_task_id = '''', ar_addrobj = '''', ar_type = '''', ar_interface = '''',
     ar_release = None, ar_note = ''''\<rparr>"

definition netconfig_error :: "string \<Rightarrow> string \<Rightarrow> string" where
  "netconfig_error txt details = (if details \<noteq> '''' then txt @ '': '' @ details else txt)"

definition system_task :: "host_env \<Rightarrow> string \<Rightarrow> int \<Rightarrow> string \<Rightarrow> new_task" where
  "system_task env op prio doc =
    \<lparr>nt_machine_name = ''system'', nt_operation = op, nt_priority = prio, nt_created_by = caller env,
     nt_depends_on = None, nt_parent_task_id = None, nt_metadata = Some doc, nt_parent = False, nt_prepared = False,
     nt_notify = None\<rparr>"

definition queue_address_task :: "host_env \<Rightarrow> string \<Rightarrow> addr_meta \<Rightarrow> addr_response \<Rightarrow> store \<Rightarrow> addr_answer \<times> store" where
  "queue_address_task env op m resp st =
    (case create (task_id_of env) (now_of env) (system_task env op priority_medium (metadata_json m)) st of
       (Inl e, st') \<Rightarrow> (AddrRefused 500 (netconfig_error (''Failed to create '' @ op @ '' task'') (store_error_text env e)), st')
     | (Inr t, st') \<Rightarrow> (AddrQueued op m (resp\<lparr>ar_task_id := task_id t, ar_addrobj := am_addrobj m\<rparr>), st'))"

definition address_type_problem :: "host_env \<Rightarrow> string \<Rightarrow> string \<Rightarrow> string" where
  "address_type_problem env kind address =
    (if kind = ''static'' then (if address = '''' then ''address is required for static type'' else '''')
     else if kind = ''dhcp'' then
       (if goos env \<noteq> ''windows'' then
          ''dhcp address creation is Windows-only on this agent (no cross-distro verb on '' @ goos env @ '')'' else '''')
     else if kind = ''addrconf'' then ''addrconf has no verb on this agent '' @ em_dash @ '' IPv6 SLAAC configures itself''
     else if kind = '''' then ''type is required''
     else ''type must be one of: static, dhcp, addrconf'')"

definition addrobj_form :: string where
  "addrobj_form = ''addrobj must be the listing's <interface>/v4|v6 form''"

text \<open>\<open>m\<close> is the request's body in the shape of the document it becomes; \<open>None\<close> is a body that is no JSON.\<close>

definition handle_create_address :: "host_env \<Rightarrow> addr_meta option \<Rightarrow> store \<Rightarrow> addr_answer \<times> store" where
  "handle_create_address env body st =
    (case body of
       None \<Rightarrow> (AddrRefused 400 ''Invalid JSON body'', st)
     | Some m \<Rightarrow>
         if am_interface m = '''' \<or> am_type m = '''' \<or> am_addrobj m = '''' then
           (AddrRefused 400 ''interface, type, and addrobj are required'', st)
         else if address_type_problem env (am_type m) (am_address m) \<noteq> '''' then
           (AddrRefused 400 (address_type_problem env (am_type m) (am_address m)), st)
         else queue_address_task env op_create (m\<lparr>am_current := '''', am_release := False\<rparr>)
           ((queued_response (''IP address creation task created for '' @ am_addrobj m))
             \<lparr>ar_type := am_type m, ar_interface := am_interface m\<rparr>) st)"

definition handle_delete_address :: "host_env \<Rightarrow> string \<Rightarrow> string \<Rightarrow> bool \<Rightarrow> store \<Rightarrow> addr_answer \<times> store" where
  "handle_delete_address env addrobj address release st =
    (case split_addrobj addrobj of
       None \<Rightarrow> (AddrRefused 400 addrobj_form, st)
     | Some (iface, version) \<Rightarrow>
         (case interface_addresses env iface version of
            None \<Rightarrow> (AddrRefused 404 (netconfig_error (''Address object '' @ addrobj @ '' not found'') (lookup_error env iface)), st)
          | Some live \<Rightarrow>
              if address = '''' \<and> live = [] then
                (AddrRefused 404 (netconfig_error (''Address object '' @ addrobj @ '' not found'')
                  (''interface '' @ iface @ '' carries no '' @ version @ '' address'')), st)
              else if address = '''' \<and> 1 < length live then
                (AddrRefused 400 (netconfig_error (''interface '' @ iface @ '' carries several '' @ version
                  @ '' addresses '' @ em_dash @ '' disambiguate with ?address='') (join_with '', '' live)), st)
              else queue_address_task env op_delete
                (no_meta\<lparr>am_addrobj := addrobj, am_address := address, am_release := release\<rparr>)
                ((queued_response (''IP address deletion task created for '' @ addrobj))\<lparr>ar_release := Some release\<rparr>) st))"

definition handle_modify_address :: "host_env \<Rightarrow> string \<Rightarrow> string \<Rightarrow> addr_meta option \<Rightarrow> store \<Rightarrow> addr_answer \<times> store" where
  "handle_modify_address env addrobj current body st =
    (case body of
       None \<Rightarrow> (AddrRefused 400 ''Invalid JSON body'', st)
     | Some b \<Rightarrow>
         (case split_addrobj addrobj of
            None \<Rightarrow> (AddrRefused 400 addrobj_form, st)
          | Some (iface, version) \<Rightarrow>
              let interface = (if am_interface b = '''' then iface else am_interface b) in
              if address_type_problem env (am_type b) (am_address b) \<noteq> '''' then
                (AddrRefused 400 (address_type_problem env (am_type b) (am_address b)), st)
              else (case interface_addresses env iface version of
                 None \<Rightarrow> (AddrRefused 404 (netconfig_error (''Address object '' @ addrobj @ '' not found'') (lookup_error env iface)), st)
               | Some live \<Rightarrow>
                   if current = '''' \<and> live = [] then
                     (AddrRefused 404 (netconfig_error (''Address object '' @ addrobj @ '' not found'')
                       (''interface '' @ iface @ '' carries no '' @ version @ '' address'')), st)
                   else if current = '''' \<and> 1 < length live then
                     (AddrRefused 400 (netconfig_error (''interface '' @ iface @ '' carries several '' @ version
                       @ '' addresses '' @ em_dash @ '' name the one to replace with ?address='') (join_with '', '' live)), st)
                   else queue_address_task env op_modify
                     (b\<lparr>am_interface := interface, am_addrobj := addrobj,
                        am_current := (if current = '''' then hd live else current), am_release := False\<rparr>)
                     ((queued_response (''IP address modification task created for '' @ addrobj))
                       \<lparr>ar_type := am_type b, ar_interface := interface\<rparr>) st)))"

text \<open>One route takes both verbs and, without one, the edit.\<close>

definition handle_address_action :: "host_env \<Rightarrow> string \<Rightarrow> string \<Rightarrow> addr_meta option \<Rightarrow> store \<Rightarrow> addr_answer \<times> store" where
  "handle_address_action env rest current body st =
    (let verb = (case cut_suffix ''/enable'' rest of
           Some addrobj \<Rightarrow> Some (addrobj, ''enable'')
         | None \<Rightarrow> (case cut_suffix ''/disable'' rest of Some addrobj \<Rightarrow> Some (addrobj, ''disable'') | None \<Rightarrow> None))
     in case verb of
          None \<Rightarrow> handle_modify_address env rest current body st
        | Some (addrobj, action) \<Rightarrow>
            (case split_addrobj addrobj of
               None \<Rightarrow> (AddrRefused 400 addrobj_form, st)
             | Some (iface, _) \<Rightarrow>
                 queue_address_task env (if action = ''disable'' then op_disable else op_enable) (no_meta\<lparr>am_addrobj := addrobj\<rparr>)
                   ((queued_response (''IP address '' @ action @ '' task created for '' @ addrobj))\<lparr>ar_note :=
                      ''no per-address enable exists on '' @ goos env @ '' '' @ em_dash @ '' the toggle applies to interface '' @ iface @ '' itself''\<rparr>)
                   st))"

subsection \<open>Listing the addresses\<close>

record listed_address =
  la_addrobj :: string
  la_interface :: string
  la_type :: string
  la_state :: string
  la_addr :: string
  la_version :: string

definition link_local :: "ip \<Rightarrow> bool" where
  "link_local a \<longleftrightarrow> drop_bit 118 a = 0x3FA"

definition query_limit :: "int \<Rightarrow> string \<Rightarrow> int" where
  "query_limit dflt raw = (case parse_int64 raw of Some n \<Rightarrow> if 0 < n then n else dflt | None \<Rightarrow> dflt)"

definition listed :: "string \<Rightarrow> string \<Rightarrow> ip_net \<Rightarrow> listed_address" where
  "listed iface state a =
    (let version = (if to4 (net_ip a) \<noteq> None then ''v4'' else ''v6'')
     in \<lparr>la_addrobj = iface @ ''/'' @ version, la_interface = iface,
         la_type = (if version = ''v6'' \<and> link_local (net_ip a) then ''addrconf'' else ''static''),
         la_state = state, la_addr = net_text a, la_version = version\<rparr>)"

definition list_addresses :: "host_env \<Rightarrow> string \<Rightarrow> string \<Rightarrow> string \<Rightarrow> string \<Rightarrow> string \<Rightarrow> listed_address list option" where
  "list_addresses env iface version kind state limit =
    map_option (\<lambda>ns.
      take (nat (query_limit 100 limit))
        (filter (\<lambda>a. (version = '''' \<or> la_version a = version) \<and> (kind = '''' \<or> la_type a = kind))
          (concat (map (\<lambda>n.
             let up = (if nic_up n then ''ok'' else ''down'') in
             if (iface \<noteq> '''' \<and> \<not> contains_text iface (nic_name n)) \<or> (state \<noteq> '''' \<and> up \<noteq> state) then []
             else map (listed (nic_name n) up) (opt_default [] (nic_addrs n))) ns)))) (nics env)"

subsection \<open>The host name\<close>

definition host_shape :: "string \<Rightarrow> bool" where
  "host_shape s \<longleftrightarrow> s \<noteq> [] \<and> length s \<le> 253 \<and> alnum (hd s) \<and> alnum (last s)
     \<and> list_all (\<lambda>c. alnum c \<or> c = CHR ''-'' \<or> c = CHR ''.'') s"

definition label_problem :: "string \<Rightarrow> string" where
  "label_problem l =
    (if l = [] \<or> 63 < length l then ''Invalid hostname format. Each part between dots must be 1-63 characters''
     else if hd l = CHR ''-'' \<or> last l = CHR ''-'' then
       ''Invalid hostname format. Each part must start and end with alphanumeric characters''
     else '''')"

definition hostname_problem :: "string \<Rightarrow> string" where
  "hostname_problem name =
    (if \<not> host_shape name then
       ''Invalid hostname format. Must be alphanumeric with hyphens and dots, 1-253 characters''
     else case filter (\<lambda>e. e \<noteq> '''') (map label_problem (split_char CHR ''.'' name)) of [] \<Rightarrow> '''' | e # _ \<Rightarrow> e)"

datatype hostname_answer =
    HostnameUnreadable
  | HostnameInvalid problem
  | HostnameNotQueued string
  | HostnameQueued string string bool bool

definition op_hostname :: string where
  "op_hostname = ''set_hostname''"

definition hostname_json :: "string \<Rightarrow> bool \<Rightarrow> string" where
  "hostname_json name immediately = json_members
    [(''hostname'', json_string name), (''apply_immediately'', if immediately then ''true'' else ''false'')]"

text \<open>\<open>body\<close> is \<open>None\<close> for an unreadable body, its name \<open>None\<close> for a missing one.\<close>

definition handle_set_hostname :: "host_env \<Rightarrow> (string option \<times> bool) option \<Rightarrow> store \<Rightarrow> hostname_answer \<times> store" where
  "handle_set_hostname env body st =
    (case body of
       None \<Rightarrow> (HostnameUnreadable, st)
     | Some (None, _) \<Rightarrow> (HostnameInvalid \<lparr>pe_pointer = ''/hostname'', pe_rule = ''required'', pe_params = []\<rparr>, st)
     | Some (Some name, immediately) \<Rightarrow>
         if hostname_problem name \<noteq> '''' then
           (HostnameInvalid \<lparr>pe_pointer = ''/hostname'', pe_rule = ''format'', pe_params = [(''format'', JStr ''hostname'')]\<rparr>, st)
         else (case create (task_id_of env) (now_of env)
             (system_task env op_hostname priority_high (hostname_json name immediately)) st of
            (Inl e, st') \<Rightarrow> (HostnameNotQueued (netconfig_error ''Failed to create hostname change task'' (store_error_text env e)), st')
          | (Inr t, st') \<Rightarrow> (HostnameQueued (task_id t) name immediately (goos env = ''windows''), st')))"

text \<open>The executor checks the name again.\<close>

definition hostname_valid :: "string \<Rightarrow> bool" where
  "hostname_valid name \<longleftrightarrow> name \<noteq> [] \<and> length name \<le> 253 \<and> list_all host_label (split_char CHR ''.'' name)"

definition local_label :: "string \<Rightarrow> string" where
  "local_label name =
    (let cleaned = trim_char CHR ''-'' (filter (\<lambda>c. alnum c \<or> c = CHR ''-'') (takeWhile (\<lambda>c. c \<noteq> CHR ''.'') name))
     in if cleaned = '''' then ''hyperweaver-host''
        else if 63 < length cleaned then trim_char CHR ''-'' (take 63 cleaned) else cleaned)"

definition applied_live :: "string \<Rightarrow> execution" where
  "applied_live name = emit ''stdout'' (''Hostname set to '' @ name @ '' (applied live)'')"

definition apply_windows :: "host_env \<Rightarrow> string \<Rightarrow> bool \<Rightarrow> execution" where
  "apply_windows env name immediately =
    next_do (if immediately then emit ''stdout'' (''apply_immediately cannot be honored on Windows '' @ em_dash
        @ '' the rename takes effect at the next reboot'') else (\<lambda>r. (r, None)))
     (next_do (run_tool env ''Hostname'' [''powershell'', ''-NoProfile'', ''-NonInteractive'', ''-Command'',
         ''Rename-Computer -NewName '' @ [CHR 0x27] @ name @ [CHR 0x27] @ '' -Force''])
       (emit ''stdout'' (''Computer renamed to '' @ name @ '' '' @ em_dash @ '' the new name takes effect at the next reboot'')))"

definition apply_darwin :: "host_env \<Rightarrow> string \<Rightarrow> execution" where
  "apply_darwin env name =
    next_do (run_tool env ''Hostname'' [''scutil'', ''--set'', ''HostName'', name])
     (next_do (run_tool env ''Hostname'' [''scutil'', ''--set'', ''LocalHostName'', local_label name])
       (next_do (run_tool env ''Hostname'' [''scutil'', ''--set'', ''ComputerName'', name]) (applied_live name)))"

definition apply_linux :: "host_env \<Rightarrow> string \<Rightarrow> execution" where
  "apply_linux env name =
    (if hostnamectl_found env then
       next_do (run_tool env ''Hostname'' [''hostnamectl'', ''set-hostname'', name]) (applied_live name)
     else next_do (emit ''stdout'' (''hostnamectl not found '' @ em_dash @ '' writing /etc/hostname and applying with hostname(1)''))
       (case etc_write_error env of
          Some e \<Rightarrow> fails (EtcNotWritten e)
        | None \<Rightarrow> next_do (run_tool env ''Hostname'' [''hostname'', name]) (applied_live name)))"

definition set_hostname :: "host_env \<Rightarrow> (string \<times> bool) option \<Rightarrow> execution" where
  "set_hostname env m =
    (case m of
       None \<Rightarrow> fails NoMetadata
     | Some (name, immediately) \<Rightarrow>
         if \<not> hostname_valid name then fails (IllegalHostname name)
         else if goos env = ''windows'' then apply_windows env name immediately
         else if goos env = ''darwin'' then apply_darwin env name
         else apply_linux env name)"

text \<open>
  The persisted name: the registry query's output on Windows, \<^verbatim>\<open>scutil\<close>'s on macOS, \<^verbatim>\<open>/etc/hostname\<close>
  elsewhere; \<open>None\<close> when it cannot be had.
\<close>

definition registry_name :: "string \<Rightarrow> string option" where
  "registry_name out =
    (case filter (\<lambda>fs. 3 \<le> length fs \<and> fs ! 0 = ''ComputerName'' \<and> fs ! 1 = ''REG_SZ'')
        (map (\<lambda>l. text_fields (trim_space l)) (split_char CHR 0x0A out)) of
       [] \<Rightarrow> None
     | fs # _ \<Rightarrow> Some (join_with '' '' (drop 2 fs)))"

definition persisted_hostname :: "string \<Rightarrow> string option \<Rightarrow> string option" where
  "persisted_hostname os out =
    (case out of
       None \<Rightarrow> None
     | Some raw \<Rightarrow>
         if os = ''windows'' then registry_name raw else if trim_space raw = '''' then None else Some (trim_space raw))"

record hostname_state =
  hs_hostname :: string
  hs_nodename_file :: "string option"
  hs_matches :: bool
  hs_warning :: "string option"

definition handle_get_hostname :: "host_env \<Rightarrow> string option \<Rightarrow> string option \<Rightarrow> hostname_state option" where
  "handle_get_hostname env system out =
    map_option (\<lambda>system.
      let persisted = persisted_hostname (goos env) out;
          matches = (case persisted of None \<Rightarrow> True
            | Some p \<Rightarrow> if goos env = ''windows'' then equal_fold p system else p = system)
      in \<lparr>hs_hostname = system, hs_nodename_file = persisted, hs_matches = matches,
          hs_warning = (if matches then None
            else Some (if goos env = ''windows''
              then ''Computer rename to '' @ opt_default '''' persisted @ '' is pending '' @ em_dash @ '' the live hostname stays ''
                @ system @ '' until the next reboot''
              else ''The persisted host name '' @ opt_default '''' persisted @ '' does not match the live system hostname '' @ system))\<rparr>)
      system"

end
