(* ===== verification/IpSuggest.thy ===== *)
theory IpSuggest
  imports HostNet Schedules
begin

text \<open>
  The feed of free addresses (\<^verbatim>\<open>internal/server/netconfig_ipsuggestions.go\<close>): the default route and the
  neighbour table, parsed from the output of the platform's tools, the addresses the machine documents
  pin, and the scan of the subnet. IPv4 addresses are 32-bit words and the arithmetic wraps.
\<close>

unbundle bit_operations_syntax

definition suggestions_default :: int where "suggestions_default = 10"
definition suggestions_max :: int where "suggestions_max = 256"
definition scan_cap :: nat where "scan_cap = 65536"

definition ipv4_to_uint :: "ip \<Rightarrow> 32 word" where
  "ipv4_to_uint a = opt_default 0 (to4 a)"

subsection \<open>The default route\<close>

datatype route_error =
    ToolUnavailable string
  | NoDefaultRoute
  | NoHolder ip
  | NoRouteInterface string
  | AddressesUnreadable string
  | NoIpv4Address string

definition interface_by_addr :: "host_env \<Rightarrow> ip \<Rightarrow> nic option" where
  "interface_by_addr env a =
    (case nics env of
       None \<Rightarrow> None
     | Some ns \<Rightarrow> find (\<lambda>n. list_ex (\<lambda>x. net_ip x = a) (opt_default [] (nic_addrs n))) ns)"

definition ip_field :: "string \<Rightarrow> ip option" where
  "ip_field s = (case parse_ip s of Some a \<Rightarrow> if to4 a \<noteq> None then Some a else None | None \<Rightarrow> None)"

fun route_windows :: "host_env \<Rightarrow> string list \<Rightarrow> route_error + ip \<times> nic" where
  "route_windows env [] = Inl NoDefaultRoute"
| "route_windows env (l # ls) =
    (let fs = text_fields l in
     if length fs < 4 \<or> fs ! 0 \<noteq> ''0.0.0.0'' \<or> fs ! 1 \<noteq> ''0.0.0.0'' then route_windows env ls
     else case (ip_field (fs ! 2), parse_ip (fs ! 3)) of
       (Some gateway, Some own) \<Rightarrow>
         (case interface_by_addr env own of None \<Rightarrow> Inl (NoHolder own) | Some n \<Rightarrow> Inr (gateway, n))
     | _ \<Rightarrow> route_windows env ls)"

definition named_route :: "host_env \<Rightarrow> ip \<Rightarrow> string \<Rightarrow> route_error + ip \<times> nic" where
  "named_route env gateway name =
    (case nic_by_name env name of None \<Rightarrow> Inl (NoRouteInterface name) | Some n \<Rightarrow> Inr (gateway, n))"

definition darwin_line :: "string \<Rightarrow> ip option \<times> string \<Rightarrow> ip option \<times> string" where
  "darwin_line l = (\<lambda>(gateway, name).
     let t = trim_space l; key = takeWhile (\<lambda>c. c \<noteq> CHR '':'') t; rest = dropWhile (\<lambda>c. c \<noteq> CHR '':'') t in
     if rest = [] then (gateway, name)
     else if key = ''gateway'' then (parse_ip (trim_space (tl rest)), name)
     else if key = ''interface'' then (gateway, trim_space (tl rest))
     else (gateway, name))"

definition route_darwin :: "host_env \<Rightarrow> string list \<Rightarrow> route_error + ip \<times> nic" where
  "route_darwin env ls =
    (case fold darwin_line ls (None, '''') of
       (Some gateway, name) \<Rightarrow> if to4 gateway = None \<or> name = '''' then Inl NoDefaultRoute else named_route env gateway name
     | (None, name) \<Rightarrow> Inl NoDefaultRoute)"

fun linux_fields :: "string list \<Rightarrow> ip option \<times> string \<Rightarrow> ip option \<times> string" where
  "linux_fields (f # v # fs) (gateway, name) =
    linux_fields (v # fs) (if f = ''via'' then (parse_ip v, name) else if f = ''dev'' then (gateway, v) else (gateway, name))"
| "linux_fields _ acc = acc"

fun route_linux :: "host_env \<Rightarrow> string list \<Rightarrow> route_error + ip \<times> nic" where
  "route_linux env [] = Inl NoDefaultRoute"
| "route_linux env (l # ls) =
    (case linux_fields (text_fields l) (None, '''') of
       (Some gateway, name) \<Rightarrow> if to4 gateway = None \<or> name = '''' then route_linux env ls else named_route env gateway name
     | (None, name) \<Rightarrow> route_linux env ls)"

text \<open>\<open>out\<close> is the output of the routing tool, \<open>None\<close> when it failed.\<close>

definition default_route :: "host_env \<Rightarrow> string option \<Rightarrow> route_error + ip \<times> nic" where
  "default_route env out =
    (case out of
       None \<Rightarrow> Inl (ToolUnavailable (if goos env = ''windows'' then ''route print'' else if goos env = ''darwin'' then ''route get default''
         else ''ip route show default''))
     | Some raw \<Rightarrow>
         (if goos env = ''windows'' then route_windows else if goos env = ''darwin'' then route_darwin else route_linux)
           env (split_char CHR 0x0A raw))"

subsection \<open>The subnet\<close>

text \<open>A subnet is its network address and the length of its mask.\<close>

type_synonym subnet = "32 word \<times> nat"

definition in_subnet :: "subnet \<Rightarrow> ip \<Rightarrow> bool" where
  "in_subnet s a = (case to4 a of None \<Rightarrow> False | Some w \<Rightarrow> w AND mask4 (snd s) = fst s AND mask4 (snd s))"

definition pick_subnet :: "ip \<Rightarrow> ip_net \<Rightarrow> subnet option \<times> ip list \<Rightarrow> subnet option \<times> ip list" where
  "pick_subnet gateway x = (\<lambda>(sub, own).
     case to4 (net_ip x) of
       None \<Rightarrow> (sub, own)
     | Some w \<Rightarrow>
         (let candidate = (w AND mask4 (net_ones x), net_ones x)
          in (if sub = None \<or> in_subnet candidate gateway then Some candidate else sub, own @ [net_ip x])))"

definition interface_subnet :: "nic \<Rightarrow> ip \<Rightarrow> route_error + subnet \<times> ip list" where
  "interface_subnet n gateway =
    (case nic_addrs n of
       None \<Rightarrow> Inl (AddressesUnreadable (nic_name n))
     | Some as \<Rightarrow>
         (case fold (pick_subnet gateway) as (None, []) of
            (None, own) \<Rightarrow> Inl (NoIpv4Address (nic_name n))
          | (Some sub, own) \<Rightarrow> Inr (sub, own)))"

subsection \<open>Used addresses\<close>

definition parse_first_fields :: "bool \<Rightarrow> string \<Rightarrow> ip list" where
  "parse_first_fields skip_states out =
    List.map_filter (\<lambda>l.
      if skip_states \<and> (contains_text ''FAILED'' l \<or> contains_text ''INCOMPLETE'' l) then None
      else (case text_fields l of [] \<Rightarrow> None | f # _ \<Rightarrow> ip_field f)) (split_char CHR 0x0A out)"

text \<open>The addresses in parentheses: four groups of digits separated by dots.\<close>

definition quad_text :: "string \<Rightarrow> bool" where
  "quad_text s \<longleftrightarrow> length (split_char CHR ''.'' s) = 4 \<and> list_all (\<lambda>p. p \<noteq> [] \<and> list_all digit_char p) (split_char CHR ''.'' s)"

function paren_quads :: "string \<Rightarrow> string list" where
  "paren_quads [] = []"
| "paren_quads (c # s) =
    (let body = takeWhile (\<lambda>x. x \<noteq> CHR '')'') s; rest = dropWhile (\<lambda>x. x \<noteq> CHR '')'') s in
     if c = CHR ''('' \<and> rest \<noteq> [] \<and> quad_text body then body # paren_quads (tl rest) else paren_quads s)"
  by pat_completeness auto
termination
proof (relation "measure length")
  fix c :: char and s body rest :: string
  assume "rest = dropWhile (\<lambda>x. x \<noteq> CHR '')'') s"
  then show "(tl rest, c # s) \<in> measure length"
    using length_dropWhile_le [of "\<lambda>x. x \<noteq> CHR '')''" s] by simp
qed auto

definition parse_parens :: "string \<Rightarrow> ip list" where
  "parse_parens out = List.map_filter ip_field (paren_quads out)"

text \<open>\<open>neigh\<close> is the neighbour tool's output, \<open>arp\<close> that of \<^verbatim>\<open>arp -an\<close>, which Linux falls back to.\<close>

definition neighbor_ips :: "host_env \<Rightarrow> string option \<Rightarrow> string option \<Rightarrow> ip list" where
  "neighbor_ips env neigh arp =
    (let arp_dash_an = (case arp of None \<Rightarrow> [] | Some out \<Rightarrow> parse_parens out) in
     if goos env = ''windows'' then (case neigh of None \<Rightarrow> [] | Some out \<Rightarrow> parse_first_fields False out)
     else if goos env = ''darwin'' then arp_dash_an
     else (case neigh of None \<Rightarrow> arp_dash_an | Some out \<Rightarrow> parse_first_fields True out))"

definition document_addresses :: "machine list option \<Rightarrow> ip list" where
  "document_addresses ms =
    concat (map (\<lambda>m. List.map_filter (\<lambda>entry.
        case entry of
          JObj network \<Rightarrow>
            (case field network ''address'' of
               JStr address \<Rightarrow> if address = '''' then None else ip_field (takeWhile (\<lambda>c. c \<noteq> CHR ''/'') address)
             | _ \<Rightarrow> None)
        | _ \<Rightarrow> None) (arr_of (field (parse_configuration m) ''networks''))) (opt_default [] ms))"

subsection \<open>The suggestions\<close>

text \<open>The scan stops at the broadcast address, when enough are found, or when its candidates are used up.\<close>

fun scan_free :: "nat \<Rightarrow> (32 word \<Rightarrow> bool) \<Rightarrow> nat \<Rightarrow> 32 word \<Rightarrow> 32 word \<Rightarrow> 32 word list" where
  "scan_free 0 used wanted broadcast c = []"
| "scan_free (Suc n) used wanted broadcast c =
    (if c < broadcast \<and> 0 < wanted then
       (if used c then scan_free n used wanted broadcast (c + 1) else c # scan_free n used (wanted - 1) broadcast (c + 1))
     else [])"

definition broadcast_of :: "subnet \<Rightarrow> 32 word" where
  "broadcast_of s = fst s OR drop_bit (snd s) (NOT 0)"

definition wanted_count :: "string \<Rightarrow> int" where
  "wanted_count raw =
    (let count = query_limit suggestions_default raw in if suggestions_max < count then suggestions_max else count)"

record suggestion_doc =
  sd_interface :: string
  sd_subnet :: string
  sd_gateway :: string
  sd_used :: "32 word list"
  sd_suggestions :: "32 word list"
  sd_total_used :: nat

definition suggest :: "subnet \<Rightarrow> ip list \<Rightarrow> int \<Rightarrow> 32 word list \<times> 32 word list" where
  "suggest s taken count =
    (let used = sort (remdups (map ipv4_to_uint (filter (in_subnet s) taken)))
     in (used, scan_free scan_cap (\<lambda>c. c \<in> set used) (nat count) (broadcast_of s) (fst s + 1)))"

definition ip_suggestions :: "host_env \<Rightarrow> string option \<Rightarrow> string option \<Rightarrow> string option \<Rightarrow> machine list option \<Rightarrow> string
    \<Rightarrow> route_error + suggestion_doc" where
  "ip_suggestions env route neigh arp ms raw =
    (case default_route env route of
       Inl e \<Rightarrow> Inl e
     | Inr (gateway, n) \<Rightarrow>
         (case interface_subnet n gateway of
            Inl e \<Rightarrow> Inl e
          | Inr (s, own) \<Rightarrow>
              (case suggest s (neighbor_ips env neigh arp @ document_addresses ms @ own @ [gateway]) (wanted_count raw) of
                 (used, free) \<Rightarrow> Inr
                   \<lparr>sd_interface = nic_name n, sd_subnet = dotted (fst s) @ ''/'' @ nat_text (snd s), sd_gateway = ip_text gateway,
                    sd_used = used, sd_suggestions = free, sd_total_used = length used\<rparr>)))"

text \<open>The document prints the addresses.\<close>

definition suggestion_texts :: "suggestion_doc \<Rightarrow> string list \<times> string list" where
  "suggestion_texts d = (map dotted (sd_used d), map dotted (sd_suggestions d))"

end
