(* ===== verification/IpLaws.thy ===== *)
theory IpLaws
  imports Ip
begin

text \<open>
  Parsing an address or a network undoes printing it, for IPv4 and for every IPv6 address with its
  compressed run of zeros.
\<close>

subsection \<open>Digits\<close>

lemma length_base_digits [simp]: "length (base_digits b k n) = k"
  by (induction k arbitrary: n) simp_all

lemma base_digits_less: "0 < b \<Longrightarrow> d \<in> set (base_digits b k n) \<Longrightarrow> d < b"
  by (induction k arbitrary: n) auto

lemma base_digits_numeral: "base_digits b (numeral k) n = base_digits b (pred_numeral k) (n div b) @ [n mod b]"
  by (simp add: numeral_eq_Suc)

lemma horner_snoc [simp]: "horner b (ds @ [d]) = b * horner b ds + d"
  by (simp add: horner_def)

lemma horner_base_digits: "horner b (base_digits b k n) = n mod b ^ k"
  by (induction k arbitrary: n) (simp_all add: mod_mult2_eq, simp add: horner_def)

lemma map_digits_text: "map digits_value (map nat_text ds) = ds"
  by (simp add: digits_value_nat_text comp_def map_idI)

lemma nat_text_hd: "0 < n \<Longrightarrow> hd (nat_text n) \<noteq> CHR ''0''"
proof (induction n rule: nat_text.induct)
  case (1 n)
  have d: "char_of (48 + d) \<noteq> CHR ''0''" if "0 < d" "d < 10" for d :: nat
  proof
    assume "char_of (48 + d) = CHR ''0''"
    then have "of_char (char_of (48 + d) :: char) = (48 :: nat)" by simp
    then show False using that by (simp add: of_char_of)
  qed
  have "hd (nat_text (n div 10) @ [c]) = hd (nat_text (n div 10))" for c
    using nat_text_digits [of "n div 10"] by (simp add: hd_append)
  then show ?case using 1 d [of n] nat_text.simps [of n] by simp
qed

lemma octet_nat_text: "d < 256 \<Longrightarrow> octet_text (nat_text d)"
proof -
  assume "d < 256"
  moreover have "1 < length (nat_text d) \<longrightarrow> hd (nat_text d) \<noteq> CHR ''0''"
  proof (cases "d = 0")
    case True
    have "nat_text 0 = [CHR ''0'']" by code_simp
    then show ?thesis using True by simp
  qed (use nat_text_hd in auto)
  ultimately show ?thesis using nat_text_digits by (simp add: octet_text_def digits_value_nat_text)
qed

lemma digit_not_special: "digit_char c \<Longrightarrow> c \<notin> {CHR ''.'', CHR '':'', CHR ''%'', CHR ''/''}"
  by (auto simp: digit_char_def)

lemma nat_text_special: "{CHR ''.'', CHR '':'', CHR ''%'', CHR ''/''} \<inter> set (nat_text n) = {}"
  using nat_text_digits [of n] digit_not_special by (auto simp: list_all_iff)

subsection \<open>IPv4\<close>

lemma parse_dotted_text: "parse_dotted (dotted w) = Some w"
proof -
  let ?ds = "base_digits 256 4 (unat w)"
  have "map nat_text ?ds \<noteq> []" using length_base_digits [of 256 4] by (metis length_0_conv length_map zero_neq_numeral)
  moreover have "CHR ''.'' \<notin> set (nat_text d)" for d using nat_text_special [of d] by blast
  ultimately have split: "split_char CHR ''.'' (dotted w) = map nat_text ?ds"
    unfolding dotted_def by (intro split_join) auto
  have "list_all octet_text (map nat_text ?ds)"
    using octet_nat_text base_digits_less [of 256] by (auto simp: list_all_iff simp del: base_digits.simps)
  moreover have "unat w < 2 ^ LENGTH(32)" by (rule unsigned_less)
  then have "horner 256 ?ds = unat w" by (simp add: horner_base_digits del: base_digits.simps)
  ultimately show ?thesis
    by (simp add: parse_dotted_def split map_digits_text del: map_map base_digits.simps)
qed

lemma to4_embed: "to4 a = Some w \<Longrightarrow> embed4 w = a"
proof -
  assume "to4 a = Some w"
  then have d: "drop_bit 32 a = 0xFFFF" and w: "w = ucast a" by (auto simp: to4_def split: if_splits)
  have "push_bit 32 (0xFFFF :: ip) = 0xFFFF00000000" by simp
  moreover have "ucast (ucast a :: 32 word) = take_bit 32 a" by (simp add: unsigned_ucast_eq)
  ultimately show ?thesis using bits_ident [of 32 a] by (simp add: embed4_def w d)
qed

subsection \<open>Hexadecimal groups\<close>

lemma group_digit_value: "d < 16 \<Longrightarrow> hex_value (group_digit d) = Some d"
  by (simp add: hex_value_def group_digit_def of_char_of Let_def)

lemma group_text_chars: "group_text n \<noteq> [] \<and> list_all hex_char (group_text n)"
proof (induction n rule: group_text.induct)
  case (1 n)
  have "hex_char (group_digit d)" if "d < 16" for d using group_digit_value [OF that] by (simp add: hex_char_def)
  then show ?case using 1 group_text.simps [of n] by simp
qed

lemma hexes_group_text: "hexes_value (group_text n) = n"
proof (induction n rule: group_text.induct)
  case (1 n)
  then show ?case by (subst group_text.simps) (auto simp: hexes_value_def group_digit_value)
qed

lemma length_group_text: "n < 16 ^ Suc k \<Longrightarrow> length (group_text n) \<le> Suc k"
proof (induction k arbitrary: n)
  case 0
  then show ?case by (subst group_text.simps) simp
next
  case (Suc k)
  have "n div 16 < 16 ^ Suc k" using Suc.prems by (simp add: less_mult_imp_div_less mult.commute)
  then show ?case using Suc.IH [of "n div 16"] by (subst group_text.simps) simp
qed

lemma hex_char_not_special: "hex_char c \<Longrightarrow> c \<notin> {CHR ''.'', CHR '':'', CHR ''%'', CHR ''/''}"
  by (auto simp: hex_char_def hex_value_def)

lemma hex_split:
  assumes "rest = [] \<or> \<not> hex_char (hd rest)"
  shows "takeWhile hex_char (group_text n @ rest) = group_text n" and "dropWhile hex_char (group_text n @ rest) = rest"
proof -
  have "\<forall>c\<in>set (group_text n). hex_char c" using group_text_chars by (simp add: list_all_iff)
  moreover have "takeWhile hex_char rest = []" "dropWhile hex_char rest = rest" using assms by (cases rest; simp)+
  ultimately show "takeWhile hex_char (group_text n @ rest) = group_text n" "dropWhile hex_char (group_text n @ rest) = rest"
    by (simp_all add: takeWhile_append2 dropWhile_append2)
qed

lemma hex_whole [simp]: "takeWhile hex_char (group_text n) = group_text n" "dropWhile hex_char (group_text n) = []"
  using hex_split [of "[]" n] by (simp_all only: append_Nil2 simp_thms)

subsection \<open>Groups\<close>

lemma groups_join:
  assumes "xs \<noteq> []" and "length xs \<le> k" and "\<forall>x\<in>set xs. x < 65536"
  shows "v6_groups k gs e (join_with '':'' (map group_text xs)) = Some (gs @ xs, e, [])"
  using assms
proof (induction xs arbitrary: k gs)
  case (Cons x xs)
  obtain k' where k: "k = Suc k'" using Cons.prems(2) by (cases k) auto
  have len: "length (group_text x) \<le> 4" using length_group_text [of x 3] Cons.prems(3) by simp
  have ne: "group_text x \<noteq> []" using group_text_chars by blast
  show ?case
  proof (cases xs)
    case Nil
    then show ?thesis using len ne by (simp add: k hexes_group_text Let_def)
  next
    case (Cons y ys)
    let ?rest = "join_with '':'' (map group_text xs)"
    have "\<not> hex_char CHR '':''" by (simp add: hex_char_def hex_value_def)
    then have sp: "takeWhile hex_char (group_text x @ CHR '':'' # ?rest) = group_text x"
      "dropWhile hex_char (group_text x @ CHR '':'' # ?rest) = CHR '':'' # ?rest"
      using hex_split [of "CHR '':'' # ?rest" x] by simp_all
    have hd: "?rest \<noteq> []" "hd ?rest \<noteq> CHR '':''"
      using group_text_chars [of y] hex_char_not_special Cons
      by (auto simp: join_with_Cons list_all_iff hd_append neq_Nil_conv)
    have "v6_groups k' (gs @ [x]) e ?rest = Some ((gs @ [x]) @ xs, e, [])"
      using Cons.IH [of k' "gs @ [x]"] Cons.prems Cons k by simp
    then show ?thesis using len ne sp hd Cons by (simp add: k join_with_Cons hexes_group_text Let_def)
  qed
qed simp

lemma groups_run:
  assumes "xs \<noteq> []" and "length xs + length ys \<le> k" and "\<forall>x\<in>set xs \<union> set ys. x < 65536"
  shows "v6_groups k gs None (join_with '':'' (map group_text xs) @ ''::'' @ join_with '':'' (map group_text ys))
    = Some (gs @ xs @ ys, Some (length gs + length xs), [])"
  using assms
proof (induction xs arbitrary: k gs)
  case (Cons x xs)
  obtain k' where k: "k = Suc k'" using Cons.prems(2) by (cases k) auto
  have len: "length (group_text x) \<le> 4" using length_group_text [of x 3] Cons.prems(3) by simp
  have ne: "group_text x \<noteq> []" using group_text_chars by blast
  have colon: "\<not> hex_char CHR '':''" by (simp add: hex_char_def hex_value_def)
  let ?tail = "''::'' @ join_with '':'' (map group_text ys)"
  show ?case
  proof (cases xs)
    case Nil
    have sp: "takeWhile hex_char (group_text x @ ?tail) = group_text x" "dropWhile hex_char (group_text x @ ?tail) = ?tail"
      using hex_split [of ?tail x] colon by simp_all
    have "v6_groups k' (gs @ [x]) (Some (Suc (length gs))) (join_with '':'' (map group_text ys))
        = Some (gs @ x # ys, Some (Suc (length gs)), [])" if "ys \<noteq> []"
      using groups_join [OF that, of k' "gs @ [x]"] Cons.prems k by simp
    moreover have "join_with '':'' (map group_text ys) \<noteq> []" if "ys \<noteq> []"
      using that group_text_chars by (cases ys) (auto simp: join_with_Cons)
    ultimately show ?thesis using Nil len ne sp by (cases "ys = []") (simp_all add: k hexes_group_text Let_def)
  next
    case (Cons y zs)
    let ?rest = "join_with '':'' (map group_text xs) @ ?tail"
    have sp: "takeWhile hex_char (group_text x @ CHR '':'' # ?rest) = group_text x"
      "dropWhile hex_char (group_text x @ CHR '':'' # ?rest) = CHR '':'' # ?rest"
      using hex_split [of "CHR '':'' # ?rest" x] colon by simp_all
    have hd: "?rest \<noteq> []" "hd ?rest \<noteq> CHR '':''"
      using group_text_chars [of y] hex_char_not_special Cons
      by (auto simp: join_with_Cons list_all_iff hd_append neq_Nil_conv)
    have "v6_groups k' (gs @ [x]) None ?rest = Some ((gs @ [x]) @ xs @ ys, Some (length (gs @ [x]) + length xs), [])"
      using Cons.IH [of k' "gs @ [x]"] Cons.prems Cons k by simp
    then show ?thesis using len ne sp hd Cons by (simp add: k join_with_Cons hexes_group_text Let_def)
  qed
qed simp

subsection \<open>The run of zeros\<close>

lemma zeros_at_run: "zeros_at gs i = l \<Longrightarrow> i \<le> length gs \<Longrightarrow> i + l \<le> length gs \<and> take l (drop i gs) = replicate l 0"
proof -
  assume l: "zeros_at gs i = l" and i: "i \<le> length gs"
  have "length (takeWhile (\<lambda>g. g = 0) (drop i gs)) \<le> length gs - i"
    using length_takeWhile_le [of "\<lambda>g. g = 0" "drop i gs"] by simp
  moreover have "take l (drop i gs) = takeWhile (\<lambda>g. g = 0) (drop i gs)"
    using l takeWhile_eq_take [of "\<lambda>g. g = 0" "drop i gs"] by (simp add: zeros_at_def)
  moreover have "takeWhile (\<lambda>g. g = 0) (drop i gs) = replicate l 0"
    using l by (intro replicate_eqI) (auto simp: zeros_at_def dest: set_takeWhileD)
  ultimately show ?thesis using l i by (simp add: zeros_at_def)
qed

lemma zero_run_Some: "zero_run gs = Some (i, l) \<Longrightarrow> 2 \<le> l \<and> i + l \<le> length gs \<and> take l (drop i gs) = replicate l 0"
proof -
  assume run: "zero_run gs = Some (i, l)"
  let ?f = "\<lambda>i best. if 2 \<le> zeros_at gs i \<and> opt_default 0 (map_option snd best) < zeros_at gs i
     then Some (i, zeros_at gs i) else best"
  have "fold ?f js b = Some (i, l) \<Longrightarrow> b = Some (i, l) \<or> (i \<in> set js \<and> l = zeros_at gs i \<and> 2 \<le> l)" for js b
    by (induction js arbitrary: b) (auto split: if_splits)
  from this [of "[0..<length gs]" None] show ?thesis
    using run zeros_at_run [of gs i l] by (simp add: zero_run_def)
qed

lemma run_fill:
  assumes "zero_run gs = Some (i, l)" and "length gs = 8"
  shows "v6_fill (take i gs @ drop (i + l) gs) (Some i) = Some gs"
proof -
  from zero_run_Some [OF assms(1)] have r: "2 \<le> l" "i + l \<le> 8" "take l (drop i gs) = replicate l 0" using assms(2) by auto
  have "gs = take i gs @ take l (drop i gs) @ drop l (drop i gs)" by (simp only: append_take_drop_id)
  then have "gs = take i gs @ replicate l 0 @ drop (i + l) gs" using r(3) by (simp only: drop_drop add.commute)
  then show ?thesis using r assms(2) by (simp add: v6_fill_def)
qed

subsection \<open>Round trips\<close>

lemma join_special:
  assumes "c \<in> set (join_with [CHR '':''] (map group_text xs))"
  shows "hex_char c \<or> c = CHR '':''"
  using assms group_text_chars by (induction xs) (auto simp: join_with_Cons list_all_iff split: if_splits)

lemma v6_text_chars: "c \<in> set (v6_text gs) \<Longrightarrow> hex_char c \<or> c = CHR '':''"
  using join_special by (auto simp: v6_text_def split: option.splits prod.splits)

lemma v6_text_colon: "2 \<le> length gs \<Longrightarrow> CHR '':'' \<in> set (v6_text gs)"
  by (cases gs; cases "tl gs") (auto simp: v6_text_def join_with_Cons split: option.splits)

lemma parse_v6_text:
  assumes "length gs = 8" and "\<forall>g\<in>set gs. g < 65536"
  shows "parse_v6 (v6_text gs) = Some (of_nat (horner 65536 gs))"
proof (cases "zero_run gs")
  case None
  have "gs \<noteq> []" using assms(1) by auto
  then have "take 2 (join_with '':'' (map group_text gs)) \<noteq> ''::''"
    using group_text_chars [of "hd gs"] hex_char_not_special
    by (cases gs) (auto simp: join_with_Cons list_all_iff neq_Nil_conv)
  then show ?thesis
    using None assms groups_join [OF \<open>gs \<noteq> []\<close>, of 8 "[]" None] by (simp add: v6_text_def parse_v6_def v6_fill_def)
next
  case (Some p)
  obtain i l where p: "p = (i, l)" by (cases p)
  let ?xs = "take i gs" and ?ys = "drop (i + l) gs"
  note r = zero_run_Some [OF Some [unfolded p]] and fill = run_fill [OF Some [unfolded p] assms(1)]
  have shown: "v6_text gs = join_with '':'' (map group_text ?xs) @ ''::'' @ join_with '':'' (map group_text ?ys)"
    using Some p by (simp add: v6_text_def)
  have small: "\<forall>x\<in>set ?xs \<union> set ?ys. x < 65536" using assms(2) by (auto dest: in_set_takeD in_set_dropD)
  show ?thesis
  proof (cases "i = 0")
    case True
    show ?thesis
    proof (cases "?ys = []")
      case True
      then have "gs = replicate l 0" using r \<open>i = 0\<close> by (metis append_Nil2 append_take_drop_id drop_0 add_0)
      moreover have "horner 65536 (replicate l 0) = 0" by (induction l) (simp_all add: horner_def)
      ultimately show ?thesis using True \<open>i = 0\<close> shown by (simp add: parse_v6_def)
    next
      case False
      then have "join_with '':'' (map group_text ?ys) \<noteq> []"
        using group_text_chars by (cases ?ys) (auto simp: join_with_Cons)
      then show ?thesis
        using True fill shown groups_join [OF False, of 8 "[]" "Some 0"] small assms(1) r
        by (simp add: parse_v6_def)
    qed
  next
    case False
    then have ne: "?xs \<noteq> []" using assms(1) by auto
    then have "take 2 (v6_text gs) \<noteq> ''::''"
      using group_text_chars [of "hd ?xs"] hex_char_not_special shown
      by (cases ?xs) (auto simp: join_with_Cons list_all_iff neq_Nil_conv)
    then show ?thesis
      using ne fill shown groups_run [OF ne, of ?ys 8 "[]"] small assms(1) r by (simp add: parse_v6_def)
  qed
qed

lemma find_special:
  assumes "c \<in> set s" and "P c" and "\<forall>x\<in>set s. P x \<longrightarrow> x = c"
  shows "find P s = Some c"
proof (cases "find P s")
  case None
  then show ?thesis using assms(1,2) by (simp add: find_None_iff)
next
  case (Some x)
  then have "P x" "x \<in> set s" by (auto simp: find_Some_iff)
  then show ?thesis using assms(3) Some by simp
qed

lemma dotted_chars: "c \<in> set (dotted w) \<Longrightarrow> digit_char c \<or> c = CHR ''.''"
proof -
  have "c \<in> set (join_with [CHR ''.''] (map nat_text ds)) \<Longrightarrow> digit_char c \<or> c = CHR ''.''" for ds
    using nat_text_digits by (induction ds) (auto simp: join_with_Cons list_all_iff split: if_splits)
  then show "c \<in> set (dotted w) \<Longrightarrow> digit_char c \<or> c = CHR ''.''" by (simp add: dotted_def del: base_digits.simps)
qed

lemma dotted_dot: "CHR ''.'' \<in> set (dotted w)"
proof -
  have "2 \<le> length ds \<Longrightarrow> CHR ''.'' \<in> set (join_with [CHR ''.''] (map nat_text ds))" for ds
    by (cases ds; cases "tl ds") (auto simp: join_with_Cons)
  then show ?thesis by (simp add: dotted_def del: base_digits.simps)
qed

lemma ip_text_chars: "c \<in> set (ip_text a) \<Longrightarrow> hex_char c \<or> c = CHR '':'' \<or> c = CHR ''.''"
proof -
  have "digit_char c \<Longrightarrow> hex_char c" for c by (simp add: digit_char_def hex_char_def hex_value_def Let_def)
  then show "c \<in> set (ip_text a) \<Longrightarrow> hex_char c \<or> c = CHR '':'' \<or> c = CHR ''.''"
    using dotted_chars [of c] v6_text_chars [of c] unfolding ip_text_def by (auto simp del: base_digits.simps split: option.splits)
qed

lemma parse_addr_text: "parse_addr (ip_text a) = Some (case to4 a of Some w \<Rightarrow> Inl w | None \<Rightarrow> Inr a)"
proof (cases "to4 a")
  case None
  let ?gs = "base_digits 65536 8 (unat a)"
  have shown: "ip_text a = v6_text ?gs" using None by (simp add: ip_text_def del: base_digits.simps)
  have "unat a < 2 ^ LENGTH(128)" by (rule unsigned_less)
  then have "horner 65536 ?gs = unat a" by (simp add: horner_base_digits del: base_digits.simps)
  then have v6: "parse_v6 (v6_text ?gs) = Some a"
    using parse_v6_text [of ?gs] base_digits_less [of 65536] by (simp del: base_digits.simps)
  have "find (\<lambda>c. c \<in> {CHR ''.'', CHR '':'', CHR ''%''}) (v6_text ?gs) = Some CHR '':''"
    using v6_text_chars hex_char_not_special v6_text_colon [of ?gs] by (intro find_special) auto
  moreover have "CHR ''%'' \<notin> set (v6_text ?gs)" using v6_text_chars hex_char_not_special by blast
  ultimately show ?thesis using None v6 by (simp add: parse_addr_def shown del: base_digits.simps)
next
  case (Some w)
  then have shown: "ip_text a = dotted w" by (simp add: ip_text_def)
  have "find (\<lambda>c. c \<in> {CHR ''.'', CHR '':'', CHR ''%''}) (dotted w) = Some CHR ''.''"
    using dotted_chars digit_not_special dotted_dot by (intro find_special) auto
  then show ?thesis using Some by (simp add: parse_addr_def shown parse_dotted_text)
qed

lemma parse_ip_text: "parse_ip (ip_text a) = Some a"
  by (simp add: parse_ip_def parse_addr_text to4_embed split: option.split)

lemma parse_net_text:
  assumes "net_ones n \<le> (if to4 (net_ip n) = None then 128 else 32)"
  shows "parse_cidr (net_text n) = Some (net_ip n, net_ones n)"
proof -
  have "CHR ''/'' \<notin> set (ip_text (net_ip n))" using ip_text_chars hex_char_not_special by blast
  then have "takeWhile (\<lambda>c. c \<noteq> CHR ''/'') (net_text n) = ip_text (net_ip n)"
    "dropWhile (\<lambda>c. c \<noteq> CHR ''/'') (net_text n) = CHR ''/'' # nat_text (net_ones n)"
    by (simp_all add: net_text_def cut_before)
  then show ?thesis
    using assms nat_text_digits [of "net_ones n"] to4_embed
    by (auto simp: parse_cidr_def parse_addr_text digits_value_nat_text split: option.splits if_splits)
qed

end
