(* ===== verification/HostNetProps.thy ===== *)
theory HostNetProps
  imports IpSuggest IpLaws
begin

text \<open>
  Properties of the host's name and addresses: printing and parsing addresses, the free addresses of the
  suggestion feed, the two gates of a host name, which address a deletion picks and what an edit of an
  address does when it fails.
\<close>

unbundle bit_operations_syntax

subsection \<open>Subnets\<close>

lemma and_not_mask: "(x :: 32 word) AND NOT (mask k) = push_bit k (drop_bit k x)"
  by (rule bit_word_eqI) (auto simp: bit_simps)

lemma drop_bit_le: "(x :: 32 word) \<le> y \<Longrightarrow> drop_bit k x \<le> drop_bit k y"
  unfolding word_le_nat_alt unat_drop_bit_eq by (simp add: drop_bit_eq_div div_le_mono)

lemma broadcast_mask: "drop_bit k (NOT 0 :: 32 word) = mask (32 - k)"
  by (rule bit_word_eqI) (auto simp: bit_simps)

lemma between_in_subnet:
  assumes "fst s AND mask4 (snd s) = fst s" and "fst s \<le> x" and "x \<le> broadcast_of s"
  shows "x AND mask4 (snd s) = fst s"
proof -
  let ?k = "32 - snd s"
  have "drop_bit ?k (broadcast_of s) = drop_bit ?k (fst s) OR drop_bit ?k (mask ?k)"
    by (simp add: broadcast_of_def broadcast_mask)
  also have "drop_bit ?k (mask ?k :: 32 word) = 0" by (rule bit_word_eqI) (auto simp: bit_simps)
  finally have "drop_bit ?k x \<le> drop_bit ?k (fst s)" using drop_bit_le [OF assms(3), of ?k] by simp
  then have "drop_bit ?k x = drop_bit ?k (fst s)" using drop_bit_le [OF assms(2), of ?k] by simp
  then show ?thesis using assms(1) by (simp add: mask4_def and_not_mask)
qed

subsection \<open>The scan\<close>

lemma unat_next: "c \<noteq> 0xFFFFFFFF \<Longrightarrow> unat (c + 1 :: 32 word) = Suc (unat c)"
proof -
  assume c: "c \<noteq> 0xFFFFFFFF"
  have "1 + c \<noteq> 0"
  proof
    assume "1 + c = 0"
    then have "c = - 1" by (metis add.inverse_unique)
    then show False using c by simp
  qed
  then show ?thesis by (metis add.commute unatSuc)
qed

lemma unat_below: "c < b \<Longrightarrow> unat (c + 1 :: 32 word) = Suc (unat c)"
proof (rule unat_next, rule notI)
  assume "c < b" and "c = 0xFFFFFFFF"
  moreover have "unat b < 2 ^ LENGTH(32)" by (rule unsigned_less)
  ultimately show False by (simp add: word_less_nat_alt)
qed

lemma scan_free_sound:
  "x \<in> set (scan_free n used w b c) \<Longrightarrow> c \<le> x \<and> x < b \<and> \<not> used x"
  "sorted_wrt (<) (scan_free n used w b c)"
  "length (scan_free n used w b c) \<le> w"
proof (induction n arbitrary: w c x)
  case (Suc n)
  { case 1
    then have "c < b" and "(x = c \<and> \<not> used c) \<or> (\<exists>w'. x \<in> set (scan_free n used w' b (c + 1)))"
      by (auto split: if_splits)
    then show ?case using Suc.IH(1) [of x _ "c + 1"] unat_below [OF \<open>c < b\<close>] by (fastforce simp: word_le_nat_alt) }
  { case 2
    have "c < x" if "c < b" "x \<in> set (scan_free n used w' b (c + 1))" for x w'
      using Suc.IH(1) [OF that(2)] unat_below [OF that(1)] by (simp add: word_less_nat_alt word_le_nat_alt)
    then show ?case using Suc.IH(2) by simp }
  { case 3
    have "0 < w \<Longrightarrow> Suc (length (scan_free n used (w - 1) b (c + 1))) \<le> w"
      using Suc.IH(3) [of "w - 1" "c + 1"] by simp
    then show ?case using Suc.IH(3) [of w "c + 1"] by simp }
qed simp_all

lemma scan_free_window: "x \<in> set (scan_free n used w b c) \<Longrightarrow> unat x < unat c + n"
proof (induction n arbitrary: w c)
  case (Suc n)
  then have "c < b" and "x = c \<or> (\<exists>w'. x \<in> set (scan_free n used w' b (c + 1)))" by (auto split: if_splits)
  then show ?case using Suc.IH [of _ "c + 1"] unat_below [OF \<open>c < b\<close>] by auto
qed simp

lemma scan_free_complete:
  assumes "c \<le> y" and "y < b" and "\<not> used y" and "y \<notin> set (scan_free n used w b c)"
  shows "unat c + n \<le> unat y \<or> (length (scan_free n used w b c) = w \<and> (\<forall>x\<in>set (scan_free n used w b c). x < y))"
  using assms
proof (induction n arbitrary: w c)
  case 0
  then show ?case by (simp add: word_le_nat_alt)
next
  case (Suc n)
  have "c < b" using Suc.prems(1,2) by simp
  show ?case
  proof (cases "w = 0")
    case False
    then have "y \<noteq> c" using Suc.prems(3,4) \<open>c < b\<close> by auto
    then have le: "c + 1 \<le> y" and lt: "c < y"
      using Suc.prems(1) unat_below [OF \<open>c < b\<close>] by (auto simp: word_le_nat_alt word_less_nat_alt word_unat_eq_iff)
    show ?thesis
      using Suc.IH [OF le Suc.prems(2,3), of w] Suc.IH [OF le Suc.prems(2,3), of "w - 1"] Suc.prems(4) False \<open>c < b\<close> lt
        unat_below [OF \<open>c < b\<close>] by (auto split: if_splits)
  qed simp
qed

lemma pick_subnet_net:
  assumes "\<forall>s. fst acc = Some s \<longrightarrow> fst s AND mask4 (snd s) = fst s"
  shows "\<forall>s. fst (pick_subnet gateway x acc) = Some s \<longrightarrow> fst s AND mask4 (snd s) = fst s"
proof (cases "to4 (net_ip x)")
  case (Some w)
  have "(w AND mask4 (net_ones x)) AND mask4 (net_ones x) = w AND mask4 (net_ones x)" by (simp only: and.assoc and.idem)
  then show ?thesis using assms Some by (cases acc) (simp add: pick_subnet_def Let_def)
qed (use assms in \<open>cases acc, simp add: pick_subnet_def\<close>)

lemma interface_subnet_net:
  assumes "interface_subnet n gateway = Inr (s, own)"
  shows "fst s AND mask4 (snd s) = fst s"
proof -
  have "\<forall>s. fst (fold (pick_subnet gateway) as acc) = Some s \<longrightarrow> fst s AND mask4 (snd s) = fst s"
    if "\<forall>s. fst acc = Some s \<longrightarrow> fst s AND mask4 (snd s) = fst s" for as acc
    using that
  proof (induction as arbitrary: acc)
    case (Cons x as)
    show ?case using Cons.IH [OF pick_subnet_net [OF Cons.prems, of gateway x]] by simp
  qed simp
  note inv = this [of "(None, [])"]
  show ?thesis
  proof (cases "nic_addrs n")
    case (Some as)
    then have "fst (fold (pick_subnet gateway) as (None, [])) = Some s"
      using assms by (auto simp: interface_subnet_def split: option.splits prod.splits)
    then show ?thesis using inv [of as] by simp
  qed (use assms in \<open>simp add: interface_subnet_def\<close>)
qed

lemma in_used:
  assumes "x AND mask4 (snd s) = fst s" and "fst s AND mask4 (snd s) = fst s"
  shows "x \<in> set (sort (remdups (map ipv4_to_uint (filter (in_subnet s) taken)))) \<longleftrightarrow> (\<exists>a\<in>set taken. to4 a = Some x)"
proof
  assume "x \<in> set (sort (remdups (map ipv4_to_uint (filter (in_subnet s) taken))))"
  then obtain a where "a \<in> set taken" "in_subnet s a" "x = ipv4_to_uint a" by auto
  then show "\<exists>a\<in>set taken. to4 a = Some x" by (auto simp: in_subnet_def ipv4_to_uint_def split: option.splits)
next
  assume "\<exists>a\<in>set taken. to4 a = Some x"
  then obtain a where a: "a \<in> set taken" "to4 a = Some x" by blast
  then have "in_subnet s a" "ipv4_to_uint a = x" using assms by (simp_all add: in_subnet_def ipv4_to_uint_def)
  then show "x \<in> set (sort (remdups (map ipv4_to_uint (filter (in_subnet s) taken))))" using a(1) by auto
qed

text \<open>C20: Every suggested address is a host address of the default route's subnet (neither its network nor its
  broadcast address) that no neighbour, machine document, own address or the gateway holds; the
  suggestions ascend, are at most 256 and the lowest such addresses, and there are fewer than
  asked for only when no further one is within 65536 addresses of the network's. (An interface that
  held 255.255.255.255 would make the scan wrap around.)\<close>
theorem suggestions_are_free:
  assumes "ip_suggestions env route neigh arp ms raw = Inr d" and "default_route env route = Inr (gateway, n)"
    and "interface_subnet n gateway = Inr (s, own)" and "fst s \<noteq> 0xFFFFFFFF"
    and "taken = neighbor_ips env neigh arp @ document_addresses ms @ own @ [gateway]"
    and "open_host = (\<lambda>x. fst s < x \<and> x < broadcast_of s \<and> (\<forall>a\<in>set taken. to4 a \<noteq> Some x))"
  shows "(\<forall>x\<in>set (sd_suggestions d). open_host x \<and> x AND mask4 (snd s) = fst s) \<and> sorted_wrt (<) (sd_suggestions d)
    \<and> length (sd_suggestions d) \<le> nat (wanted_count raw) \<and> wanted_count raw \<le> 256
    \<and> (\<forall>x\<in>set (sd_suggestions d). \<forall>y. open_host y \<and> y < x \<longrightarrow> y \<in> set (sd_suggestions d))
    \<and> (length (sd_suggestions d) < nat (wanted_count raw)
        \<longrightarrow> (\<forall>y. open_host y \<and> unat y \<le> unat (fst s) + 65536 \<longrightarrow> y \<in> set (sd_suggestions d)))"
proof -
  define used where "used = (\<lambda>c. c \<in> set (sort (remdups (map ipv4_to_uint (filter (in_subnet s) taken)))))"
  define w where "w = nat (wanted_count raw)"
  define free where "free = sd_suggestions d"
  have scan: "free = scan_free scan_cap used w (broadcast_of s) (fst s + 1)"
    using assms(1,2,3,5) by (auto simp: ip_suggestions_def suggest_def Let_def free_def used_def w_def)
  have net: "fst s AND mask4 (snd s) = fst s" by (rule interface_subnet_net [OF assms(3)])
  note succ = unat_next [OF assms(4)]
  have start: "fst s < x \<longleftrightarrow> fst s + 1 \<le> x" for x
    using succ by (auto simp: word_less_nat_alt word_le_nat_alt)
  have sub: "x AND mask4 (snd s) = fst s" if "fst s < x" "x < broadcast_of s" for x
    using between_in_subnet [OF net, of x] that by simp
  have open_iff: "open_host x \<longleftrightarrow> fst s + 1 \<le> x \<and> x < broadcast_of s \<and> \<not> used x" for x
    using in_used [OF sub net, of x taken] start [of x] unfolding assms(6) used_def by blast
  have listed: "y \<in> set free" if "open_host y" "(\<exists>x\<in>set free. y < x) \<or> (length free < w \<and> unat y \<le> unat (fst s) + 65536)" for y
  proof (rule ccontr)
    assume n: "y \<notin> set free"
    from scan_free_complete [of "fst s + 1" y "broadcast_of s" used scan_cap w] n that(1) open_iff scan
    have far: "unat (fst s + 1) + scan_cap \<le> unat y \<or> (length free = w \<and> (\<forall>x\<in>set free. x < y))" by simp
    moreover have "unat x < unat (fst s + 1) + scan_cap" if "x \<in> set free" for x
      using scan_free_window that scan by blast
    ultimately show False using that(2) succ by (fastforce simp: word_less_nat_alt scan_cap_def)
  qed
  have sound: "open_host x \<and> x AND mask4 (snd s) = fst s" if "x \<in> set free" for x
    using scan_free_sound(1) [of x scan_cap used w] that scan open_iff [of x] start [of x] sub [of x] by blast
  have "wanted_count raw \<le> 256" by (simp add: wanted_count_def suggestions_max_def Let_def)
  moreover have "sorted_wrt (<) free" "length free \<le> w" unfolding scan by (rule scan_free_sound)+
  ultimately show ?thesis
    using sound listed unfolding free_def [symmetric] w_def [symmetric] by blast
qed

subsection \<open>Addresses\<close>

text \<open>Parsing undoes printing for every address, IPv4 and IPv6 with its compressed run of zeros alike, and for
  every network whose mask fits its family.\<close>
theorem address_roundtrip:
  "parse_ip (ip_text a) = Some a
   \<and> (ones \<le> (if to4 a = None then 128 else 32) \<longrightarrow> parse_cidr (net_text \<lparr>net_ip = a, net_ones = ones\<rparr>) = Some (a, ones))"
  using parse_net_text [of "\<lparr>net_ip = a, net_ones = ones\<rparr>"] by (simp add: parse_ip_text)

theorem address_roundtrip_witness:
  "parse_cidr (net_text \<lparr>net_ip = 0x20010DB8000000000000000000000001, net_ones = 64\<rparr>)
     = Some (0x20010DB8000000000000000000000001, 64)"
proof -
  have "to4 0x20010DB8000000000000000000000001 = None" by (simp add: to4_def)
  then show ?thesis using address_roundtrip [of "0x20010DB8000000000000000000000001" 64] by simp
qed

definition sane_nic :: "nic \<Rightarrow> bool" where
  "sane_nic n \<longleftrightarrow> list_all (\<lambda>a. net_ones a \<le> (if to4 (net_ip a) = None then 128 else 32)) (opt_default [] (nic_addrs n))"

lemma live_address:
  assumes "interface_addresses env iface version = Some live" and "c \<in> set live"
  shows "\<exists>n a. nic_by_name env iface = Some n \<and> a \<in> set (opt_default [] (nic_addrs n)) \<and> c = net_text a
    \<and> (version = ''v4'') = (to4 (net_ip a) \<noteq> None)"
proof -
  obtain n as where "nic_by_name env iface = Some n" "nic_addrs n = Some as"
    "live = map net_text (filter (\<lambda>a. (version = ''v4'') = (to4 (net_ip a) \<noteq> None)) as)"
    using assms(1) by (auto simp: interface_addresses_def simp del: filter_map split: option.splits)
  then show ?thesis using assms(2) by auto
qed

lemma nic_by_name_in: "nic_by_name env iface = Some n \<Longrightarrow> n \<in> set (opt_default [] (nics env))"
  by (auto simp: nic_by_name_def find_Some_iff split: option.splits)

lemma delete_ok:
  assumes "\<forall>n\<in>set (opt_default [] (nics env)). sane_nic n"
  shows "(case resolve_delete env m of
      Inl e \<Rightarrow> delete_address env m r = (r, Some e)
    | Inr (iface, c, v4) \<Rightarrow>
        (\<exists>n a version live. split_addrobj (am_addrobj m) = Some (iface, version) \<and> nic_by_name env iface = Some n
          \<and> interface_addresses env iface version = Some live
          \<and> a \<in> set (opt_default [] (nic_addrs n)) \<and> c = net_text a \<and> v4 = (to4 (net_ip a) \<noteq> None)
          \<and> (am_address m = '''' \<longrightarrow> live = [c])
          \<and> (am_address m \<noteq> '''' \<longrightarrow> parse_cidr (am_address m) = None \<longrightarrow> parse_ip (am_address m) = Some (net_ip a))
          \<and> (\<forall>b k. am_address m \<noteq> '''' \<longrightarrow> parse_cidr (am_address m) = Some (b, k) \<longrightarrow> b = net_ip a)
          \<and> remove_address env iface c v4 = next_do
              (run_tool env ''Address'' (delete_command (goos env) iface v4 (net_ip a) (net_ones a)))
              (emit ''stdout'' (''Address '' @ c @ '' removed from '' @ iface))))"
proof (cases "resolve_delete env m")
  case (Inl e)
  then show ?thesis by (simp add: delete_address_def fails_def)
next
  case (Inr p)
  obtain iface c v4 where p: "p = (iface, c, v4)" by (cases p)
  obtain version live where v: "split_addrobj (am_addrobj m) = Some (iface, version)"
      "interface_addresses env iface version = Some live" "v4 = (version = ''v4'')" and c: "c \<in> set live"
      "am_address m = '''' \<longrightarrow> live = [c]"
      "am_address m \<noteq> '''' \<longrightarrow> (\<exists>a k want. parse_cidr c = Some (a, k) \<and> a = want
        \<and> (case parse_cidr (am_address m) of Some (a, _) \<Rightarrow> Some a | None \<Rightarrow> parse_ip (am_address m)) = Some want)"
    using Inr p by (auto simp: resolve_delete_def find_Some_iff split: option.splits prod.splits if_splits list.splits)
  obtain n a where n: "nic_by_name env iface = Some n" "a \<in> set (opt_default [] (nic_addrs n))" "c = net_text a"
      "(version = ''v4'') = (to4 (net_ip a) \<noteq> None)"
    using live_address [OF v(2) c(1)] by blast
  have "parse_cidr c = Some (net_ip a, net_ones a)"
    using assms nic_by_name_in [OF n(1)] n(2,3) by (auto simp: sane_nic_def list_all_iff intro!: parse_net_text)
  then show ?thesis
    unfolding Inr p using v n c by (auto simp: remove_address_def split: option.splits)
qed

text \<open>A deletion (and the first half of an edit) removes exactly one address, one that the named interface
  carries live in the named family: the one of that IP when an address is given, the only one when none
  is, and the command the platform's tool gets names that very address. Every other request
  is an error before any command runs.\<close>
theorem delete_names_live_address:
  assumes "\<forall>n\<in>set (opt_default [] (nics env)). sane_nic n"
  shows "(case resolve_delete env m of
      Inl e \<Rightarrow> delete_address env m r = (r, Some e)
    | Inr (iface, c, v4) \<Rightarrow>
        (\<exists>n a version live. split_addrobj (am_addrobj m) = Some (iface, version) \<and> nic_by_name env iface = Some n
          \<and> interface_addresses env iface version = Some live
          \<and> a \<in> set (opt_default [] (nic_addrs n)) \<and> c = net_text a \<and> v4 = (to4 (net_ip a) \<noteq> None)
          \<and> (am_address m = '''' \<longrightarrow> live = [c])
          \<and> (am_address m \<noteq> '''' \<longrightarrow> parse_cidr (am_address m) = None \<longrightarrow> parse_ip (am_address m) = Some (net_ip a))
          \<and> (\<forall>b k. am_address m \<noteq> '''' \<longrightarrow> parse_cidr (am_address m) = Some (b, k) \<longrightarrow> b = net_ip a)
          \<and> remove_address env iface c v4 = next_do
              (run_tool env ''Address'' (delete_command (goos env) iface v4 (net_ip a) (net_ones a)))
              (emit ''stdout'' (''Address '' @ c @ '' removed from '' @ iface))))"
  using assms by (rule delete_ok)

subsection \<open>An edit that fails\<close>

definition demo_env :: "ip_net list \<Rightarrow> host_env" where
  "demo_env as = \<lparr>goos = ''linux'', nics = Some [\<lparr>nic_name = ''eth0'', nic_up = True, nic_addrs = Some as\<rparr>],
     lookup_error = (\<lambda>_. ''''), tools_of = (\<lambda>_ _. ('''', None)), hostnamectl_found = True, etc_write_error = None,
     task_id_of = ''t'', now_of = 1, caller = ''ann'', store_error_text = (\<lambda>_. '''')\<rparr>"

definition demo_nets :: "ip_net list" where
  "demo_nets = [\<lparr>net_ip = embed4 0x0A000009, net_ones = 29\<rparr>]"

lemma demo_sane: "\<forall>n\<in>set (opt_default [] (nics (demo_env demo_nets))). sane_nic n"
  by (simp add: demo_env_def demo_nets_def sane_nic_def)

lemma demo_to4: "to4 (embed4 0x0A000009) = Some 0x0A000009"
  by (simp add: to4_def embed4_def)

lemma demo_octets: "nat_text 10 = ''10''" "nat_text 0 = ''0''" "nat_text 9 = ''9''" "nat_text 29 = ''29''"
  by code_simp+

lemma demo_ip: "ip_text (embed4 0x0A000009) = ''10.0.0.9''"
proof -
  have "base_digits 256 4 (unat (0x0A000009 :: 32 word)) = [10, 0, 0, 9]" by (simp add: base_digits_numeral)
  then show ?thesis by (simp add: ip_text_def demo_to4 dotted_def demo_octets del: base_digits.simps)
qed

lemma demo_net: "net_text \<lparr>net_ip = embed4 0x0A000009, net_ones = 29\<rparr> = ''10.0.0.9/29''"
  by (simp add: net_text_def demo_ip demo_octets)


lemma demo_live: "interface_addresses (demo_env demo_nets) ''eth0'' ''v4'' = Some [''10.0.0.9/29'']"
  by (simp add: interface_addresses_def nic_by_name_def demo_env_def demo_nets_def demo_net demo_to4)

lemma demo_addrobj: "split_addrobj ''eth0/v4'' = Some (''eth0'', ''v4'')"
  by code_simp

theorem delete_names_live_address_witness:
  "\<exists>n a. resolve_delete (demo_env demo_nets) (no_meta\<lparr>am_addrobj := ''eth0/v4''\<rparr>) = Inr (''eth0'', ''10.0.0.9/29'', True)
    \<and> nic_by_name (demo_env demo_nets) ''eth0'' = Some n \<and> a \<in> set (opt_default [] (nic_addrs n)) \<and> ''10.0.0.9/29'' = net_text a"
proof -
  have r: "resolve_delete (demo_env demo_nets) (no_meta\<lparr>am_addrobj := ''eth0/v4''\<rparr>) = Inr (''eth0'', ''10.0.0.9/29'', True)"
    by (simp add: resolve_delete_def demo_addrobj demo_live no_meta_def)
  show ?thesis
    using delete_names_live_address [OF demo_sane, of "no_meta\<lparr>am_addrobj := ''eth0/v4''\<rparr>" "\<lparr>ran = [], out_log = []\<rparr>"] r
    by auto
qed


lemma emit_ok [simp]: "snd (emit s x r) = None" "ran (fst (emit s x r)) = ran r"
  by (simp_all add: emit_def)

lemma skipped_ok [simp]: "snd (skipped x b r) = None" "ran (fst (skipped x b r)) = ran r"
  by (simp_all add: skipped_def)





subsection \<open>The two gates of a host name\<close>

lemma label_problem_none:
  "label_problem l = '''' \<longleftrightarrow> l \<noteq> [] \<and> length l \<le> 63 \<and> hd l \<noteq> CHR ''-'' \<and> last l \<noteq> CHR ''-''"
  by (auto simp: label_problem_def)

lemma hostname_problem_none:
  "hostname_problem name = '''' \<longleftrightarrow> host_shape name \<and> (\<forall>l\<in>set (split_char CHR ''.'' name). label_problem l = '''')"
proof -
  have "(case filter (\<lambda>e. e \<noteq> '''') xs of [] \<Rightarrow> '''' | e # _ \<Rightarrow> e) = '''' \<longleftrightarrow> (\<forall>x\<in>set xs. x = '''')" for xs :: "string list"
    by (induction xs) auto
  from this [of "map label_problem (split_char CHR ''.'' name)"] show ?thesis by (auto simp: hostname_problem_def)
qed

lemma hd_join: "p \<noteq> [] \<Longrightarrow> hd (join_with sep (p # ps)) = hd p"
  by (simp add: join_with_Cons hd_append)

lemma last_join: "ps \<noteq> [] \<Longrightarrow> last ps \<noteq> [] \<Longrightarrow> join_with sep ps \<noteq> [] \<and> last (join_with sep ps) = last (last ps)"
  by (induction ps) (auto simp: join_with_Cons)

lemma label_chars:
  assumes "l \<in> set (split_char CHR ''.'' name)" and "c \<in> set l"
  shows "c \<in> set name \<and> c \<noteq> CHR ''.''"
  using assms set_split_char [of "CHR ''.''" name] by blast

lemma gates_agree: "hostname_problem name = '''' \<longleftrightarrow> hostname_valid name"
proof
  assume "hostname_problem name = ''''"
  then have shape: "host_shape name" and labels: "\<forall>l\<in>set (split_char CHR ''.'' name). label_problem l = ''''"
    by (simp_all add: hostname_problem_none)
  have "host_label l" if l: "l \<in> set (split_char CHR ''.'' name)" for l
  proof -
    have ok: "l \<noteq> []" "length l \<le> 63" "hd l \<noteq> CHR ''-''" "last l \<noteq> CHR ''-''" using labels l label_problem_none by auto
    have ch: "alnum c \<or> c = CHR ''-''" if "c \<in> set l" for c
      using label_chars [OF l that] shape by (auto simp: host_shape_def list_all_iff)
    have "alnum (hd l)" "alnum (last l)"
      using ch [OF hd_in_set [OF ok(1)]] ch [OF last_in_set [OF ok(1)]] ok(3,4) by blast+
    then show ?thesis using ok ch by (auto simp: host_label_def list_all_iff)
  qed
  then show "hostname_valid name" using shape by (simp add: hostname_valid_def host_shape_def list_all_iff)
next
  assume v: "hostname_valid name"
  obtain p ps where sp: "split_char CHR ''.'' name = p # ps" using split_char_not_Nil by (metis list.exhaust)
  then have labels: "\<forall>l\<in>set (p # ps). host_label l" using v by (simp add: hostname_valid_def list_all_iff)
  have name: "name = join_with ''.'' (p # ps)" using join_split [of "CHR ''.''" name] sp by simp
  have "alnum (hd name)" using name labels hd_join [of p "''.''" ps] by (simp add: host_label_def)
  moreover have "last (p # ps) \<in> set (p # ps)" by (rule last_in_set) simp
  then have "host_label (last (p # ps))" using labels by blast
  then have "alnum (last name)" using name last_join [of "p # ps" "''.''"] by (simp add: host_label_def)
  moreover have "alnum c \<or> c = CHR ''-'' \<or> c = CHR ''.''" if "c \<in> set name" for c
  proof (cases "c = CHR ''.''")
    case False
    then have "c \<in> (\<Union>p\<in>set (split_char CHR ''.'' name). set p)" unfolding set_split_char using that by simp
    then obtain l where l: "l \<in> set (split_char CHR ''.'' name)" "c \<in> set l" by (rule UN_E)
    then have "host_label l" using labels sp by auto
    then show ?thesis using l(2) by (auto simp: host_label_def list_all_iff)
  qed simp
  ultimately have "host_shape name" using v by (simp add: hostname_valid_def host_shape_def list_all_iff)
  moreover have "label_problem l = ''''" if "l \<in> set (p # ps)" for l
  proof -
    have "\<not> alnum CHR ''-''" by code_simp
    then show ?thesis using labels that unfolding label_problem_none host_label_def by metis
  qed
  ultimately show "hostname_problem name = ''''" by (simp add: hostname_problem_none sp)
qed

lemma trim_char_ends: "trim_char c s \<noteq> [] \<Longrightarrow> hd (trim_char c s) \<noteq> c \<and> last (trim_char c s) \<noteq> c"
  "set (trim_char c s) \<subseteq> set s" "length (trim_char c s) \<le> length s"
proof -
  let ?u = "dropWhile (\<lambda>x. x = c) s"
  have t: "trim_char c s = rev (dropWhile (\<lambda>x. x = c) (rev ?u))" by (simp add: trim_char_def)
  show "set (trim_char c s) \<subseteq> set s" by (auto simp: trim_char_def dest!: set_dropWhileD)
  show "length (trim_char c s) \<le> length s"
    unfolding trim_char_def length_rev by (rule order.trans [OF length_dropWhile_le]) (simp add: length_dropWhile_le)
  assume ne: "trim_char c s \<noteq> []"
  then have "dropWhile (\<lambda>x. x = c) (rev ?u) \<noteq> []" by (simp add: t)
  from hd_dropWhile [OF this] have "hd (dropWhile (\<lambda>x. x = c) (rev ?u)) \<noteq> c" by simp
  then have l: "last (trim_char c s) \<noteq> c" using ne by (simp add: t last_rev)
  obtain v where "rev ?u = v @ dropWhile (\<lambda>x. x = c) (rev ?u)" by (metis takeWhile_dropWhile_id)
  then have "?u = trim_char c s @ rev v" unfolding t by (metis rev_append rev_rev_ident)
  then have "hd ?u = hd (trim_char c s)" "?u \<noteq> []" using ne by (metis hd_append2, auto)
  then have "hd (trim_char c s) \<noteq> c" using hd_dropWhile [of "\<lambda>x. x = c" s] by simp
  with l show "hd (trim_char c s) \<noteq> c \<and> last (trim_char c s) \<noteq> c" by blast
qed

lemma trimmed_label:
  assumes "list_all (\<lambda>c. alnum c \<or> c = CHR ''-'') s" and "length s \<le> 63" and "trim_char CHR ''-'' s \<noteq> []"
  shows "host_label (trim_char CHR ''-'' s)"
proof -
  let ?t = "trim_char CHR ''-'' s"
  have "list_all (\<lambda>c. alnum c \<or> c = CHR ''-'') ?t" using assms(1) trim_char_ends(2) by (fastforce simp: list_all_iff)
  moreover have "hd ?t \<in> set ?t" "last ?t \<in> set ?t" using assms(3) by auto
  ultimately show ?thesis
    using trim_char_ends(1) [OF assms(3)] trim_char_ends(3) [of "CHR ''-''" s] assms(2,3)
    by (auto simp: host_label_def list_all_iff)
qed

lemma local_label_legal: "host_label (local_label name)"
proof -
  define s where "s = filter (\<lambda>c. alnum c \<or> c = CHR ''-'') (takeWhile (\<lambda>c. c \<noteq> CHR ''.'') name)"
  define cl where "cl = trim_char CHR ''-'' s"
  have chars: "list_all (\<lambda>c. alnum c \<or> c = CHR ''-'') s" by (simp add: s_def list_all_iff)
  have lab: "local_label name = (if cl = [] then ''hyperweaver-host'' else if 63 < length cl then trim_char CHR ''-'' (take 63 cl) else cl)"
    by (simp add: local_label_def s_def cl_def Let_def)
  have default_ok: "host_label ''hyperweaver-host''" by code_simp
  have clchars: "list_all (\<lambda>c. alnum c \<or> c = CHR ''-'') cl"
    using chars trim_char_ends(2) by (fastforce simp: list_all_iff cl_def)
  have "host_label (trim_char CHR ''-'' (take 63 cl))" if "63 < length cl"
  proof (rule trimmed_label)
    show "list_all (\<lambda>c. alnum c \<or> c = CHR ''-'') (take 63 cl)" using clchars by (auto simp: list_all_iff dest: in_set_takeD)
    have "cl \<noteq> []" using that by auto
    then have "hd cl \<noteq> CHR ''-''" using trim_char_ends(1) [of "CHR ''-''" s] by (simp add: cl_def)
    then have "hd cl \<in> set (dropWhile (\<lambda>x. x = CHR ''-'') (take 63 cl))" using that by (cases cl) auto
    then show "trim_char CHR ''-'' (take 63 cl) \<noteq> []"
      using \<open>hd cl \<noteq> CHR ''-''\<close> by (auto simp: trim_char_def dropWhile_eq_Nil_conv)
  qed simp
  moreover have "host_label cl" if "cl \<noteq> []" "length cl \<le> 63"
  proof -
    have "hd cl \<in> set cl" "last cl \<in> set cl" using that by auto
    then show ?thesis
      using clchars that trim_char_ends(1) [of "CHR ''-''" s] by (auto simp: host_label_def list_all_iff cl_def)
  qed
  ultimately show ?thesis using lab default_ok by simp
qed

lemma next_do_error: "snd (next_do a b r) = Some e \<Longrightarrow> snd (a r) = Some e \<or> (\<exists>r'. snd (b r') = Some e)"
  by (auto simp: next_do_def split: prod.splits option.splits)

lemma apply_errors:
  "snd (run_tool env noun argv r) \<noteq> Some (IllegalHostname name)"
  "snd (apply_windows env name imm r) \<noteq> Some (IllegalHostname name)"
  "snd (apply_darwin env name r) \<noteq> Some (IllegalHostname name)"
  "snd (apply_linux env name r) \<noteq> Some (IllegalHostname name)"
proof -
  have tool: "snd (run_tool env noun argv r) \<noteq> Some (IllegalHostname name)" for noun argv r
    by (auto simp: run_tool_def emit_def Let_def split: prod.splits option.splits)
  then show "snd (run_tool env noun argv r) \<noteq> Some (IllegalHostname name)" .
  note e = next_do_error tool
  show "snd (apply_windows env name imm r) \<noteq> Some (IllegalHostname name)"
    "snd (apply_darwin env name r) \<noteq> Some (IllegalHostname name)"
    "snd (apply_linux env name r) \<noteq> Some (IllegalHostname name)"
    unfolding apply_windows_def apply_darwin_def apply_linux_def applied_live_def
    by (auto simp: fails_def tool dest!: next_do_error split: if_splits option.splits)
qed

text \<open>C30: The request's staged check and the executor's grammar accept exactly the same names, so no accepted
  name is refused when its task runs. An accepted name holds letters, digits, hyphens and dots only (nothing
  the quoted PowerShell argument could end at), and the macOS local name is one legal label
  whatever the name.\<close>
theorem hostname_gates_agree:
  "(hostname_problem name = '''' \<longleftrightarrow> hostname_valid name)
   \<and> (fst (handle_set_hostname env (Some (Some name, imm)) st) = HostnameQueued i name imm reboot
       \<longrightarrow> snd (set_hostname env (Some (name, imm)) r) \<noteq> Some (IllegalHostname name)
         \<and> list_all (\<lambda>c. alnum c \<or> c \<in> {CHR ''-'', CHR ''.''}) name)
   \<and> host_label (local_label name)"
proof -
  have "hostname_problem name = ''''" if "fst (handle_set_hostname env (Some (Some name, imm)) st) = HostnameQueued i name imm reboot"
    using that by (auto simp: handle_set_hostname_def split: if_splits)
  moreover have "snd (set_hostname env (Some (name, imm)) r) \<noteq> Some (IllegalHostname name)" if "hostname_valid name"
    using that apply_errors by (simp add: set_hostname_def)
  moreover have "list_all (\<lambda>c. alnum c \<or> c \<in> {CHR ''-'', CHR ''.''}) name" if "hostname_problem name = ''''"
    using that by (auto simp: hostname_problem_none host_shape_def list_all_iff)
  ultimately show ?thesis using gates_agree local_label_legal by blast
qed

theorem hostname_gates_agree_witness:
  "snd (set_hostname (demo_env []) (Some (''web-1.lan'', False)) \<lparr>ran = [], out_log = []\<rparr>) \<noteq> Some (IllegalHostname ''web-1.lan'')"
proof -
  let ?st = "\<lparr>rows = [], has_notify = False, notified = []\<rparr>"
  have "hostname_problem ''web-1.lan'' = ''''" by code_simp
  then have "fst (handle_set_hostname (demo_env []) (Some (Some ''web-1.lan'', False)) ?st) = HostnameQueued ''t'' ''web-1.lan'' False False"
    by (simp add: handle_set_hostname_def create_def get_def Let_def demo_env_def new_row_def)
  then show ?thesis
    using hostname_gates_agree [of "''web-1.lan''" "demo_env []" False ?st "''t''" False "\<lparr>ran = [], out_log = []\<rparr>"] by blast
qed

subsection \<open>The feed on a small network\<close>

theorem suggestions_are_free_witness:
  "\<exists>d. ip_suggestions (demo_env demo_nets) (Some ''default via 10.0.0.9 dev eth0'') None None None ''3'' = Inr d
    \<and> sorted_wrt (<) (sd_suggestions d) \<and> length (sd_suggestions d) \<le> 3
    \<and> list_all (\<lambda>x. x AND mask4 29 = 0x0A000008) (sd_suggestions d)"
proof -
  let ?env = "demo_env demo_nets" and ?route = "Some ''default via 10.0.0.9 dev eth0''"
  let ?n = "\<lparr>nic_name = ''eth0'', nic_up = True, nic_addrs = Some demo_nets\<rparr>"
  let ?gw = "embed4 0x0A000009" and ?s = "(0x0A000008, 29) :: subnet"
  have gw: "parse_ip ''10.0.0.9'' = Some ?gw" using parse_ip_text [of ?gw] by (simp add: demo_ip)
  have line: "split_char CHR 0x0A ''default via 10.0.0.9 dev eth0'' = [''default via 10.0.0.9 dev eth0'']"
    by (rule split_char_single) simp
  have words: "text_fields ''default via 10.0.0.9 dev eth0'' = [''default'', ''via'', ''10.0.0.9'', ''dev'', ''eth0'']"
    using fields_words [of "[''default'', ''via'', ''10.0.0.9'', ''dev'', ''eth0'']"]
    by (simp add: plain_char_def)
  have found: "linux_fields [''default'', ''via'', ''10.0.0.9'', ''dev'', ''eth0''] (None, '''') = (Some ?gw, ''eth0'')"
    by (simp add: gw)
  have nic: "named_route ?env ?gw ''eth0'' = Inr (?gw, ?n)"
    by (simp add: named_route_def nic_by_name_def demo_env_def)
  have os: "goos ?env = ''linux''" by (simp add: demo_env_def)
  have "route_linux ?env [''default via 10.0.0.9 dev eth0''] = Inr (?gw, ?n)"
    by (simp only: route_linux.simps words found) (simp add: demo_to4 nic)
  then have route: "default_route ?env ?route = Inr (?gw, ?n)"
    unfolding default_route_def option.case line os by simp
  have sub: "interface_subnet ?n ?gw = Inr (?s, [?gw])"
    by (simp add: interface_subnet_def demo_nets_def pick_subnet_def demo_to4 mask4_def mask_numeral Let_def)
  have nb: "fst ?s \<noteq> 0xFFFFFFFF" by simp
  have count: "wanted_count ''3'' = 3" by code_simp
  have "\<exists>d. ip_suggestions ?env ?route None None None ''3'' = Inr d"
    unfolding ip_suggestions_def route by (simp add: sub case_prod_beta)
  then obtain d where d: "ip_suggestions ?env ?route None None None ''3'' = Inr d" by blast
  from suggestions_are_free [OF d route sub nb refl refl] count d show ?thesis by (auto simp: list_all_iff)
qed

end
