(* ===== verification/FieldDsl.thy ===== *)
theory FieldDsl
  imports Ip
begin

text \<open>
  The form definition of a provisioner package (\<^verbatim>\<open>internal/provisioner/fielddsl*.go\<close>): the loose
  reading of manifest values, the grammar of conditions and its evaluator, the visibility of fields, the
  validation of answers and what they contribute to the templates. \<open>FieldParse\<close> has the parser with
  its lint, \<open>FieldProps\<close> the properties.
\<close>

subsection \<open>Numbers and texts of values\<close>

text \<open>
  \<^verbatim>\<open>strconv.ParseFloat\<close> also reads infinities and NaN; a document's own floats are finite. The parameters are
  the float grammar, the printing of floats with \<^verbatim>\<open>%v\<close>, \<^verbatim>\<open>strconv.Quote\<close>, the message of a pattern that does not
  compile, and the read of the vault.
\<close>

datatype num = Fin float64 | PosInf | NegInf | NaN

record dsl_env = go_env +
  number_of :: "string \<Rightarrow> num option"
  float_v :: "float64 \<Rightarrow> string"
  quoted :: "string \<Rightarrow> string"
  regexp_error :: "string \<Rightarrow> string"
  secret_lookup :: "(string \<Rightarrow> string option) option"

fun num_less :: "num \<Rightarrow> num \<Rightarrow> bool" where
  "num_less (Fin x) (Fin y) = (x < y)"
| "num_less NegInf (Fin _) = True"
| "num_less NegInf PosInf = True"
| "num_less (Fin _) PosInf = True"
| "num_less _ _ = False"

definition num_eq :: "num \<Rightarrow> num \<Rightarrow> bool" where
  "num_eq x y \<longleftrightarrow> x = y \<and> x \<noteq> NaN"

definition num_le :: "num \<Rightarrow> num \<Rightarrow> bool" where
  "num_le x y \<longleftrightarrow> num_less x y \<or> num_eq x y"

fun num_v :: "dsl_env \<Rightarrow> num \<Rightarrow> string" where
  "num_v e (Fin x) = float_v e x"
| "num_v e PosInf = ''+Inf''"
| "num_v e NegInf = ''-Inf''"
| "num_v e NaN = ''NaN''"

fun any_string :: "json \<Rightarrow> string" where
  "any_string (JStr s) = s"
| "any_string _ = ''''"

fun any_bool :: "json \<Rightarrow> bool" where
  "any_bool (JBool b) = b"
| "any_bool _ = False"

text \<open>\<^verbatim>\<open>anyList\<close> is \<open>arr_of\<close>. A float is truncated; out of the 64-bit range Go leaves the result to the machine.\<close>

fun any_int :: "json \<Rightarrow> int \<Rightarrow> int" where
  "any_int (JInt n) fallback = (if int64_ok n then n else fallback)"
| "any_int (JFloat x) fallback = (if 0 \<le> x then \<lfloor>x\<rfloor> else \<lceil>x\<rceil>)"
| "any_int (JStr s) fallback = (case parse_int64 (trim_space s) of Some n \<Rightarrow> n | None \<Rightarrow> fallback)"
| "any_int _ fallback = fallback"

fun any_float :: "dsl_env \<Rightarrow> json \<Rightarrow> num option" where
  "any_float e (JInt n) = Some (Fin (round64 (of_int n)))"
| "any_float e (JFloat x) = Some (Fin x)"
| "any_float e (JStr s) = number_of e (trim_space s)"
| "any_float e _ = None"

text \<open>\<^verbatim>\<open>fmt.Sprint\<close>: maps with their keys in order.\<close>

fun sprint :: "dsl_env \<Rightarrow> json \<Rightarrow> string" where
  "sprint e JNull = ''<nil>''"
| "sprint e (JBool b) = (if b then ''true'' else ''false'')"
| "sprint e (JInt n) = int_text n"
| "sprint e (JFloat x) = float_v e x"
| "sprint e (JStr s) = s"
| "sprint e (JArr xs) = ''['' @ join_with '' '' (map (sprint e) xs) @ '']''"
| "sprint e (JObj m) = ''map['' @ join_with '' '' (map (\<lambda>(k, t). k @ '':'' @ t)
     (sort_key fst (map (\<lambda>(k, v). (k, sprint e v)) m))) @ '']''"

definition loose_equal :: "dsl_env \<Rightarrow> json \<Rightarrow> json \<Rightarrow> bool" where
  "loose_equal e a b =
    (case (any_float e a, any_float e b) of
       (Some x, Some y) \<Rightarrow> num_eq x y
     | _ \<Rightarrow> sprint e a = sprint e b)"

subsection \<open>Conditions\<close>

definition compare_op :: "string \<Rightarrow> num \<Rightarrow> num \<Rightarrow> bool" where
  "compare_op op x y =
    (if op = ''gt'' then num_less y x else if op = ''gte'' then num_le y x else if op = ''lt'' then num_less x y else num_le x y)"

definition not_any :: "dsl_env \<Rightarrow> json \<Rightarrow> json \<Rightarrow> bool" where
  "not_any e v operand =
    (case operand of
       JArr cs \<Rightarrow> \<not> list_ex (loose_equal e v) cs
     | _ \<Rightarrow> \<not> loose_equal e v operand)"

text \<open>The first operator of the map decides; a map of the grammar has one.\<close>

fun match_ops :: "dsl_env \<Rightarrow> json \<Rightarrow> obj \<Rightarrow> bool" where
  "match_ops e v [] = False"
| "match_ops e v ((op, operand) # ops) =
    (if op = ''min_items'' \<or> op = ''max_items'' then
       (let n = any_int operand (-1); size_of = int (length (arr_of v)) in
        if n < 0 then False else if op = ''min_items'' then n \<le> size_of else size_of \<le> n)
     else if op = ''not'' then not_any e v operand
     else if op = ''gt'' \<or> op = ''gte'' \<or> op = ''lt'' \<or> op = ''lte'' then
       (case (any_float e v, any_float e operand) of (Some x, Some y) \<Rightarrow> compare_op op x y | _ \<Rightarrow> False)
     else match_ops e v ops)"

definition match_operand :: "dsl_env \<Rightarrow> json \<Rightarrow> json \<Rightarrow> bool" where
  "match_operand e v spec =
    (case spec of
       JArr cs \<Rightarrow> list_ex (loose_equal e v) cs
     | JObj ops \<Rightarrow> match_ops e v ops
     | _ \<Rightarrow> loose_equal e v spec)"

lemma branch_size:
  assumes "(k, JArr bs) \<in> set block" and "b \<in> set bs"
  shows "size b < size (JObj block)"
proof -
  have "size b < size (JArr bs)" using assms(2) by (induction bs) auto
  moreover have "size (JArr bs) < size (JObj block)" using assms(1) by (induction block) auto
  ultimately show ?thesis by simp
qed

function eval_condition :: "dsl_env \<Rightarrow> json \<Rightarrow> obj \<Rightarrow> bool" where
  "eval_condition e (JObj block) values =
    list_all (\<lambda>(k, spec).
      if k = ''any'' then (case spec of JArr bs \<Rightarrow> list_ex (\<lambda>b. eval_condition e b values) bs | _ \<Rightarrow> False)
      else match_operand e (field values k) spec) block"
| "eval_condition e JNull values = False"
| "eval_condition e (JBool b) values = False"
| "eval_condition e (JInt n) values = False"
| "eval_condition e (JFloat x) values = False"
| "eval_condition e (JStr s) values = False"
| "eval_condition e (JArr bs) values = False"
  by pat_completeness auto
termination by (relation "measure (\<lambda>(e, c, v). size c)") (auto dest: branch_size)

subsection \<open>The form\<close>

record field_option =
  fo_value :: json
  fo_label :: string

record field_validate =
  fv_min :: "num option"
  fv_max :: "num option"
  fv_min_length :: "int option"
  fv_max_length :: "int option"
  fv_min_items :: "int option"
  fv_max_items :: "int option"
  fv_pattern :: string
  fv_pattern_error :: string
  fv_re :: "(string \<Rightarrow> bool) option"

record field_group =
  fg_name :: string
  fg_label :: string
  fg_help :: string
  fg_role :: string
  fg_advanced :: bool
  fg_show_if :: json

record dsl_field =
  df_name :: string
  df_label :: string
  df_type :: string
  df_group :: string
  df_help :: string
  df_default :: json
  df_required :: bool
  df_immutable :: bool
  df_rows :: int
  df_ip_version :: int
  df_items :: string
  df_kind :: string
  df_role :: string
  df_secret_key :: string
  df_profile :: string
  df_options :: "field_option list"
  df_options_source :: string
  df_generate_length :: int
  df_validate :: "field_validate option"
  df_show_if :: json

record field_dsl =
  dsl_groups :: "field_group list"
  dsl_fields :: "dsl_field list"

record role_input =
  ri_name :: string
  ri_enabled :: bool

subsection \<open>Visibility\<close>

text \<open>Defaults first, answers over them, one flag per role selection over both.\<close>

definition visibility_values :: "field_dsl \<Rightarrow> obj \<Rightarrow> role_input list \<Rightarrow> obj" where
  "visibility_values d answers roles =
    fold (\<lambda>r. AList.update (ri_name r @ ''_enabled'') (JBool (ri_enabled r))) roles
      (fold (\<lambda>(k, v). AList.update k v) answers
        (fold (\<lambda>f m. if df_default f = JNull then m else AList.update (df_name f) (df_default f) m) (dsl_fields d) []))"

definition group_visible :: "dsl_env \<Rightarrow> field_dsl \<Rightarrow> obj \<Rightarrow> string \<Rightarrow> bool" where
  "group_visible e d values name =
    (case find (\<lambda>g. fg_name g = name) (rev (dsl_groups d)) of
       None \<Rightarrow> True
     | Some g \<Rightarrow> fg_show_if g = JNull \<or> eval_condition e (fg_show_if g) values)"

definition field_visible :: "dsl_env \<Rightarrow> field_dsl \<Rightarrow> obj \<Rightarrow> dsl_field \<Rightarrow> bool" where
  "field_visible e d values f \<longleftrightarrow>
     (df_group f = '''' \<or> group_visible e d values (df_group f))
     \<and> (df_show_if f = JNull \<or> eval_condition e (df_show_if f) values)"

subsection \<open>Checking one answer\<close>

definition fqdn_ok :: "string \<Rightarrow> bool" where
  "fqdn_ok s \<longleftrightarrow> 2 \<le> length (split_char CHR ''.'' s) \<and> list_all host_label (split_char CHR ''.'' s)"

definition format_problem :: "int \<Rightarrow> string \<Rightarrow> string \<Rightarrow> string" where
  "format_problem ip_version kind txt =
    (if kind = ''fqdn'' then (if fqdn_ok txt then '''' else ''must be a fully qualified domain name'')
     else if kind = ''ipaddr'' then
       (case parse_ip txt of
          None \<Rightarrow> ''must be an IP address''
        | Some a \<Rightarrow> if ip_version = 4 \<and> to4 a = None then ''must be an IPv4 address''
            else if ip_version = 6 \<and> to4 a \<noteq> None then ''must be an IPv6 address'' else '''')
     else if kind = ''cidr'' then (if parse_cidr txt = None then ''must be CIDR notation (address/prefix)'' else '''')
     else '''')"

definition rule_problem :: "field_validate option \<Rightarrow> string \<Rightarrow> string" where
  "rule_problem val txt =
    (case val of
       None \<Rightarrow> ''''
     | Some v \<Rightarrow>
         if (case fv_min_length v of Some n \<Rightarrow> int (length txt) < n | None \<Rightarrow> False) then
           ''must be at least '' @ int_text (opt_default 0 (fv_min_length v)) @ '' characters''
         else if (case fv_max_length v of Some n \<Rightarrow> n < int (length txt) | None \<Rightarrow> False) then
           ''must be at most '' @ int_text (opt_default 0 (fv_max_length v)) @ '' characters''
         else if (case fv_re v of Some re \<Rightarrow> \<not> re txt | None \<Rightarrow> False) then fv_pattern_error v
         else '''')"

definition string_problem :: "dsl_field \<Rightarrow> string \<Rightarrow> string \<Rightarrow> string" where
  "string_problem f kind txt =
    (let p = format_problem (df_ip_version f) kind txt in if p \<noteq> '''' then p else rule_problem (df_validate f) txt)"

definition option_legal :: "dsl_env \<Rightarrow> dsl_field \<Rightarrow> json \<Rightarrow> bool" where
  "option_legal e f v \<longleftrightarrow> list_ex (\<lambda>option. loose_equal e (fo_value option) v) (df_options f)"

definition secret_kind_matches :: "string \<Rightarrow> string \<Rightarrow> bool" where
  "secret_kind_matches field_kind row_kind =
    (if field_kind \<in> {''certificate'', ''key''} then row_kind \<in> {''certificate'', ''authority'', ''key'', ''ssh_certificate''}
     else field_kind = row_kind)"

text \<open>The first bad entry of a list, numbered from one.\<close>

fun entries_problem :: "dsl_field \<Rightarrow> nat \<Rightarrow> json list \<Rightarrow> string" where
  "entries_problem f i [] = ''''"
| "entries_problem f i (x # xs) =
    (case x of
       JStr txt \<Rightarrow> if string_problem f (df_items f) txt \<noteq> '''' then ''entry '' @ nat_text (Suc i) @ '' '' @ string_problem f (df_items f) txt
         else entries_problem f (Suc i) xs
     | _ \<Rightarrow> ''entry '' @ nat_text (Suc i) @ '' must be a string'')"

definition number_problem :: "dsl_env \<Rightarrow> dsl_field \<Rightarrow> json \<Rightarrow> string" where
  "number_problem e f v =
    (case any_float e v of
       None \<Rightarrow> ''must be a number''
     | Some x \<Rightarrow>
         (case df_validate f of
            None \<Rightarrow> ''''
          | Some val \<Rightarrow>
              if (case fv_min val of Some b \<Rightarrow> num_less x b | None \<Rightarrow> False) then
                ''must be at least '' @ num_v e (opt_default NaN (fv_min val))
              else if (case fv_max val of Some b \<Rightarrow> num_less b x | None \<Rightarrow> False) then
                ''must be at most '' @ num_v e (opt_default NaN (fv_max val))
              else ''''))"

definition secret_problem :: "dsl_env \<Rightarrow> dsl_field \<Rightarrow> json \<Rightarrow> string" where
  "secret_problem e f v =
    (if any_string v = '''' then ''must name a secret''
     else case secret_lookup e of
       None \<Rightarrow> ''''
     | Some look \<Rightarrow>
         (case look (any_string v) of
            None \<Rightarrow> ''must name a secret of this host''
          | Some kind \<Rightarrow> if secret_kind_matches (df_kind f) kind then '''' else ''must name a '' @ df_kind f @ '' secret''))"

definition list_problem :: "dsl_field \<Rightarrow> json \<Rightarrow> string" where
  "list_problem f v =
    (case v of
       JArr xs \<Rightarrow>
         (let n = int (length xs); low = Option.bind (df_validate f) fv_min_items; high = Option.bind (df_validate f) fv_max_items in
          if (case low of Some b \<Rightarrow> n < b | None \<Rightarrow> False) then ''must have at least '' @ int_text (opt_default 0 low) @ '' entries''
          else if (case high of Some b \<Rightarrow> b < n | None \<Rightarrow> False) then ''must have at most '' @ int_text (opt_default 0 high) @ '' entries''
          else entries_problem f 0 xs)
     | _ \<Rightarrow> ''must be a list'')"

definition value_problem :: "dsl_env \<Rightarrow> dsl_field \<Rightarrow> json \<Rightarrow> string" where
  "value_problem e f v =
    (if df_type f = ''number'' then number_problem e f v
     else if df_type f = ''checkbox'' then (case v of JBool b \<Rightarrow> '''' | _ \<Rightarrow> ''must be true or false'')
     else if df_type f = ''select'' then
       (if df_options_source f \<noteq> '''' then (case v of JArr xs \<Rightarrow> ''must be a single value'' | _ \<Rightarrow> '''')
        else if option_legal e f v then '''' else ''must be one of the declared options'')
     else if df_type f = ''multiselect'' then
       (case v of
          JArr xs \<Rightarrow> (case find (\<lambda>x. \<not> option_legal e f x) xs of
             None \<Rightarrow> '''' | Some x \<Rightarrow> sprint e x @ '' is not one of the declared options'')
        | _ \<Rightarrow> ''must be a list of options'')
     else if df_type f = ''secret'' then secret_problem e f v
     else if df_type f = ''list'' then list_problem f v
     else case v of
       JStr txt \<Rightarrow>
         if df_type f = ''file'' \<and> (CHR ''/'' \<in> set txt \<or> CHR 0x5C \<in> set txt) then ''must be a file name, not a path''
         else string_problem f (df_type f) txt
     | _ \<Rightarrow> ''must be a string'')"

subsection \<open>Validating and rendering the answers\<close>

definition empty_answer :: "json \<Rightarrow> bool" where
  "empty_answer v \<longleftrightarrow> v = JNull \<or> v = JStr '''' \<or> v = JArr []"

definition field_problem :: "dsl_env \<Rightarrow> obj \<Rightarrow> obj \<Rightarrow> bool \<Rightarrow> dsl_field \<Rightarrow> string" where
  "field_problem e answers prior provisioned f =
    (let v = field answers (df_name f) in
     if \<not> has answers (df_name f) \<or> empty_answer v then
       (if df_required f \<and> df_default f = JNull \<and> df_generate_length f = 0 then ''required'' else '''')
     else if value_problem e f v \<noteq> '''' then value_problem e f v
     else if df_immutable f \<and> provisioned \<and> has prior (df_name f) \<and> \<not> loose_equal e (field prior (df_name f)) v then
       ''immutable after first provision''
     else '''')"

definition validate_answers :: "dsl_env \<Rightarrow> field_dsl \<Rightarrow> obj \<Rightarrow> role_input list \<Rightarrow> obj \<Rightarrow> bool \<Rightarrow> (string \<times> string) list" where
  "validate_answers e d answers roles prior provisioned =
    (let values = visibility_values d answers roles in
     map (\<lambda>(k, v). (k, ''not a field of this provisioner'' @ [CHR 0x27] @ ''s form''))
       (filter (\<lambda>(k, v). k \<notin> df_name ` set (dsl_fields d)) answers)
     @ map (\<lambda>f. (df_name f, field_problem e answers prior provisioned f))
         (filter (\<lambda>f. field_visible e d values f \<and> field_problem e answers prior provisioned f \<noteq> '''') (dsl_fields d)))"

definition render_answers :: "dsl_env \<Rightarrow> field_dsl \<Rightarrow> obj \<Rightarrow> role_input list \<Rightarrow> obj" where
  "render_answers e d answers roles =
    (let values = visibility_values d answers roles in
     map (\<lambda>f. (df_name f, field values (df_name f)))
       (filter (\<lambda>f. field_visible e d values f \<and> has values (df_name f)) (dsl_fields d)))"

end
