(* ===== verification/FieldParse.thy ===== *)
theory FieldParse
  imports FieldDsl
begin

text \<open>
  The parser of the form definition with its lint (\<^verbatim>\<open>fielddsl_parse.go\<close>, \<^verbatim>\<open>fielddsl_showif.go\<close>), the roles and
  defaults of the manifest (\<^verbatim>\<open>manifest_roles.go\<close>), the derived JSON Schema (\<^verbatim>\<open>fielddsl_schema.go\<close>) and what
  rests on the parsed form (secret fields, expected files, answer migrations). A problem is its text;
  the code visits a map in any order, the model in the list's.
\<close>

subsection \<open>Names\<close>

definition letter :: "char \<Rightarrow> bool" where
  "letter c \<longleftrightarrow> (CHR ''a'' \<le> c \<and> c \<le> CHR ''z'') \<or> (CHR ''A'' \<le> c \<and> c \<le> CHR ''Z'')"

definition field_name_ok :: "string \<Rightarrow> bool" where
  "field_name_ok s \<longleftrightarrow> s \<noteq> [] \<and> (letter (hd s) \<or> hd s = CHR ''_'')
     \<and> list_all (\<lambda>c. letter c \<or> digit_char c \<or> c = CHR ''_'') (tl s)"

definition valid_name :: "string \<Rightarrow> bool" where
  "valid_name s \<longleftrightarrow> s \<noteq> [] \<and> alnum (hd s) \<and> length s \<le> 128
     \<and> list_all (\<lambda>c. alnum c \<or> c \<in> {CHR ''.'', CHR ''_'', CHR ''-''}) (tl s)"

definition string_fields :: "string list" where
  "string_fields = [''cidr'', ''fqdn'', ''ipaddr'', ''password'', ''path'', ''text'', ''textarea'']"

definition field_types :: "string list" where
  "field_types = [''checkbox'', ''cidr'', ''file'', ''fqdn'', ''ipaddr'', ''list'', ''multiselect'', ''number'', ''password'',
     ''path'', ''secret'', ''select'', ''text'', ''textarea'']"

definition options_sources :: "string list" where
  "options_sources = [''networks'', ''datastores'', ''hosts'', ''images'', ''hypervisor'']"

definition file_kinds :: "string list" where
  "file_kinds = [''fixpack'', ''hotfix'', ''image'', ''installer'', ''iso'']"

definition secret_kinds :: "string list" where
  "secret_kinds = [''api_key'', ''basic_auth'', ''certificate'', ''custom'', ''file'', ''key'', ''key_pair'', ''oauth_client'',
     ''password'', ''ssh_key'']"

definition string_ruled :: "string \<Rightarrow> bool" where
  "string_ruled t \<longleftrightarrow> t \<in> set string_fields \<or> t = ''list'' \<or> t = ''file''"

definition warn :: "string \<Rightarrow> bool \<Rightarrow> string list" where
  "warn p bad = (if bad then [p] else [])"

subsection \<open>Conditions\<close>

text \<open>\<open>operands\<close> maps every operand that may be used here to its field type.\<close>

fun lint_ops :: "dsl_env \<Rightarrow> string \<Rightarrow> string option \<Rightarrow> obj \<Rightarrow> string list" where
  "lint_ops e here kind [(op, operand)] =
    (if op = ''not'' then []
     else if op = ''gt'' \<or> op = ''gte'' \<or> op = ''lt'' \<or> op = ''lte'' then
       warn (here @ ''.'' @ op @ '': needs a numeric operand ('' @ sprint e operand @ '')'') (any_float e operand = None)
     else if op = ''min_items'' \<or> op = ''max_items'' then
       warn (here @ ''.'' @ op @ '': applies to list fields only'') (kind \<noteq> None \<and> kind \<noteq> Some ''list'')
       @ warn (here @ ''.'' @ op @ '': needs a non-negative integer operand ('' @ sprint e operand @ '')'') (any_int operand (-1) < 0)
     else [here @ '': unknown operator '' @ quoted e op @ '' '' @ em_dash @ '' the closed set is not, gt, gte, lt, lte, min_items, max_items''])"
| "lint_ops e here kind _ = [here @ '': operator maps take exactly one of not, gt, gte, lt, lte, min_items, max_items'']"

definition lint_operand :: "dsl_env \<Rightarrow> (string \<times> string) list \<Rightarrow> string \<Rightarrow> string \<Rightarrow> json \<Rightarrow> string list" where
  "lint_operand e operands here k spec =
    warn (here @ '': operand '' @ quoted e k @ '' is not an earlier-declared field or a role-enable flag (<metadata.roles[].name>_enabled)'')
      (map_of operands k = None)
    @ (case spec of JObj ops \<Rightarrow> lint_ops e (here @ ''.'' @ k) (map_of operands k) ops | _ \<Rightarrow> [])"

lemma in_enumerate: "(i, b) \<in> set (enumerate n xs) \<Longrightarrow> b \<in> set xs"
  by (metis image_eqI list.set_map map_snd_enumerate snd_conv)

function lint_condition :: "dsl_env \<Rightarrow> (string \<times> string) list \<Rightarrow> string \<Rightarrow> json \<Rightarrow> string list" where
  "lint_condition e operands here (JObj block) =
    concat (map (\<lambda>(k, spec).
      if k = ''any'' then
        (case spec of
           JArr (b # bs) \<Rightarrow> concat (map (\<lambda>(i, b). lint_condition e operands (here @ ''.any['' @ nat_text i @ '']'') b) (enumerate 0 (b # bs)))
         | _ \<Rightarrow> [here @ ''.any: must be a list of condition maps''])
      else lint_operand e operands here k spec) block)"
| "lint_condition e operands here JNull = [here @ '': must be a map (the closed grammar has no expression strings)'']"
| "lint_condition e operands here (JBool b) = [here @ '': must be a map (the closed grammar has no expression strings)'']"
| "lint_condition e operands here (JInt n) = [here @ '': must be a map (the closed grammar has no expression strings)'']"
| "lint_condition e operands here (JFloat x) = [here @ '': must be a map (the closed grammar has no expression strings)'']"
| "lint_condition e operands here (JStr s) = [here @ '': must be a map (the closed grammar has no expression strings)'']"
| "lint_condition e operands here (JArr xs) = [here @ '': must be a map (the closed grammar has no expression strings)'']"
  by pat_completeness auto
termination
  by (relation "measure (\<lambda>(e, os, h, c). size c)") (auto simp del: enumerate_simps dest: in_enumerate branch_size)

subsection \<open>One field\<close>

definition one_of :: "dsl_env \<Rightarrow> string \<Rightarrow> string list \<Rightarrow> string \<Rightarrow> string" where
  "one_of e txt legal got = txt @ '', one of: '' @ join_with '', '' legal @ '' (got '' @ quoted e got @ '')''"

definition is_list :: "json \<Rightarrow> bool" where
  "is_list v \<longleftrightarrow> as_arr v \<noteq> None"

definition lint_typed_members :: "dsl_env \<Rightarrow> string \<Rightarrow> dsl_field \<Rightarrow> string list" where
  "lint_typed_members e here f =
    (if df_type f = ''list'' then
       warn (here @ one_of e '': list needs items'' string_fields (df_items f)) (df_items f \<notin> set string_fields)
       @ warn (here @ '': list default must be a list'') (df_default f \<noteq> JNull \<and> \<not> is_list (df_default f))
     else warn (here @ '': items applies to list only'') (df_items f \<noteq> ''''))
    @ (if df_type f = ''file'' then
         warn (here @ one_of e '': file needs kind'' file_kinds (df_kind f)) (df_kind f \<notin> set file_kinds)
         @ warn (here @ '': file needs role, the artifact row'' @ [CHR 0x27] @ ''s role (got '' @ quoted e (df_role f) @ '')'') (\<not> valid_name (df_role f))
         @ warn (here @ '': secret_key applies to secret only'') (df_secret_key f \<noteq> '''')
       else if df_type f = ''secret'' then
         warn (here @ one_of e '': secret needs kind'' secret_kinds (df_kind f)) (df_kind f \<notin> set secret_kinds)
         @ warn (here @ '': secret needs secret_key, the key the roles read from the secrets dict (got '' @ quoted e (df_secret_key f) @ '')'')
             (\<not> valid_name (df_secret_key f))
         @ warn (here @ '': role applies to file only'') (df_role f \<noteq> '''')
       else warn (here @ '': kind, role and secret_key apply to file and secret only'')
         (df_kind f \<noteq> '''' \<or> df_role f \<noteq> '''' \<or> df_secret_key f \<noteq> ''''))
    @ warn (here @ '': profile applies to secret only'') (df_type f \<noteq> ''secret'' \<and> df_profile f \<noteq> '''')"

definition parse_count :: "dsl_env \<Rightarrow> string \<Rightarrow> obj \<Rightarrow> string \<Rightarrow> bool \<Rightarrow> string \<Rightarrow> int option \<times> string list" where
  "parse_count e here raw key applies whose =
    (if \<not> has raw key then (None, [])
     else if \<not> applies then (None, [here @ ''.'' @ key @ '': applies to '' @ whose @ '' fields only''])
     else let n = any_int (field raw key) (-1) in
       if 0 \<le> n then (Some n, [])
       else (None, [here @ ''.'' @ key @ '': not a non-negative integer ('' @ sprint e (field raw key) @ '')'']))"

definition parse_bound :: "dsl_env \<Rightarrow> string \<Rightarrow> obj \<Rightarrow> string \<Rightarrow> string \<Rightarrow> num option \<times> string list" where
  "parse_bound e here raw key type_of_field =
    (if \<not> has raw key then (None, [])
     else if type_of_field \<noteq> ''number'' then (None, [here @ ''.'' @ key @ '': applies to number fields only''])
     else (case any_float e (field raw key) of
        Some x \<Rightarrow> (Some x, [])
      | None \<Rightarrow> (None, [here @ ''.'' @ key @ '': not a number ('' @ sprint e (field raw key) @ '')''])))"

definition parse_validate :: "dsl_env \<Rightarrow> string \<Rightarrow> obj \<Rightarrow> string \<Rightarrow> field_validate \<times> string list" where
  "parse_validate e here raw t =
    (let items = t = ''list''; strs = string_ruled t;
         min_i = parse_count e here raw ''min_items'' items ''list''; max_i = parse_count e here raw ''max_items'' items ''list'';
         low = parse_bound e here raw ''min'' t; high = parse_bound e here raw ''max'' t;
         min_l = parse_count e here raw ''min_length'' strs ''string''; max_l = parse_count e here raw ''max_length'' strs ''string'';
         pattern = any_string (field raw ''pattern''); perror = any_string (field raw ''pattern_error'')
     in (\<lparr>fv_min = fst low, fv_max = fst high, fv_min_length = fst min_l, fv_max_length = fst max_l,
           fv_min_items = fst min_i, fv_max_items = fst max_i, fv_pattern = pattern, fv_pattern_error = perror,
           fv_re = (if pattern = '''' then None else regexp_compile e pattern)\<rparr>,
         snd min_i @ snd max_i @ snd low @ snd high @ snd min_l @ snd max_l
         @ (if pattern \<noteq> '''' then
              warn (here @ ''.pattern: applies to string fields only'') (\<not> strs)
              @ warn (here @ ''.pattern: pattern_error is REQUIRED alongside pattern'') (perror = '''')
              @ warn (here @ ''.pattern: '' @ regexp_error e pattern @ '' (the JS/Go-common regex subset)'') (regexp_compile e pattern = None)
            else warn (here @ ''.pattern_error: has no pattern to describe'') (perror \<noteq> ''''))))"

definition parse_option :: "json \<Rightarrow> field_option option" where
  "parse_option entry =
    (case entry of
       JObj m \<Rightarrow> if has m ''value'' then Some \<lparr>fo_value = field m ''value'', fo_label = any_string (field m ''label'')\<rparr> else None
     | _ \<Rightarrow> Some \<lparr>fo_value = entry, fo_label = any_string entry\<rparr>)"

definition lint_options :: "dsl_env \<Rightarrow> string \<Rightarrow> dsl_field \<Rightarrow> string list" where
  "lint_options e here f =
    (if df_type f = ''select'' then
       (if df_options_source f \<noteq> '''' \<and> df_options f \<noteq> [] then [here @ '': options and options_source are mutually exclusive'']
        else if df_options_source f \<noteq> '''' then
          warn (here @ '': unknown options_source '' @ quoted e (df_options_source f) @ '' '' @ em_dash
            @ '' the closed set is: networks, datastores, hosts, images, hypervisor'') (df_options_source f \<notin> set options_sources)
        else warn (here @ '': select needs options or options_source'') (df_options f = []))
     else if df_type f = ''multiselect'' then
       warn (here @ '': options_source applies to select only'') (df_options_source f \<noteq> '''')
       @ warn (here @ '': multiselect needs options'') (df_options f = [])
     else warn (here @ '': options/options_source apply to select and multiselect only'')
       (df_options_source f \<noteq> '''' \<or> df_options f \<noteq> []))"

definition parse_generate :: "string \<Rightarrow> obj \<Rightarrow> string \<Rightarrow> int \<times> string list" where
  "parse_generate here raw t =
    (if \<not> has raw ''generate'' then (0, [])
     else if t \<noteq> ''password'' then (0, [here @ '': generate applies to password only''])
     else let n = any_int (field (obj_of (field raw ''generate'')) ''length'') 0 in
       if as_obj (field raw ''generate'') = None \<or> n \<le> 0 then (0, [here @ '': generate must be {length: <positive int>}'']) else (n, []))"

definition raw_field :: "obj \<Rightarrow> dsl_field" where
  "raw_field raw =
    \<lparr>df_name = any_string (field raw ''name''), df_label = any_string (field raw ''label''), df_type = any_string (field raw ''type''),
     df_group = any_string (field raw ''group''), df_help = any_string (field raw ''help''), df_default = field raw ''default'',
     df_required = any_bool (field raw ''required''), df_immutable = any_bool (field raw ''immutable''),
     df_rows = any_int (field raw ''rows'') 0, df_ip_version = any_int (field raw ''version'') 0,
     df_items = any_string (field raw ''items''), df_kind = any_string (field raw ''kind''), df_role = any_string (field raw ''role''),
     df_secret_key = any_string (field raw ''secret_key''), df_profile = any_string (field raw ''profile''),
     df_options = [], df_options_source = any_string (field raw ''options_source''), df_generate_length = 0, df_validate = None,
     df_show_if = field raw ''show_if''\<rparr>"

text \<open>The field and its problems; \<open>None\<close> when unusable.\<close>

definition lint_ip_version :: "string \<Rightarrow> dsl_field \<Rightarrow> string list" where
  "lint_ip_version here f =
    (if df_ip_version f = 0 then []
     else if df_type f \<noteq> ''ipaddr'' then [here @ '': version applies to ipaddr only'']
     else warn (here @ '': ipaddr version must be 4 or 6 (got '' @ int_text (df_ip_version f) @ '')'') (df_ip_version f \<notin> {4, 6}))"

definition parse_field :: "dsl_env \<Rightarrow> string \<Rightarrow> obj \<Rightarrow> field_group list \<Rightarrow> dsl_field option \<times> string list" where
  "parse_field e place raw groups =
    (let f = raw_field raw; here = place @ '' '' @ quoted e (df_name f);
         bad_name = warn (here @ '': name must be a legal Jinja2 identifier ([A-Za-z_][A-Za-z0-9_]*) '' @ em_dash
           @ '' it IS the template context key'') (\<not> field_name_ok (df_name f))
     in if df_name f = '''' then (None, [place @ '': name is required''])
        else if df_type f \<notin> set field_types then
          (None, bad_name @ [here @ '': unknown type '' @ quoted e (df_type f) @ '' '' @ em_dash @ '' the closed set is: ''
             @ join_with '', '' field_types])
        else
          let entries = arr_of (field raw ''options'');
              f1 = f\<lparr>df_options := List.map_filter parse_option entries\<rparr>;
              gen = parse_generate here raw (df_type f);
              f2 = f1\<lparr>df_generate_length := fst gen\<rparr>;
              val = (if \<not> has raw ''validate'' then (None, [])
                else case field raw ''validate'' of
                    JObj m \<Rightarrow> (case parse_validate e (here @ ''.validate'') m (df_type f) of (v, ps) \<Rightarrow> (Some v, ps))
                  | _ \<Rightarrow> (None, [here @ ''.validate: must be a map'']))
          in (Some (f2\<lparr>df_validate := fst val\<rparr>),
              bad_name
              @ warn (here @ '': group '' @ quoted e (df_group f) @ '' is not declared in groups[]'')
                  (df_group f \<noteq> '''' \<and> df_group f \<notin> fg_name ` set groups)
              @ warn (here @ '': rows applies to textarea only'') (df_rows f \<noteq> 0 \<and> df_type f \<noteq> ''textarea'')
              @ lint_ip_version here f
              @ lint_typed_members e here f
              @ List.map_filter (\<lambda>entry. if parse_option entry = None
                  then Some (here @ '': options entries in map form require a value'') else None) entries
              @ lint_options e here f1 @ snd gen
              @ warn (here @ '': password fields cannot carry a default (masked, log/export-redacted)'')
                  (df_type f = ''password'' \<and> df_default f \<noteq> JNull)
              @ snd val))"

subsection \<open>The form\<close>

record parse_state =
  ps_groups :: "field_group list"
  ps_fields :: "dsl_field list"
  ps_operands :: "(string \<times> string) list"
  ps_problems :: "string list"

definition complain :: "string list \<Rightarrow> parse_state \<Rightarrow> parse_state" where
  "complain ps st = st\<lparr>ps_problems := ps_problems st @ ps\<rparr>"

definition add_group :: "dsl_env \<Rightarrow> string list \<Rightarrow> nat \<times> json \<Rightarrow> parse_state \<Rightarrow> parse_state" where
  "add_group e role_names = (\<lambda>(i, entry) st.
    let here = ''metadata.configuration.groups['' @ nat_text i @ '']'' in
    case entry of
      JObj m \<Rightarrow>
        (let g = \<lparr>fg_name = any_string (field m ''name''), fg_label = any_string (field m ''label''), fg_help = any_string (field m ''help''),
                 fg_role = any_string (field m ''role''), fg_advanced = any_bool (field m ''advanced''), fg_show_if = field m ''show_if''\<rparr>
         in if fg_name g = '''' then complain [here @ '': name is required''] st
            else if fg_name g \<in> fg_name ` set (ps_groups st) then complain [here @ '' '' @ quoted e (fg_name g) @ '': duplicate group name''] st
            else complain (warn (here @ '' '' @ quoted e (fg_name g) @ '': role '' @ quoted e (fg_role g)
                @ '' is not a metadata.roles name '' @ em_dash @ '' the declared roles are: '' @ join_with '', '' role_names)
                (fg_role g \<noteq> '''' \<and> fg_role g \<notin> set role_names)) (st\<lparr>ps_groups := ps_groups st @ [g]\<rparr>))
    | _ \<Rightarrow> complain [here @ '': must be a map''] st)"

definition add_field :: "dsl_env \<Rightarrow> nat \<times> json \<Rightarrow> parse_state \<Rightarrow> parse_state" where
  "add_field e = (\<lambda>(i, entry) st.
    let here = ''metadata.configuration.fields['' @ nat_text i @ '']'' in
    case entry of
      JObj raw \<Rightarrow>
        (case parse_field e here raw (ps_groups st) of
           (None, ps) \<Rightarrow> complain ps st
         | (Some f, ps) \<Rightarrow>
             if df_name f \<in> df_name ` set (ps_fields st) then
               complain (ps @ [here @ '' '' @ quoted e (df_name f) @ '': duplicate field name'']) st
             else complain (ps @ (if df_show_if f = JNull then [] else lint_condition e (ps_operands st) (here @ ''.show_if'') (df_show_if f)))
               (st\<lparr>ps_fields := ps_fields st @ [f], ps_operands := AList.update (df_name f) (df_type f) (ps_operands st)\<rparr>))
    | _ \<Rightarrow> complain [here @ '': must be a map''] st)"

definition lint_groups :: "dsl_env \<Rightarrow> parse_state \<Rightarrow> string list" where
  "lint_groups e st =
    concat (map (\<lambda>(i, g). if fg_show_if g = JNull then []
      else lint_condition e (ps_operands st) (''metadata.configuration.groups['' @ nat_text i @ ''] '' @ quoted e (fg_name g) @ ''.show_if'')
        (fg_show_if g)) (enumerate 0 (ps_groups st)))"

definition role_operands :: "string list \<Rightarrow> (string \<times> string) list" where
  "role_operands role_names = map (\<lambda>r. (r @ ''_enabled'', ''checkbox'')) (rev role_names)"

definition parse_entries :: "dsl_env \<Rightarrow> obj \<Rightarrow> string list \<Rightarrow> parse_state" where
  "parse_entries e configuration role_names =
    fold (add_field e) (enumerate 0 (arr_of (field configuration ''fields'')))
      (fold (add_group e role_names) (enumerate 0 (arr_of (field configuration ''groups'')))
        \<lparr>ps_groups = [], ps_fields = [], ps_operands = role_operands role_names,
         ps_problems = concat (map (\<lambda>old. warn (''metadata.configuration.'' @ old @ '': legacy field format '' @ em_dash
             @ '' the DSL replaced it in ONE CUT; convert to {groups, fields}'') (has configuration old)) [''basicFields'', ''advancedFields''])\<rparr>)"

definition parse_field_dsl :: "dsl_env \<Rightarrow> obj \<Rightarrow> string list \<Rightarrow> field_dsl option \<times> string list" where
  "parse_field_dsl e metadata role_names =
    (case field (obj_of (field metadata ''metadata'')) ''configuration'' of
       JNull \<Rightarrow> (None, [])
     | JObj configuration \<Rightarrow>
         if configuration = [] then (None, [])
         else let st = parse_entries e configuration role_names; ps = ps_problems st @ lint_groups e st in
           if ps \<noteq> [] then (None, ps)
           else if ps_fields st = [] \<and> ps_groups st = [] then (None, [])
           else (Some \<lparr>dsl_groups = ps_groups st, dsl_fields = ps_fields st\<rparr>, [])
     | _ \<Rightarrow> (None, [''metadata.configuration: must be a map with groups and fields'']))"

subsection \<open>The roles and defaults of a manifest\<close>

record manifest_role =
  mr_name :: string
  mr_label :: string
  mr_description :: string
  mr_default_enabled :: bool
  mr_required :: bool
  mr_collection :: string
  mr_tags :: "string list"
  mr_installer_dir :: string
  mr_files :: "(string \<times> (string \<times> string) list) list"

fun any_string_list :: "json \<Rightarrow> string list" where
  "any_string_list (JStr s) = (if s = '''' then [] else [s])"
| "any_string_list (JArr xs) = filter (\<lambda>s. s \<noteq> '''') (map any_string xs)"
| "any_string_list _ = []"

definition file_answers :: "json \<Rightarrow> (string \<times> string) list" where
  "file_answers v = map (\<lambda>(k, x). (k, any_string x)) (obj_of (field (obj_of v) ''answers''))"

definition manifest_role_of :: "obj \<Rightarrow> manifest_role" where
  "manifest_role_of raw =
    \<lparr>mr_name = any_string (field raw ''name''), mr_label = any_string (field raw ''label''),
     mr_description = any_string (field raw ''description''), mr_default_enabled = any_bool (field raw ''default_enabled''),
     mr_required = any_bool (field raw ''required''), mr_collection = any_string (field raw ''collection''),
     mr_tags = any_string_list (field raw ''tags''), mr_installer_dir = any_string (field raw ''installer_dir''),
     mr_files = map (\<lambda>(kind, v). (kind, file_answers v)) (obj_of (field raw ''files''))\<rparr>"

definition manifest_roles :: "obj \<Rightarrow> manifest_role list" where
  "manifest_roles metadata =
    filter (\<lambda>r. mr_name r \<noteq> '''')
      (map (\<lambda>entry. manifest_role_of (obj_of entry)) (arr_of (field (obj_of (field metadata ''metadata'')) ''roles'')))"

definition manifest_role_named :: "obj \<Rightarrow> string \<Rightarrow> manifest_role option" where
  "manifest_role_named metadata name = find (\<lambda>r. mr_name r = name) (manifest_roles metadata)"

definition manifest_role_names :: "obj \<Rightarrow> string list" where
  "manifest_role_names metadata = map mr_name (manifest_roles metadata)"

definition string_list :: "json \<Rightarrow> bool" where
  "string_list v \<longleftrightarrow> (case v of JArr xs \<Rightarrow> list_all (\<lambda>x. as_str x \<noteq> None) xs | _ \<Rightarrow> False)"

definition lint_default :: "string \<Rightarrow> json \<Rightarrow> string list" where
  "lint_default key v =
    (let here = ''metadata.defaults.'' @ key in
     if key = ''settings'' \<or> key = ''disks'' then warn (here @ '': must be a map'') (as_obj v = None)
     else if key = ''networks'' then warn (here @ '': must be a list'') (as_arr v = None)
     else if key = ''tags'' then warn (here @ '': must be a list of strings'') (\<not> string_list v)
     else if key = ''guest_agent'' then warn (here @ '': must be a boolean'') (case v of JBool b \<Rightarrow> False | _ \<Rightarrow> True)
     else [here @ '': unknown key '' @ em_dash @ '' the closed set is: disks, guest_agent, networks, settings, tags''])"

definition lint_defaults :: "obj \<Rightarrow> string list" where
  "lint_defaults metadata =
    (case field (obj_of (field metadata ''metadata'')) ''defaults'' of
       JNull \<Rightarrow> []
     | JObj defaults \<Rightarrow> concat (map (\<lambda>(k, v). lint_default k v) (sort_key fst defaults))
     | _ \<Rightarrow> [''metadata.defaults: must be a map with settings, disks, networks, tags and guest_agent''])"

definition role_file_kinds :: "string list" where
  "role_file_kinds = [''installer'', ''fixpack'', ''hotfix'']"

text \<open>\<open>declared\<close> is \<open>None\<close> when the form failed its own lint.\<close>

definition lint_role :: "dsl_env \<Rightarrow> string list option \<Rightarrow> nat \<times> manifest_role \<Rightarrow> string list" where
  "lint_role e declared = (\<lambda>(i, r).
    let here = ''metadata.roles['' @ nat_text i @ ''] '' @ quoted e (mr_name r) in
    warn (here @ '': installer_dir '' @ quoted e (mr_installer_dir r) @ '' is not usable as a directory'')
      (mr_installer_dir r \<noteq> '''' \<and> \<not> valid_name (mr_installer_dir r))
    @ (if mr_files r = [] then []
       else warn (here @ '': files needs installer_dir, the folder under installers/ the role reads'') (mr_installer_dir r = '''')
         @ concat (map (\<lambda>(kind, answers).
             if kind \<notin> set role_file_kinds then
               [here @ ''.files.'' @ kind @ '': unknown kind '' @ em_dash @ '' the closed set is: fixpack, hotfix, installer'']
             else case declared of
               None \<Rightarrow> []
             | Some names \<Rightarrow> concat (map (\<lambda>(key, target).
                 warn (here @ ''.files.'' @ kind @ ''.answers.'' @ key @ '': '' @ quoted e target
                   @ '' is not a field of metadata.configuration'') (target \<notin> set names)) (sort_key fst answers)))
           (sort_key fst (mr_files r)))))"

definition lint_roles :: "dsl_env \<Rightarrow> obj \<Rightarrow> string list option \<Rightarrow> string list" where
  "lint_roles e metadata declared = concat (map (lint_role e declared) (enumerate 0 (manifest_roles metadata)))"

subsection \<open>The derived schema\<close>

definition member :: "string \<Rightarrow> bool \<Rightarrow> json \<Rightarrow> obj" where
  "member k present v = (if present then [(k, v)] else [])"

definition string_format :: "string \<Rightarrow> int \<Rightarrow> string" where
  "string_format kind ip_version =
    (if kind = ''fqdn'' then ''hostname''
     else if kind = ''ipaddr'' then (if ip_version = 4 then ''ipv4'' else if ip_version = 6 then ''ipv6'' else '''') else '''')"

definition count_member :: "string \<Rightarrow> int option \<Rightarrow> obj" where
  "count_member k n = (case n of None \<Rightarrow> [] | Some i \<Rightarrow> [(k, JInt i)])"

definition string_rules :: "field_validate option \<Rightarrow> obj" where
  "string_rules val =
    (case val of
       None \<Rightarrow> []
     | Some v \<Rightarrow> count_member ''minLength'' (fv_min_length v) @ count_member ''maxLength'' (fv_max_length v)
         @ member ''pattern'' (fv_pattern v \<noteq> '''') (JStr (fv_pattern v)))"

text \<open>A bound that is no finite number cannot be printed: \<open>None\<close>.\<close>

definition bound_member :: "string \<Rightarrow> num option \<Rightarrow> obj option" where
  "bound_member k b = (case b of None \<Rightarrow> Some [] | Some (Fin x) \<Rightarrow> Some [(k, JFloat x)] | _ \<Rightarrow> None)"

definition typed_members :: "dsl_field \<Rightarrow> obj option" where
  "typed_members f =
    (let t = df_type f; kind = member ''x-hyperweaver-kind'' True (JStr (df_kind f)); str = (''type'', JStr ''string'') in
     if t = ''number'' then
       (case (bound_member ''minimum'' (Option.bind (df_validate f) fv_min), bound_member ''maximum'' (Option.bind (df_validate f) fv_max)) of
          (Some lo, Some hi) \<Rightarrow> Some ((''type'', JStr ''number'') # lo @ hi)
        | _ \<Rightarrow> None)
     else if t = ''checkbox'' then Some [(''type'', JStr ''boolean'')]
     else if t = ''select'' then
       Some (if df_options f \<noteq> [] then [(''enum'', JArr (map fo_value (df_options f)))]
         else [str, (''x-hyperweaver-options-source'', JStr (df_options_source f))])
     else if t = ''multiselect'' then
       Some [(''type'', JStr ''array''), (''uniqueItems'', JBool True), (''items'', JObj [(''enum'', JArr (map fo_value (df_options f)))])]
     else if t = ''list'' then
       Some ([(''type'', JStr ''array''),
          (''items'', JObj (str # member ''format'' (string_format (df_items f) 0 \<noteq> '''') (JStr (string_format (df_items f) 0))
             @ string_rules (df_validate f))),
          (''x-hyperweaver-items'', JStr (df_items f))]
         @ count_member ''minItems'' (Option.bind (df_validate f) fv_min_items)
         @ count_member ''maxItems'' (Option.bind (df_validate f) fv_max_items))
     else if t = ''file'' then Some (str # kind @ [(''x-hyperweaver-role'', JStr (df_role f))] @ string_rules (df_validate f))
     else if t = ''secret'' then
       Some (str # kind @ [(''x-hyperweaver-secret-key'', JStr (df_secret_key f))]
         @ member ''x-hyperweaver-profile'' (df_profile f \<noteq> '''') (JStr (df_profile f)))
     else Some (str # member ''format'' (string_format t (df_ip_version f) \<noteq> '''') (JStr (string_format t (df_ip_version f)))
       @ member ''writeOnly'' (t = ''password'') (JBool True) @ string_rules (df_validate f)))"

definition field_property :: "dsl_field \<Rightarrow> json option" where
  "field_property f = map_option (\<lambda>typed. JObj
    (member ''title'' (df_label f \<noteq> '''') (JStr (df_label f)) @ member ''description'' (df_help f \<noteq> '''') (JStr (df_help f))
     @ member ''default'' (df_default f \<noteq> JNull) (df_default f) @ typed
     @ [(''x-hyperweaver-type'', JStr (df_type f))]
     @ member ''x-hyperweaver-group'' (df_group f \<noteq> '''') (JStr (df_group f))
     @ member ''x-hyperweaver-show-if'' (df_show_if f \<noteq> JNull) (df_show_if f)
     @ member ''x-hyperweaver-immutable'' (df_immutable f) (JBool True))) (typed_members f)"

definition unconditional :: "field_dsl \<Rightarrow> dsl_field \<Rightarrow> bool" where
  "unconditional d f \<longleftrightarrow> df_show_if f = JNull
     \<and> (df_group f = '''' \<or> (case find (\<lambda>g. fg_name g = df_group f) (rev (dsl_groups d)) of
          None \<Rightarrow> True | Some g \<Rightarrow> fg_show_if g = JNull))"

definition schema_required :: "field_dsl \<Rightarrow> string list" where
  "schema_required d = sort (map df_name (filter (\<lambda>f. df_required f \<and> unconditional d f) (dsl_fields d)))"

definition schema_group :: "field_group \<Rightarrow> json" where
  "schema_group g = JObj ((''name'', JStr (fg_name g)) # member ''label'' (fg_label g \<noteq> '''') (JStr (fg_label g))
     @ member ''role'' (fg_role g \<noteq> '''') (JStr (fg_role g)) @ member ''advanced'' (fg_advanced g) (JBool True)
     @ member ''show_if'' (fg_show_if g \<noteq> JNull) (fg_show_if g))"

definition field_schema :: "obj \<Rightarrow> field_dsl \<Rightarrow> json option" where
  "field_schema manifest d =
    (let props = map (\<lambda>f. (df_name f, field_property f)) (dsl_fields d) in
     if list_ex (\<lambda>(k, p). p = None) props then None
     else Some (JObj
       ([(''$schema'', JStr ''https://json-schema.org/draft/2020-12/schema''),
         (''title'', JStr (any_string (field manifest ''name'') @ '' '' @ any_string (field manifest ''version''))),
         (''type'', JStr ''object''), (''properties'', JObj (map (\<lambda>(k, p). (k, the p)) props)),
         (''additionalProperties'', JBool False), (''x-hyperweaver-groups'', JArr (map schema_group (dsl_groups d)))]
        @ member ''required'' (schema_required d \<noteq> []) (JArr (map JStr (schema_required d))))))"

subsection \<open>A version's entries\<close>

text \<open>\<open>Inl\<close> carries the error of a form that is no form. Without a form answers pass through.\<close>

definition invalid_form :: "string list \<Rightarrow> string" where
  "invalid_form ps = ''package field DSL is invalid '' @ em_dash @ '' re-import to see the lint: '' @ join_with ''; '' ps"

definition resolve_answers :: "dsl_env \<Rightarrow> obj \<Rightarrow> role_input list \<Rightarrow> obj \<Rightarrow> string + obj" where
  "resolve_answers e metadata roles answers =
    (case parse_field_dsl e metadata (manifest_role_names metadata) of
       (d, ps) \<Rightarrow> if ps \<noteq> [] then Inl (invalid_form ps)
         else case d of None \<Rightarrow> Inr answers | Some d \<Rightarrow> Inr (render_answers e d answers roles))"

definition validate_version_answers :: "dsl_env \<Rightarrow> obj \<Rightarrow> role_input list \<Rightarrow> obj \<Rightarrow> obj \<Rightarrow> bool \<Rightarrow> string + (string \<times> string) list" where
  "validate_version_answers e metadata roles answers prior provisioned =
    (case parse_field_dsl e metadata (manifest_role_names metadata) of
       (d, ps) \<Rightarrow> if ps \<noteq> [] then Inl (invalid_form ps)
         else case d of None \<Rightarrow> Inr [] | Some d \<Rightarrow> Inr (validate_answers e d answers roles prior provisioned))"

definition lint_version_manifest :: "dsl_env \<Rightarrow> string + obj \<Rightarrow> string list" where
  "lint_version_manifest e read =
    (case read of
       Inl err \<Rightarrow> [''provisioner.yml: '' @ err]
     | Inr manifest \<Rightarrow>
         (case parse_field_dsl e manifest (manifest_role_names manifest) of
            (d, ps) \<Rightarrow>
              ps @ lint_roles e manifest
                (if ps \<noteq> [] then None else Some (case d of None \<Rightarrow> [] | Some d \<Rightarrow> map df_name (dsl_fields d)))
              @ lint_defaults manifest))"

datatype schema_file = SchemaRemoved | SchemaWritten json

text \<open>
  The result of reading the manifest, and the error of removing (other than that there is no file) and of
  writing the schema file are arguments.
\<close>

definition build_field_schema :: "dsl_env \<Rightarrow> string + obj \<Rightarrow> string option \<Rightarrow> string option \<Rightarrow> string + nat \<times> schema_file" where
  "build_field_schema e read remove_error write_error =
    (case read of
       Inl err \<Rightarrow> Inl err
     | Inr manifest \<Rightarrow>
         (case parse_field_dsl e manifest (manifest_role_names manifest) of
            (d, ps) \<Rightarrow>
              if ps \<noteq> [] then Inl (join_with ''; '' ps)
              else case d of
                None \<Rightarrow> (case remove_error of Some err \<Rightarrow> Inl err | None \<Rightarrow> Inr (0, SchemaRemoved))
              | Some d \<Rightarrow> (case field_schema manifest d of
                  None \<Rightarrow> Inl ''json: unsupported value''
                | Some doc \<Rightarrow> (case write_error of Some err \<Rightarrow> Inl err | None \<Rightarrow> Inr (length (dsl_fields d), SchemaWritten doc)))))"

record secret_field =
  sf_name :: string
  sf_kind :: string
  sf_secret_key :: string
  sf_profile :: string

definition dsl_error :: "string list \<Rightarrow> string" where
  "dsl_error ps = ''package field DSL is invalid '' @ em_dash @ '' re-import to see the lint:'' @ concat (map (\<lambda>p. '' '' @ p @ '';'') ps)"

definition secret_fields :: "dsl_env \<Rightarrow> obj \<Rightarrow> string + secret_field list" where
  "secret_fields e metadata =
    (case parse_field_dsl e metadata (manifest_role_names metadata) of
       (d, ps) \<Rightarrow>
         if ps \<noteq> [] then Inl (dsl_error ps)
         else Inr (map (\<lambda>f. \<lparr>sf_name = df_name f, sf_kind = df_kind f, sf_secret_key = df_secret_key f, sf_profile = df_profile f\<rparr>)
           (filter (\<lambda>f. df_type f = ''secret'') (case d of None \<Rightarrow> [] | Some d \<Rightarrow> dsl_fields d))))"

record expected_file =
  ef_role :: string
  ef_kind :: string
  ef_filename :: string

definition expected_files :: "dsl_env \<Rightarrow> obj \<Rightarrow> expected_file list" where
  "expected_files e metadata =
    (case parse_field_dsl e metadata (manifest_role_names metadata) of
       (None, ps) \<Rightarrow> []
     | (Some d, ps) \<Rightarrow>
         if ps \<noteq> [] then []
         else let text_of = (\<lambda>name. case find (\<lambda>f. df_name f = name) (dsl_fields d) of None \<Rightarrow> '''' | Some f \<Rightarrow> any_string (df_default f)) in
           concat (map (\<lambda>r. if mr_installer_dir r = '''' then []
             else List.map_filter (\<lambda>(kind, answers).
               let target = opt_default '''' (map_of answers ''name''); filename = text_of target in
               if target = '''' \<or> filename = '''' then None
               else Some \<lparr>ef_role = mr_installer_dir r, ef_kind = kind, ef_filename = filename\<rparr>) (mr_files r)) (manifest_roles metadata)))"

subsection \<open>Answer migrations\<close>

text \<open>\<open>renames\<close> are those of the target version's file for the source version, \<open>None\<close> without the file.\<close>

definition migrate_one :: "(string \<times> string) list \<Rightarrow> obj \<Rightarrow> string \<times> json \<Rightarrow> obj \<Rightarrow> obj" where
  "migrate_one renames answers = (\<lambda>(k, v) out.
    case map_of renames k of
      Some new \<Rightarrow> if has answers new then out else AList.update new v out
    | None \<Rightarrow> AList.update k v out)"

definition apply_answer_migrations :: "(string \<times> string) list option \<Rightarrow> obj \<Rightarrow> obj" where
  "apply_answer_migrations file_renames answers =
    (case file_renames of
       None \<Rightarrow> answers
     | Some renames \<Rightarrow> if renames = [] \<or> answers = [] then answers else fold (migrate_one renames answers) answers [])"

end
