(* ===== verification/FieldLaws.thy ===== *)
theory FieldLaws
  imports FieldParse
begin

text \<open>
  Lemmas on the form definition: what a condition reads, what the lint lets it read, and the legality of a
  form that passes the lint, by an invariant of the parser's state. \<open>FieldProps\<close> has the properties.
\<close>

subsection \<open>What a condition reads\<close>

function condition_operands :: "json \<Rightarrow> string set" where
  "condition_operands (JObj block) =
    (\<Union>(k, spec)\<in>set block. if k = ''any'' then (case spec of JArr bs \<Rightarrow> \<Union>b\<in>set bs. condition_operands b | _ \<Rightarrow> {}) else {k})"
| "condition_operands JNull = {}"
| "condition_operands (JBool b) = {}"
| "condition_operands (JInt n) = {}"
| "condition_operands (JFloat x) = {}"
| "condition_operands (JStr s) = {}"
| "condition_operands (JArr bs) = {}"
  by pat_completeness auto
termination by (relation "measure size") (auto dest: branch_size)

lemma eval_reads:
  "(\<And>k. k \<in> condition_operands c \<Longrightarrow> field vals k = field vals' k) \<Longrightarrow> eval_condition e c vals = eval_condition e c vals'"
proof (induction e c vals rule: eval_condition.induct)
  case (1 e block vals)
  have eq: "(if k = ''any'' then (case spec of JArr bs \<Rightarrow> list_ex (\<lambda>b. eval_condition e b vals) bs | _ \<Rightarrow> False)
        else match_operand e (field vals k) spec)
      = (if k = ''any'' then (case spec of JArr bs \<Rightarrow> list_ex (\<lambda>b. eval_condition e b vals') bs | _ \<Rightarrow> False)
        else match_operand e (field vals' k) spec)" if m: "(k, spec) \<in> set block" for k spec
  proof (cases "k = ''any''")
    case True
    have "eval_condition e b vals = eval_condition e b vals'" if bs: "spec = JArr bs" "b \<in> set bs" for bs b
    proof -
      have "field vals j = field vals' j" if j: "j \<in> condition_operands b" for j
      proof -
        have "j \<in> condition_operands (JObj block)" using m True bs j by (auto intro!: bexI [of _ "(k, spec)"])
        then show ?thesis by (rule "1.prems")
      qed
      then show ?thesis using "1.IH" m True bs by blast
    qed
    then show ?thesis using True by (auto split: json.splits intro!: list_ex_cong)
  next
    case False
    then have "k \<in> condition_operands (JObj block)" using m by (auto intro!: bexI [of _ "(k, spec)"])
    then show ?thesis using False "1.prems" by simp
  qed
  show ?case unfolding eval_condition.simps list_all_iff by (intro ball_cong refl) (clarify, drule eq, simp only: case_prod_conv)
qed simp_all

lemma warn_empty [simp]: "warn p b = [] \<longleftrightarrow> \<not> b"
  by (simp add: warn_def)

lemma enumerated:
  assumes "x \<in> set xs"
  obtains i where "(i, x) \<in> set (enumerate 0 xs)"
proof -
  obtain i where "i < length xs" "xs ! i = x" using assms by (auto simp: in_set_conv_nth)
  then show thesis by (intro that [of i]) (simp add: in_set_enumerate_eq)
qed

lemma linted_operands:
  "lint_condition e operands here c = [] \<Longrightarrow> condition_operands c \<subseteq> fst ` set operands"
proof (induction e operands here c rule: lint_condition.induct)
  case (1 e operands here block)
  show ?case
  proof
    fix j assume "j \<in> condition_operands (JObj block)"
    then obtain k spec where m: "(k, spec) \<in> set block"
      and j: "j \<in> (if k = ''any'' then (case spec of JArr bs \<Rightarrow> \<Union>b\<in>set bs. condition_operands b | _ \<Rightarrow> {}) else {k})" by auto
    show "j \<in> fst ` set operands"
    proof (cases "k = ''any''")
      case True
      then obtain bs b where bs: "spec = JArr bs" "b \<in> set bs" "j \<in> condition_operands b" using j by (auto split: json.splits)
      then obtain b0 bs' where b0: "bs = b0 # bs'" by (cases bs) auto
      obtain i where i: "(i, b) \<in> set (enumerate 0 bs)" using bs(2) by (rule enumerated)
      have "lint_condition e operands (here @ ''.any['' @ nat_text i @ '']'') b = []"
        using "1.prems" m True bs(1) b0 i by (force simp del: enumerate_simps)
      then have "condition_operands b \<subseteq> fst ` set operands"
        using "1.IH" m True bs(1) b0 i by blast
      then show ?thesis using bs(3) by blast
    next
      case False
      then have "lint_operand e operands here k spec = []" using "1.prems" m by auto
      then show ?thesis using False j by (auto simp: lint_operand_def dest: map_of_SomeD) (metis image_eqI fst_conv map_of_SomeD)
    qed
  qed
qed simp_all

subsection \<open>Legal fields and forms\<close>

definition members_legal :: "dsl_field \<Rightarrow> bool" where
  "members_legal f \<longleftrightarrow>
     (if df_type f = ''list'' then df_items f \<in> set string_fields \<and> (df_default f = JNull \<or> is_list (df_default f)) else df_items f = '''')
     \<and> (df_type f = ''file'' \<longrightarrow> df_kind f \<in> set file_kinds \<and> valid_name (df_role f))
     \<and> (df_type f = ''secret'' \<longrightarrow> df_kind f \<in> set secret_kinds \<and> valid_name (df_secret_key f))
     \<and> (df_type f \<notin> {''file'', ''secret''} \<longrightarrow> df_kind f = '''')
     \<and> (df_type f \<noteq> ''file'' \<longrightarrow> df_role f = '''') \<and> (df_type f \<noteq> ''secret'' \<longrightarrow> df_secret_key f = '''' \<and> df_profile f = '''')"

definition options_legal :: "dsl_field \<Rightarrow> bool" where
  "options_legal f \<longleftrightarrow>
     (df_type f = ''select'' \<longrightarrow> (if df_options f = [] then df_options_source f \<in> set options_sources else df_options_source f = ''''))
     \<and> (df_type f = ''multiselect'' \<longrightarrow> df_options f \<noteq> [] \<and> df_options_source f = '''')
     \<and> (df_type f \<notin> {''select'', ''multiselect''} \<longrightarrow> df_options f = [] \<and> df_options_source f = '''')"

definition rules_legal :: "string \<Rightarrow> field_validate \<Rightarrow> bool" where
  "rules_legal t v \<longleftrightarrow>
     (t \<noteq> ''number'' \<longrightarrow> fv_min v = None \<and> fv_max v = None)
     \<and> (t \<noteq> ''list'' \<longrightarrow> fv_min_items v = None \<and> fv_max_items v = None)
     \<and> (\<not> string_ruled t \<longrightarrow> fv_min_length v = None \<and> fv_max_length v = None \<and> fv_pattern v = '''')
     \<and> (\<forall>n \<in> set_option (fv_min_length v) \<union> set_option (fv_max_length v) \<union> set_option (fv_min_items v) \<union> set_option (fv_max_items v). 0 \<le> n)
     \<and> (fv_pattern v \<noteq> '''' \<longleftrightarrow> fv_re v \<noteq> None) \<and> (fv_pattern v \<noteq> '''' \<longleftrightarrow> fv_pattern_error v \<noteq> '''')"

definition field_legal :: "dsl_field \<Rightarrow> bool" where
  "field_legal f \<longleftrightarrow> field_name_ok (df_name f) \<and> df_type f \<in> set field_types \<and> members_legal f \<and> options_legal f
     \<and> (df_rows f \<noteq> 0 \<longrightarrow> df_type f = ''textarea'') \<and> (df_ip_version f \<noteq> 0 \<longrightarrow> df_type f = ''ipaddr'' \<and> df_ip_version f \<in> {4, 6})
     \<and> 0 \<le> df_generate_length f \<and> (df_generate_length f \<noteq> 0 \<longrightarrow> df_type f = ''password'')
     \<and> (df_type f = ''password'' \<longrightarrow> df_default f = JNull)
     \<and> (\<forall>v \<in> set_option (df_validate f). rules_legal (df_type f) v)"

definition flags_of :: "string list \<Rightarrow> string set" where
  "flags_of role_names = (\<lambda>r. r @ ''_enabled'') ` set role_names"

definition form_legal :: "string list \<Rightarrow> field_dsl \<Rightarrow> bool" where
  "form_legal role_names d \<longleftrightarrow>
     distinct (map df_name (dsl_fields d)) \<and> distinct (map fg_name (dsl_groups d))
     \<and> (\<forall>f\<in>set (dsl_fields d). field_legal f \<and> (df_group f = '''' \<or> df_group f \<in> fg_name ` set (dsl_groups d)))
     \<and> (\<forall>i<length (dsl_fields d). condition_operands (df_show_if (dsl_fields d ! i))
          \<subseteq> flags_of role_names \<union> df_name ` set (take i (dsl_fields d)))
     \<and> (\<forall>g\<in>set (dsl_groups d). fg_name g \<noteq> '''' \<and> (fg_role g \<noteq> '''' \<longrightarrow> fg_role g \<in> set role_names)
          \<and> condition_operands (fg_show_if g) \<subseteq> flags_of role_names \<union> df_name ` set (dsl_fields d))"

lemma lint_typed_members_legal: "lint_typed_members e here f = [] \<longleftrightarrow> members_legal f"
  by (auto simp: lint_typed_members_def members_legal_def)

lemma lint_options_legal: "lint_options e here f = [] \<Longrightarrow> options_legal f"
  by (auto simp: lint_options_def options_legal_def split: if_splits)

lemma parse_count_legal:
  "snd (parse_count e here raw key ok whose) = [] \<Longrightarrow>
    (\<not> ok \<longrightarrow> fst (parse_count e here raw key ok whose) = None) \<and> (\<forall>n \<in> set_option (fst (parse_count e here raw key ok whose)). 0 \<le> n)"
  by (auto simp: parse_count_def Let_def split: if_splits)

lemma parse_bound_legal:
  "snd (parse_bound e here raw key t) = [] \<Longrightarrow> t \<noteq> ''number'' \<Longrightarrow> fst (parse_bound e here raw key t) = None"
  by (auto simp: parse_bound_def)

lemma parse_validate_legal: "snd (parse_validate e here raw t) = [] \<Longrightarrow> rules_legal t (fst (parse_validate e here raw t))"
  using parse_count_legal parse_bound_legal
  by (auto simp: parse_validate_def rules_legal_def Let_def split: if_splits)

lemma parse_generate_legal:
  "snd (parse_generate here raw t) = [] \<Longrightarrow>
    0 \<le> fst (parse_generate here raw t) \<and> (fst (parse_generate here raw t) \<noteq> 0 \<longrightarrow> t = ''password'')"
  by (auto simp: parse_generate_def Let_def split: if_splits)

lemma raw_field_simps [simp]:
  "df_generate_length (raw_field raw) = 0" "df_validate (raw_field raw) = None"
  by (simp_all add: raw_field_def)

lemma lint_ip_version_legal:
  "lint_ip_version here f = [] \<Longrightarrow> df_ip_version f \<noteq> 0 \<Longrightarrow> df_type f = ''ipaddr'' \<and> df_ip_version f \<in> {4, 6}"
  by (auto simp: lint_ip_version_def split: if_splits)

lemma parse_field_legal:
  assumes "parse_field e place raw groups = (Some f, [])"
  shows "field_legal f \<and> (df_group f = '''' \<or> df_group f \<in> fg_name ` set groups)"
proof -
  define r where "r = raw_field raw"
  define here where "here = place @ '' '' @ quoted e (df_name r)"
  define f1 where "f1 = r\<lparr>df_options := List.map_filter parse_option (arr_of (field raw ''options''))\<rparr>"
  define gen where "gen = parse_generate here raw (df_type r)"
  define val where "val = (if \<not> has raw ''validate'' then (None, [])
    else case field raw ''validate'' of
        JObj m \<Rightarrow> (case parse_validate e (here @ ''.validate'') m (df_type r) of (v, ps) \<Rightarrow> (Some v, ps))
      | _ \<Rightarrow> (None, [here @ ''.validate: must be a map'']))"
  note parsed = assms [unfolded parse_field_def Let_def, folded r_def, folded here_def, folded f1_def gen_def, folded val_def]
  have f: "f = f1\<lparr>df_generate_length := fst gen, df_validate := fst val\<rparr>" and "df_type r \<in> set field_types"
    and "field_name_ok (df_name r)" "df_group r \<noteq> '''' \<longrightarrow> df_group r \<in> fg_name ` set groups"
    "df_rows r \<noteq> 0 \<longrightarrow> df_type r = ''textarea''" and ip: "lint_ip_version here r = []"
    and members: "lint_typed_members e here r = []" and options: "lint_options e here f1 = []"
    and gen: "snd gen = []"
    and "df_type r = ''password'' \<longrightarrow> df_default r = JNull" and val: "snd val = []"
    using parsed by (auto split: if_splits)
  moreover have "members_legal f" using members by (simp add: lint_typed_members_legal f members_legal_def f1_def)
  moreover have "options_legal f" using lint_options_legal [OF options] by (auto simp: f options_legal_def)
  moreover have "\<forall>v \<in> set_option (fst val). rules_legal (df_type r) v"
  proof (cases "field raw ''validate''")
    case (JObj m)
    then show ?thesis
      using val parse_validate_legal [of e "here @ ''.validate''" m "df_type r"] by (simp add: val_def split: if_splits prod.splits)
  qed (use val in \<open>simp_all add: val_def split: if_splits\<close>)
  moreover have "df_name f = df_name r" "df_type f = df_type r" "df_rows f = df_rows r" "df_ip_version f = df_ip_version r"
    "df_generate_length f = fst gen" "df_default f = df_default r" "df_validate f = fst val" "df_group f = df_group r"
    by (simp_all add: f f1_def)
  ultimately show ?thesis
    using parse_generate_legal [OF gen [unfolded gen_def]] lint_ip_version_legal [OF ip]
    unfolding field_legal_def gen_def by auto
qed

text \<open>The invariant of the parser: what has been read without a complaint is legal.\<close>

definition legal_so_far :: "string list \<Rightarrow> parse_state \<Rightarrow> bool" where
  "legal_so_far role_names st \<longleftrightarrow>
     distinct (map df_name (ps_fields st)) \<and> distinct (map fg_name (ps_groups st))
     \<and> (\<forall>f\<in>set (ps_fields st). field_legal f \<and> (df_group f = '''' \<or> df_group f \<in> fg_name ` set (ps_groups st)))
     \<and> (\<forall>i<length (ps_fields st). condition_operands (df_show_if (ps_fields st ! i))
          \<subseteq> flags_of role_names \<union> df_name ` set (take i (ps_fields st)))
     \<and> (\<forall>g\<in>set (ps_groups st). fg_name g \<noteq> '''' \<and> (fg_role g \<noteq> '''' \<longrightarrow> fg_role g \<in> set role_names))
     \<and> fst ` set (ps_operands st) = flags_of role_names \<union> df_name ` set (ps_fields st)"

lemma complain_simps [simp]:
  "ps_groups (complain ps st) = ps_groups st" "ps_fields (complain ps st) = ps_fields st"
  "ps_operands (complain ps st) = ps_operands st" "ps_problems (complain ps st) = ps_problems st @ ps"
  by (simp_all add: complain_def)

lemma keys_update: "fst ` set (AList.update k v m) = insert k (fst ` set m)"
  using dom_update [of k v m] by (simp add: dom_map_of_conv_image_fst)

lemma add_group_legal:
  assumes "ps_problems (add_group e role_names (i, entry) st) = []" and "ps_problems st = [] \<Longrightarrow> legal_so_far role_names st"
  shows "legal_so_far role_names (add_group e role_names (i, entry) st)"
proof (cases entry)
  case (JObj m)
  then show ?thesis using assms by (auto simp: add_group_def Let_def legal_so_far_def split: if_splits)
qed (use assms in \<open>simp_all add: add_group_def\<close>)

lemma add_field_legal:
  assumes "ps_problems (add_field e (i, entry) st) = []" and "ps_problems st = [] \<Longrightarrow> legal_so_far role_names st"
  shows "legal_so_far role_names (add_field e (i, entry) st)"
proof (cases entry)
  case (JObj raw)
  define here where "here = ''metadata.configuration.fields['' @ nat_text i @ '']''"
  obtain fo ps where parsed: "parse_field e here raw (ps_groups st) = (fo, ps)" by (cases "parse_field e here raw (ps_groups st)")
  have added: "add_field e (i, entry) st = (case fo of
      None \<Rightarrow> complain ps st
    | Some f \<Rightarrow> if df_name f \<in> df_name ` set (ps_fields st) then
          complain (ps @ [here @ '' '' @ quoted e (df_name f) @ '': duplicate field name'']) st
        else complain (ps @ (if df_show_if f = JNull then [] else lint_condition e (ps_operands st) (here @ ''.show_if'') (df_show_if f)))
          (st\<lparr>ps_fields := ps_fields st @ [f], ps_operands := AList.update (df_name f) (df_type f) (ps_operands st)\<rparr>))"
    by (simp only: add_field_def Let_def JObj prod.case json.case here_def [symmetric] parsed)
  show ?thesis
  proof (cases fo)
    case None
    have "ps \<noteq> []" using parsed None by (auto simp: parse_field_def Let_def split: if_splits)
    then show ?thesis using assms(1) None by (simp add: added)
  next
    case (Some f)
    have new: "df_name f \<notin> df_name ` set (ps_fields st)" and ps: "ps = []" "ps_problems st = []"
      and show_if: "df_show_if f = JNull \<or> lint_condition e (ps_operands st) (here @ ''.show_if'') (df_show_if f) = []"
      using assms(1) Some by (auto simp: added split: if_splits)
    have old: "legal_so_far role_names st" using ps assms(2) by blast
    have "condition_operands (df_show_if f) \<subseteq> fst ` set (ps_operands st)"
      using show_if linted_operands [of e "ps_operands st"] by auto
    moreover have "field_legal f \<and> (df_group f = '''' \<or> df_group f \<in> fg_name ` set (ps_groups st))"
      using parse_field_legal parsed Some ps by blast
    ultimately show ?thesis
      using new old Some ps unfolding legal_so_far_def
      by (auto simp: added keys_update nth_append less_Suc_eq)
  qed
qed (use assms in \<open>simp_all add: add_field_def\<close>)

lemma parse_entries_legal:
  assumes "ps_problems (parse_entries e configuration role_names) = []"
  shows "legal_so_far role_names (parse_entries e configuration role_names)"
proof -
  let ?P = "\<lambda>st. ps_problems st = [] \<longrightarrow> legal_so_far role_names st"
  have groups: "?P (add_group e role_names x st)" if "?P st" for x st
    using add_group_legal [of e role_names "fst x" "snd x" st] that by auto
  have fields: "?P (add_field e x st)" if "?P st" for x st
    using add_field_legal [of e "fst x" "snd x" st role_names] that by auto
  have "?P (parse_entries e configuration role_names)"
    unfolding parse_entries_def
    by (intro fold_invariant [where P = ?P and Q = "\<lambda>_. True"] fields groups)
      (auto simp: legal_so_far_def role_operands_def flags_of_def image_image)
  then show ?thesis using assms by blast
qed

lemma accepted_form_legal:
  assumes "parse_field_dsl e metadata role_names = (Some d, ps)"
  shows "form_legal role_names d"
proof -
  obtain configuration where "field (obj_of (field metadata ''metadata'')) ''configuration'' = JObj configuration"
    using assms by (auto simp: parse_field_dsl_def split: json.splits)
  then have d: "d = \<lparr>dsl_groups = ps_groups (parse_entries e configuration role_names),
        dsl_fields = ps_fields (parse_entries e configuration role_names)\<rparr>"
    and clean: "ps_problems (parse_entries e configuration role_names) = []"
    and linted: "lint_groups e (parse_entries e configuration role_names) = []"
    using assms by (auto simp: parse_field_dsl_def Let_def split: if_splits)
  define st where "st = parse_entries e configuration role_names"
  have legal: "legal_so_far role_names st" using parse_entries_legal [OF clean] by (simp add: st_def)
  have "condition_operands (fg_show_if g) \<subseteq> fst ` set (ps_operands st)" if g: "g \<in> set (ps_groups st)" for g
  proof -
    obtain i where "(i, g) \<in> set (enumerate 0 (ps_groups st))" using g by (rule enumerated)
    then have "fg_show_if g = JNull \<or> (\<exists>here. lint_condition e (ps_operands st) here (fg_show_if g) = [])"
      using linted unfolding lint_groups_def st_def [symmetric] by fastforce
    then show ?thesis using linted_operands by (metis condition_operands.simps(2) empty_subsetI)
  qed
  then show ?thesis using legal unfolding form_legal_def legal_so_far_def d st_def [symmetric] by simp
qed

end
