(* ===== verification/FieldProps.thy ===== *)
theory FieldProps
  imports FieldLaws
begin

text \<open>
  Properties of the form definition: what a form that passes the lint is, that undeclared answers have no
  influence, which answers are accepted and what they contribute to the templates, the derived schema's
  required list and the renaming of answers.
\<close>

subsection \<open>The values conditions see\<close>

lemma map_of_fold_update: "map_of (fold (\<lambda>(k, v). AList.update k v) xs m) = map_of m ++ map_of (rev xs)"
  by (induction xs arbitrary: m) (auto simp: update_conv' fun_eq_iff map_add_def split: option.splits)

definition role_flags :: "role_input list \<Rightarrow> obj" where
  "role_flags roles = map (\<lambda>r. (ri_name r @ ''_enabled'', JBool (ri_enabled r))) roles"

definition default_values :: "field_dsl \<Rightarrow> obj" where
  "default_values d = map (\<lambda>f. (df_name f, df_default f)) (filter (\<lambda>f. df_default f \<noteq> JNull) (dsl_fields d))"

lemma visibility_layers:
  "map_of (visibility_values d answers roles) =
    (map_of (rev (default_values d)) ++ map_of (rev answers)) ++ map_of (rev (role_flags roles))"
proof -
  have flags: "fold (\<lambda>r. AList.update (ri_name r @ ''_enabled'') (JBool (ri_enabled r))) rs m
      = fold (\<lambda>(k, v). AList.update k v) (role_flags rs) m" for rs m
    by (induction rs arbitrary: m) (simp_all add: role_flags_def)
  have defaults: "fold (\<lambda>f m. if df_default f = JNull then m else AList.update (df_name f) (df_default f) m) fs m
      = fold (\<lambda>(k, v). AList.update k v) (map (\<lambda>f. (df_name f, df_default f)) (filter (\<lambda>f. df_default f \<noteq> JNull) fs)) m" for fs m
    by (induction fs arbitrary: m) simp_all
  show ?thesis
    unfolding visibility_values_def flags defaults map_of_fold_update default_values_def by simp
qed

lemma map_of_rev_filter_key: "map_of (rev (filter (\<lambda>(k, v). k \<in> K) xs)) k = (if k \<in> K then map_of (rev xs) k else None)"
  by (induction xs) (auto simp: map_add_def split: option.splits)

lemma has_iff: "has m k \<longleftrightarrow> map_of m k \<noteq> None"
  by (simp add: has_def)

lemma field_of_map_of: "map_of m k = map_of m' k \<Longrightarrow> field m k = field m' k \<and> has m k = has m' k"
  by (simp add: field_def has_iff)

lemma visible_reads:
  assumes "form_legal role_names d" and "f \<in> set (dsl_fields d)"
    and "\<And>k. k \<in> flags_of role_names \<union> df_name ` set (dsl_fields d) \<Longrightarrow> field vals k = field vals' k"
  shows "field_visible e d vals f = field_visible e d vals' f"
proof -
  obtain i where i: "i < length (dsl_fields d)" "dsl_fields d ! i = f" using assms(2) by (auto simp: in_set_conv_nth)
  then have "condition_operands (df_show_if f) \<subseteq> flags_of role_names \<union> df_name ` set (take i (dsl_fields d))"
    using assms(1) by (auto simp: form_legal_def)
  then have "condition_operands (df_show_if f) \<subseteq> flags_of role_names \<union> df_name ` set (dsl_fields d)"
    using set_take_subset by fastforce
  then have own: "eval_condition e (df_show_if f) vals = eval_condition e (df_show_if f) vals'"
    by (intro eval_reads assms(3)) auto
  have "eval_condition e (fg_show_if g) vals = eval_condition e (fg_show_if g) vals'" if "g \<in> set (dsl_groups d)" for g
    using assms(1) that by (intro eval_reads assms(3)) (auto simp: form_legal_def)
  then have "group_visible e d vals j = group_visible e d vals' j" for j
    using find_Some_in [of _ "rev (dsl_groups d)"] by (auto simp: group_visible_def split: option.splits)
  then show ?thesis by (simp add: field_visible_def own)
qed

lemma map_of_no_field:
  "k \<notin> df_name ` set fs \<Longrightarrow> map_of (map (\<lambda>f. (df_name f, g f)) (filter P fs)) k = None"
  by (auto simp: map_of_eq_None_iff)

lemma map_of_fields:
  assumes "distinct (map df_name fs)" and "f \<in> set fs"
  shows "map_of (map (\<lambda>f. (df_name f, g f)) (filter P fs)) (df_name f) = (if P f then Some (g f) else None)"
  using assms
proof (induction fs)
  case (Cons a fs)
  have "f \<noteq> a \<Longrightarrow> df_name f \<noteq> df_name a" using Cons.prems by (auto simp: image_iff)
  then show ?case using Cons map_of_no_field [of "df_name a" fs g P] by (cases "f = a") auto
qed simp

subsection \<open>A manifest\<close>

abbreviation form_env :: dsl_env where
  "form_env \<equiv> \<lparr>regexp_compile = (\<lambda>p. None), parse_float = (\<lambda>s. None), url_scheme = (\<lambda>s. None), float_plain = (\<lambda>x. ''''),
     float_json = (\<lambda>x. ''''), number_of = (\<lambda>s. None), float_v = (\<lambda>x. ''''), quoted = (\<lambda>s. s), regexp_error = (\<lambda>p. ''''),
     secret_lookup = None\<rparr>"

definition web_manifest :: obj where
  "web_manifest = [(''metadata'', JObj [(''roles'', JArr [JObj [(''name'', JStr ''db'')]]),
     (''configuration'', JObj [(''groups'', JArr [JObj [(''name'', JStr ''net'')]]),
       (''fields'', JArr
         [JObj [(''name'', JStr ''ssl''), (''type'', JStr ''checkbox''), (''default'', JBool False)],
          JObj [(''name'', JStr ''cert''), (''type'', JStr ''text''), (''group'', JStr ''net''), (''required'', JBool True),
            (''show_if'', JObj [(''ssl'', JBool True)])],
          JObj [(''name'', JStr ''mode''), (''type'', JStr ''text''), (''required'', JBool True), (''default'', JStr ''a'')]])])])]"

definition web_form :: field_dsl where
  "web_form = the (fst (parse_field_dsl form_env web_manifest (manifest_role_names web_manifest)))"

lemma web_form_parsed: "parse_field_dsl form_env web_manifest (manifest_role_names web_manifest) = (Some web_form, [])"
proof -
  have "\<not> Option.is_none (fst (parse_field_dsl form_env web_manifest (manifest_role_names web_manifest)))" by code_simp
  moreover have "snd (parse_field_dsl form_env web_manifest (manifest_role_names web_manifest)) = []" by code_simp
  ultimately show ?thesis unfolding web_form_def by (auto simp: is_none_code prod_eq_iff Option.is_none_def)
qed

text \<open>
  C23: Undeclared answers have no influence. When every role of the manifest has its selection, answers under
  names the form does not declare change neither the visibility of a field nor what the answers contribute to
  the templates.
\<close>
theorem undeclared_answers_irrelevant:
  assumes "parse_field_dsl e metadata (manifest_role_names metadata) = (Some d, [])"
    and "set (manifest_role_names metadata) \<subseteq> ri_name ` set roles"
    and "declared = filter (\<lambda>(k, v). k \<in> df_name ` set (dsl_fields d)) answers"
  shows "render_answers e d answers roles = render_answers e d declared roles
    \<and> (\<forall>f\<in>set (dsl_fields d). field_visible e d (visibility_values d answers roles) f
        = field_visible e d (visibility_values d declared roles) f)"
proof -
  let ?names = "df_name ` set (dsl_fields d)"
  have legal: "form_legal (manifest_role_names metadata) d" by (rule accepted_form_legal [OF assms(1)])
  have same: "map_of (visibility_values d answers roles) k = map_of (visibility_values d declared roles) k"
    if "k \<in> flags_of (manifest_role_names metadata) \<union> ?names" for k
  proof (cases "k \<in> ?names")
    case True
    then show ?thesis by (simp add: visibility_layers map_add_def assms(3) map_of_rev_filter_key)
  next
    case False
    then have "k \<in> fst ` set (role_flags roles)" using that assms(2) by (force simp: flags_of_def role_flags_def)
    then obtain v where "map_of (rev (role_flags roles)) k = Some v"
      by (metis domD dom_map_of_conv_image_fst set_rev)
    then show ?thesis by (simp add: visibility_layers map_add_def)
  qed
  have visible: "field_visible e d (visibility_values d answers roles) f = field_visible e d (visibility_values d declared roles) f"
    if "f \<in> set (dsl_fields d)" for f
    using same field_of_map_of by (intro visible_reads [OF legal that]) blast
  have reads: "field (visibility_values d answers roles) (df_name f) = field (visibility_values d declared roles) (df_name f)
      \<and> has (visibility_values d answers roles) (df_name f) = has (visibility_values d declared roles) (df_name f)"
    if "f \<in> set (dsl_fields d)" for f
    using that by (intro field_of_map_of same) simp
  have "render_answers e d answers roles = render_answers e d declared roles"
    unfolding render_answers_def Let_def
    by (intro map_cong filter_cong refl) (simp_all add: visible reads)
  then show ?thesis using visible by blast
qed

theorem undeclared_answers_irrelevant_witness:
  "render_answers form_env web_form [(''ssl'', JBool True), (''cert'', JStr ''x''), (''rogue'', JInt 1)] [\<lparr>ri_name = ''db'', ri_enabled = True\<rparr>]
    = [(''ssl'', JBool True), (''cert'', JStr ''x''), (''mode'', JStr ''a'')]"
proof -
  have "render_answers form_env web_form [(''ssl'', JBool True), (''cert'', JStr ''x''), (''rogue'', JInt 1)] [\<lparr>ri_name = ''db'', ri_enabled = True\<rparr>]
    = render_answers form_env web_form [(''ssl'', JBool True), (''cert'', JStr ''x'')] [\<lparr>ri_name = ''db'', ri_enabled = True\<rparr>]"
    by (rule undeclared_answers_irrelevant [OF web_form_parsed, THEN conjunct1]) code_simp+
  also have "\<dots> = [(''ssl'', JBool True), (''cert'', JStr ''x''), (''mode'', JStr ''a'')]" by code_simp
  finally show ?thesis .
qed

subsection \<open>Legal forms and conforming answers\<close>

text \<open>
  C24: A form that passes the lint is legal: field and group names are distinct and fit the template context,
  every type, kind, options source and rule is of its closed set and on a type it applies to, patterns compile
  and explain themselves, and a condition reads only role flags and fields declared before it (a group's: any field).
\<close>
theorem accepted_form_well_formed:
  assumes "parse_field_dsl e metadata role_names = (Some d, ps)"
  shows "form_legal role_names d"
  by (rule accepted_form_legal [OF assms])

theorem accepted_form_well_formed_witness: "form_legal [''db''] web_form"
proof -
  have "manifest_role_names web_manifest = [''db'']" by code_simp
  then show ?thesis using accepted_form_well_formed [OF web_form_parsed] by simp
qed

definition option_of :: "dsl_env \<Rightarrow> dsl_field \<Rightarrow> json \<Rightarrow> bool" where
  "option_of e f v \<longleftrightarrow> (\<exists>opt\<in>set (df_options f). loose_equal e (fo_value opt) v)"

definition text_conforms :: "dsl_field \<Rightarrow> string \<Rightarrow> string \<Rightarrow> bool" where
  "text_conforms f kind t \<longleftrightarrow>
     (kind = ''fqdn'' \<longrightarrow> fqdn_ok t) \<and> (kind = ''cidr'' \<longrightarrow> parse_cidr t \<noteq> None)
     \<and> (kind = ''ipaddr'' \<longrightarrow> (\<exists>a. parse_ip t = Some a \<and> (df_ip_version f = 4 \<longrightarrow> to4 a \<noteq> None) \<and> (df_ip_version f = 6 \<longrightarrow> to4 a = None)))
     \<and> (\<forall>v \<in> set_option (df_validate f).
          (\<forall>n \<in> set_option (fv_min_length v). n \<le> int (length t)) \<and> (\<forall>n \<in> set_option (fv_max_length v). int (length t) \<le> n)
          \<and> (\<forall>re \<in> set_option (fv_re v). re t))"

definition answer_conforms :: "dsl_env \<Rightarrow> dsl_field \<Rightarrow> json \<Rightarrow> bool" where
  "answer_conforms e f v \<longleftrightarrow>
     (df_type f = ''number'' \<longrightarrow> (\<exists>x. any_float e v = Some x \<and> (\<forall>r \<in> set_option (df_validate f).
        (\<forall>b \<in> set_option (fv_min r). \<not> num_less x b) \<and> (\<forall>b \<in> set_option (fv_max r). \<not> num_less b x))))
     \<and> (df_type f = ''checkbox'' \<longrightarrow> (\<exists>b. v = JBool b))
     \<and> (df_type f = ''select'' \<longrightarrow> (if df_options_source f = '''' then option_of e f v else as_arr v = None))
     \<and> (df_type f = ''multiselect'' \<longrightarrow> (\<exists>xs. v = JArr xs \<and> (\<forall>x\<in>set xs. option_of e f x)))
     \<and> (df_type f = ''list'' \<longrightarrow> (\<exists>ts. v = JArr (map JStr ts) \<and> (\<forall>t\<in>set ts. text_conforms f (df_items f) t)
          \<and> (\<forall>r \<in> set_option (df_validate f). (\<forall>n \<in> set_option (fv_min_items r). n \<le> int (length ts))
               \<and> (\<forall>n \<in> set_option (fv_max_items r). int (length ts) \<le> n))))
     \<and> (df_type f = ''secret'' \<longrightarrow> (\<exists>t. v = JStr t \<and> t \<noteq> '''' \<and> (\<forall>look \<in> set_option (secret_lookup e).
          \<exists>kind. look t = Some kind \<and> secret_kind_matches (df_kind f) kind)))
     \<and> (df_type f \<in> set string_fields \<union> {''file''} \<longrightarrow> (\<exists>t. v = JStr t \<and> text_conforms f (df_type f) t
          \<and> (df_type f = ''file'' \<longrightarrow> CHR ''/'' \<notin> set t \<and> CHR 0x5C \<notin> set t)))"

lemma option_legal_iff: "option_legal e f v \<longleftrightarrow> option_of e f v"
  by (simp add: option_legal_def option_of_def list_ex_iff)

lemma string_problem_conforms:
  assumes "string_problem f kind t = ''''" and "field_legal f"
  shows "text_conforms f kind t"
proof -
  have "rules_legal (df_type f) v" if "df_validate f = Some v" for v using assms(2) that by (simp add: field_legal_def)
  then have "fv_pattern_error v \<noteq> ''''" if "df_validate f = Some v" "fv_re v \<noteq> None" for v
    using that by (auto simp: rules_legal_def)
  then show ?thesis
    using assms(1) by (auto simp: string_problem_def Let_def format_problem_def rule_problem_def text_conforms_def
      split: if_splits option.splits)
qed

lemma entries_problem_conforms:
  "entries_problem f i xs = '''' \<Longrightarrow> field_legal f \<Longrightarrow> \<exists>ts. xs = map JStr ts \<and> (\<forall>t\<in>set ts. text_conforms f (df_items f) t)"
proof (induction xs arbitrary: i)
  case (Cons x xs)
  obtain t where x: "x = JStr t" "string_problem f (df_items f) t = ''''" "entries_problem f (Suc i) xs = ''''"
    using Cons.prems(1) by (auto split: json.splits if_splits)
  then obtain ts where "xs = map JStr ts" "\<forall>t\<in>set ts. text_conforms f (df_items f) t"
    using Cons.IH Cons.prems(2) by blast
  then show ?case using x string_problem_conforms Cons.prems(2) by (intro exI [of _ "t # ts"]) auto
qed simp

lemma list_problem_conforms:
  "list_problem f v = '''' \<Longrightarrow> field_legal f \<Longrightarrow> \<exists>ts. v = JArr (map JStr ts) \<and> (\<forall>t\<in>set ts. text_conforms f (df_items f) t)
    \<and> (\<forall>r \<in> set_option (df_validate f). (\<forall>n \<in> set_option (fv_min_items r). n \<le> int (length ts))
         \<and> (\<forall>n \<in> set_option (fv_max_items r). int (length ts) \<le> n))"
  by (auto simp: list_problem_def Let_def split: json.splits if_splits option.splits dest!: entries_problem_conforms)

lemma number_problem_conforms:
  "number_problem e f v = '''' \<Longrightarrow> \<exists>x. any_float e v = Some x \<and> (\<forall>r \<in> set_option (df_validate f).
    (\<forall>b \<in> set_option (fv_min r). \<not> num_less x b) \<and> (\<forall>b \<in> set_option (fv_max r). \<not> num_less b x))"
  by (auto simp: number_problem_def split: option.splits if_splits)

lemma find_None_all: "find P xs = None \<longleftrightarrow> (\<forall>x\<in>set xs. \<not> P x)"
  by (induction xs) auto

lemma value_problem_conforms:
  assumes "value_problem e f v = ''''" and "field_legal f"
  shows "answer_conforms e f v"
  unfolding answer_conforms_def
proof (intro conjI impI)
  assume "df_type f \<in> set string_fields \<union> {''file''}"
  then have "value_problem e f v = (case v of
       JStr t \<Rightarrow> if df_type f = ''file'' \<and> (CHR ''/'' \<in> set t \<or> CHR 0x5C \<in> set t) then ''must be a file name, not a path''
         else string_problem f (df_type f) t
     | _ \<Rightarrow> ''must be a string'')"
    by (auto simp: value_problem_def string_fields_def)
  then show "\<exists>t. v = JStr t \<and> text_conforms f (df_type f) t \<and> (df_type f = ''file'' \<longrightarrow> CHR ''/'' \<notin> set t \<and> CHR 0x5C \<notin> set t)"
    using assms string_problem_conforms by (auto split: json.splits if_splits)
next
  assume "df_type f = ''secret''"
  then show "\<exists>t. v = JStr t \<and> t \<noteq> '''' \<and> (\<forall>look \<in> set_option (secret_lookup e). \<exists>kind. look t = Some kind \<and> secret_kind_matches (df_kind f) kind)"
    using assms(1) by (cases v) (auto simp: value_problem_def secret_problem_def split: if_splits option.splits)
next
  assume "df_type f = ''list''"
  then show "\<exists>ts. v = JArr (map JStr ts) \<and> (\<forall>t\<in>set ts. text_conforms f (df_items f) t)
    \<and> (\<forall>r \<in> set_option (df_validate f). (\<forall>n \<in> set_option (fv_min_items r). n \<le> int (length ts))
         \<and> (\<forall>n \<in> set_option (fv_max_items r). int (length ts) \<le> n))"
    using assms by (intro list_problem_conforms) (simp_all add: value_problem_def)
next
  assume "df_type f = ''number''"
  then show "\<exists>x. any_float e v = Some x \<and> (\<forall>r \<in> set_option (df_validate f).
    (\<forall>b \<in> set_option (fv_min r). \<not> num_less x b) \<and> (\<forall>b \<in> set_option (fv_max r). \<not> num_less b x))"
    using assms by (intro number_problem_conforms) (simp add: value_problem_def)
next
  assume "df_type f = ''multiselect''"
  then show "\<exists>xs. v = JArr xs \<and> (\<forall>x\<in>set xs. option_of e f x)"
    using assms(1) by (auto simp: value_problem_def option_legal_iff find_None_all split: json.splits option.splits)
qed (use assms(1) in \<open>auto simp: value_problem_def option_legal_iff split: json.splits if_splits\<close>)

text \<open>
  C21: Accepted answers conform. When the answers to an accepted form have no problem, they name declared fields
  only; of the visible fields a required one without default or generator has an answer that is not blank, every
  answer that is not blank has its field's type and keeps its rules, and an immutable answer of a provisioned
  machine equals the recorded one.
\<close>
theorem accepted_answers_conform:
  assumes "parse_field_dsl e metadata role_names = (Some d, ps)"
    and "validate_answers e d answers roles prior provisioned = []"
  shows "fst ` set answers \<subseteq> df_name ` set (dsl_fields d)
    \<and> (\<forall>f\<in>set (dsl_fields d). field_visible e d (visibility_values d answers roles) f \<longrightarrow>
        (let v = field answers (df_name f); answered = has answers (df_name f) \<and> \<not> empty_answer v in
          (df_required f \<and> df_default f = JNull \<and> df_generate_length f = 0 \<longrightarrow> answered)
          \<and> (answered \<longrightarrow> answer_conforms e f v)
          \<and> (answered \<and> df_immutable f \<and> provisioned \<and> has prior (df_name f) \<longrightarrow> loose_equal e (field prior (df_name f)) v)))"
proof -
  have known: "fst ` set answers \<subseteq> df_name ` set (dsl_fields d)"
    using assms(2) by (auto simp: validate_answers_def Let_def filter_empty_conv)
  have fine: "field_problem e answers prior provisioned f = ''''"
    if "f \<in> set (dsl_fields d)" "field_visible e d (visibility_values d answers roles) f" for f
    using assms(2) that by (auto simp: validate_answers_def Let_def filter_empty_conv)
  have legal: "field_legal f" if "f \<in> set (dsl_fields d)" for f
    using accepted_form_legal [OF assms(1)] that by (simp add: form_legal_def)
  show ?thesis
  proof (intro conjI ballI impI known)
    fix f assume f: "f \<in> set (dsl_fields d)" "field_visible e d (visibility_values d answers roles) f"
    show "let v = field answers (df_name f); answered = has answers (df_name f) \<and> \<not> empty_answer v in
          (df_required f \<and> df_default f = JNull \<and> df_generate_length f = 0 \<longrightarrow> answered)
          \<and> (answered \<longrightarrow> answer_conforms e f v)
          \<and> (answered \<and> df_immutable f \<and> provisioned \<and> has prior (df_name f) \<longrightarrow> loose_equal e (field prior (df_name f)) v)"
      using fine [OF f] value_problem_conforms [OF _ legal [OF f(1)], of e]
      by (auto simp: field_problem_def Let_def split: if_splits)
  qed
qed

theorem accepted_answers_conform_witness:
  "validate_answers form_env web_form [(''ssl'', JBool True), (''cert'', JStr ''x'')] [] [] False = []
    \<and> fst ` set [(''ssl'', JBool True), (''cert'', JStr ''x'')] \<subseteq> df_name ` set (dsl_fields web_form)"
proof -
  have "validate_answers form_env web_form [(''ssl'', JBool True), (''cert'', JStr ''x'')] [] [] False = []" by code_simp
  then show ?thesis using accepted_answers_conform [OF web_form_parsed] by blast
qed

subsection \<open>What the answers contribute\<close>

text \<open>
  The templates' answers, key by key: exactly the visible declared fields that have a value, and the value is
  the role flag of that name, else the last answer given, else the field's default.
\<close>
theorem rendered_answers_spec:
  assumes "parse_field_dsl e metadata role_names = (Some d, ps)"
    and "vals = visibility_values d answers roles"
  shows "map_of (render_answers e d answers roles) k =
    (if \<exists>f\<in>set (dsl_fields d). df_name f = k \<and> field_visible e d vals f
     then ((map_of (rev (default_values d)) ++ map_of (rev answers)) ++ map_of (rev (role_flags roles))) k else None)
    \<and> distinct (map fst (render_answers e d answers roles))"
proof -
  let ?render = "map (\<lambda>f. (df_name f, field vals (df_name f))) (filter (\<lambda>f. field_visible e d vals f \<and> has vals (df_name f)) (dsl_fields d))"
  have render: "render_answers e d answers roles = ?render" by (simp add: render_answers_def assms(2) Let_def)
  have names: "distinct (map df_name (dsl_fields d))" using accepted_form_legal [OF assms(1)] by (simp add: form_legal_def)
  have "map_of ?render k = (if \<exists>f\<in>set (dsl_fields d). df_name f = k \<and> field_visible e d vals f then map_of vals k else None)"
  proof (cases "\<exists>f\<in>set (dsl_fields d). df_name f = k")
    case True
    then obtain f where f: "f \<in> set (dsl_fields d)" "df_name f = k" by blast
    have only: "g = f" if "g \<in> set (dsl_fields d)" "df_name g = k" for g
      using names f that by (auto simp: distinct_map dest: inj_onD)
    have "map_of ?render k = (if field_visible e d vals f \<and> has vals k then Some (field vals k) else None)"
      using map_of_fields [OF names f(1), of "\<lambda>f. field vals (df_name f)" "\<lambda>f. field_visible e d vals f \<and> has vals (df_name f)"] f(2)
      by simp
    also have "\<dots> = (if field_visible e d vals f then map_of vals k else None)"
      by (auto simp: field_def has_iff split: option.splits)
    moreover have "(\<exists>g\<in>set (dsl_fields d). df_name g = k \<and> field_visible e d vals g) \<longleftrightarrow> field_visible e d vals f"
      using f only by blast
    ultimately show ?thesis by (simp only:)
  next
    case False
    then have "k \<notin> df_name ` set (dsl_fields d)" by blast
    then have "map_of ?render k = None" by (rule map_of_no_field)
    then show ?thesis using False by auto
  qed
  moreover have "distinct (map fst ?render)" using names by (simp add: distinct_map_filter comp_def)
  moreover have "map_of vals k = ((map_of (rev (default_values d)) ++ map_of (rev answers)) ++ map_of (rev (role_flags roles))) k"
    by (simp add: assms(2) visibility_layers)
  ultimately show ?thesis unfolding render by argo
qed

theorem rendered_answers_spec_witness:
  "map_of (render_answers form_env web_form [(''ssl'', JBool False), (''cert'', JStr ''x'')] []) ''cert'' = None"
proof -
  have "\<not> (\<exists>f\<in>set (dsl_fields web_form). df_name f = ''cert''
      \<and> field_visible form_env web_form (visibility_values web_form [(''ssl'', JBool False), (''cert'', JStr ''x'')] []) f)"
    by code_simp
  then show ?thesis
    using rendered_answers_spec [OF web_form_parsed refl, of "[(''ssl'', JBool False), (''cert'', JStr ''x'')]" "[]" "''cert''"] by presburger
qed

subsection \<open>The schema's required list\<close>

lemma unconditional_visible: "unconditional d f \<Longrightarrow> field_visible e d vals f"
  by (auto simp: unconditional_def field_visible_def group_visible_def split: option.splits)

text \<open>
  The derived schema's required list is the sorted list, without duplicates, of the required fields that no
  condition guards; they are visible whatever the answers and roles are, and leaving one without default or
  generator unanswered is reported.
\<close>
theorem schema_required_spec:
  assumes "parse_field_dsl e metadata role_names = (Some d, ps)"
  shows "sorted (schema_required d) \<and> distinct (schema_required d)
    \<and> (\<forall>k\<in>set (schema_required d). \<exists>f\<in>set (dsl_fields d). df_name f = k \<and> df_required f
        \<and> (\<forall>vals. field_visible e d vals f)
        \<and> (df_default f = JNull \<and> df_generate_length f = 0 \<and> \<not> has answers k \<longrightarrow>
             (k, ''required'') \<in> set (validate_answers e d answers roles prior provisioned)))"
proof (intro conjI ballI)
  have "distinct (map df_name (dsl_fields d))" using accepted_form_legal [OF assms] by (simp add: form_legal_def)
  then show "distinct (schema_required d)" by (simp add: schema_required_def distinct_map_filter)
next
  fix k assume "k \<in> set (schema_required d)"
  then obtain f where f: "f \<in> set (dsl_fields d)" "df_name f = k" "df_required f" "unconditional d f"
    by (auto simp: schema_required_def)
  have "(k, ''required'') \<in> set (validate_answers e d answers roles prior provisioned)"
    if "df_default f = JNull" "df_generate_length f = 0" "\<not> has answers k"
  proof -
    have "field_problem e answers prior provisioned f = ''required''" using f that by (simp add: field_problem_def)
    then show ?thesis using f unconditional_visible [OF f(4)] by (force simp: validate_answers_def Let_def)
  qed
  then show "\<exists>f\<in>set (dsl_fields d). df_name f = k \<and> df_required f \<and> (\<forall>vals. field_visible e d vals f)
      \<and> (df_default f = JNull \<and> df_generate_length f = 0 \<and> \<not> has answers k \<longrightarrow>
           (k, ''required'') \<in> set (validate_answers e d answers roles prior provisioned))"
    using f unconditional_visible [OF f(4)] by blast
qed (simp add: schema_required_def)

text \<open>The schema requires a field with a default that the validation does not ask for.\<close>
theorem schema_required_spec_witness:
  "schema_required web_form = [''mode''] \<and> sorted (schema_required web_form)
    \<and> validate_answers form_env web_form [] [] [] False = []"
proof -
  have "schema_required web_form = [''mode'']" "validate_answers form_env web_form [] [] [] False = []" by code_simp+
  then show ?thesis using schema_required_spec [OF web_form_parsed] by blast
qed

subsection \<open>Renamed answers\<close>

text \<open>The answer under \<open>k\<close> ends up under \<open>j\<close>.\<close>

definition lands :: "(string \<times> string) list \<Rightarrow> obj \<Rightarrow> string \<Rightarrow> string \<Rightarrow> bool" where
  "lands renames answers j k \<longleftrightarrow> (case map_of renames k of Some new \<Rightarrow> new = j \<and> \<not> has answers new | None \<Rightarrow> k = j)"

lemma map_migrate_one:
  "map_of (migrate_one renames answers (k, v) out) j = (if lands renames answers j k then Some v else map_of out j)"
  by (auto simp: migrate_one_def lands_def update_conv' split: option.splits)

lemma map_migrated:
  "map_of (fold (migrate_one renames answers) xs out) j =
    (case find (\<lambda>x. lands renames answers j (fst x)) (rev xs) of None \<Rightarrow> map_of out j | Some x \<Rightarrow> Some (snd x))"
proof (induction xs arbitrary: out)
  case (Cons x xs)
  then show ?case by (cases x) (auto simp: find_append_key map_migrate_one split: option.splits)
qed simp

lemma map_migrated_from:
  assumes "distinct (map fst answers)" and "map_of answers k = Some v" and "lands renames answers j k"
    and "\<And>k'. has answers k' \<Longrightarrow> lands renames answers j k' \<Longrightarrow> k' = k"
  shows "map_of (fold (migrate_one renames answers) answers []) j = Some v"
proof -
  have "(k, v) \<in> set answers" using assms(2) by (rule map_of_SomeD)
  then have "find (\<lambda>x. lands renames answers j (fst x)) (rev answers) \<noteq> None"
    using assms(3) unfolding find_None_all by fastforce
  then obtain x where x: "find (\<lambda>x. lands renames answers j (fst x)) (rev answers) = Some x" by blast
  then have "x \<in> set answers" "lands renames answers j (fst x)" using find_Some_in [OF x] by auto
  moreover then have "map_of answers (fst x) = Some (snd x)" using assms(1) by simp
  ultimately have "snd x = v" using assms(2) assms(4) [of "fst x"] by (simp add: has_iff)
  then show ?thesis by (simp add: map_migrated x)
qed

lemma map_migrated_none:
  assumes "\<And>k. has answers k \<Longrightarrow> \<not> lands renames answers j k"
  shows "map_of (fold (migrate_one renames answers) answers []) j = None"
proof -
  have "has answers (fst x)" if "x \<in> set answers" for x using that by (auto simp: has_iff map_of_eq_None_iff simp del: not_None_eq)
  then have "find (\<lambda>x. lands renames answers j (fst x)) (rev answers) = None" using assms by (auto simp: find_None_all)
  then show ?thesis by (simp add: map_migrated)
qed

text \<open>
  Renaming answers, key by key. A key that is present keeps its value unless it is itself renamed, then
  it is gone (so a swap loses both values, and a chain the second); a key that is absent gets the value of the
  answer renamed to it, when that is one; no other key appears.
\<close>
theorem answer_migrations_spec:
  assumes "distinct (map fst answers)" and "renames \<noteq> []"
    and "\<And>k k'. has answers k \<Longrightarrow> has answers k' \<Longrightarrow> map_of renames k = Some j \<Longrightarrow> map_of renames k' = Some j \<Longrightarrow> k = k'"
    and "out = apply_answer_migrations (Some renames) answers"
  shows "(has answers j \<longrightarrow> map_of out j = (if map_of renames j = None then map_of answers j else None))
    \<and> (\<not> has answers j \<longrightarrow>
        (\<forall>k. has answers k \<and> map_of renames k = Some j \<longrightarrow> map_of out j = map_of answers k)
        \<and> ((\<nexists>k. has answers k \<and> map_of renames k = Some j) \<longrightarrow> map_of out j = None))"
proof -
  have out: "out = fold (migrate_one renames answers) answers []"
    using assms(2) by (simp add: assms(4) apply_answer_migrations_def)
  show ?thesis
  proof (intro conjI impI allI)
    assume j: "has answers j"
    then have only: "lands renames answers j k \<longleftrightarrow> k = j \<and> map_of renames j = None" for k
      by (auto simp: lands_def split: option.splits)
    show "map_of out j = (if map_of renames j = None then map_of answers j else None)"
      using j map_migrated_from [OF assms(1), of j _ renames j] map_migrated_none [of answers renames j]
      by (auto simp: out only has_iff)
  next
    fix k assume j: "\<not> has answers j" and k: "has answers k \<and> map_of renames k = Some j"
    then obtain v where v: "map_of answers k = Some v" by (auto simp: has_iff)
    have "k' = k" if "has answers k'" "lands renames answers j k'" for k'
      using that j k assms(3) by (auto simp: lands_def split: option.splits)
    then show "map_of out j = map_of answers k"
      using map_migrated_from [OF assms(1) v, of renames j] j k by (simp add: out v lands_def)
  next
    assume "\<not> has answers j" and "\<nexists>k. has answers k \<and> map_of renames k = Some j"
    then show "map_of out j = None"
      unfolding out by (intro map_migrated_none) (auto simp: lands_def split: option.splits)
  qed
qed

theorem answer_migrations_spec_witness:
  "map_of (apply_answer_migrations (Some [(''a'', ''b''), (''b'', ''a'')]) [(''a'', JInt 1), (''b'', JInt 2)]) ''a'' = None"
proof -
  let ?answers = "[(''a'', JInt 1), (''b'', JInt 2)]" and ?renames = "[(''a'', ''b''), (''b'', ''a'')]"
  have "has ?answers ''a'' \<longrightarrow> map_of (apply_answer_migrations (Some ?renames) ?answers) ''a''
      = (if map_of ?renames ''a'' = None then map_of ?answers ''a'' else None)"
    by (rule answer_migrations_spec [OF _ _ _ refl, THEN conjunct1]) (simp_all split: if_splits)
  then show ?thesis by (simp add: has_def)
qed

end
