(* ===== verification/Base64.thy ===== *)
theory Base64
  imports Prelude
begin

text \<open>
  Go's \<^verbatim>\<open>base64.RawURLEncoding\<close>: the URL alphabet without padding. A decoder skips carriage returns and newlines
  and ignores the unused bits of the last character.
\<close>

definition b64_char :: "nat \<Rightarrow> char" where
  "b64_char d = (if d = 62 then CHR ''-'' else if d = 63 then CHR ''_''
     else char_of (if d < 26 then 65 + d else if d < 52 then 71 + d else d - 4))"

definition b64_value :: "char \<Rightarrow> nat option" where
  "b64_value c =
    (let n = of_char c :: nat in
     if 65 \<le> n \<and> n \<le> 90 then Some (n - 65)
     else if 97 \<le> n \<and> n \<le> 122 then Some (n - 71)
     else if 48 \<le> n \<and> n \<le> 57 then Some (n + 4)
     else if c = CHR ''-'' then Some 62 else if c = CHR ''_'' then Some 63 else None)"

fun b64_digits :: "nat list \<Rightarrow> nat list" where
  "b64_digits [] = []"
| "b64_digits [a] = [a div 4, a mod 4 * 16]"
| "b64_digits [a, b] = [a div 4, a mod 4 * 16 + b div 16, b mod 16 * 4]"
| "b64_digits (a # b # c # r) = a div 4 # (a mod 4 * 16 + b div 16) # (b mod 16 * 4 + c div 64) # c mod 64 # b64_digits r"

fun b64_quanta :: "nat list \<Rightarrow> nat list option" where
  "b64_quanta [] = Some []"
| "b64_quanta [a] = None"
| "b64_quanta [a, b] = Some [a * 4 + b div 16]"
| "b64_quanta [a, b, c] = Some [a * 4 + b div 16, b mod 16 * 16 + c div 4]"
| "b64_quanta (a # b # c # d # r) =
     map_option (\<lambda>s. (a * 4 + b div 16) # (b mod 16 * 16 + c div 4) # (c mod 4 * 64 + d) # s) (b64_quanta r)"

definition b64_encode :: "string \<Rightarrow> string" where
  "b64_encode s = map b64_char (b64_digits (map of_char s))"

definition b64_decode :: "string \<Rightarrow> string option" where
  "b64_decode s =
    (let cs = filter (\<lambda>c. c \<noteq> CHR 0x0A \<and> c \<noteq> CHR 0x0D) s in
     if list_ex (\<lambda>c. b64_value c = None) cs then None
     else map_option (map char_of) (b64_quanta (map (\<lambda>c. the (b64_value c)) cs)))"

lemma b64_value_char: "d < 64 \<Longrightarrow> b64_value (b64_char d) = Some d"
  by (auto simp: b64_value_def b64_char_def of_char_of Let_def)

lemma b64_char_no_break: "b64_char d \<noteq> CHR 0x0A \<and> b64_char d \<noteq> CHR 0x0D" if "d < 64"
proof -
  have "b64_value CHR 0x0A = None" "b64_value CHR 0x0D = None" by (simp_all add: b64_value_def)
  then show ?thesis using b64_value_char [OF that] by auto
qed

lemma b64_digits_small: "\<forall>a\<in>set xs. a < 256 \<Longrightarrow> \<forall>d\<in>set (b64_digits xs). d < 64"
  by (induction xs rule: b64_digits.induct) auto

lemma quotient_digit: "y < k \<Longrightarrow> (x * k + y) div k = x \<and> (x * k + y) mod k = y" for x y k :: nat
  by simp

lemma b64_quantum:
  fixes a b c :: nat
  assumes "a < 256" "b < 256" "c < 256"
  shows "a div 4 * 4 + (a mod 4 * 16 + b div 16) div 16 = a"
    and "(a mod 4 * 16 + b div 16) mod 16 * 16 + (b mod 16 * 4 + c div 64) div 4 = b"
    and "(b mod 16 * 4 + c div 64) mod 4 * 64 + c mod 64 = c"
  using quotient_digit [of "b div 16" 16 "a mod 4"] quotient_digit [of "c div 64" 4 "b mod 16"] assms
  by (simp_all add: less_mult_imp_div_less)

lemma b64_quanta_digits: "\<forall>a\<in>set xs. a < 256 \<Longrightarrow> b64_quanta (b64_digits xs) = Some xs"
proof (induction xs rule: b64_digits.induct)
  case (2 a)
  then show ?case using b64_quantum(1) [of a 0 0] by simp
next
  case (3 a b)
  then show ?case using b64_quantum [of a b 0] by simp
next
  case (4 a b c r)
  then have "b64_quanta (b64_digits r) = Some r" by simp
  then show ?case using "4.prems" b64_quantum [of a b c] by simp
qed simp

theorem b64_roundtrip: "b64_decode (b64_encode s) = Some s"
proof -
  let ?ds = "b64_digits (map of_char s :: nat list)"
  have small: "\<forall>d\<in>set ?ds. d < 64" by (rule b64_digits_small) simp
  then have "filter (\<lambda>c. c \<noteq> CHR 0x0A \<and> c \<noteq> CHR 0x0D) (map b64_char ?ds) = map b64_char ?ds"
    using b64_char_no_break by (simp add: filter_id_conv)
  moreover have "\<not> list_ex (\<lambda>c. b64_value c = None) (map b64_char ?ds)"
    using small b64_value_char by (auto simp: list_ex_iff)
  moreover have "map (\<lambda>c. the (b64_value c)) (map b64_char ?ds) = ?ds"
    using small b64_value_char by (simp add: map_idI)
  moreover have "b64_quanta ?ds = Some (map of_char s)" by (rule b64_quanta_digits) simp
  ultimately show ?thesis by (simp only: b64_decode_def b64_encode_def Let_def if_False option.map) (simp add: comp_def)
qed

end
