(* ===== verification/Tokens.thy ===== *)
theory Tokens
  imports Base64 Access Texts "HOL-Library.Word" "HOL-Library.Monad_Syntax"
begin

text \<open>
  The tokens of the identity provider and the proofs that bind them to a key (\<^verbatim>\<open>internal/dpop/dpop.go\<close>,
  \<^verbatim>\<open>internal/oidc/jwt.go\<close>). Parameters: SHA-256, the curve and RSA checks, URL parsing, and the JSON reader, which
  lists an object's members in the order of the text, repeated ones included. Times are nanoseconds.
\<close>

record url_parts =
  up_scheme :: string
  up_host :: string
  up_hostname :: string
  up_port :: string
  up_path :: string

record token_env =
  digest :: "string \<Rightarrow> string"
  read_json :: "string \<Rightarrow> json option"
  ec_point_ok :: "string \<Rightarrow> bool"
  ec_signed :: "string \<Rightarrow> string \<Rightarrow> string \<Rightarrow> string \<Rightarrow> bool"
  rsa_pkcs1_signed :: "string \<Rightarrow> int \<Rightarrow> string \<Rightarrow> string \<Rightarrow> bool"
  rsa_pss_signed :: "string \<Rightarrow> int \<Rightarrow> string \<Rightarrow> string \<Rightarrow> bool"
  url_split :: "string \<Rightarrow> url_parts option"

definition second :: int where
  "second = 10 ^ 9"

definition require :: "bool \<Rightarrow> unit option" where
  "require b = (if b then Some () else None)"

subsection \<open>Reading JSON into a struct\<close>

text \<open>
  A member fills the field its name equals but for case; null leaves the field, a value of another type
  fails the whole reading, and the last member wins.
\<close>

definition str_into :: "obj \<Rightarrow> string \<Rightarrow> string \<Rightarrow> string option" where
  "str_into m k old = fold (\<lambda>(j, v) acc. if equal_fold j k then
      (case v of JNull \<Rightarrow> acc | JStr s \<Rightarrow> map_option (\<lambda>_. s) acc | _ \<Rightarrow> None) else acc) m (Some old)"

definition int_into :: "obj \<Rightarrow> string \<Rightarrow> int \<Rightarrow> int option" where
  "int_into m k old = fold (\<lambda>(j, v) acc. if equal_fold j k then
      (case v of JNull \<Rightarrow> acc | JInt n \<Rightarrow> if int64_ok n then map_option (\<lambda>_. n) acc else None | _ \<Rightarrow> None) else acc) m (Some old)"

definition read_obj :: "token_env \<Rightarrow> string \<Rightarrow> obj option" where
  "read_obj e txt = (case read_json e txt of Some (JObj m) \<Rightarrow> Some m | Some JNull \<Rightarrow> Some [] | _ \<Rightarrow> None)"

subsection \<open>Proof keys\<close>

record jwk =
  jwk_kty :: string
  jwk_crv :: string
  jwk_x :: string
  jwk_y :: string
  jwk_d :: string

definition jwk_into :: "obj \<Rightarrow> jwk \<Rightarrow> jwk option" where
  "jwk_into m old = do {
     kty \<leftarrow> str_into m ''kty'' (jwk_kty old); crv \<leftarrow> str_into m ''crv'' (jwk_crv old);
     x \<leftarrow> str_into m ''x'' (jwk_x old); y \<leftarrow> str_into m ''y'' (jwk_y old); d \<leftarrow> str_into m ''d'' (jwk_d old);
     Some \<lparr>jwk_kty = kty, jwk_crv = crv, jwk_x = x, jwk_y = y, jwk_d = d\<rparr> }"

definition no_jwk :: jwk where
  "no_jwk = \<lparr>jwk_kty = '''', jwk_crv = '''', jwk_x = '''', jwk_y = '''', jwk_d = ''''\<rparr>"

definition jwk_of :: "obj \<Rightarrow> jwk option option" where
  "jwk_of m = fold (\<lambda>(j, v) acc. if equal_fold j ''jwk'' then
      (case v of JNull \<Rightarrow> map_option (\<lambda>_. None) acc
       | JObj k \<Rightarrow> acc \<bind> (\<lambda>old. map_option Some (jwk_into k (opt_default no_jwk old)))
       | _ \<Rightarrow> None) else acc) m (Some None)"

definition thumbprint :: "token_env \<Rightarrow> jwk \<Rightarrow> string" where
  "thumbprint e k = b64_encode (digest e
     ([CHR ''{'', CHR 0x22] @ ''crv'' @ [CHR 0x22, CHR '':'', CHR 0x22] @ jwk_crv k
      @ [CHR 0x22, CHR '','', CHR 0x22] @ ''kty'' @ [CHR 0x22, CHR '':'', CHR 0x22] @ jwk_kty k
      @ [CHR 0x22, CHR '','', CHR 0x22] @ ''x'' @ [CHR 0x22, CHR '':'', CHR 0x22] @ jwk_x k
      @ [CHR 0x22, CHR '','', CHR 0x22] @ ''y'' @ [CHR 0x22, CHR '':'', CHR 0x22] @ jwk_y k @ [CHR 0x22, CHR ''}'']))"

definition decode_part :: "string \<Rightarrow> string option" where
  "decode_part part =
    (if part = '''' \<or> list_ex (\<lambda>c. c \<in> {CHR ''='', CHR 0x0A, CHR 0x0D, CHR '' ''}) part then None else b64_decode part)"

text \<open>The encoded point of the key.\<close>

definition public_key :: "token_env \<Rightarrow> jwk option \<Rightarrow> string option" where
  "public_key e key = do {
     k \<leftarrow> key;
     require (jwk_kty k = ''EC'' \<and> jwk_crv k = ''P-256'' \<and> jwk_d k = '''');
     x \<leftarrow> decode_part (jwk_x k);
     y \<leftarrow> decode_part (jwk_y k);
     require (length x = 32 \<and> length y = 32);
     require (ec_point_ok e (CHR 0x04 # x @ y));
     Some (CHR 0x04 # x @ y) }"

subsection \<open>Proofs\<close>

definition normalize_htu :: "token_env \<Rightarrow> string \<Rightarrow> string option" where
  "normalize_htu e raw = do {
     u \<leftarrow> url_split e raw;
     require (up_scheme u \<noteq> '''' \<and> up_host u \<noteq> '''');
     let scheme = map lower_char (up_scheme u);
     let standard = (scheme = ''https'' \<and> up_port u = ''443'') \<or> (scheme = ''http'' \<and> up_port u = ''80'');
     let port = (if standard then '''' else up_port u);
     Some (scheme @ ''://'' @ map lower_char (up_hostname u) @ (if port = '''' then '''' else CHR '':'' # port)
       @ (if up_path u = '''' then ''/'' else up_path u)) }"

record proof_claims =
  pc_jti :: string
  pc_htm :: string
  pc_htu :: string
  pc_iat :: int
  pc_ath :: string

definition read_claims :: "token_env \<Rightarrow> string \<Rightarrow> proof_claims option" where
  "read_claims e payload = do {
     m \<leftarrow> read_obj e payload;
     jti \<leftarrow> str_into m ''jti'' ''''; htm \<leftarrow> str_into m ''htm'' ''''; htu \<leftarrow> str_into m ''htu'' '''';
     iat \<leftarrow> int_into m ''iat'' 0; ath \<leftarrow> str_into m ''ath'' '''';
     Some \<lparr>pc_jti = jti, pc_htm = htm, pc_htu = htu, pc_iat = iat, pc_ath = ath\<rparr> }"

text \<open>The signed part: the key of the header and the payload, when the header is a proof's and the signature its key's.\<close>

definition proof_signed :: "token_env \<Rightarrow> string \<Rightarrow> (jwk \<times> string) option" where
  "proof_signed e proof =
    (case split_char CHR ''.'' proof of
       [head, payload, sign] \<Rightarrow> do {
         header \<leftarrow> decode_part head;
         m \<leftarrow> read_obj e header;
         typ \<leftarrow> str_into m ''typ'' ''''; alg \<leftarrow> str_into m ''alg'' ''''; key \<leftarrow> jwk_of m;
         require (typ = ''dpop+jwt'' \<and> alg = ''ES256'');
         point \<leftarrow> public_key e key;
         signature \<leftarrow> decode_part sign;
         require (length signature = 64);
         require (ec_signed e point (digest e (head @ ''.'' @ payload)) (take 32 signature) (drop 32 signature));
         raw \<leftarrow> decode_part payload;
         k \<leftarrow> key;
         Some (k, raw) }
     | _ \<Rightarrow> None)"

definition proof_window :: int where
  "proof_window = 60 * second"

definition replay_window :: int where
  "replay_window = 300 * second"

definition max_jti :: nat where
  "max_jti = 256"

definition proof_claims_ok :: "token_env \<Rightarrow> string \<Rightarrow> string \<Rightarrow> string \<Rightarrow> int \<Rightarrow> proof_claims \<Rightarrow> bool" where
  "proof_claims_ok e meth htu token now c \<longleftrightarrow>
     pc_jti c \<noteq> '''' \<and> length (pc_jti c) \<le> max_jti \<and> pc_htm c \<noteq> '''' \<and> pc_htu c \<noteq> '''' \<and> pc_iat c \<noteq> 0
     \<and> pc_htm c = meth
     \<and> normalize_htu e (pc_htu c) \<noteq> None \<and> normalize_htu e (pc_htu c) = normalize_htu e htu
     \<and> now - proof_window \<le> pc_iat c * second \<and> pc_iat c * second \<le> now + proof_window
     \<and> pc_ath c = b64_encode (digest e token)"

type_synonym seen = "(string \<times> int) list"

definition remember :: "token_env \<Rightarrow> string \<Rightarrow> int \<Rightarrow> seen \<Rightarrow> bool \<times> seen" where
  "remember e jti now s =
    (let live = filter (\<lambda>(h, expires). now < expires) s; h = digest e jti in
     if map_of live h \<noteq> None then (False, live) else (True, AList.update h (now + replay_window) live))"

datatype proof_error = ErrProof | ErrBinding

definition verify_proof :: "token_env \<Rightarrow> string \<Rightarrow> string \<Rightarrow> string \<Rightarrow> string \<Rightarrow> string \<Rightarrow> int \<Rightarrow> seen \<Rightarrow> proof_error option \<times> seen" where
  "verify_proof e proof meth htu token bound now s =
    (case proof_signed e proof of
       None \<Rightarrow> (Some ErrProof, s)
     | Some (key, payload) \<Rightarrow>
         (case read_claims e payload of
            None \<Rightarrow> (Some ErrProof, s)
          | Some c \<Rightarrow>
              if \<not> proof_claims_ok e meth htu token now c then (Some ErrProof, s)
              else if thumbprint e key \<noteq> bound then (Some ErrBinding, s)
              else (case remember e (pc_jti c) now s of
                  (False, s') \<Rightarrow> (Some ErrProof, s')
                | (True, s') \<Rightarrow> (None, s'))))"

subsection \<open>The provider's keys\<close>

record jwks_key =
  jk_kty :: string
  jk_kid :: string
  jk_n :: string
  jk_e :: string

datatype token_error =
    NotThreePart | HeaderUndecodable | HeaderUnreadable | UnknownKey string | KeyUndecodable string | KeyExponent string
  | SignatureUndecodable | SignatureWrong | AlgUnsupported string | PayloadUndecodable | PayloadUnreadable
  | WrongIssuer string | WrongAudience | TokenExpired | NotYetValid | IssuedInFuture | NoSubject

text \<open>The exponent is shifted in a 64-bit integer.\<close>

definition exponent_of :: "string \<Rightarrow> int" where
  "exponent_of raw = sint (foldl (\<lambda>n c. or (push_bit 8 n) (of_nat (of_char c))) (0 :: 64 word) raw)"

fun rsa_key :: "string \<Rightarrow> jwks_key list \<Rightarrow> token_error + string \<times> int" where
  "rsa_key kid [] = Inl (UnknownKey kid)"
| "rsa_key kid (k # ks) =
    (if jk_kty k \<noteq> ''RSA'' \<or> (kid \<noteq> '''' \<and> jk_kid k \<noteq> kid) then rsa_key kid ks
     else case (b64_decode (jk_n k), b64_decode (jk_e k)) of
       (Some n, Some ex) \<Rightarrow> if exponent_of ex < 3 then Inl (KeyExponent (jk_kid k)) else Inr (n, exponent_of ex)
     | _ \<Rightarrow> Inl (KeyUndecodable (jk_kid k)))"

subsection \<open>Identity tokens\<close>

record token_payload =
  tp_iss :: string
  tp_sub :: string
  tp_uuid :: string
  tp_aud :: "json option"
  tp_exp :: int
  tp_nbf :: int
  tp_iat :: int
  tp_email :: string
  tp_customer :: string
  tp_jkt :: string

definition jkt_of :: "obj \<Rightarrow> string option" where
  "jkt_of m = fold (\<lambda>(j, v) acc. if equal_fold j ''cnf'' then
      (case v of JNull \<Rightarrow> acc | JObj c \<Rightarrow> acc \<bind> str_into c ''jkt'' | _ \<Rightarrow> None) else acc) m (Some '''')"

definition aud_of :: "obj \<Rightarrow> json option" where
  "aud_of m = fold (\<lambda>(j, v) acc. if equal_fold j ''aud'' then Some v else acc) m None"

definition read_payload :: "token_env \<Rightarrow> string \<Rightarrow> token_payload option" where
  "read_payload e raw = do {
     m \<leftarrow> read_obj e raw;
     iss \<leftarrow> str_into m ''iss'' ''''; sub \<leftarrow> str_into m ''sub'' ''''; uuid \<leftarrow> str_into m ''UUID'' '''';
     ex \<leftarrow> int_into m ''exp'' 0; nbf \<leftarrow> int_into m ''nbf'' 0; iat \<leftarrow> int_into m ''iat'' 0;
     email \<leftarrow> str_into m ''email'' ''''; customer \<leftarrow> str_into m ''customer_id'' ''''; jkt \<leftarrow> jkt_of m;
     Some \<lparr>tp_iss = iss, tp_sub = sub, tp_uuid = uuid, tp_aud = aud_of m, tp_exp = ex, tp_nbf = nbf, tp_iat = iat,
       tp_email = email, tp_customer = customer, tp_jkt = jkt\<rparr> }"

definition audience_contains :: "json option \<Rightarrow> string \<Rightarrow> bool" where
  "audience_contains raw audience =
    (case raw of
       None \<Rightarrow> False
     | Some JNull \<Rightarrow> audience = ''''
     | Some (JStr s) \<Rightarrow> s = audience
     | Some (JArr xs) \<Rightarrow> list_all (\<lambda>x. x = JNull \<or> as_str x \<noteq> None) xs
         \<and> list_ex (\<lambda>x. (if x = JNull then '''' else opt_default '''' (as_str x)) = audience) xs
     | _ \<Rightarrow> False)"

definition trim_slashes :: "string \<Rightarrow> string" where
  "trim_slashes s = rev (dropWhile (\<lambda>c. c = CHR ''/'') (rev s))"

definition token_leeway :: int where
  "token_leeway = 60 * second"

record identity_claims =
  ic_subject :: string
  ic_uuid :: string
  ic_email :: string
  ic_customer :: string
  ic_jkt :: string

definition stable_id :: "identity_claims \<Rightarrow> string" where
  "stable_id c = (if ic_uuid c \<noteq> '''' then ic_uuid c else ic_subject c)"

definition signature_error :: "token_env \<Rightarrow> string \<Rightarrow> string \<times> int \<Rightarrow> string \<Rightarrow> string \<Rightarrow> token_error option" where
  "signature_error e alg key dgst sign =
    (if alg = ''RS256'' then (if rsa_pkcs1_signed e (fst key) (snd key) dgst sign then None else Some SignatureWrong)
     else if alg = ''PS256'' then (if rsa_pss_signed e (fst key) (snd key) dgst sign then None else Some SignatureWrong)
     else Some (AlgUnsupported alg))"

definition payload_error :: "token_payload \<Rightarrow> string \<Rightarrow> string \<Rightarrow> int \<Rightarrow> token_error option" where
  "payload_error p issuer audience now =
    (if trim_slashes (tp_iss p) \<noteq> trim_slashes issuer then Some (WrongIssuer (tp_iss p))
     else if \<not> audience_contains (tp_aud p) audience then Some WrongAudience
     else if tp_exp p = 0 \<or> tp_exp p * second + token_leeway < now then Some TokenExpired
     else if tp_nbf p \<noteq> 0 \<and> now < tp_nbf p * second - token_leeway then Some NotYetValid
     else if tp_iat p \<noteq> 0 \<and> now < tp_iat p * second - token_leeway then Some IssuedInFuture
     else if tp_sub p = '''' then Some NoSubject else None)"

definition token_head :: "token_env \<Rightarrow> string \<Rightarrow> token_error + string \<times> string" where
  "token_head e head =
    (case b64_decode head of
       None \<Rightarrow> Inl HeaderUndecodable
     | Some raw \<Rightarrow>
         (case do { m \<leftarrow> read_obj e raw; alg \<leftarrow> str_into m ''alg'' ''''; kid \<leftarrow> str_into m ''kid'' ''''; Some (alg, kid) } of
            None \<Rightarrow> Inl HeaderUnreadable | Some h \<Rightarrow> Inr h))"

definition validate_token :: "token_env \<Rightarrow> string \<Rightarrow> jwks_key list \<Rightarrow> string \<Rightarrow> string \<Rightarrow> int \<Rightarrow> token_error + identity_claims" where
  "validate_token e raw jwks issuer audience now =
    (case split_char CHR ''.'' raw of
       [head, body, sign] \<Rightarrow>
         (case token_head e head of
            Inl err \<Rightarrow> Inl err
          | Inr (alg, kid) \<Rightarrow>
              (case rsa_key kid jwks of
                 Inl err \<Rightarrow> Inl err
               | Inr key \<Rightarrow>
                   (case b64_decode sign of
                      None \<Rightarrow> Inl SignatureUndecodable
                    | Some signature \<Rightarrow>
                        (case signature_error e alg key (digest e (head @ ''.'' @ body)) signature of
                           Some err \<Rightarrow> Inl err
                         | None \<Rightarrow>
                             (case b64_decode body of
                                None \<Rightarrow> Inl PayloadUndecodable
                              | Some payload \<Rightarrow>
                                  (case read_payload e payload of
                                     None \<Rightarrow> Inl PayloadUnreadable
                                   | Some p \<Rightarrow>
                                       (case payload_error p issuer audience now of
                                          Some err \<Rightarrow> Inl err
                                        | None \<Rightarrow> Inr \<lparr>ic_subject = tp_sub p, ic_uuid = tp_uuid p, ic_email = tp_email p,
                                            ic_customer = tp_customer p, ic_jkt = tp_jkt p\<rparr>)))))))
     | _ \<Rightarrow> Inl NotThreePart)"

text \<open>The key identifier of a token that could not be validated for want of its key.\<close>

definition token_kid :: "token_env \<Rightarrow> string \<Rightarrow> string" where
  "token_kid e token =
    (case split_char CHR ''.'' token of
       [head, body, sign] \<Rightarrow> opt_default '''' (do { raw \<leftarrow> b64_decode head; m \<leftarrow> read_obj e raw; str_into m ''kid'' '''' })
     | _ \<Rightarrow> '''')"

end
