(* ===== verification/OidcState.thy ===== *)
theory OidcState
  imports Tokens
begin

text \<open>
  What the OpenID Connect component keeps (\<^verbatim>\<open>internal/oidc/provider.go\<close>, \<^verbatim>\<open>binding.go\<close>, \<^verbatim>\<open>tokens.go\<close>): the cached
  documents of the issuer, the account the agent is bound to with its files, and the sources of outbound
  tokens. The network is a parameter: what each endpoint answers a form with. A write that fails is only logged.
\<close>

subsection \<open>The issuer\<close>

record endpoints =
  ep_issuer :: string
  ep_authorization :: string
  ep_device :: string
  ep_token :: string
  ep_jwks :: string

record token_answer =
  ta_access :: string
  ta_refresh :: string
  ta_id :: string
  ta_scope :: string
  ta_expires :: int
  ta_error :: string
  ta_description :: string

record device_grant =
  dg_device_code :: string
  dg_user_code :: string
  dg_uri :: string
  dg_complete :: string
  dg_expires :: int
  dg_interval :: int

record net =
  net_discovery :: "string \<Rightarrow> endpoints option"
  net_jwks :: "string \<Rightarrow> jwks_key list option"
  net_token :: "string \<Rightarrow> (string \<times> string) list \<Rightarrow> token_answer option"
  net_device :: "string \<Rightarrow> (string \<times> string) list \<Rightarrow> device_grant option"

record provider =
  pv_issuer :: string
  pv_endpoints :: "(endpoints \<times> int) option"
  pv_jwks :: "(jwks_key list \<times> int) option"
  pv_kids :: "(string \<times> int) list"

definition cache_fresh_for :: int where
  "cache_fresh_for = 15 * 60 * second"

definition unknown_kid_cooldown :: int where
  "unknown_kid_cooldown = 5 * 60 * second"

definition trim_slash :: "string \<Rightarrow> string" where
  "trim_slash s = opt_default s (cut_suffix ''/'' s)"

definition discover :: "net \<Rightarrow> string \<Rightarrow> endpoints option" where
  "discover w issuer = do {
     e \<leftarrow> net_discovery w (trim_slashes issuer @ ''/.well-known/openid-configuration'');
     require (trim_slash (ep_issuer e) = trim_slash issuer);
     require (ep_device e \<noteq> '''');
     require (ep_token e \<noteq> '''' \<and> ep_jwks e \<noteq> '''');
     Some e }"

definition provider_endpoints :: "net \<Rightarrow> int \<Rightarrow> provider \<Rightarrow> endpoints option \<times> provider" where
  "provider_endpoints w now p =
    (case pv_endpoints p of
       Some (e, fetched) \<Rightarrow>
         if now - fetched < cache_fresh_for then (Some e, p)
         else (case discover w (pv_issuer p) of
             None \<Rightarrow> (Some e, p)
           | Some e' \<Rightarrow> (Some e', p\<lparr>pv_endpoints := Some (e', now)\<rparr>))
     | None \<Rightarrow>
         (case discover w (pv_issuer p) of
            None \<Rightarrow> (None, p)
          | Some e' \<Rightarrow> (Some e', p\<lparr>pv_endpoints := Some (e', now)\<rparr>)))"

definition refresh_jwks :: "net \<Rightarrow> int \<Rightarrow> string \<Rightarrow> provider \<Rightarrow> jwks_key list option \<times> provider" where
  "refresh_jwks w now uri p =
    (case net_jwks w uri of None \<Rightarrow> (None, p) | Some ks \<Rightarrow> (Some ks, p\<lparr>pv_jwks := Some (ks, now)\<rparr>))"

definition fetch_jwks :: "net \<Rightarrow> int \<Rightarrow> provider \<Rightarrow> jwks_key list option \<times> provider" where
  "fetch_jwks w now p =
    (case provider_endpoints w now p of (None, p') \<Rightarrow> (None, p') | (Some e, p') \<Rightarrow> refresh_jwks w now (ep_jwks e) p')"

definition provider_jwks :: "net \<Rightarrow> int \<Rightarrow> bool \<Rightarrow> provider \<Rightarrow> jwks_key list option \<times> provider" where
  "provider_jwks w now force p =
    (case pv_jwks p of
       Some (ks, fetched) \<Rightarrow> if now - fetched < cache_fresh_for \<and> \<not> force then (Some ks, p) else fetch_jwks w now p
     | None \<Rightarrow> fetch_jwks w now p)"

definition kid_refetch_allowed :: "string \<Rightarrow> int \<Rightarrow> provider \<Rightarrow> bool \<times> provider" where
  "kid_refetch_allowed kid now p =
    (let live = filter (\<lambda>(k, t). \<not> unknown_kid_cooldown < now - t) (pv_kids p) in
     if map_of live kid \<noteq> None then (False, p\<lparr>pv_kids := live\<rparr>) else (True, p\<lparr>pv_kids := AList.update kid now live\<rparr>))"

definition start_device :: "net \<Rightarrow> endpoints \<Rightarrow> string \<Rightarrow> string \<Rightarrow> device_grant option" where
  "start_device w e client_id scope = do {
     g \<leftarrow> net_device w (ep_device e) [(''client_id'', client_id), (''scope'', scope)];
     require (dg_device_code g \<noteq> '''' \<and> dg_user_code g \<noteq> '''');
     Some (g\<lparr>dg_interval := (if dg_interval g < 1 then 5 else dg_interval g),
             dg_expires := (if dg_expires g < 1 then 600 else dg_expires g)\<rparr>) }"

definition refusal :: "token_answer \<Rightarrow> string" where
  "refusal a = (if ta_description a \<noteq> '''' then ta_error a @ '': '' @ ta_description a else ta_error a)"

definition access_type :: string where
  "access_type = ''urn:ietf:params:oauth:token-type:access_token''"

definition exchange_token :: "net \<Rightarrow> endpoints \<Rightarrow> string \<Rightarrow> string \<Rightarrow> string \<Rightarrow> string \<Rightarrow> token_answer option" where
  "exchange_token w e client_id subject resource scope = net_token w (ep_token e)
     [(''grant_type'', ''urn:ietf:params:oauth:grant-type:token-exchange''), (''subject_token'', subject),
      (''subject_token_type'', access_type), (''requested_token_type'', access_type), (''resource'', resource),
      (''scope'', scope), (''client_id'', client_id)]"

definition poll_token :: "net \<Rightarrow> endpoints \<Rightarrow> string \<Rightarrow> string \<Rightarrow> token_answer option" where
  "poll_token w e client_id device_code = net_token w (ep_token e)
     [(''grant_type'', ''urn:ietf:params:oauth:grant-type:device_code''), (''device_code'', device_code), (''client_id'', client_id)]"

definition refresh_tokens :: "net \<Rightarrow> endpoints \<Rightarrow> string \<Rightarrow> string \<Rightarrow> token_answer option" where
  "refresh_tokens w e client_id refresh_token = net_token w (ep_token e)
     [(''grant_type'', ''refresh_token''), (''refresh_token'', refresh_token), (''client_id'', client_id)]"

definition exchange_code :: "net \<Rightarrow> endpoints \<Rightarrow> string \<Rightarrow> string \<Rightarrow> string \<Rightarrow> string \<Rightarrow> token_answer option" where
  "exchange_code w e client_id code redirect_uri verifier = net_token w (ep_token e)
     [(''grant_type'', ''authorization_code''), (''code'', code), (''redirect_uri'', redirect_uri), (''client_id'', client_id),
      (''code_verifier'', verifier)]"

subsection \<open>The bound account\<close>

record minted_identity =
  ki_subject :: string
  ki_email :: string
  ki_customer :: string

record bound_state =
  bs_subject :: string
  bs_email :: string
  bs_customer :: string
  bs_minted :: "(int \<times> minted_identity) list"

text \<open>The three files: \<open>None\<close> for no file.\<close>

record account_binding =
  bd_allowed :: "string list"
  bd_bound :: bound_state
  bd_refresh :: string
  bd_key_refresh :: "(int \<times> string) list"
  bd_state_file :: "bound_state option"
  bd_refresh_file :: "string option"
  bd_keys_file :: "(int \<times> string) list option"

definition unbound :: bound_state where
  "unbound = \<lparr>bs_subject = '''', bs_email = '''', bs_customer = '''', bs_minted = []\<rparr>"

text \<open>\<open>state_read\<close> is \<open>None\<close> when the state file cannot be read, the other two files then count as absent.\<close>

definition load_state :: "bound_state option \<Rightarrow> bound_state" where
  "load_state file = opt_default unbound file"

definition load_refresh_token :: "string option \<Rightarrow> string" where
  "load_refresh_token file = (case file of None \<Rightarrow> '''' | Some raw \<Rightarrow> trim_space raw)"

definition load_key_refresh_tokens :: "(int \<times> string) list option \<Rightarrow> (int \<times> string) list" where
  "load_key_refresh_tokens file = opt_default [] file"

definition new_binding :: "string list \<Rightarrow> bool \<Rightarrow> bool \<Rightarrow> account_binding \<Rightarrow> account_binding" where
  "new_binding allowed load readable disk =
    (let b = disk\<lparr>bd_allowed := allowed, bd_bound := unbound, bd_refresh := '''', bd_key_refresh := []\<rparr> in
     if \<not> load \<or> \<not> readable then b
     else b\<lparr>bd_bound := load_state (bd_state_file disk), bd_refresh := load_refresh_token (bd_refresh_file disk),
            bd_key_refresh := load_key_refresh_tokens (bd_keys_file disk)\<rparr>)"

definition save_key_refresh_tokens :: "bool \<Rightarrow> account_binding \<Rightarrow> account_binding" where
  "save_key_refresh_tokens ok b =
    (if \<not> ok then b else b\<lparr>bd_keys_file := (if bd_key_refresh b = [] then None else Some (bd_key_refresh b))\<rparr>)"

definition set_key_refresh_token :: "bool \<Rightarrow> int \<Rightarrow> string \<Rightarrow> account_binding \<Rightarrow> account_binding" where
  "set_key_refresh_token ok i token b =
    (if opt_default '''' (map_of (bd_key_refresh b) i) = token then b
     else save_key_refresh_tokens ok
       (b\<lparr>bd_key_refresh := (if token = '''' then AList.delete i (bd_key_refresh b) else AList.update i token (bd_key_refresh b))\<rparr>))"

definition save_refresh_token :: "bool \<Rightarrow> account_binding \<Rightarrow> account_binding" where
  "save_refresh_token ok b =
    (if \<not> ok then b else b\<lparr>bd_refresh_file := (if bd_refresh b = '''' then None else Some (bd_refresh b))\<rparr>)"

definition set_refresh_token :: "bool \<Rightarrow> string \<Rightarrow> account_binding \<Rightarrow> account_binding" where
  "set_refresh_token ok token b =
    (if bd_refresh b = token then b else save_refresh_token ok (b\<lparr>bd_refresh := token\<rparr>))"

definition save_binding :: "bool \<Rightarrow> account_binding \<Rightarrow> account_binding" where
  "save_binding ok b = (if ok then b\<lparr>bd_state_file := Some (bd_bound b)\<rparr> else b)"

definition bound_subject :: "account_binding \<Rightarrow> string" where
  "bound_subject b = bs_subject (bd_bound b)"

definition allowed_account :: "account_binding \<Rightarrow> identity_claims \<Rightarrow> bool" where
  "allowed_account b c \<longleftrightarrow> bound_subject b = '''' \<or> stable_id c = bound_subject b
     \<or> list_ex (\<lambda>u. u = ic_uuid c \<or> u = ic_subject c \<or> (ic_email c \<noteq> '''' \<and> equal_fold u (ic_email c))) (bd_allowed b)"

text \<open>The keys that no longer exist are forgotten with their refresh tokens.\<close>

definition record_login :: "bool \<Rightarrow> int \<Rightarrow> identity_claims \<Rightarrow> (int \<Rightarrow> bool) \<Rightarrow> account_binding \<Rightarrow> account_binding" where
  "record_login ok entity c key_exists b =
    (let st = bd_bound b;
         st1 = (if bs_subject st = '''' then st\<lparr>bs_subject := stable_id c, bs_email := ic_email c, bs_customer := ic_customer c\<rparr>
            else if stable_id c = bs_subject st then st\<lparr>bs_email := ic_email c, bs_customer := ic_customer c\<rparr> else st);
         minted = AList.update entity \<lparr>ki_subject = stable_id c, ki_email = ic_email c, ki_customer = ic_customer c\<rparr> (bs_minted st1);
         gone = filter (\<lambda>i. i \<noteq> entity \<and> \<not> key_exists i) (map fst minted);
         pruned = list_ex (\<lambda>i. map_of (bd_key_refresh b) i \<noteq> None) gone;
         b1 = save_binding ok (b\<lparr>bd_bound := st1\<lparr>bs_minted := filter (\<lambda>(i, k). i \<notin> set gone) minted\<rparr>,
                bd_key_refresh := filter (\<lambda>(i, t). i \<notin> set gone) (bd_key_refresh b)\<rparr>)
     in if pruned then save_key_refresh_tokens ok b1 else b1)"

definition identity_for_key :: "account_binding \<Rightarrow> int \<Rightarrow> minted_identity option" where
  "identity_for_key b i = map_of (bs_minted (bd_bound b)) i"

subsection \<open>Outbound tokens\<close>

text \<open>\<open>None\<close> is Go's zero time, always past.\<close>

record token_source =
  ts_scope :: string
  ts_access :: string
  ts_refresh :: string
  ts_expiry :: "int option"
  ts_refreshing :: bool
  ts_resources :: "(string \<times> string \<times> int) list"

definition new_source :: "string \<Rightarrow> token_source" where
  "new_source scope = \<lparr>ts_scope = scope, ts_access = '''', ts_refresh = '''', ts_expiry = None, ts_refreshing = False, ts_resources = []\<rparr>"

definition source_expired :: "int \<Rightarrow> token_source \<Rightarrow> bool" where
  "source_expired now t \<longleftrightarrow> (case ts_expiry t of None \<Rightarrow> True | Some x \<Rightarrow> x < now)"

definition bearer :: "int \<Rightarrow> token_source \<Rightarrow> string" where
  "bearer now t = (if ts_access t = '''' \<or> source_expired now t then '''' else ts_access t)"

datatype exchange_error = NoEndpoints | NoAnswer | ExchangeRefused string string

definition token_exchange :: "net \<Rightarrow> int \<Rightarrow> string \<Rightarrow> string \<Rightarrow> provider \<Rightarrow> token_source \<Rightarrow>
    (exchange_error + string) \<times> provider \<times> token_source" where
  "token_exchange w now client_id resource p t =
    (let subject = (if source_expired now t then '''' else ts_access t) in
     if subject = '''' then (Inr '''', p, t)
     else case provider_endpoints w now p of
       (None, p') \<Rightarrow> (Inl NoEndpoints, p', t)
     | (Some e, p') \<Rightarrow>
         (case exchange_token w e client_id subject resource (ts_scope t) of
            None \<Rightarrow> (Inl NoAnswer, p', t)
          | Some a \<Rightarrow>
              if ta_error a \<noteq> '''' \<or> ta_access a = '''' then (Inl (ExchangeRefused resource (refusal a)), p', t)
              else (Inr (ta_access a), p',
                t\<lparr>ts_resources := AList.update resource (ta_access a, now + ta_expires a * second) (ts_resources t)\<rparr>)))"

definition token_for :: "net \<Rightarrow> int \<Rightarrow> string \<Rightarrow> string \<Rightarrow> provider \<Rightarrow> token_source \<Rightarrow>
    (exchange_error + string) \<times> provider \<times> token_source" where
  "token_for w now client_id resource p t =
    (case map_of (ts_resources t) resource of
       Some (token, expiry) \<Rightarrow> if now < expiry then (Inr token, p, t) else token_exchange w now client_id resource p t
     | None \<Rightarrow> token_exchange w now client_id resource p t)"

definition forget_resource :: "string \<Rightarrow> token_source \<Rightarrow> token_source" where
  "forget_resource resource t = t\<lparr>ts_resources := AList.delete resource (ts_resources t)\<rparr>"

definition start_refresh_loop :: "token_source \<Rightarrow> token_source" where
  "start_refresh_loop t = (if ts_refreshing t \<or> ts_refresh t = '''' then t else t\<lparr>ts_refreshing := True\<rparr>)"

text \<open>What an answer puts in place; \<open>set\<close> and a refresh share it. The refresh token kept is then persisted.\<close>

definition take_answer :: "int \<Rightarrow> token_answer \<Rightarrow> token_source \<Rightarrow> token_source" where
  "take_answer now a t = t\<lparr>ts_access := ta_access a,
     ts_refresh := (if ta_refresh a \<noteq> '''' then ta_refresh a else ts_refresh t),
     ts_scope := (if ta_scope a \<noteq> '''' then ta_scope a else ts_scope t),
     ts_expiry := Some (now + ta_expires a * second)\<rparr>"

definition set_tokens :: "int \<Rightarrow> token_answer \<Rightarrow> token_source \<Rightarrow> token_source" where
  "set_tokens now a t = start_refresh_loop (take_answer now a t)"

definition clear_tokens :: "token_source \<Rightarrow> token_source" where
  "clear_tokens t = t\<lparr>ts_access := '''', ts_refresh := '''', ts_expiry := None, ts_refreshing := False, ts_resources := []\<rparr>"

definition resume_tokens :: "string \<Rightarrow> token_source \<Rightarrow> token_source" where
  "resume_tokens refresh t = (if refresh = '''' then t else t\<lparr>ts_refresh := refresh, ts_refreshing := True\<rparr>)"

text \<open>
  The refresh loop reads the refresh token, waits, and refreshes with the token it read. \<open>loop_read\<close> answers that
  token and the time waited, or that the loop ends; \<open>refresh_once\<close> what a refresh does: whether the
  loop goes on (after a back-off unless the agent is closing), the source, and the token to persist.
\<close>

definition loop_read :: "int \<Rightarrow> token_source \<Rightarrow> (string \<times> int) option \<times> token_source" where
  "loop_read now t =
    (if ts_refresh t = '''' then (None, t\<lparr>ts_refreshing := False\<rparr>)
     else (Some (ts_refresh t, (let wait = (case ts_expiry t of None \<Rightarrow> 0 | Some x \<Rightarrow> x - now) - 60 * second in
        if wait < 30 * second then 30 * second else wait)), t))"

definition refresh_once :: "net \<Rightarrow> int \<Rightarrow> string \<Rightarrow> bool \<Rightarrow> string \<Rightarrow> provider \<Rightarrow> token_source \<Rightarrow>
    bool \<times> provider \<times> token_source \<times> string option" where
  "refresh_once w now client_id closing refresh p t =
    (case provider_endpoints w now p of
       (None, p') \<Rightarrow> (\<not> closing, p', t, None)
     | (Some e, p') \<Rightarrow>
         (case refresh_tokens w e client_id refresh of
            None \<Rightarrow> (\<not> closing, p', t, None)
          | Some a \<Rightarrow>
              if ta_error a = ''invalid_grant'' then (False, p', clear_tokens t, Some '''')
              else if ta_error a \<noteq> '''' \<or> ta_access a = '''' then (\<not> closing, p', t, None)
              else (let t' = take_answer now a t in (True, p', t', Some (ts_refresh t')))))"

end
