(* ===== verification/OidcClient.thy ===== *)
theory OidcClient
  imports OidcState Sessions
begin

text \<open>
  Federated logins (\<^verbatim>\<open>internal/oidc/client.go\<close>, \<^verbatim>\<open>code.go\<close>, \<^verbatim>\<open>validator.go\<close>, \<^verbatim>\<open>manager.go\<close>): the device, silent and code
  flows, the completion of a login, which mints an API key and records the account, the validator of presented
  tokens and the choice of the token an outbound read runs under. Each operation reads one clock; what the
  random source and the network answer during it is part of its environment. The channels that wake a
  waiting status request are not modelled.
\<close>

datatype flow_status = Pending | Approved | Denied | Expired | Failed

record login_credential =
  cd_entity :: int
  cd_name :: string
  cd_role :: string

record flow =
  fl_status :: flow_status
  fl_credential :: "login_credential option"
  fl_expires :: int
  fl_interval :: int

record code_flow =
  cf_verifier :: string
  cf_callback :: string
  cf_code_page :: string
  cf_handle :: string
  cf_expires :: int

record oidc_config =
  oc_tokens :: token_env
  oc_crypto :: crypto
  oc_client_id :: string
  oc_scope :: string
  oc_device_scope :: string
  oc_base_url :: string
  oc_redirect_uri :: string
  oc_hash_rounds :: int

record moment =
  mo_now :: int
  mo_stamp :: string
  mo_net :: net
  mo_disk_ok :: bool
  mo_keys_ok :: bool

record oidc =
  oi_provider :: provider
  oi_binding :: account_binding
  oi_tokens :: token_source
  oi_key_tokens :: "(int \<times> token_source) list"
  oi_flows :: "(string \<times> flow) list"
  oi_silent :: "(string \<times> string \<times> int) list"
  oi_codes :: "(string \<times> code_flow) list"
  oi_keys :: key_store
  oi_seen :: seen

definition silent_ttl :: int where
  "silent_ttl = 5 * 60 * second"

definition minted_keys_kept :: nat where
  "minted_keys_kept = 5"

definition key_description_prefix :: string where
  "key_description_prefix = ''Created by OIDC device login ''"

subsection \<open>Flows\<close>

definition sweep_flows :: "int \<Rightarrow> (string \<times> flow) list \<Rightarrow> (string \<times> flow) list" where
  "sweep_flows now fs = filter (\<lambda>(h, f). \<not> fl_expires f + 10 * 60 * second < now) fs"

definition flow_status_of :: "int \<Rightarrow> string \<Rightarrow> oidc \<Rightarrow> (flow_status \<times> login_credential option) option \<times> oidc" where
  "flow_status_of now h o' =
    (case map_of (oi_flows o') h of
       None \<Rightarrow> (None, o')
     | Some f \<Rightarrow>
         (let gone = o'\<lparr>oi_flows := AList.delete h (oi_flows o')\<rparr> in
          case fl_status f of
            Approved \<Rightarrow> (Some (Approved, fl_credential f), gone)
          | Expired \<Rightarrow> (Some (Expired, None), gone)
          | Pending \<Rightarrow> if fl_expires f < now then (Some (Expired, None), gone) else (Some (Pending, None), o')
          | st \<Rightarrow> (Some (st, None), o')))"

definition settle :: "string \<Rightarrow> flow_status \<Rightarrow> login_credential option \<Rightarrow> oidc \<Rightarrow> oidc" where
  "settle h st cred o' =
    (case map_of (oi_flows o') h of
       None \<Rightarrow> o'
     | Some f \<Rightarrow> if fl_status f \<noteq> Pending then o'
         else o'\<lparr>oi_flows := AList.update h (f\<lparr>fl_status := st, fl_credential := (if cred = None then fl_credential f else cred)\<rparr>) (oi_flows o')\<rparr>)"

definition approve :: "string \<Rightarrow> login_credential \<Rightarrow> oidc \<Rightarrow> oidc" where
  "approve h cred = settle h Approved (Some cred)"

definition set_status :: "string \<Rightarrow> flow_status \<Rightarrow> oidc \<Rightarrow> oidc" where
  "set_status h st = settle h st None"

subsection \<open>Completing a login\<close>

definition key_source_of :: "oidc_config \<Rightarrow> int \<Rightarrow> oidc \<Rightarrow> token_source" where
  "key_source_of cfg i o' = opt_default (new_source (oc_scope cfg)) (map_of (oi_key_tokens o') i)"

definition set_bound_tokens :: "moment \<Rightarrow> token_answer \<Rightarrow> oidc \<Rightarrow> oidc" where
  "set_bound_tokens m a o' =
    (let t = set_tokens (mo_now m) a (oi_tokens o') in
     o'\<lparr>oi_tokens := t, oi_binding := set_refresh_token (mo_disk_ok m) (ts_refresh t) (oi_binding o')\<rparr>)"

definition set_key_tokens :: "oidc_config \<Rightarrow> moment \<Rightarrow> int \<Rightarrow> token_answer \<Rightarrow> oidc \<Rightarrow> oidc" where
  "set_key_tokens cfg m i a o' =
    (let t = set_tokens (mo_now m) a (key_source_of cfg i o') in
     o'\<lparr>oi_key_tokens := AList.update i t (oi_key_tokens o'),
        oi_binding := set_key_refresh_token (mo_disk_ok m) i (ts_refresh t) (oi_binding o')\<rparr>)"

definition key_exists :: "key_store \<Rightarrow> int \<Rightarrow> bool" where
  "key_exists db i \<longleftrightarrow> (case get_key i db of Inl e \<Rightarrow> False | Inr k \<Rightarrow> True)"

text \<open>Clearing a source persists the empty token, which removes the key's.\<close>

definition prune_key_tokens :: "bool \<Rightarrow> oidc \<Rightarrow> oidc" where
  "prune_key_tokens ok o' =
    (let gone = filter (\<lambda>i. \<not> key_exists (oi_keys o') i) (map fst (oi_key_tokens o')) in
     o'\<lparr>oi_key_tokens := filter (\<lambda>(i, t). i \<notin> set gone) (oi_key_tokens o'),
        oi_binding := fold (\<lambda>i. set_key_refresh_token ok i '''') gone (oi_binding o')\<rparr>)"

datatype login_error =
    KeyDraw | KeyFailed key_error | NoIssuer | NoKeys | BadToken token_error | NotAllowed | CodeRefused string | NoAccessToken
  | ExchangeFailed | UnknownState

text \<open>\<open>material\<close> is the key string drawn.\<close>

definition complete_login :: "oidc_config \<Rightarrow> moment \<Rightarrow> string option \<Rightarrow> identity_claims \<Rightarrow> token_answer \<Rightarrow> oidc \<Rightarrow>
    (login_error + login_credential) \<times> oidc" where
  "complete_login cfg m material c a o' =
    (let name = (if ic_email c = '''' then stable_id c else ic_email c) in
     case material of
       None \<Rightarrow> (Inl KeyDraw, o')
     | Some key \<Rightarrow>
         (case create_key (oc_crypto cfg) (mo_keys_ok m) (mo_now m) key name (key_description_prefix @ mo_stamp m) ''admin''
                 (oc_hash_rounds cfg) (oi_keys o') of
            (Inl err, ks) \<Rightarrow> (Inl (KeyFailed err), o'\<lparr>oi_keys := ks\<rparr>)
          | (Inr entity, ks) \<Rightarrow>
              (let ks' = snd (prune_keys (mo_keys_ok m) (mo_now m) key_description_prefix minted_keys_kept ks);
                   b = record_login (mo_disk_ok m) (key_id entity) c (key_exists ks') (oi_binding o');
                   o1 = prune_key_tokens (mo_disk_ok m) (o'\<lparr>oi_keys := ks', oi_binding := b\<rparr>);
                   o2 = (if stable_id c = bound_subject (oi_binding o1) then set_bound_tokens m a o1
                     else set_key_tokens cfg m (key_id entity) a o1)
               in (Inr \<lparr>cd_entity = key_id entity, cd_name = key_name entity, cd_role = key_role entity\<rparr>, o2))))"

definition identity_token :: "token_answer \<Rightarrow> string" where
  "identity_token a = (if ta_id a = '''' then ta_access a else ta_id a)"

subsection \<open>The device flow\<close>

definition start_device_flow :: "oidc_config \<Rightarrow> moment \<Rightarrow> string option \<Rightarrow> oidc \<Rightarrow> (string \<times> endpoints \<times> device_grant) option \<times> oidc" where
  "start_device_flow cfg m handle o' =
    (case do { e \<leftarrow> discover (mo_net m) (pv_issuer (oi_provider o'));
               g \<leftarrow> start_device (mo_net m) e (oc_client_id cfg) (oc_device_scope cfg);
               h \<leftarrow> handle; Some (h, e, g) } of
       None \<Rightarrow> (None, o')
     | Some (h, e, g) \<Rightarrow>
         (Some (h, e, g),
          o'\<lparr>oi_flows := AList.update h \<lparr>fl_status = Pending, fl_credential = None,
                fl_expires = mo_now m + dg_expires g * second, fl_interval = dg_interval g * second\<rparr>
              (sweep_flows (mo_now m) (oi_flows o'))\<rparr>))"

definition finish_device :: "oidc_config \<Rightarrow> moment \<Rightarrow> string option \<Rightarrow> string \<Rightarrow> endpoints \<Rightarrow> token_answer \<Rightarrow> oidc \<Rightarrow> oidc" where
  "finish_device cfg m material h e a o' =
    (case refresh_jwks (mo_net m) (mo_now m) (ep_jwks e) (oi_provider o') of
       (None, p) \<Rightarrow> set_status h Failed (o'\<lparr>oi_provider := p\<rparr>)
     | (Some ks, p) \<Rightarrow>
         (let o1 = o'\<lparr>oi_provider := p\<rparr> in
          case validate_token (oc_tokens cfg) (identity_token a) ks (pv_issuer p) (oc_client_id cfg) (mo_now m) of
            Inl err \<Rightarrow> set_status h Failed o1
          | Inr c \<Rightarrow>
              if \<not> allowed_account (oi_binding o1) c then set_status h Denied o1
              else (case complete_login cfg m material c a o1 of
                  (Inl err, o2) \<Rightarrow> set_status h Failed o2
                | (Inr cred, o2) \<Rightarrow> approve h cred o2)))"

text \<open>One round of the poll after its wait: the interval of the next round, or the end.\<close>

definition poll_device :: "oidc_config \<Rightarrow> moment \<Rightarrow> string option \<Rightarrow> string \<Rightarrow> endpoints \<Rightarrow> device_grant \<Rightarrow> int \<Rightarrow> int \<Rightarrow> oidc \<Rightarrow> int option \<times> oidc" where
  "poll_device cfg m material h e g deadline interval o' =
    (if deadline < mo_now m then (None, set_status h Expired o')
     else case poll_token (mo_net m) e (oc_client_id cfg) (dg_device_code g) of
       None \<Rightarrow> (Some (interval * 2), o')
     | Some a \<Rightarrow>
         if ta_error a = ''authorization_pending'' then (Some interval, o')
         else if ta_error a = ''slow_down'' then (Some (interval + 5 * second), o')
         else if ta_error a = ''access_denied'' then (None, set_status h Denied o')
         else if ta_error a = ''expired_token'' then (None, set_status h Expired o')
         else if ta_error a = '''' then (None, finish_device cfg m material h e a o')
         else (None, set_status h Failed o'))"

subsection \<open>Codes\<close>

text \<open>The claims of the identity token, with one more reading of the keys when its key is unknown.\<close>

definition code_claims :: "oidc_config \<Rightarrow> moment \<Rightarrow> string \<Rightarrow> provider \<Rightarrow> (login_error + identity_claims) \<times> provider" where
  "code_claims cfg m token p =
    (let checked = (\<lambda>ks. validate_token (oc_tokens cfg) token ks (pv_issuer p) (oc_client_id cfg) (mo_now m)) in
     case provider_jwks (mo_net m) (mo_now m) False p of
       (None, p1) \<Rightarrow> (Inl NoKeys, p1)
     | (Some ks, p1) \<Rightarrow>
         (case checked ks of
            Inl (UnknownKey kid) \<Rightarrow>
              (case provider_jwks (mo_net m) (mo_now m) True p1 of
                 (None, p2) \<Rightarrow> (Inl NoKeys, p2)
               | (Some ks', p2) \<Rightarrow> (case checked ks' of Inl err \<Rightarrow> Inl (BadToken err) | Inr c \<Rightarrow> Inr c, p2))
          | Inl err \<Rightarrow> (Inl (BadToken err), p1)
          | Inr c \<Rightarrow> (Inr c, p1)))"

definition redeem_code :: "oidc_config \<Rightarrow> moment \<Rightarrow> string option \<Rightarrow> string \<Rightarrow> string \<Rightarrow> string \<Rightarrow> oidc \<Rightarrow> (login_error + login_credential) \<times> oidc" where
  "redeem_code cfg m material code redirect_uri verifier o' =
    (case provider_endpoints (mo_net m) (mo_now m) (oi_provider o') of
       (None, p) \<Rightarrow> (Inl NoIssuer, o'\<lparr>oi_provider := p\<rparr>)
     | (Some e, p) \<Rightarrow>
         (case exchange_code (mo_net m) e (oc_client_id cfg) code redirect_uri verifier of
            None \<Rightarrow> (Inl ExchangeFailed, o'\<lparr>oi_provider := p\<rparr>)
          | Some a \<Rightarrow>
              if ta_error a \<noteq> '''' then (Inl (CodeRefused (ta_error a)), o'\<lparr>oi_provider := p\<rparr>)
              else if ta_access a = '''' then (Inl NoAccessToken, o'\<lparr>oi_provider := p\<rparr>)
              else (case code_claims cfg m (identity_token a) p of
                  (Inl err, p1) \<Rightarrow> (Inl err, o'\<lparr>oi_provider := p1\<rparr>)
                | (Inr c, p1) \<Rightarrow>
                    if \<not> allowed_account (oi_binding o') c then (Inl NotAllowed, o'\<lparr>oi_provider := p1\<rparr>)
                    else complete_login cfg m material c a (o'\<lparr>oi_provider := p1\<rparr>))))"

text \<open>The drawn PKCE pair: the verifier; the challenge is its digest.\<close>

definition pkce_challenge :: "oidc_config \<Rightarrow> string \<Rightarrow> string" where
  "pkce_challenge cfg verifier = b64_encode (digest (oc_tokens cfg) verifier)"

definition authorize_query :: "oidc_config \<Rightarrow> string \<Rightarrow> string \<Rightarrow> string \<Rightarrow> (string \<times> string) list" where
  "authorize_query cfg redirect_uri state verifier =
    [(''response_type'', ''code''), (''client_id'', oc_client_id cfg), (''redirect_uri'', redirect_uri), (''scope'', oc_scope cfg),
     (''state'', state), (''code_challenge'', pkce_challenge cfg verifier), (''code_challenge_method'', ''S256'')]"

text \<open>The authorization endpoint with the members of its query.\<close>

definition start_silent :: "oidc_config \<Rightarrow> moment \<Rightarrow> (string \<times> string) option \<Rightarrow> oidc \<Rightarrow> (string \<times> (string \<times> string) list) option \<times> oidc" where
  "start_silent cfg m draw o' =
    (case provider_endpoints (mo_net m) (mo_now m) (oi_provider o') of
       (None, p) \<Rightarrow> (None, o'\<lparr>oi_provider := p\<rparr>)
     | (Some e, p) \<Rightarrow>
         (case (ep_authorization e, draw) of
            (c # cs, Some (verifier, state)) \<Rightarrow>
              (Some (c # cs, authorize_query cfg (oc_redirect_uri cfg) state verifier @ [(''prompt'', ''none'')]),
               o'\<lparr>oi_provider := p, oi_silent := AList.update state (verifier, mo_now m + silent_ttl)
                   (filter (\<lambda>(s, v, expires). \<not> expires < mo_now m) (oi_silent o'))\<rparr>)
          | _ \<Rightarrow> (None, o'\<lparr>oi_provider := p\<rparr>)))"

definition exchange_silent :: "oidc_config \<Rightarrow> moment \<Rightarrow> string option \<Rightarrow> string \<Rightarrow> string \<Rightarrow> oidc \<Rightarrow> (login_error + login_credential) \<times> oidc" where
  "exchange_silent cfg m material state code o' =
    (let o1 = o'\<lparr>oi_silent := AList.delete state (oi_silent o')\<rparr> in
     case map_of (oi_silent o') state of
       None \<Rightarrow> (Inl UnknownState, o1)
     | Some (verifier, expires) \<Rightarrow>
         if expires < mo_now m then (Inl UnknownState, o1)
         else redeem_code cfg m material code (oc_redirect_uri cfg) verifier o1)"

definition redeem_code_flow :: "oidc_config \<Rightarrow> moment \<Rightarrow> string option \<Rightarrow> code_flow \<Rightarrow> string \<Rightarrow> string \<Rightarrow> oidc \<Rightarrow>
    (login_error + login_credential) \<times> flow_status \<times> oidc" where
  "redeem_code_flow cfg m material f code redirect_uri o' =
    (case redeem_code cfg m material code redirect_uri (cf_verifier f) o' of
       (Inl err, o1) \<Rightarrow>
         (let st = (if err = NotAllowed then Denied else Failed) in (Inl err, st, set_status (cf_handle f) st o1))
     | (Inr cred, o1) \<Rightarrow> (Inr cred, Approved, approve (cf_handle f) cred o1))"

text \<open>The draw: verifier, state and handle.\<close>

definition start_code :: "oidc_config \<Rightarrow> moment \<Rightarrow> (string \<times> string \<times> string) option \<Rightarrow> bool \<Rightarrow> oidc \<Rightarrow>
    (string \<times> (string \<times> (string \<times> string) list) \<times> (string \<times> (string \<times> string) list) \<times> int) option \<times> oidc" where
  "start_code cfg m draw loopback o' =
    (case provider_endpoints (mo_net m) (mo_now m) (oi_provider o') of
       (None, p) \<Rightarrow> (None, o'\<lparr>oi_provider := p\<rparr>)
     | (Some e, p) \<Rightarrow>
         (case (ep_authorization e, draw) of
            (c # cs, Some (verifier, state, handle)) \<Rightarrow>
              (let page = trim_slashes (pv_issuer p) @ ''/oauth2/code'';
                   manual = (c # cs, authorize_query cfg page state verifier);
                   expires = mo_now m + silent_ttl
               in (Some (handle, if loopback then (c # cs, authorize_query cfg (oc_redirect_uri cfg) state verifier) else manual,
                     manual, silent_ttl div second),
                   o'\<lparr>oi_provider := p,
                      oi_codes := AList.update state \<lparr>cf_verifier = verifier, cf_callback = oc_redirect_uri cfg, cf_code_page = page,
                          cf_handle = handle, cf_expires = expires\<rparr>
                        (filter (\<lambda>(s, f). \<not> cf_expires f < mo_now m) (oi_codes o')),
                      oi_flows := AList.update handle \<lparr>fl_status = Pending, fl_credential = None, fl_expires = expires,
                          fl_interval = silent_ttl\<rparr> (sweep_flows (mo_now m) (oi_flows o'))\<rparr>))
          | _ \<Rightarrow> (None, o'\<lparr>oi_provider := p\<rparr>)))"

definition code_flow_handle :: "string \<Rightarrow> oidc \<Rightarrow> string option" where
  "code_flow_handle state o' = map_option cf_handle (map_of (oi_codes o') state)"

definition refuse_code :: "string \<Rightarrow> flow_status \<Rightarrow> oidc \<Rightarrow> oidc" where
  "refuse_code state st o' =
    (let o1 = o'\<lparr>oi_codes := AList.delete state (oi_codes o')\<rparr> in
     case map_of (oi_codes o') state of None \<Rightarrow> o1 | Some f \<Rightarrow> set_status (cf_handle f) st o1)"

definition exchange_code_flow :: "oidc_config \<Rightarrow> moment \<Rightarrow> string option \<Rightarrow> string \<Rightarrow> string \<Rightarrow> oidc \<Rightarrow> (login_error + login_credential) \<times> oidc" where
  "exchange_code_flow cfg m material state code o' =
    (let o1 = o'\<lparr>oi_codes := AList.delete state (oi_codes o')\<rparr> in
     case map_of (oi_codes o') state of
       None \<Rightarrow> (Inl UnknownState, o1)
     | Some f \<Rightarrow>
         if cf_expires f < mo_now m then (Inl UnknownState, o1)
         else (case redeem_code_flow cfg m material f code (cf_callback f) o1 of (r, st, o2) \<Rightarrow> (r, o2)))"

datatype submit_error = UnknownHandle | FlowNotPending | StateMismatch

definition submit_code :: "oidc_config \<Rightarrow> moment \<Rightarrow> string option \<Rightarrow> string \<Rightarrow> string \<Rightarrow> string \<Rightarrow> oidc \<Rightarrow> (submit_error + flow_status) \<times> oidc" where
  "submit_code cfg m material h code state o' =
    (case map_of (oi_flows o') h of
       None \<Rightarrow> (Inl UnknownHandle, o')
     | Some f \<Rightarrow>
         if fl_status f \<noteq> Pending \<or> fl_expires f < mo_now m then (Inl FlowNotPending, o')
         else (case find (\<lambda>(s, cf). cf_handle cf = h) (oi_codes o') of
             None \<Rightarrow> (Inl UnknownHandle, o')
           | Some (s, cf) \<Rightarrow>
               if state \<noteq> '''' \<and> state \<noteq> s then (Inl StateMismatch, o')
               else (case redeem_code_flow cfg m material cf code (cf_code_page cf) (o'\<lparr>oi_codes := AList.delete s (oi_codes o')\<rparr>) of
                   (r, st, o2) \<Rightarrow> (Inr st, o2))))"

subsection \<open>Presented tokens\<close>

datatype refused =
    KeysUnavailable | InvalidToken | BoundTokenAsBearer | NotKeyBound | OneProofRequired | ProofRefused proof_error | NotBoundAccount
  | LoginDisabled

text \<open>\<open>proofs\<close> are the values of the request's DPoP header.\<close>

definition token_claims :: "oidc_config \<Rightarrow> moment \<Rightarrow> string \<Rightarrow> provider \<Rightarrow> (refused + identity_claims) \<times> provider" where
  "token_claims cfg m token p =
    (let checked = (\<lambda>ks. validate_token (oc_tokens cfg) token ks (pv_issuer p) (oc_client_id cfg) (mo_now m));
         verdict = (\<lambda>r. case r of Inl err \<Rightarrow> Inl InvalidToken | Inr c \<Rightarrow> Inr c) in
     case provider_jwks (mo_net m) (mo_now m) False p of
       (None, p1) \<Rightarrow> (Inl KeysUnavailable, p1)
     | (Some ks, p1) \<Rightarrow>
         (case checked ks of
            Inl (UnknownKey kid) \<Rightarrow>
              (case kid_refetch_allowed (token_kid (oc_tokens cfg) token) (mo_now m) p1 of
                 (False, p2) \<Rightarrow> (Inl InvalidToken, p2)
               | (True, p2) \<Rightarrow> (case provider_jwks (mo_net m) (mo_now m) True p2 of
                     (None, p3) \<Rightarrow> (Inl InvalidToken, p3)
                   | (Some ks', p3) \<Rightarrow> (verdict (checked ks'), p3)))
          | r \<Rightarrow> (verdict r, p1)))"

definition proof_check :: "oidc_config \<Rightarrow> int \<Rightarrow> string \<Rightarrow> string \<Rightarrow> scheme \<Rightarrow> string list \<Rightarrow> string \<Rightarrow> identity_claims \<Rightarrow> seen \<Rightarrow>
    refused option \<times> seen" where
  "proof_check cfg now meth path sch proofs token c s =
    (if sch = SchemeBearer \<and> ic_jkt c \<noteq> '''' then (Some BoundTokenAsBearer, s)
     else if sch = SchemeDPoP \<and> ic_jkt c = '''' then (Some NotKeyBound, s)
     else if sch = SchemeDPoP then
       (case proofs of
          [pf] \<Rightarrow> (case verify_proof (oc_tokens cfg) pf meth (oc_base_url cfg @ path) token (ic_jkt c) now s of
              (Some err, s') \<Rightarrow> (Some (ProofRefused err), s')
            | (None, s') \<Rightarrow> (None, s'))
        | _ \<Rightarrow> (Some OneProofRequired, s))
     else (None, s))"

definition authenticate :: "oidc_config \<Rightarrow> moment \<Rightarrow> request \<Rightarrow> scheme \<Rightarrow> string list \<Rightarrow> string \<Rightarrow> oidc \<Rightarrow> (refused + identity) \<times> oidc" where
  "authenticate cfg m r sch proofs token o' =
    (case token_claims cfg m token (oi_provider o') of
       (Inl err, p) \<Rightarrow> (Inl err, o'\<lparr>oi_provider := p\<rparr>)
     | (Inr c, p) \<Rightarrow>
         (case proof_check cfg (mo_now m) (req_method r) (req_path r) sch proofs token c (oi_seen o') of
            (Some err, s) \<Rightarrow> (Inl err, o'\<lparr>oi_provider := p, oi_seen := s\<rparr>)
          | (None, s) \<Rightarrow>
              (let o1 = o'\<lparr>oi_provider := p, oi_seen := s\<rparr> in
               if \<not> allowed_account (oi_binding o1) c then (Inl NotBoundAccount, o1)
               else (Inr \<lparr>id_key = 0, id_name = (if ic_email c = '''' then ic_subject c else ic_email c),
                    id_description = ''OIDC '' @ (if sch = SchemeDPoP then ''DPoP'' else ''Bearer'') @ '' token'', id_role = ''admin''\<rparr>, o1))))"

definition authenticate_token :: "bool \<Rightarrow> oidc_config \<Rightarrow> moment \<Rightarrow> request \<Rightarrow> scheme \<Rightarrow> string list \<Rightarrow> string \<Rightarrow> oidc \<Rightarrow> (refused + identity) \<times> oidc" where
  "authenticate_token enabled cfg m r sch proofs token o' =
    (if \<not> enabled then (Inl LoginDisabled, o') else authenticate cfg m r sch proofs token o')"

subsection \<open>The manager\<close>

text \<open>The source an outbound read runs under: \<open>None\<close> the bound account's, \<open>Some i\<close> the one of key \<open>i\<close>.\<close>

fun source_of_keys :: "int \<Rightarrow> string \<Rightarrow> oidc \<Rightarrow> api_key list \<Rightarrow> int option" where
  "source_of_keys now created_by o' [] = None"
| "source_of_keys now created_by o' (k # ks) =
    (if key_name k \<noteq> created_by \<or> \<not> key_active k then source_of_keys now created_by o' ks
     else case identity_for_key (oi_binding o') (key_id k) of
       None \<Rightarrow> source_of_keys now created_by o' ks
     | Some who \<Rightarrow>
         if ki_subject who = bound_subject (oi_binding o') then None
         else (case map_of (oi_key_tokens o') (key_id k) of
             Some t \<Rightarrow> if bearer now t \<noteq> '''' then Some (key_id k) else source_of_keys now created_by o' ks
           | None \<Rightarrow> source_of_keys now created_by o' ks))"

definition source_for :: "int \<Rightarrow> string \<Rightarrow> oidc \<Rightarrow> int option" where
  "source_for now created_by o' = (if created_by = '''' then None else source_of_keys now created_by o' (list_keys (oi_keys o')))"

definition the_source :: "int option \<Rightarrow> oidc \<Rightarrow> token_source" where
  "the_source i o' = (case i of None \<Rightarrow> oi_tokens o' | Some i \<Rightarrow> opt_default (oi_tokens o') (map_of (oi_key_tokens o') i))"

definition bearer_token_for :: "int \<Rightarrow> string \<Rightarrow> oidc \<Rightarrow> string" where
  "bearer_token_for now created_by o' = bearer now (the_source (source_for now created_by o') o')"

definition end_grant :: "bool \<Rightarrow> oidc \<Rightarrow> oidc" where
  "end_grant ok o' = o'\<lparr>oi_tokens := clear_tokens (oi_tokens o'), oi_binding := set_refresh_token ok '''' (oi_binding o')\<rparr>"

text \<open>The refresh of the bound account's tokens, with the refresh token the loop read before it waited.\<close>

definition refresh_bound :: "oidc_config \<Rightarrow> moment \<Rightarrow> bool \<Rightarrow> string \<Rightarrow> oidc \<Rightarrow> bool \<times> oidc" where
  "refresh_bound cfg m closing refresh o' =
    (case refresh_once (mo_net m) (mo_now m) (oc_client_id cfg) closing refresh (oi_provider o') (oi_tokens o') of
       (go_on, p, t, persist) \<Rightarrow>
         (go_on, o'\<lparr>oi_provider := p, oi_tokens := t,
            oi_binding := (case persist of None \<Rightarrow> oi_binding o' | Some token \<Rightarrow> set_refresh_token (mo_disk_ok m) token (oi_binding o'))\<rparr>))"

definition device_scope_of :: "string list \<Rightarrow> string" where
  "device_scope_of scopes = join_with '' '' (filter (\<lambda>s. s \<noteq> ''openid'') scopes)"

text \<open>
  The start: the account and the refresh tokens are read back, those of keys that are gone are dropped, the
  others resume. \<open>readable\<close> is whether the state file can be read.
\<close>

definition resume_key :: "oidc_config \<Rightarrow> bool \<Rightarrow> int \<times> string \<Rightarrow> oidc \<Rightarrow> oidc" where
  "resume_key cfg ok = (\<lambda>(i, token) o'.
    if \<not> key_exists (oi_keys o') i then o'\<lparr>oi_binding := set_key_refresh_token ok i '''' (oi_binding o')\<rparr>
    else o'\<lparr>oi_key_tokens := AList.update i (resume_tokens token (key_source_of cfg i o')) (oi_key_tokens o')\<rparr>)"

definition start_manager :: "oidc_config \<Rightarrow> bool \<Rightarrow> string \<Rightarrow> string list \<Rightarrow> bool \<Rightarrow> bool \<Rightarrow> oidc \<Rightarrow> oidc" where
  "start_manager cfg enabled issuer allowed readable ok old =
    (let b = new_binding allowed enabled readable (oi_binding old);
         o' = \<lparr>oi_provider = \<lparr>pv_issuer = issuer, pv_endpoints = None, pv_jwks = None, pv_kids = []\<rparr>, oi_binding = b,
           oi_tokens = new_source (oc_scope cfg), oi_key_tokens = [], oi_flows = [], oi_silent = [], oi_codes = [],
           oi_keys = oi_keys old, oi_seen = []\<rparr>
     in if \<not> enabled then o'
        else fold (resume_key cfg ok) (bd_key_refresh b) (o'\<lparr>oi_tokens := resume_tokens (bd_refresh b) (oi_tokens o')\<rparr>))"

end
