(* ===== verification/TokenProps.thy ===== *)
theory TokenProps
  imports Tokens
begin

text \<open>
  Properties of proofs and tokens: what an accepted proof and an accepted token have been checked for, and that
  no proof is accepted twice, whatever other proofs are presented in between.
\<close>

subsection \<open>No proof is accepted twice\<close>

record verifier =
  vf_seen :: seen
  vf_clock :: int
  vf_accepted :: "string list"

definition fresh_verifier :: "verifier \<Rightarrow> bool" where
  "fresh_verifier s \<longleftrightarrow> vf_seen s = [] \<and> vf_accepted s = []"

text \<open>Requests come in any order with any proofs; the clock does not go back.\<close>

inductive proof_step :: "token_env \<Rightarrow> verifier \<Rightarrow> verifier \<Rightarrow> bool" for e where
  proof_call: "vf_clock s \<le> now \<Longrightarrow> verify_proof e pf meth htu token bound now (vf_seen s) = (res, seen') \<Longrightarrow>
    proof_step e s \<lparr>vf_seen = seen', vf_clock = now,
      vf_accepted = (if res = None then pf # vf_accepted s else vf_accepted s)\<rparr>"

definition signed_claims :: "token_env \<Rightarrow> string \<Rightarrow> (jwk \<times> proof_claims) option" where
  "signed_claims e pf = do { (key, payload) \<leftarrow> proof_signed e pf; c \<leftarrow> read_claims e payload; Some (key, c) }"

lemma verify_proof_claims:
  "verify_proof e pf meth htu token bound now s =
    (case signed_claims e pf of
       None \<Rightarrow> (Some ErrProof, s)
     | Some (key, c) \<Rightarrow>
         if \<not> proof_claims_ok e meth htu token now c then (Some ErrProof, s)
         else if thumbprint e key \<noteq> bound then (Some ErrBinding, s)
         else (if fst (remember e (pc_jti c) now s) then None else Some ErrProof, snd (remember e (pc_jti c) now s)))"
  by (auto simp: verify_proof_def signed_claims_def split: option.splits prod.splits bool.splits)

lemma verify_proof_cases:
  assumes "verify_proof e pf meth htu token bound now s = (res, s')"
  shows "res = None \<Longrightarrow> \<exists>key c. signed_claims e pf = Some (key, c) \<and> proof_claims_ok e meth htu token now c
        \<and> thumbprint e key = bound \<and> remember e (pc_jti c) now s = (True, s')"
    and "s' = s \<or> (\<exists>jti. s' = snd (remember e jti now s))"
  using assms unfolding verify_proof_claims by (auto simp: prod_eq_iff split: option.splits if_splits prod.splits)

definition held_until :: "seen \<Rightarrow> string \<Rightarrow> int \<Rightarrow> int \<Rightarrow> bool" where
  "held_until s h t clock \<longleftrightarrow> t \<le> clock \<or> (\<exists>x. map_of s h = Some x \<and> t \<le> x)"

lemma map_of_filter_key:
  "distinct (map fst s) \<Longrightarrow> map_of (filter (\<lambda>(h, x). P x) s) h = (case map_of s h of Some x \<Rightarrow> if P x then Some x else None | None \<Rightarrow> None)"
  by (induction s) (auto split: option.splits simp: map_of_eq_None_iff)

lemma remember_keys: "distinct (map fst s) \<Longrightarrow> distinct (map fst (snd (remember e jti now s)))"
  by (auto simp: remember_def Let_def distinct_map_filter distinct_update)

text \<open>An id that is held stays held, or the clock has passed the time it was held for.\<close>

lemma remember_holds:
  assumes "distinct (map fst s)" and "held_until s h t clock" and "clock \<le> now"
  shows "held_until (snd (remember e jti now s)) h t now"
proof (cases "t \<le> now")
  case False
  then obtain x where x: "map_of s h = Some x" "t \<le> x" using assms by (auto simp: held_until_def)
  have "map_of (filter (\<lambda>(h, expires). now < expires) s) h = Some x"
    using False x map_of_filter_key [OF assms(1)] by simp
  then show ?thesis using x False
    by (auto simp: held_until_def remember_def Let_def update_conv')
qed (simp add: held_until_def)

lemma held_refuses:
  assumes "distinct (map fst s)" and "held_until s (digest e jti) t clock" and "clock < t" and "now < t"
  shows "\<not> fst (remember e jti now s)"
  using assms map_of_filter_key [OF assms(1)] by (auto simp: held_until_def remember_def Let_def)

lemma remember_new:
  assumes "remember e jti now s = (True, s')"
  shows "held_until s' (digest e jti) (now + replay_window) now'"
  using assms by (auto simp: remember_def Let_def held_until_def update_conv' split: if_splits)

definition verifier_inv :: "token_env \<Rightarrow> verifier \<Rightarrow> bool" where
  "verifier_inv e s \<longleftrightarrow> distinct (map fst (vf_seen s)) \<and> distinct (vf_accepted s)
     \<and> (\<forall>p\<in>set (vf_accepted s). \<exists>key c. signed_claims e p = Some (key, c)
          \<and> held_until (vf_seen s) (digest e (pc_jti c)) (pc_iat c * second + (replay_window - proof_window)) (vf_clock s))"

lemma verifier_step:
  assumes "proof_step e s t" and "verifier_inv e s"
  shows "verifier_inv e t"
  using assms(1)
proof cases
  case (proof_call now pf meth htu token bound res seen')
  have keys: "distinct (map fst (vf_seen s))" and old: "distinct (vf_accepted s)" using assms(2) by (auto simp: verifier_inv_def)
  note verified = verify_proof_cases [OF proof_call(3)]
  have keys': "distinct (map fst seen')" using verified keys remember_keys by auto
  have stays: "held_until seen' h u now" if "held_until (vf_seen s) h u (vf_clock s)" for h u
    using verified that remember_holds [OF keys that proof_call(2)] proof_call(2) by (auto simp: held_until_def)
  show ?thesis
  proof (cases res)
    case (Some err)
    then show ?thesis using assms(2) keys' stays proof_call(1) by (fastforce simp: verifier_inv_def)
  next
    case None
    then obtain key c where c: "signed_claims e pf = Some (key, c)" "proof_claims_ok e meth htu token now c"
      "remember e (pc_jti c) now (vf_seen s) = (True, seen')" using verified by blast
    have now: "now < pc_iat c * second + (replay_window - proof_window)" "pc_iat c * second \<le> now + proof_window"
      using c(2) by (auto simp: proof_claims_ok_def replay_window_def proof_window_def second_def)
    have "pf \<notin> set (vf_accepted s)"
    proof
      assume "pf \<in> set (vf_accepted s)"
      then have "held_until (vf_seen s) (digest e (pc_jti c)) (pc_iat c * second + (replay_window - proof_window)) (vf_clock s)"
        using assms(2) c(1) by (auto simp: verifier_inv_def)
      then show False using held_refuses [OF keys] now(1) proof_call(2) c(3) by force
    qed
    moreover have "held_until seen' (digest e (pc_jti c)) (pc_iat c * second + (replay_window - proof_window)) now"
      using remember_new [OF c(3), of now] now(2) by (auto simp: held_until_def)
    ultimately show ?thesis
      using assms(2) keys' stays old c(1) None proof_call(1) by (fastforce simp: verifier_inv_def)
  qed
qed

interpretation proofs: invariant_system fresh_verifier "proof_step e" "verifier_inv e" for e
  by unfold_locales (simp add: fresh_verifier_def verifier_inv_def, rule verifier_step)

text \<open>
  C36: A proof of possession is accepted at most once: in every reachable state of the verifier the accepted proofs
  are distinct. The replay memory outlives the window in which a proof's time of issue is accepted, so the
  purge never forgets an id whose proof could still pass.
\<close>
theorem proof_accepted_once:
  assumes "reachable fresh_verifier (proof_step e) s"
  shows "distinct (vf_accepted s)"
  using proofs.always [OF assms] by (simp add: verifier_inv_def)

text \<open>An environment in which a proof is accepted: digests are the identity and every signature holds.\<close>

definition demo_env :: token_env where
  "demo_env = \<lparr>digest = (\<lambda>s. s),
     read_json = (\<lambda>s. if s = ''h'' then Some (JObj [(''typ'', JStr ''dpop+jwt''), (''alg'', JStr ''ES256''),
           (''jwk'', JObj [(''kty'', JStr ''EC''), (''crv'', JStr ''P-256''), (''x'', JStr (b64_encode (replicate 32 CHR ''x''))), (''y'', JStr (b64_encode (replicate 32 CHR ''y'')))])])
        else if s = ''c'' then Some (JObj [(''jti'', JStr ''j''), (''htm'', JStr ''GET''), (''htu'', JStr ''http://h''), (''iat'', JInt 1000),
           (''ath'', JStr (b64_encode ''t''))])
        else if s = ''k'' then Some (JObj [(''alg'', JStr ''RS256'')])
        else Some (JObj [(''iss'', JStr ''https://i/''), (''sub'', JStr ''u''), (''aud'', JArr [JStr ''a'']), (''exp'', JInt 1000)])),
     ec_point_ok = (\<lambda>p. True), ec_signed = (\<lambda>p d r s. True), rsa_pkcs1_signed = (\<lambda>n ex d s. True), rsa_pss_signed = (\<lambda>n ex d s. False),
     url_split = (\<lambda>s. Some \<lparr>up_scheme = ''http'', up_host = ''h'', up_hostname = ''h'', up_port = '''', up_path = ''''\<rparr>)\<rparr>"

definition demo_jwk :: jwk where
  "demo_jwk = \<lparr>jwk_kty = ''EC'', jwk_crv = ''P-256'', jwk_x = b64_encode (replicate 32 CHR ''x''), jwk_y = b64_encode (replicate 32 CHR ''y''), jwk_d = ''''\<rparr>"

definition demo_proof :: string where
  "demo_proof = b64_encode ''h'' @ ''.'' @ b64_encode ''c'' @ ''.'' @ b64_encode (replicate 64 CHR ''s'')"

lemma b64_text: "c \<in> set (b64_encode s) \<Longrightarrow> b64_value c \<noteq> None"
proof -
  assume "c \<in> set (b64_encode s)"
  then obtain d where "d \<in> set (b64_digits (map of_char s :: nat list))" "c = b64_char d" by (auto simp: b64_encode_def)
  then show ?thesis using b64_value_char [of d] b64_digits_small [of "map of_char s :: nat list"] by auto
qed

lemma b64_no_dot: "CHR ''.'' \<notin> set (b64_encode s)"
  using b64_text [of "CHR ''.''"] by (auto simp: b64_value_def)

lemma decode_encoded: "s \<noteq> '''' \<Longrightarrow> decode_part (b64_encode s) = Some s"
proof -
  assume "s \<noteq> ''''"
  then have "b64_encode s \<noteq> ''''" using b64_roundtrip [of s] by (auto simp: b64_decode_def)
  moreover have "c \<notin> {CHR ''='', CHR 0x0A, CHR 0x0D, CHR '' ''}" if "c \<in> set (b64_encode s)" for c
    using b64_text [OF that] by (auto simp: b64_value_def)
  ultimately show ?thesis by (auto simp: decode_part_def b64_roundtrip list_ex_iff)
qed

lemma three_parts:
  "split_char CHR ''.'' (b64_encode a @ ''.'' @ b64_encode b @ ''.'' @ b64_encode c) = [b64_encode a, b64_encode b, b64_encode c]"
  by (simp add: split_char_append split_char_single b64_no_dot)

lemma demo_signed: "proof_signed demo_env demo_proof = Some (demo_jwk, ''c'')"
proof -
  have "jwk_of [(''typ'', JStr ''dpop+jwt''), (''alg'', JStr ''ES256''),
      (''jwk'', JObj [(''kty'', JStr ''EC''), (''crv'', JStr ''P-256''), (''x'', JStr (b64_encode (replicate 32 CHR ''x''))),
        (''y'', JStr (b64_encode (replicate 32 CHR ''y'')))])] = Some (Some demo_jwk)"
    by (simp add: jwk_of_def jwk_into_def str_into_def equal_fold_def lower_char_def demo_jwk_def no_jwk_def)
  moreover have "public_key demo_env (Some demo_jwk) = Some (CHR 0x04 # replicate 32 CHR ''x'' @ replicate 32 CHR ''y'')"
    by (simp add: public_key_def demo_jwk_def demo_env_def decode_encoded require_def)
  ultimately show ?thesis
    unfolding proof_signed_def demo_proof_def three_parts
    by (simp add: decode_encoded read_obj_def require_def)
      (simp add: demo_env_def str_into_def equal_fold_def lower_char_def)
qed

lemma demo_accepted:
  "verify_proof demo_env demo_proof ''GET'' ''http://h'' ''t'' (thumbprint demo_env demo_jwk) (1000 * second) []
    = (None, [(''j'', 1300 * second)])"
proof -
  have "read_claims demo_env ''c'' = Some \<lparr>pc_jti = ''j'', pc_htm = ''GET'', pc_htu = ''http://h'', pc_iat = 1000, pc_ath = b64_encode ''t''\<rparr>"
    by (simp add: read_claims_def read_obj_def demo_env_def str_into_def int_into_def equal_fold_def lower_char_def int64_ok_def)
  then show ?thesis
    by (simp add: verify_proof_def demo_signed proof_claims_ok_def remember_def replay_window_def proof_window_def second_def max_jti_def)
      (simp add: demo_env_def normalize_htu_def require_def)
qed

theorem proof_accepted_once_witness: "distinct (vf_accepted \<lparr>vf_seen = [(''j'', 1300 * second)], vf_clock = 1000 * second, vf_accepted = [demo_proof]\<rparr>)"
proof (rule proof_accepted_once)
  let ?s = "\<lparr>vf_seen = [], vf_clock = 0, vf_accepted = []\<rparr>"
  have "reachable fresh_verifier (proof_step demo_env) ?s" by (rule reachable_init) (simp add: fresh_verifier_def)
  moreover have "proof_step demo_env ?s \<lparr>vf_seen = [(''j'', 1300 * second)], vf_clock = 1000 * second, vf_accepted = [demo_proof]\<rparr>"
    using proof_call [of ?s "1000 * second" demo_env demo_proof "''GET''" "''http://h''" "''t''" "thumbprint demo_env demo_jwk"] demo_accepted
    by (simp add: second_def)
  ultimately show "reachable fresh_verifier (proof_step demo_env)
      \<lparr>vf_seen = [(''j'', 1300 * second)], vf_clock = 1000 * second, vf_accepted = [demo_proof]\<rparr>"
    by (rule reachable_step)
qed

subsection \<open>What an accepted proof and an accepted token are\<close>

lemma require_Some [simp]: "require b = Some u \<longleftrightarrow> b"
  by (simp add: require_def)

lemma proof_signed_sound:
  assumes "proof_signed e pf = Some (key, payload)"
  shows "\<exists>head body sign point signature. split_char CHR ''.'' pf = [head, body, sign] \<and> public_key e (Some key) = Some point
    \<and> decode_part sign = Some signature \<and> length signature = 64
    \<and> ec_signed e point (digest e (head @ ''.'' @ body)) (take 32 signature) (drop 32 signature) \<and> decode_part body = Some payload"
  using assms by (auto simp: proof_signed_def bind_eq_Some_conv split: list.splits)

text \<open>
  C37: An accepted proof is what RFC 9449 asks for: three parts whose header names an ES256 key on the curve, signed by
  that key, the key the one the token is bound to; its method, URL, time of issue and token digest are those of
  the request; its id was not held, and is held from now on for the replay window.
\<close>
theorem accepted_proof_sound:
  assumes "verify_proof e pf meth htu token bound now s = (None, s')" and "distinct (map fst s)"
  shows "\<exists>head body sign key payload c point signature.
      split_char CHR ''.'' pf = [head, body, sign] \<and> public_key e (Some key) = Some point
      \<and> decode_part sign = Some signature \<and> length signature = 64
      \<and> ec_signed e point (digest e (head @ ''.'' @ body)) (take 32 signature) (drop 32 signature)
      \<and> thumbprint e key = bound
      \<and> decode_part body = Some payload \<and> read_claims e payload = Some c
      \<and> pc_htm c = meth \<and> normalize_htu e (pc_htu c) = normalize_htu e htu \<and> \<bar>pc_iat c * second - now\<bar> \<le> proof_window
      \<and> pc_ath c = b64_encode (digest e token)
      \<and> (\<forall>x. map_of s (digest e (pc_jti c)) = Some x \<longrightarrow> x \<le> now)
      \<and> map_of s' (digest e (pc_jti c)) = Some (now + replay_window)"
proof -
  obtain key c where c: "signed_claims e pf = Some (key, c)" "proof_claims_ok e meth htu token now c" "thumbprint e key = bound"
      "remember e (pc_jti c) now s = (True, s')"
    using verify_proof_cases(1) [OF assms(1)] by blast
  obtain payload where p: "proof_signed e pf = Some (key, payload)" "read_claims e payload = Some c"
    using c(1) by (auto simp: signed_claims_def bind_eq_Some_conv)
  have fresh: "x \<le> now" if "map_of s (digest e (pc_jti c)) = Some x" for x
    using c(4) that map_of_filter_key [OF assms(2), of "\<lambda>x. now < x"] by (auto simp: remember_def Let_def split: if_splits)
  have kept: "map_of s' (digest e (pc_jti c)) = Some (now + replay_window)"
    using c(4) by (auto simp: remember_def Let_def update_conv' split: if_splits)
  have "\<bar>pc_iat c * second - now\<bar> \<le> proof_window" "pc_htm c = meth" "normalize_htu e (pc_htu c) = normalize_htu e htu"
    "pc_ath c = b64_encode (digest e token)"
    using c(2) by (auto simp: proof_claims_ok_def abs_le_iff)
  then show ?thesis using proof_signed_sound [OF p(1)] p(2) c(3) fresh kept by blast
qed

theorem accepted_proof_sound_witness:
  "\<exists>head body sign. split_char CHR ''.'' demo_proof = [head, body, sign]"
  using accepted_proof_sound [OF demo_accepted] by force

lemma rsa_key_sound:
  "rsa_key kid ks = Inr (n, ex) \<Longrightarrow> \<exists>k\<in>set ks. jk_kty k = ''RSA'' \<and> (kid = '''' \<or> jk_kid k = kid)
    \<and> b64_decode (jk_n k) = Some n \<and> 3 \<le> ex"
  by (induction ks) (auto split: if_splits option.splits)

text \<open>What an identity token must be, independent of the order of the checks.\<close>

inductive genuine_token :: "token_env \<Rightarrow> jwks_key list \<Rightarrow> string \<Rightarrow> string \<Rightarrow> int \<Rightarrow> string \<Rightarrow> identity_claims \<Rightarrow> bool"
  for e jwks issuer audience now where
  genuine: "split_char CHR ''.'' raw = [head, body, sign] \<Longrightarrow> token_head e head = Inr (alg, kid) \<Longrightarrow>
    k \<in> set jwks \<Longrightarrow> jk_kty k = ''RSA'' \<Longrightarrow> kid = '''' \<or> jk_kid k = kid \<Longrightarrow> b64_decode (jk_n k) = Some n \<Longrightarrow> 3 \<le> ex \<Longrightarrow>
    b64_decode sign = Some signature \<Longrightarrow>
    alg = ''RS256'' \<and> rsa_pkcs1_signed e n ex (digest e (head @ ''.'' @ body)) signature
      \<or> alg = ''PS256'' \<and> rsa_pss_signed e n ex (digest e (head @ ''.'' @ body)) signature \<Longrightarrow>
    b64_decode body = Some payload \<Longrightarrow> read_payload e payload = Some p \<Longrightarrow>
    trim_slashes (tp_iss p) = trim_slashes issuer \<Longrightarrow> audience_contains (tp_aud p) audience \<Longrightarrow>
    tp_exp p \<noteq> 0 \<Longrightarrow> now \<le> tp_exp p * second + token_leeway \<Longrightarrow> tp_nbf p = 0 \<or> tp_nbf p * second \<le> now + token_leeway \<Longrightarrow>
    tp_iat p = 0 \<or> tp_iat p * second \<le> now + token_leeway \<Longrightarrow> tp_sub p \<noteq> '''' \<Longrightarrow>
    genuine_token e jwks issuer audience now raw
      \<lparr>ic_subject = tp_sub p, ic_uuid = tp_uuid p, ic_email = tp_email p, ic_customer = tp_customer p, ic_jkt = tp_jkt p\<rparr>"

lemma validate_token_genuine:
  assumes "validate_token e raw jwks issuer audience now = Inr c"
  shows "genuine_token e jwks issuer audience now raw c"
proof -
  obtain head body sign where parts: "split_char CHR ''.'' raw = [head, body, sign]"
    using assms by (auto simp: validate_token_def split: list.splits)
  obtain alg kid n ex signature payload p where t: "token_head e head = Inr (alg, kid)" "rsa_key kid jwks = Inr (n, ex)"
    "b64_decode sign = Some signature" "signature_error e alg (n, ex) (digest e (head @ ''.'' @ body)) signature = None"
    "b64_decode body = Some payload" "read_payload e payload = Some p" "payload_error p issuer audience now = None"
    and c: "c = \<lparr>ic_subject = tp_sub p, ic_uuid = tp_uuid p, ic_email = tp_email p, ic_customer = tp_customer p, ic_jkt = tp_jkt p\<rparr>"
    using assms by (auto simp: validate_token_def parts split: sum.splits option.splits prod.splits)
  obtain k where k: "k \<in> set jwks" "jk_kty k = ''RSA''" "kid = '''' \<or> jk_kid k = kid" "b64_decode (jk_n k) = Some n" "3 \<le> ex"
    using rsa_key_sound [OF t(2)] by blast
  have signed: "alg = ''RS256'' \<and> rsa_pkcs1_signed e n ex (digest e (head @ ''.'' @ body)) signature
      \<or> alg = ''PS256'' \<and> rsa_pss_signed e n ex (digest e (head @ ''.'' @ body)) signature"
    using t(4) by (auto simp: signature_error_def split: if_splits)
  have "trim_slashes (tp_iss p) = trim_slashes issuer" "audience_contains (tp_aud p) audience" "tp_exp p \<noteq> 0"
    "now \<le> tp_exp p * second + token_leeway" "tp_nbf p = 0 \<or> tp_nbf p * second \<le> now + token_leeway"
    "tp_iat p = 0 \<or> tp_iat p * second \<le> now + token_leeway" "tp_sub p \<noteq> ''''"
    using t(7) by (auto simp: payload_error_def split: if_splits)
  then show ?thesis unfolding c by (rule genuine [OF parts t(1) k t(3) signed t(5,6)])
qed

end
