(* ===== verification/OidcProps.thy ===== *)
theory OidcProps
  imports OidcClient TokenProps KeyLaws
begin

text \<open>
  Properties of federated logins: the account the agent is bound to, who gets a key, what a presented token must
  be, that a flow settles once and a code's state is redeemed once, and the fate of the tokens held.
\<close>

subsection \<open>What the operations leave alone\<close>

named_theorems oidc_frames \<open>fields an operation does not change\<close>

lemma settle_frames [oidc_frames]:
  "oi_provider (settle h st c o') = oi_provider o'" "oi_binding (settle h st c o') = oi_binding o'"
  "oi_tokens (settle h st c o') = oi_tokens o'" "oi_key_tokens (settle h st c o') = oi_key_tokens o'"
  "oi_silent (settle h st c o') = oi_silent o'" "oi_codes (settle h st c o') = oi_codes o'"
  "oi_keys (settle h st c o') = oi_keys o'" "oi_seen (settle h st c o') = oi_seen o'"
  by (simp_all add: settle_def split: option.splits)

lemma bound_set_refresh [oidc_frames]: "bd_bound (set_refresh_token ok t b) = bd_bound b"
  by (simp add: set_refresh_token_def save_refresh_token_def)

lemma bound_set_key_refresh [oidc_frames]: "bd_bound (set_key_refresh_token ok i t b) = bd_bound b"
  by (simp add: set_key_refresh_token_def save_key_refresh_tokens_def)

lemma bound_prune_tokens [oidc_frames]: "bd_bound (fold (\<lambda>i. set_key_refresh_token ok i t) is b) = bd_bound b"
  by (induction "is" arbitrary: b) (simp_all add: bound_set_key_refresh)

lemma allowed_set_refresh [oidc_frames]: "bd_allowed (set_refresh_token ok t b) = bd_allowed b"
  by (simp add: set_refresh_token_def save_refresh_token_def)

lemma complete_login_frames [oidc_frames]:
  "oi_provider (snd (complete_login cfg m mat c a o')) = oi_provider o'"
  "oi_flows (snd (complete_login cfg m mat c a o')) = oi_flows o'"
  "oi_silent (snd (complete_login cfg m mat c a o')) = oi_silent o'"
  "oi_codes (snd (complete_login cfg m mat c a o')) = oi_codes o'"
  "oi_seen (snd (complete_login cfg m mat c a o')) = oi_seen o'"
  by (simp_all add: complete_login_def set_bound_tokens_def set_key_tokens_def prune_key_tokens_def Let_def
      split: option.splits prod.splits sum.splits)

subsection \<open>The bound account\<close>

lemma record_login_subject:
  "bound_subject (record_login ok i c ex b) = (if bound_subject b = '''' then stable_id c else bound_subject b)"
  by (simp add: record_login_def bound_subject_def Let_def save_binding_def save_key_refresh_tokens_def)

lemma complete_login_subject:
  "bound_subject (oi_binding (snd (complete_login cfg m mat c a o'))) = bound_subject (oi_binding o')
   \<or> (bound_subject (oi_binding o') = '''' \<and> bound_subject (oi_binding (snd (complete_login cfg m mat c a o'))) = stable_id c)"
proof -
  have "bound_subject (set_refresh_token ok t b) = bound_subject b" "bound_subject (set_key_refresh_token ok i t b) = bound_subject b"
    "bound_subject (fold (\<lambda>i. set_key_refresh_token ok i t) is b) = bound_subject b" for ok t i b "is"
    by (simp_all add: bound_subject_def oidc_frames)
  then show ?thesis
    by (simp add: complete_login_def set_bound_tokens_def set_key_tokens_def prune_key_tokens_def Let_def record_login_subject
      split: option.splits prod.splits sum.splits)
qed

lemma provider_issuer [simp]:
  "pv_issuer (snd (provider_endpoints w now p)) = pv_issuer p"
  "pv_issuer (snd (refresh_jwks w now uri p)) = pv_issuer p"
  "pv_issuer (snd (fetch_jwks w now p)) = pv_issuer p"
  "pv_issuer (snd (provider_jwks w now force p)) = pv_issuer p"
  "pv_issuer (snd (kid_refetch_allowed kid now p)) = pv_issuer p"
proof -
  show e: "pv_issuer (snd (provider_endpoints w now p)) = pv_issuer p" for p
    by (auto simp: provider_endpoints_def split: option.splits)
  show r: "pv_issuer (snd (refresh_jwks w now uri p)) = pv_issuer p" for uri p
    by (simp add: refresh_jwks_def split: option.splits)
  show f: "pv_issuer (snd (fetch_jwks w now p)) = pv_issuer p" for p
    using e [of p] r by (auto simp: fetch_jwks_def split: prod.splits option.splits)
  show "pv_issuer (snd (provider_jwks w now force p)) = pv_issuer p"
    using f by (auto simp: provider_jwks_def split: option.splits)
  show "pv_issuer (snd (kid_refetch_allowed kid now p)) = pv_issuer p"
    by (simp add: kid_refetch_allowed_def Let_def)
qed

lemma provider_issuer_eq:
  "provider_endpoints w now p = (r, p') \<Longrightarrow> pv_issuer p' = pv_issuer p"
  "provider_jwks w now force p = (r', p') \<Longrightarrow> pv_issuer p' = pv_issuer p"
  "refresh_jwks w now uri p = (r', p') \<Longrightarrow> pv_issuer p' = pv_issuer p"
  by (metis provider_issuer snd_conv)+

subsection \<open>Who a login admits\<close>

text \<open>An answer of the token endpoint that carries a genuine identity token of an allowed account.\<close>

definition entitled :: "oidc_config \<Rightarrow> moment \<Rightarrow> oidc \<Rightarrow> token_answer \<Rightarrow> identity_claims \<Rightarrow> bool" where
  "entitled cfg m o' a c \<longleftrightarrow> allowed_account (oi_binding o') c
     \<and> (\<exists>ks. genuine_token (oc_tokens cfg) ks (pv_issuer (oi_provider o')) (oc_client_id cfg) (mo_now m) (identity_token a) c)"

lemma code_claims_genuine:
  assumes "code_claims cfg m token p = (Inr c, p')"
  shows "\<exists>ks. genuine_token (oc_tokens cfg) ks (pv_issuer p) (oc_client_id cfg) (mo_now m) token c"
proof -
  have "\<exists>ks. validate_token (oc_tokens cfg) token ks (pv_issuer p) (oc_client_id cfg) (mo_now m) = Inr c"
    using assms unfolding code_claims_def Let_def
    by (auto split: prod.splits option.splits sum.splits token_error.splits)
  then show ?thesis using validate_token_genuine by blast
qed

lemma redeem_code_cases:
  assumes "redeem_code cfg m mat code ru v o' = (r, o2)"
  obtains (refused) err p where "r = Inl err" "o2 = o'\<lparr>oi_provider := p\<rparr>"
  | (login) e a c p where "exchange_code (mo_net m) e (oc_client_id cfg) code ru v = Some a" "entitled cfg m o' a c"
      "complete_login cfg m mat c a (o'\<lparr>oi_provider := p\<rparr>) = (r, o2)"
proof -
  obtain e0 p where e0: "provider_endpoints (mo_net m) (mo_now m) (oi_provider o') = (e0, p)" by force
  show thesis
  proof (cases "\<exists>e a c p1. e0 = Some e \<and> exchange_code (mo_net m) e (oc_client_id cfg) code ru v = Some a
      \<and> code_claims cfg m (identity_token a) p = (Inr c, p1) \<and> allowed_account (oi_binding o') c
      \<and> complete_login cfg m mat c a (o'\<lparr>oi_provider := p1\<rparr>) = (r, o2)")
    case False
    then show ?thesis
      using assms refused by (auto simp: redeem_code_def e0 split: option.splits prod.splits sum.splits if_splits)
  next
    case True
    then obtain e a c p1 where c: "exchange_code (mo_net m) e (oc_client_id cfg) code ru v = Some a"
      "code_claims cfg m (identity_token a) p = (Inr c, p1)" "allowed_account (oi_binding o') c"
      "complete_login cfg m mat c a (o'\<lparr>oi_provider := p1\<rparr>) = (r, o2)" by blast
    have "entitled cfg m o' a c"
      using code_claims_genuine [OF c(2)] c(3) provider_issuer_eq(1) [OF e0] by (simp add: entitled_def)
    then show ?thesis using login c by blast
  qed
qed

lemma finish_device_cases:
  assumes "finish_device cfg m mat h e a o' = o2"
  obtains (refused) st p where "o2 = set_status h st (o'\<lparr>oi_provider := p\<rparr>)"
  | (login) c p r o1 where "entitled cfg m o' a c" "complete_login cfg m mat c a (o'\<lparr>oi_provider := p\<rparr>) = (r, o1)"
      "o2 = (case r of Inl err \<Rightarrow> set_status h Failed o1 | Inr cred \<Rightarrow> approve h cred o1)"
proof -
  obtain k0 p where k0: "refresh_jwks (mo_net m) (mo_now m) (ep_jwks e) (oi_provider o') = (k0, p)" by force
  show thesis
  proof (cases "\<exists>ks c. k0 = Some ks \<and> validate_token (oc_tokens cfg) (identity_token a) ks (pv_issuer p) (oc_client_id cfg) (mo_now m) = Inr c
      \<and> allowed_account (oi_binding o') c")
    case False
    then show ?thesis
      using assms refused by (auto simp: finish_device_def k0 Let_def split: option.splits sum.splits if_splits)
  next
    case True
    then obtain ks c where c: "k0 = Some ks" "allowed_account (oi_binding o') c"
      "validate_token (oc_tokens cfg) (identity_token a) ks (pv_issuer p) (oc_client_id cfg) (mo_now m) = Inr c" by blast
    obtain r o1 where l: "complete_login cfg m mat c a (o'\<lparr>oi_provider := p\<rparr>) = (r, o1)" by force
    have "entitled cfg m o' a c"
      using validate_token_genuine [OF c(3)] c(2) provider_issuer_eq(3) [OF k0] by (auto simp: entitled_def)
    moreover have "o2 = (case r of Inl err \<Rightarrow> set_status h Failed o1 | Inr cred \<Rightarrow> approve h cred o1)"
      using assms c l by (auto simp: finish_device_def k0 Let_def split: sum.splits)
    ultimately show ?thesis using login l by blast
  qed
qed

subsection \<open>The account stays bound\<close>

text \<open>What the other operations leave alone of the binding: the account and the file it is kept in.\<close>

definition kept_account :: "account_binding \<Rightarrow> bound_state \<times> bound_state option" where
  "kept_account b = (bd_bound b, bd_state_file b)"

lemma kept_account_set [oidc_frames]:
  "kept_account (set_refresh_token ok t b) = kept_account b"
  "kept_account (set_key_refresh_token ok i t b) = kept_account b"
  by (simp_all add: kept_account_def set_refresh_token_def save_refresh_token_def set_key_refresh_token_def save_key_refresh_tokens_def)

lemma kept_account_prune [oidc_frames]:
  "kept_account (fold (\<lambda>i. set_key_refresh_token ok i t) is b) = kept_account b"
  by (induction "is" arbitrary: b) (simp_all add: kept_account_set)

lemma kept_account_bound: "kept_account b = kept_account b' \<Longrightarrow> bound_subject b = bound_subject b'"
  by (simp add: kept_account_def bound_subject_def)

lemma kept_account_login:
  "kept_account (oi_binding (snd (complete_login cfg m mat c a o'))) = kept_account (oi_binding o')
   \<or> (\<exists>i ex. kept_account (oi_binding (snd (complete_login cfg m mat c a o')))
        = kept_account (record_login (mo_disk_ok m) i c ex (oi_binding o')))"
  by (simp add: complete_login_def set_bound_tokens_def set_key_tokens_def prune_key_tokens_def Let_def oidc_frames
      split: option.splits prod.splits sum.splits) blast

text \<open>The account is kept or was recorded by a login of \<open>c\<close>.\<close>

definition account_move :: "bool \<Rightarrow> account_binding \<Rightarrow> account_binding \<Rightarrow> bool" where
  "account_move ok b b' \<longleftrightarrow> kept_account b' = kept_account b
     \<or> (\<exists>i c ex. kept_account b' = kept_account (record_login ok i c ex b))"

lemma account_move_refl [simp]: "account_move ok b b"
  by (simp add: account_move_def)

lemma account_move_login: "account_move (mo_disk_ok m) (oi_binding o') (oi_binding (snd (complete_login cfg m mat c a o')))"
  using kept_account_login [of cfg m mat c a o'] by (auto simp: account_move_def)

lemma account_move_redeem: "account_move (mo_disk_ok m) (oi_binding o') (oi_binding (snd (redeem_code cfg m mat code ru v o')))"
proof -
  obtain r o2 where e: "redeem_code cfg m mat code ru v o' = (r, o2)" by force
  from e show ?thesis
  proof (cases rule: redeem_code_cases)
    case (refused err p)
    then show ?thesis by (simp add: e)
  next
    case (login e' a c p)
    then show ?thesis using account_move_login [of m "o'\<lparr>oi_provider := p\<rparr>" cfg mat c a] by (simp add: e)
  qed
qed

lemma account_move_redeem_flow:
  "redeem_code_flow cfg m mat f code ru o' = (r, st, o2) \<Longrightarrow> account_move (mo_disk_ok m) (oi_binding o') (oi_binding o2)"
  using account_move_redeem [of m o' cfg mat code ru "cf_verifier f"]
  by (auto simp: redeem_code_flow_def set_status_def approve_def oidc_frames Let_def split: prod.splits sum.splits)

lemma account_move_device: "account_move (mo_disk_ok m) (oi_binding o') (oi_binding (finish_device cfg m mat h e a o'))"
proof -
  obtain o2 where e': "finish_device cfg m mat h e a o' = o2" by simp
  from e' show ?thesis
  proof (cases rule: finish_device_cases)
    case (refused st p)
    then show ?thesis by (simp add: e' set_status_def oidc_frames)
  next
    case (login c p r o1)
    then show ?thesis using account_move_login [of m "o'\<lparr>oi_provider := p\<rparr>" cfg mat c a]
      by (simp add: e' set_status_def approve_def oidc_frames split: sum.splits)
  qed
qed

text \<open>
  Everything that happens to the component while the state file can be read and written: logins, requests for
  a flow's status, refreshes, tokens presented, changes of the key store by its other users, restarts.
\<close>

inductive oidc_step :: "oidc_config \<Rightarrow> oidc \<Rightarrow> oidc \<Rightarrow> bool" for cfg where
  device_started: "start_device_flow cfg m h s = (r, t) \<Longrightarrow> oidc_step cfg s t"
| device_polled: "mo_disk_ok m \<Longrightarrow> poll_device cfg m mat h e g dl iv s = (r, t) \<Longrightarrow> oidc_step cfg s t"
| silent_started: "start_silent cfg m d s = (r', t) \<Longrightarrow> oidc_step cfg s t"
| silent_exchanged: "mo_disk_ok m \<Longrightarrow> exchange_silent cfg m mat st code s = (r'', t) \<Longrightarrow> oidc_step cfg s t"
| code_started: "start_code cfg m d' lb s = (r3, t) \<Longrightarrow> oidc_step cfg s t"
| code_exchanged: "mo_disk_ok m \<Longrightarrow> exchange_code_flow cfg m mat st code s = (r'', t) \<Longrightarrow> oidc_step cfg s t"
| code_submitted: "mo_disk_ok m \<Longrightarrow> submit_code cfg m mat h' code st s = (r4, t) \<Longrightarrow> oidc_step cfg s t"
| code_refused: "oidc_step cfg s (refuse_code st fst' s)"
| status_read: "flow_status_of now h' s = (r5, t) \<Longrightarrow> oidc_step cfg s t"
| token_presented: "authenticate cfg m rq sch pfs tok s = (r6, t) \<Longrightarrow> oidc_step cfg s t"
| refreshed: "refresh_bound cfg m closing rt s = (go, t) \<Longrightarrow> oidc_step cfg s t"
| ended: "oidc_step cfg s (end_grant ok s)"
| keys_changed: "oidc_step cfg s (s\<lparr>oi_keys := ks\<rparr>)"
| restarted: "oidc_step cfg s (start_manager cfg True iss allowed True ok s)"

lemma resume_key_account: "kept_account (oi_binding (resume_key cfg ok it o')) = kept_account (oi_binding o')"
  by (simp add: resume_key_def oidc_frames split: prod.splits)

lemma resume_keys_account: "kept_account (oi_binding (fold (resume_key cfg ok) its o')) = kept_account (oi_binding o')"
  by (induction its arbitrary: o') (simp_all add: resume_key_account)

lemma restart_account:
  "kept_account (oi_binding (start_manager cfg True iss allowed True ok s))
    = (load_state (bd_state_file (oi_binding s)), bd_state_file (oi_binding s))"
  by (simp add: start_manager_def resume_keys_account Let_def new_binding_def) (simp add: kept_account_def)

lemma oidc_step_account:
  "oidc_step cfg s t \<Longrightarrow> account_move True (oi_binding s) (oi_binding t)
    \<or> kept_account (oi_binding t) = (load_state (bd_state_file (oi_binding s)), bd_state_file (oi_binding s))"
proof (induction rule: oidc_step.induct)
  case (device_polled m mat h e g dl iv s r t)
  then show ?case using account_move_device [of m s cfg mat h e]
    by (auto simp: poll_device_def set_status_def oidc_frames split: if_splits option.splits)
next
  case (silent_exchanged m mat st code s r t)
  then show ?case
    using account_move_redeem [of m "s\<lparr>oi_silent := AList.delete st (oi_silent s)\<rparr>" cfg mat code "oc_redirect_uri cfg"]
    by (auto simp: exchange_silent_def Let_def split: option.splits prod.splits if_splits) (metis snd_conv)
next
  case (code_exchanged m mat st code s r t)
  then show ?case using account_move_redeem_flow [of cfg m mat]
    by (fastforce simp: exchange_code_flow_def Let_def split: option.splits prod.splits if_splits)
next
  case (code_submitted m mat h code st s r t)
  then show ?case using account_move_redeem_flow [of cfg m mat]
    by (fastforce simp: submit_code_def Let_def split: option.splits prod.splits if_splits)
next
  case (refreshed m closing rt s go t)
  then show ?case
    by (auto simp: refresh_bound_def account_move_def oidc_frames split: prod.splits option.splits)
next
  case (token_presented m rq sch pfs tok s r t)
  then show ?case by (auto simp: authenticate_def Let_def split: sum.splits prod.splits option.splits if_splits)
next
  case (restarted s iss allowed ok)
  then show ?case by (simp add: restart_account)
qed (auto simp: account_move_def start_device_flow_def start_silent_def start_code_def refuse_code_def set_status_def
    flow_status_of_def end_grant_def oidc_frames Let_def split: option.splits prod.splits list.splits flow_status.splits if_splits)

text \<open>The state file holds the account bound.\<close>

definition account_is :: "string \<Rightarrow> oidc \<Rightarrow> bool" where
  "account_is who s \<longleftrightarrow> who \<noteq> '''' \<and> bound_subject (oi_binding s) = who
     \<and> load_state (bd_state_file (oi_binding s)) = bd_bound (oi_binding s)"

interpretation bound_account: invariant_system "account_is who" "oidc_step cfg" "account_is who" for cfg who
proof (unfold_locales, assumption)
  fix s t assume "oidc_step cfg s t" "account_is who s"
  then have "kept_account (oi_binding t) = kept_account (oi_binding s)
      \<or> (\<exists>i c ex. kept_account (oi_binding t) = kept_account (record_login True i c ex (oi_binding s)))"
    using oidc_step_account [of cfg s t] by (auto simp: account_move_def account_is_def kept_account_def)
  moreover have "load_state (bd_state_file (record_login True i c ex b)) = bd_bound (record_login True i c ex b)" for i c ex b
    by (simp add: record_login_def save_binding_def save_key_refresh_tokens_def load_state_def Let_def)
  ultimately show "account_is who t"
    using \<open>account_is who s\<close> record_login_subject by (auto simp: account_is_def kept_account_def bound_subject_def)
qed

text \<open>
  C31: The account bound by the first login stays the bound account: through any sequence of device, silent and code
  logins of any account, refreshes, ended grants, presented tokens, changes of the key store and restarts, as long as
  the state file can be read and written.
\<close>
theorem binding_never_moves:
  assumes "bound_subject (oi_binding s) = who" and "who \<noteq> ''''"
    and "load_state (bd_state_file (oi_binding s)) = bd_bound (oi_binding s)" and "(oidc_step cfg)\<^sup>*\<^sup>* s t"
  shows "bound_subject (oi_binding t) = who \<and> load_state (bd_state_file (oi_binding t)) = bd_bound (oi_binding t)"
proof -
  have "account_is who t" by (rule bound_account.always_run [OF _ assms(4)]) (simp add: account_is_def assms(1-3))
  then show ?thesis by (simp add: account_is_def)
qed

subsection \<open>The key a login mints\<close>






text \<open>What a login leaves in the key store: one new administrator key, and older login keys pruned, no other.\<close>

definition login_key :: "moment \<Rightarrow> identity_claims \<Rightarrow> key_store \<Rightarrow> key_store \<Rightarrow> api_key \<Rightarrow> bool" where
  "login_key m c s t k \<longleftrightarrow> find_key s (key_id k) = None \<and> find_key t (key_id k) = Some k
     \<and> key_role k = ''admin'' \<and> key_active k \<and> key_description k = key_description_prefix @ mo_stamp m
     \<and> key_name k = (if ic_email c = '''' then stable_id c else ic_email c)
     \<and> (\<forall>j. j \<noteq> key_id k \<longrightarrow> find_key t j = find_key s j
          \<or> (\<exists>old. find_key s j = Some old \<and> find_key t j = None \<and> has_prefix key_description_prefix (key_description old)))"




subsection \<open>Every login\<close>


definition login_effect :: "oidc_config \<Rightarrow> moment \<Rightarrow> oidc \<Rightarrow> oidc \<Rightarrow> bool" where
  "login_effect cfg m s t \<longleftrightarrow> oi_keys t = oi_keys s \<and> kept_account (oi_binding t) = kept_account (oi_binding s)
     \<or> (\<exists>a c k. entitled cfg m s a c \<and> login_key m c (oi_keys s) (oi_keys t) k
        \<and> identity_for_key (oi_binding t) (key_id k)
            = Some \<lparr>ki_subject = stable_id c, ki_email = ic_email c, ki_customer = ic_customer c\<rparr>
        \<and> bound_subject (oi_binding t) = (if bound_subject (oi_binding s) = '''' then stable_id c else bound_subject (oi_binding s)))"

lemma login_effect_refl [simp]: "login_effect cfg m s s"
  by (simp add: login_effect_def)








subsection \<open>Presented tokens\<close>



subsection \<open>A code is submitted once\<close>

lemma redeem_flows:
  assumes "redeem_code cfg m mat code ru v s = (r, t)"
  shows "oi_flows t = oi_flows s"
  using assms
proof (cases rule: redeem_code_cases)
  case (login e a c p)
  then show ?thesis using complete_login_frames(2) [of cfg m mat c a "s\<lparr>oi_provider := p\<rparr>"] by simp
qed auto

lemma settled_flow:
  assumes "map_of (oi_flows s) h = Some f" and "fl_status f = Pending"
  shows "map_of (oi_flows (settle h st c s)) h
    = Some (f\<lparr>fl_status := st, fl_credential := (if c = None then fl_credential f else c)\<rparr>)"
  using assms by (simp add: settle_def update_conv')

text \<open>
  A submitted code settles its flow once and for all: the answer is approved, denied or failed, another
  submission for the handle finds the flow settled, the next status request answers the same status with a
  credential exactly when it is approved, and the one after an approved answer finds no flow.
\<close>
theorem code_submitted_once:
  assumes "submit_code cfg m mat h code st s = (Inr stat, t)"
  shows "stat \<in> {Approved, Denied, Failed}
    \<and> submit_code cfg m' mat' h code' st' t = (Inl FlowNotPending, t)
    \<and> (\<exists>cred u. flow_status_of now h t = (Some (stat, cred), u) \<and> (cred \<noteq> None \<longleftrightarrow> stat = Approved)
        \<and> (stat = Approved \<longrightarrow> flow_status_of now' h u = (None, u)))"
proof -
  obtain f where f: "map_of (oi_flows s) h = Some f" "fl_status f = Pending"
    using assms by (auto simp: submit_code_def split: option.splits if_splits)
  obtain cf s' r where cf: "cf_handle cf = h" "oi_flows s' = oi_flows s"
    "redeem_code_flow cfg m mat cf code (cf_code_page cf) s' = (r, stat, t)"
  proof -
    obtain x cf where x: "find (\<lambda>(s, cf). cf_handle cf = h) (oi_codes s) = Some (x, cf)"
      using assms f by (auto simp: submit_code_def split: option.splits if_splits)
    have "cf_handle cf = h" using x by (auto simp: find_Some_iff)
    moreover have "\<exists>r. redeem_code_flow cfg m mat cf code (cf_code_page cf) (s\<lparr>oi_codes := AList.delete x (oi_codes s)\<rparr>) = (r, stat, t)"
      using assms f x by (auto simp: submit_code_def split: if_splits prod.splits)
    ultimately show thesis using that [of cf "s\<lparr>oi_codes := AList.delete x (oi_codes s)\<rparr>"] by auto
  qed
  obtain r1 s1 where e: "redeem_code cfg m mat code (cf_code_page cf) (cf_verifier cf) s' = (r1, s1)" by force
  have f1: "map_of (oi_flows s1) h = Some f" using f(1) cf(2) redeem_flows [OF e] by simp
  have "\<exists>c. t = settle h stat c s1 \<and> (c \<noteq> None \<longleftrightarrow> stat = Approved) \<and> stat \<in> {Approved, Denied, Failed}"
    using cf e by (auto simp: redeem_code_flow_def set_status_def approve_def Let_def split: sum.splits)
  then obtain c where c: "t = settle h stat c s1" "c \<noteq> None \<longleftrightarrow> stat = Approved" "stat \<in> {Approved, Denied, Failed}" by blast
  have m: "map_of (oi_flows t) h = Some (f\<lparr>fl_status := stat, fl_credential := (if c = None then fl_credential f else c)\<rparr>)"
    unfolding c(1) by (rule settled_flow [OF f1 f(2)])
  have "submit_code cfg m' mat' h code' st' t = (Inl FlowNotPending, t)"
    using m c(3) by (auto simp: submit_code_def)
  moreover have "\<exists>cred u. flow_status_of now h t = (Some (stat, cred), u) \<and> (cred \<noteq> None \<longleftrightarrow> stat = Approved)
      \<and> (stat = Approved \<longrightarrow> flow_status_of now' h u = (None, u))"
    using m c(2,3) by (auto simp: flow_status_of_def Let_def delete_conv')
  ultimately show ?thesis using c(3) by blast
qed

subsection \<open>A refresh with a token read before a login\<close>

text \<open>
  C38: The refresh loop refreshes with the refresh token it read before its wait. When a login stored a new one in
  the meantime and the provider answers that the old one is revoked, the new login's tokens are thrown away, in
  memory and in the file, and no refresh is left running.
\<close>
theorem stale_refresh_clears_login:
  assumes "fst (loop_read now (oi_tokens s)) = Some (old, wait)"
    and "t = set_bound_tokens m a s" and "ta_refresh a \<noteq> ''''"
    and "provider_endpoints (mo_net m') (mo_now m') (oi_provider t) = (Some e, p)"
    and "refresh_tokens (mo_net m') e (oc_client_id cfg) old = Some refused" and "ta_error refused = ''invalid_grant''" and "mo_disk_ok m'"
    and "refresh_bound cfg m' closing old t = (go_on, u)"
  shows "bd_refresh (oi_binding t) = ta_refresh a \<and> bearer (mo_now m + ta_expires a * second) (oi_tokens t) = ta_access a
    \<and> bearer later (oi_tokens u) = '''' \<and> ts_refresh (oi_tokens u) = '''' \<and> bd_refresh (oi_binding u) = ''''
    \<and> bd_refresh_file (oi_binding u) = None \<and> \<not> go_on \<and> \<not> ts_refreshing (oi_tokens u)"
proof -
  have t: "bd_refresh (oi_binding t) = ta_refresh a"
    using assms(2,3) by (auto simp: set_bound_tokens_def set_tokens_def take_answer_def start_refresh_loop_def
      set_refresh_token_def save_refresh_token_def Let_def)
  have b: "bearer (mo_now m + ta_expires a * second) (oi_tokens t) = ta_access a"
    using assms(2) by (auto simp: set_bound_tokens_def set_tokens_def take_answer_def start_refresh_loop_def bearer_def
      source_expired_def Let_def)
  have "refresh_once (mo_net m') (mo_now m') (oc_client_id cfg) closing old (oi_provider t) (oi_tokens t)
      = (False, p, clear_tokens (oi_tokens t), Some '''')"
    using assms(4-6) by (simp add: refresh_once_def)
  then show ?thesis
    using assms(3,7,8) t b
    by (auto simp: refresh_bound_def clear_tokens_def bearer_def set_refresh_token_def save_refresh_token_def)
qed

subsection \<open>Instances\<close>

text \<open>A provider whose code for the state \<open>s\<close> is redeemed for the token of the demonstration environment.\<close>

definition demo_token :: string where
  "demo_token = b64_encode ''k'' @ ''.'' @ b64_encode ''p'' @ ''.'' @ b64_encode ''s''"

definition demo_answer :: token_answer where
  "demo_answer = \<lparr>ta_access = demo_token, ta_refresh = ''r2'', ta_id = '''', ta_scope = '''', ta_expires = 100, ta_error = '''', ta_description = ''''\<rparr>"

definition demo_cfg :: oidc_config where
  "demo_cfg = \<lparr>oc_tokens = demo_env, oc_crypto = \<lparr>bcrypt_hash = (\<lambda>s n. Some s), bcrypt_ok = (=), sha256 = (\<lambda>s. s)\<rparr>, oc_client_id = ''a'',
     oc_scope = ''o'', oc_device_scope = ''o'', oc_base_url = ''http://h'', oc_redirect_uri = ''http://h/cb'', oc_hash_rounds = 4\<rparr>"

definition demo_net :: net where
  "demo_net = \<lparr>net_discovery = (\<lambda>u. Some \<lparr>ep_issuer = ''https://i'', ep_authorization = ''z'', ep_device = ''d'', ep_token = ''t'', ep_jwks = ''j''\<rparr>),
     net_jwks = (\<lambda>u. Some [\<lparr>jk_kty = ''RSA'', jk_kid = ''x'', jk_n = b64_encode ''n'', jk_e = b64_encode [CHR 0x03]\<rparr>]),
     net_token = (\<lambda>u form. if map_of form ''refresh_token'' = None then Some demo_answer else Some (demo_answer\<lparr>ta_error := ''invalid_grant''\<rparr>)),
     net_device = (\<lambda>u form. None)\<rparr>"

definition demo_moment :: moment where
  "demo_moment = \<lparr>mo_now = 0, mo_stamp = ''d'', mo_net = demo_net, mo_disk_ok = True, mo_keys_ok = True\<rparr>"

definition demo_oidc :: oidc where
  "demo_oidc = \<lparr>oi_provider = \<lparr>pv_issuer = ''https://i'', pv_endpoints = None, pv_jwks = None, pv_kids = []\<rparr>,
     oi_binding = \<lparr>bd_allowed = [], bd_bound = unbound, bd_refresh = '''', bd_key_refresh = [], bd_state_file = None, bd_refresh_file = None, bd_keys_file = None\<rparr>,
     oi_tokens = (new_source ''o'')\<lparr>ts_refresh := ''r1''\<rparr>, oi_key_tokens = [],
     oi_flows = [(''h'', \<lparr>fl_status = Pending, fl_credential = None, fl_expires = 10, fl_interval = 5\<rparr>)],
     oi_silent = [], oi_codes = [(''s'', \<lparr>cf_verifier = ''v'', cf_callback = ''c'', cf_code_page = ''p'', cf_handle = ''h'', cf_expires = 10\<rparr>)],
     oi_keys = open_store None, oi_seen = []\<rparr>"

lemma demo_valid:
  "validate_token demo_env demo_token [\<lparr>jk_kty = ''RSA'', jk_kid = ''x'', jk_n = b64_encode ''n'', jk_e = b64_encode [CHR 0x03]\<rparr>] ''https://i'' ''a'' 0
    = Inr \<lparr>ic_subject = ''u'', ic_uuid = '''', ic_email = '''', ic_customer = '''', ic_jkt = ''''\<rparr>"
proof -
  have "token_head demo_env (b64_encode ''k'') = Inr (''RS256'', '''')"
    by (simp add: token_head_def b64_roundtrip read_obj_def demo_env_def str_into_def equal_fold_def lower_char_def)
  moreover have "rsa_key '''' [\<lparr>jk_kty = ''RSA'', jk_kid = ''x'', jk_n = b64_encode ''n'', jk_e = b64_encode [CHR 0x03]\<rparr>] = Inr (''n'', 3)"
    by (simp add: b64_roundtrip exponent_of_def)
  moreover have "read_payload demo_env ''p'' = Some \<lparr>tp_iss = ''https://i/'', tp_sub = ''u'', tp_uuid = '''', tp_aud = Some (JArr [JStr ''a'']),
      tp_exp = 1000, tp_nbf = 0, tp_iat = 0, tp_email = '''', tp_customer = '''', tp_jkt = ''''\<rparr>"
    by (simp add: read_payload_def read_obj_def demo_env_def str_into_def int_into_def jkt_of_def aud_of_def equal_fold_def lower_char_def int64_ok_def)
  moreover have "signature_error demo_env ''RS256'' (''n'', 3) d x = None" for d x
    by (simp add: signature_error_def demo_env_def)
  ultimately show ?thesis
    unfolding validate_token_def demo_token_def three_parts
    by (simp del: rsa_key.simps add: b64_roundtrip payload_error_def trim_slashes_def audience_contains_def second_def token_leeway_def)
qed

lemma demo_nonempty: "demo_token \<noteq> ''''"
  by (simp add: demo_token_def)

lemma demo_endpoints:
  "provider_endpoints demo_net 0 (oi_provider demo_oidc)
    = (Some \<lparr>ep_issuer = ''https://i'', ep_authorization = ''z'', ep_device = ''d'', ep_token = ''t'', ep_jwks = ''j''\<rparr>,
       (oi_provider demo_oidc)\<lparr>pv_endpoints := Some (\<lparr>ep_issuer = ''https://i'', ep_authorization = ''z'', ep_device = ''d'', ep_token = ''t'', ep_jwks = ''j''\<rparr>, 0)\<rparr>)"
  by (simp add: provider_endpoints_def demo_oidc_def discover_def demo_net_def trim_slash_def cut_suffix_def trim_slashes_def require_def)

lemma demo_submitted:
  "fst (submit_code demo_cfg demo_moment (Some ''m'') ''h'' ''c'' '''' demo_oidc) = Inr Approved"
proof -
  let ?s = "demo_oidc\<lparr>oi_codes := []\<rparr>"
  let ?e = "\<lparr>ep_issuer = ''https://i'', ep_authorization = ''z'', ep_device = ''d'', ep_token = ''t'', ep_jwks = ''j''\<rparr>"
  let ?p = "(oi_provider demo_oidc)\<lparr>pv_endpoints := Some (?e, 0)\<rparr>"
  have e: "provider_endpoints (mo_net demo_moment) (mo_now demo_moment) (oi_provider ?s) = (Some ?e, ?p)"
    using demo_endpoints by (simp add: demo_moment_def)
  have a: "exchange_code (mo_net demo_moment) ?e (oc_client_id demo_cfg) ''c'' ''p'' ''v'' = Some demo_answer"
    by (simp add: exchange_code_def demo_moment_def demo_net_def)
  have k: "provider_jwks (mo_net demo_moment) (mo_now demo_moment) False ?p
      = (Some [\<lparr>jk_kty = ''RSA'', jk_kid = ''x'', jk_n = b64_encode ''n'', jk_e = b64_encode [CHR 0x03]\<rparr>],
         ?p\<lparr>pv_jwks := Some ([\<lparr>jk_kty = ''RSA'', jk_kid = ''x'', jk_n = b64_encode ''n'', jk_e = b64_encode [CHR 0x03]\<rparr>], 0)\<rparr>)"
    by (simp add: provider_jwks_def fetch_jwks_def provider_endpoints_def cache_fresh_for_def second_def refresh_jwks_def demo_oidc_def
      demo_moment_def demo_net_def)
  have i: "identity_token demo_answer = demo_token" "ta_error demo_answer = ''''" "ta_access demo_answer \<noteq> ''''"
    by (simp_all add: identity_token_def demo_answer_def demo_nonempty)
  have c: "\<exists>p'. code_claims demo_cfg demo_moment demo_token ?p = (Inr \<lparr>ic_subject = ''u'', ic_uuid = '''', ic_email = '''', ic_customer = '''', ic_jkt = ''''\<rparr>, p')"
    unfolding code_claims_def k using demo_valid by (simp add: demo_cfg_def demo_oidc_def demo_moment_def)
  have al: "allowed_account (oi_binding demo_oidc) c" for c
    by (simp add: allowed_account_def bound_subject_def demo_oidc_def unbound_def)
  have l: "\<exists>cr o2. complete_login demo_cfg demo_moment (Some ''m'') cl demo_answer (?s\<lparr>oi_provider := p'\<rparr>) = (Inr cr, o2)" for cl p'
    by (simp add: complete_login_def create_key_def persist_keys_def demo_cfg_def demo_moment_def Let_def split: prod.split)
  obtain p' where c': "code_claims demo_cfg demo_moment demo_token ?p
      = (Inr \<lparr>ic_subject = ''u'', ic_uuid = '''', ic_email = '''', ic_customer = '''', ic_jkt = ''''\<rparr>, p')" using c by blast
  obtain cr o2 where "complete_login demo_cfg demo_moment (Some ''m'')
      \<lparr>ic_subject = ''u'', ic_uuid = '''', ic_email = '''', ic_customer = '''', ic_jkt = ''''\<rparr> demo_answer (?s\<lparr>oi_provider := p'\<rparr>) = (Inr cr, o2)"
    using l by blast
  then have "redeem_code demo_cfg demo_moment (Some ''m'') ''c'' ''p'' ''v'' ?s = (Inr cr, o2)"
    unfolding redeem_code_def e by (simp add: a i c' al)
  then have "redeem_code_flow demo_cfg demo_moment (Some ''m'')
      \<lparr>cf_verifier = ''v'', cf_callback = ''c'', cf_code_page = ''p'', cf_handle = ''h'', cf_expires = 10\<rparr> ''c'' ''p'' ?s
      = (Inr cr, Approved, approve ''h'' cr o2)"
    by (simp add: redeem_code_flow_def)
  then show ?thesis
    unfolding submit_code_def
    by (simp add: demo_oidc_def demo_moment_def)
qed

theorem code_submitted_once_witness:
  "flow_status_of 0 ''h'' (snd (flow_status_of 0 ''h'' (snd (submit_code demo_cfg demo_moment (Some ''m'') ''h'' ''c'' '''' demo_oidc))))
    = (None, snd (flow_status_of 0 ''h'' (snd (submit_code demo_cfg demo_moment (Some ''m'') ''h'' ''c'' '''' demo_oidc))))"
proof -
  have "submit_code demo_cfg demo_moment (Some ''m'') ''h'' ''c'' '''' demo_oidc
      = (Inr Approved, snd (submit_code demo_cfg demo_moment (Some ''m'') ''h'' ''c'' '''' demo_oidc))"
    using demo_submitted by (metis prod.collapse)
  from code_submitted_once [OF this, where now = 0 and now' = 0]
  have "\<exists>cred u. flow_status_of 0 ''h'' (snd (submit_code demo_cfg demo_moment (Some ''m'') ''h'' ''c'' '''' demo_oidc))
      = (Some (Approved, cred), u) \<and> flow_status_of 0 ''h'' u = (None, u)" by blast
  then show ?thesis by (metis snd_conv)
qed


theorem binding_never_moves_witness:
  "bound_subject (oi_binding (start_manager demo_cfg True ''https://i'' [] True True
      (snd (submit_code demo_cfg demo_moment (Some ''m'') ''h'' ''c'' '''' (demo_oidc\<lparr>oi_binding :=
        \<lparr>bd_allowed = [], bd_bound = unbound\<lparr>bs_subject := ''v''\<rparr>, bd_refresh = '''', bd_key_refresh = [],
          bd_state_file = Some (unbound\<lparr>bs_subject := ''v''\<rparr>), bd_refresh_file = None, bd_keys_file = None\<rparr>\<rparr>))))) = ''v''"
proof -
  let ?s = "demo_oidc\<lparr>oi_binding := \<lparr>bd_allowed = [], bd_bound = unbound\<lparr>bs_subject := ''v''\<rparr>, bd_refresh = '''', bd_key_refresh = [],
      bd_state_file = Some (unbound\<lparr>bs_subject := ''v''\<rparr>), bd_refresh_file = None, bd_keys_file = None\<rparr>\<rparr>"
  let ?t = "snd (submit_code demo_cfg demo_moment (Some ''m'') ''h'' ''c'' '''' ?s)"
  have "oidc_step demo_cfg ?s ?t"
    by (rule code_submitted [of demo_moment, OF _ prod.collapse [symmetric]]) (simp add: demo_moment_def)
  moreover have "oidc_step demo_cfg ?t (start_manager demo_cfg True ''https://i'' [] True True ?t)" by (rule restarted)
  ultimately have "(oidc_step demo_cfg)\<^sup>*\<^sup>* ?s (start_manager demo_cfg True ''https://i'' [] True True ?t)" by auto
  from binding_never_moves [OF _ _ _ this, of "''v''"] show ?thesis
    by (simp add: bound_subject_def load_state_def)
qed


theorem stale_refresh_clears_login_witness:
  "bd_refresh (oi_binding (snd (refresh_bound demo_cfg demo_moment False ''r1'' (set_bound_tokens demo_moment demo_answer demo_oidc)))) = ''''"
proof -
  let ?t = "set_bound_tokens demo_moment demo_answer demo_oidc"
  have "fst (loop_read 0 (oi_tokens demo_oidc)) = Some (''r1'', 30 * second)"
    by (simp add: loop_read_def demo_oidc_def new_source_def second_def)
  moreover have "refresh_tokens (mo_net demo_moment)
      \<lparr>ep_issuer = ''https://i'', ep_authorization = ''z'', ep_device = ''d'', ep_token = ''t'', ep_jwks = ''j''\<rparr> (oc_client_id demo_cfg) ''r1''
      = Some (demo_answer\<lparr>ta_error := ''invalid_grant''\<rparr>)"
    by (simp add: refresh_tokens_def demo_moment_def demo_net_def)
  moreover have "provider_endpoints (mo_net demo_moment) (mo_now demo_moment) (oi_provider ?t)
      = (Some \<lparr>ep_issuer = ''https://i'', ep_authorization = ''z'', ep_device = ''d'', ep_token = ''t'', ep_jwks = ''j''\<rparr>,
         (oi_provider demo_oidc)\<lparr>pv_endpoints := Some (\<lparr>ep_issuer = ''https://i'', ep_authorization = ''z'', ep_device = ''d'', ep_token = ''t'', ep_jwks = ''j''\<rparr>, 0)\<rparr>)"
    using demo_endpoints by (simp add: demo_moment_def set_bound_tokens_def Let_def)
  moreover have "ta_refresh demo_answer \<noteq> ''''" "mo_disk_ok demo_moment"
    by (simp_all add: demo_answer_def demo_moment_def)
  moreover have "ta_error (demo_answer\<lparr>ta_error := ''invalid_grant''\<rparr>) = ''invalid_grant''" by simp
  moreover have "refresh_bound demo_cfg demo_moment False ''r1'' ?t
      = (fst (refresh_bound demo_cfg demo_moment False ''r1'' ?t), snd (refresh_bound demo_cfg demo_moment False ''r1'' ?t))" by simp
  ultimately show ?thesis
    using stale_refresh_clears_login [where s = demo_oidc and m = demo_moment and a = demo_answer and t = ?t] by blast
qed

end
