(* ===== verification/Search.thy ===== *)
theory Search
  imports Base64 Texts "HOL-Library.Product_Lexorder"
begin

text \<open>
  The search over the agent's own rows (\<^verbatim>\<open>internal/server/search.go\<close>): the entries of each kind, the match of a
  query with its score and highlight, the order of the hits, the cursor of a page and the two handlers.
  The lists the stores answer, the lower case of a text and the brand are parameters; a list that cannot be
  read is \<open>None\<close>. \<^verbatim>\<open>sort.Slice\<close> of the spans leaves the order of equal starts open; here it is stable.
\<close>

subsection \<open>Rows\<close>

record searched_machine =
  sm_name :: string
  sm_hypervisor :: string
  sm_status :: string
  sm_notes :: "string option"
  sm_tags :: "json option"

record searched_template =
  st_id :: int
  st_source :: string
  st_organization :: string
  st_box :: string
  st_version :: string
  st_provider :: string
  st_architecture :: string

record searched_artifact =
  sa_id :: int
  sa_filename :: string
  sa_kind :: string
  sa_role :: string
  sa_version :: string

record search_env =
  lower_text :: "string \<Rightarrow> string"
  artifacts_enabled :: bool
  search_machines :: "searched_machine list option"
  search_templates :: "searched_template list option"
  search_artifacts :: "nat \<Rightarrow> searched_artifact list option"
  config_names :: "string list"
  schema_title :: "string \<Rightarrow> json option"
  brand_name :: string
  brand_logo :: string

record highlight =
  hl_field :: string
  hl_text :: string
  hl_spans :: "(nat \<times> nat) list"

record search_result =
  sr_kind :: string
  sr_id :: string
  sr_name :: string
  sr_version :: string
  sr_provider :: string
  sr_architecture :: string
  sr_anchor :: string
  sr_score :: nat
  sr_title :: string
  sr_subtitle :: string
  sr_matched :: string
  sr_highlight :: "highlight option"
  sr_facets :: "(string \<times> string) list"

type_synonym search_entry = "(string \<times> string) list \<times> search_result"

definition search_query_min :: nat where "search_query_min = 2"
definition search_query_max :: nat where "search_query_max = 200"
definition search_limit_default :: int where "search_limit_default = 5"
definition search_limit_max :: int where "search_limit_max = 50"
definition search_list_limit :: nat where "search_list_limit = 10000"

definition search_kind_order :: "string list" where
  "search_kind_order = [''machine'', ''config'', ''template'', ''artifact'']"

definition search_kinds :: "search_env \<Rightarrow> string list" where
  "search_kinds env = [''machine'', ''config'', ''template''] @ (if artifacts_enabled env then [''artifact''] else [])"

definition search_row :: "string \<Rightarrow> string \<Rightarrow> string \<Rightarrow> string \<Rightarrow> search_result" where
  "search_row kind i title subtitle =
    \<lparr>sr_kind = kind, sr_id = i, sr_name = i, sr_version = '''', sr_provider = '''', sr_architecture = '''', sr_anchor = '''',
     sr_score = 0, sr_title = title, sr_subtitle = subtitle, sr_matched = '''', sr_highlight = None, sr_facets = []\<rparr>"

definition middle_dot :: string where
  "middle_dot = [CHR '' '', CHR 0xC2, CHR 0xB7, CHR '' '']"

definition join_parts :: "string list \<Rightarrow> string" where
  "join_parts parts = join_with middle_dot (filter (\<lambda>p. p \<noteq> '''') parts)"

text \<open>Unmarshalling into strings leaves an element of another type empty.\<close>

definition tag_texts :: "json option \<Rightarrow> string list" where
  "tag_texts v = (case v of Some (JArr xs) \<Rightarrow> map (\<lambda>x. case x of JStr s \<Rightarrow> s | _ \<Rightarrow> '''') xs | _ \<Rightarrow> [])"

definition machine_entry :: "searched_machine \<Rightarrow> search_entry" where
  "machine_entry m =
    ([(''name'', sm_name m), (''notes'', opt_default '''' (sm_notes m)), (''tags'', join_with '' '' (tag_texts (sm_tags m)))],
     (search_row ''machine'' (sm_name m) (sm_name m) (join_parts [sm_hypervisor m, sm_status m]))
       \<lparr>sr_facets := [(''status'', sm_status m)]\<rparr>)"

definition machine_entries :: "search_env \<Rightarrow> search_entry list" where
  "machine_entries env = map machine_entry (opt_default [] (search_machines env))"

definition config_entry :: "search_env \<Rightarrow> string \<Rightarrow> search_entry" where
  "config_entry env name =
    (let title = (case schema_title env name of Some (JStr s) \<Rightarrow> s | _ \<Rightarrow> '''') in
     ([(''name'', name), (''title'', title)], search_row ''config'' name name title))"

definition config_entries :: "search_env \<Rightarrow> bool \<Rightarrow> search_entry list" where
  "config_entries env admin = (if \<not> admin then [] else map (config_entry env) (config_names env))"

definition template_entry :: "searched_template \<Rightarrow> search_entry" where
  "template_entry t =
    (let name = st_organization t @ ''/'' @ st_box t; i = int_text (st_id t) in
     ([(''name'', name), (''version'', st_version t), (''architecture'', st_architecture t), (''provider'', st_provider t),
       (''source'', st_source t)],
      (search_row ''template'' i name (join_parts [st_version t, st_provider t, st_architecture t]))
        \<lparr>sr_name := name, sr_anchor := i, sr_version := st_version t, sr_provider := st_provider t,
         sr_architecture := st_architecture t\<rparr>))"

definition template_entries :: "search_env \<Rightarrow> search_entry list" where
  "template_entries env = map template_entry (opt_default [] (search_templates env))"

definition artifact_entry :: "searched_artifact \<Rightarrow> search_entry" where
  "artifact_entry a =
    (let i = int_text (sa_id a) in
     ([(''name'', sa_filename a), (''role'', sa_role a), (''type'', sa_kind a), (''version'', sa_version a)],
      (search_row ''artifact'' i (sa_filename a) (join_parts [sa_kind a, sa_role a, sa_version a]))
        \<lparr>sr_name := sa_filename a, sr_anchor := i, sr_facets := [(''file_type'', sa_kind a)]\<rparr>))"

definition artifact_entries :: "search_env \<Rightarrow> search_entry list" where
  "artifact_entries env =
    (if \<not> artifacts_enabled env then [] else map artifact_entry (opt_default [] (search_artifacts env search_list_limit)))"

definition search_entries :: "search_env \<Rightarrow> string list \<Rightarrow> bool \<Rightarrow> search_entry list" where
  "search_entries env kinds admin =
    (if ''machine'' \<in> set kinds then machine_entries env else [])
    @ (if ''config'' \<in> set kinds then config_entries env admin else [])
    @ (if ''template'' \<in> set kinds then template_entries env else [])
    @ (if ''artifact'' \<in> set kinds then artifact_entries env else [])"

subsection \<open>Matching\<close>

definition text_index :: "string \<Rightarrow> string \<Rightarrow> nat option" where
  "text_index p s = find (\<lambda>i. take (length p) (drop i s) = p) [0..<Suc (length s)]"

definition name_score :: "string \<Rightarrow> string list \<Rightarrow> nat" where
  "name_score name words =
    (let phrase = join_with '' '' words in
     if name = phrase then 3 else if take (length phrase) name = phrase then 2
     else if list_all (\<lambda>w. contains_text w name) words then 1 else 0)"

definition spans_of :: "string \<Rightarrow> string list \<Rightarrow> (nat \<times> nat) list" where
  "spans_of lower words = sort_key fst (concat (map (\<lambda>w. case text_index w lower of None \<Rightarrow> []
     | Some i \<Rightarrow> [(length (runes (take i lower)), length (runes (take i lower)) + length (runes w))]) words))"

record search_match =
  ma_score :: nat
  ma_field :: string
  ma_highlight :: highlight

definition match_search_fields :: "search_env \<Rightarrow> (string \<times> string) list \<Rightarrow> string list \<Rightarrow> search_match option" where
  "match_search_fields env fs words =
    (if words = [] \<or> fs = [] then None
     else if \<not> list_all (\<lambda>w. list_ex (\<lambda>(f, t). contains_text w (lower_text env t)) fs) words then None
     else case find (\<lambda>(f, t). list_ex (\<lambda>w. contains_text w (lower_text env t)) words) fs of
       None \<Rightarrow> None
     | Some (f, t) \<Rightarrow> Some \<lparr>ma_score = name_score (lower_text env (snd (hd fs))) words, ma_field = f,
         ma_highlight = \<lparr>hl_field = f, hl_text = t, hl_spans = spans_of (lower_text env t) words\<rparr>\<rparr>)"

subsection \<open>The order of the hits\<close>

definition position_in :: "search_env \<Rightarrow> string \<Rightarrow> string list \<Rightarrow> nat" where
  "position_in env title words =
    (case List.map_filter (\<lambda>w. text_index w (lower_text env title)) words of [] \<Rightarrow> 2 ^ 63 - 1 | i # is' \<Rightarrow> fold min is' i)"

definition result_before :: "search_env \<Rightarrow> string list \<Rightarrow> search_result \<Rightarrow> search_result \<Rightarrow> bool" where
  "result_before env words a b \<longleftrightarrow>
    (if sr_score a \<noteq> sr_score b then sr_score b < sr_score a
     else if position_in env (sr_title a) words \<noteq> position_in env (sr_title b) words
       then position_in env (sr_title a) words < position_in env (sr_title b) words
     else if sr_title a \<noteq> sr_title b then sr_title a < sr_title b
     else sr_id a < sr_id b)"

text \<open>\<^verbatim>\<open>sort.SliceStable\<close>: an element goes behind those before it that it does not precede.\<close>

fun insert_stable :: "('a \<Rightarrow> 'a \<Rightarrow> bool) \<Rightarrow> 'a \<Rightarrow> 'a list \<Rightarrow> 'a list" where
  "insert_stable prec x [] = [x]"
| "insert_stable prec x (y # ys) = (if prec y x then y # insert_stable prec x ys else x # y # ys)"

definition sort_stable :: "('a \<Rightarrow> 'a \<Rightarrow> bool) \<Rightarrow> 'a list \<Rightarrow> 'a list" where
  "sort_stable prec xs = foldr (insert_stable prec) xs []"

definition sort_search_results :: "search_env \<Rightarrow> string list \<Rightarrow> search_result list \<Rightarrow> search_result list" where
  "sort_search_results env words rs = sort_stable (result_before env words) rs"

subsection \<open>The request\<close>

definition search_in_scope :: "string \<Rightarrow> bool" where
  "search_in_scope scope \<longleftrightarrow> take 4 scope \<noteq> ''org:'' \<and> take 11 scope \<noteq> ''collection:''"

definition search_cursor :: "nat \<Rightarrow> string" where
  "search_cursor offset = b64_encode (int_text (int offset))"

definition search_offset :: "string \<Rightarrow> nat" where
  "search_offset after =
    (case b64_decode after of
       None \<Rightarrow> 0
     | Some raw \<Rightarrow> (case parse_int64 raw of None \<Rightarrow> 0 | Some n \<Rightarrow> if n < 0 then 0 else nat n))"

definition search_limit :: "string \<Rightarrow> nat" where
  "search_limit raw = nat (case parse_int64 raw of
     None \<Rightarrow> search_limit_default
   | Some n \<Rightarrow> if n < 1 then search_limit_default else if search_limit_max < n then search_limit_max else n)"

definition parse_search_kinds :: "search_env \<Rightarrow> string \<Rightarrow> string list \<times> string list" where
  "parse_search_kinds env raw =
    (let named = concat (map (\<lambda>kind. filter (\<lambda>known. trim_space kind = known) (search_kinds env)) (split_char CHR '','' raw)) in
     if named = [] then ([], search_kinds env) else (named, named))"

record search_page =
  sp_query :: string
  sp_kinds :: "string list"
  sp_scope :: string
  sp_counts :: "(string \<times> nat) list"
  sp_results :: "search_result list"
  sp_next :: "string option"

datatype search_answer = QueryTooShort | QueryTooLong | SearchPage search_page

definition search_words :: "search_env \<Rightarrow> string \<Rightarrow> string list" where
  "search_words env q = text_fields (lower_text env q)"

text \<open>The hits among the entries, in the order of the page.\<close>

definition hit_of :: "search_env \<Rightarrow> string list \<Rightarrow> search_entry \<Rightarrow> search_result option" where
  "hit_of env words = (\<lambda>(fs, row). map_option (\<lambda>ma. row\<lparr>sr_score := ma_score ma, sr_matched := ma_field ma,
     sr_highlight := Some (ma_highlight ma)\<rparr>) (match_search_fields env fs words))"

definition search_hits :: "search_env \<Rightarrow> string list \<Rightarrow> string list \<Rightarrow> string \<Rightarrow> bool \<Rightarrow> search_result list" where
  "search_hits env words kinds scope admin =
    sort_search_results env words
      (if search_in_scope scope then List.map_filter (hit_of env words) (search_entries env kinds admin) else [])"

definition handle_search :: "search_env \<Rightarrow> string \<Rightarrow> string \<Rightarrow> string \<Rightarrow> string \<Rightarrow> string \<Rightarrow> string \<Rightarrow> search_answer" where
  "handle_search env role query kinds_param scope limit_param after =
    (let q = trim_space query; len = length (runes q) in
     if len < search_query_min then QueryTooShort
     else if search_query_max < len then QueryTooLong
     else
       let (named, kinds) = parse_search_kinds env kinds_param;
           limit = search_limit limit_param;
           offset = (if length named = 1 then search_offset after else 0);
           words = search_words env q;
           found = search_hits env words kinds scope (role = ''admin'');
           rows_of = (\<lambda>kind. filter (\<lambda>r. sr_kind r = kind) found);
           shown = filter (\<lambda>kind. kind \<in> set kinds \<and> rows_of kind \<noteq> []) search_kind_order;
           start = (\<lambda>kind. min offset (length (rows_of kind)));
           stop = (\<lambda>kind. min (start kind + limit) (length (rows_of kind)))
       in SearchPage
         \<lparr>sp_query = q, sp_kinds = named, sp_scope = scope,
          sp_counts = map (\<lambda>kind. (kind, length (rows_of kind))) shown,
          sp_results = sort_search_results env words
            (concat (map (\<lambda>kind. take (stop kind - start kind) (drop (start kind) (rows_of kind))) shown)),
          sp_next = fold (\<lambda>kind nxt. if length named = 1 \<and> stop kind < length (rows_of kind)
            then Some (search_cursor (stop kind)) else nxt) shown None\<rparr>)"

subsection \<open>The OpenSearch description\<close>

definition xml_char :: "char \<Rightarrow> string" where
  "xml_char c = (if c = CHR ''&'' then ''&amp;'' else if c = CHR ''<'' then ''&lt;'' else if c = CHR ''>'' then ''&gt;''
     else if c = CHR 0x22 then ''&quot;'' else [c])"

definition xml_escape :: "string \<Rightarrow> string" where
  "xml_escape s = concat (map xml_char s)"

definition first_forwarded :: "string \<Rightarrow> string" where
  "first_forwarded v = trim_space (hd (split_char CHR '','' v))"

definition request_origin :: "string \<Rightarrow> string \<Rightarrow> string \<Rightarrow> bool \<Rightarrow> string" where
  "request_origin forwarded_host forwarded_proto host tls =
    (let h = (if first_forwarded forwarded_host = '''' then host else first_forwarded forwarded_host);
         s = (if first_forwarded forwarded_proto = '''' then (if tls then ''https'' else ''http'') else first_forwarded forwarded_proto)
     in s @ ''://'' @ h)"

definition in_quotes :: "string \<Rightarrow> string" where
  "in_quotes s = CHR 0x22 # s @ [CHR 0x22]"

definition open_search :: "search_env \<Rightarrow> string \<Rightarrow> string" where
  "open_search env origin =
    join_with [CHR 0x0A]
      [''<?xml version='' @ in_quotes ''1.0'' @ '' encoding='' @ in_quotes ''UTF-8'' @ ''?>'',
       ''<OpenSearchDescription xmlns='' @ in_quotes ''http://a9.com/-/spec/opensearch/1.1/'' @ ''>'',
       ''  <ShortName>'' @ xml_escape (brand_name env) @ ''</ShortName>'',
       ''  <Description>'' @ xml_escape (brand_name env) @ ''</Description>'',
       ''  <InputEncoding>UTF-8</InputEncoding>'',
       ''  <Image type='' @ in_quotes ''image/svg+xml'' @ ''>'' @ xml_escape (origin @ brand_logo env) @ ''</Image>'',
       ''  <Url type='' @ in_quotes ''text/html'' @ '' method='' @ in_quotes ''get'' @ '' template=''
         @ in_quotes (xml_escape origin @ ''/search?q={searchTerms}'') @ ''/>'',
       ''</OpenSearchDescription>'', '''']"

end
