(* ===== verification/SearchProps.thy ===== *)
theory SearchProps
  imports Search "HOL-Library.Multiset"
begin

text \<open>
  Properties of the search: the pages of one kind, followed by their cursors, are all its hits in order, and what a
  hit is.
\<close>

subsection \<open>The order\<close>

text \<open>The comparison is that of a key, so the stable sort is the library's.\<close>

definition result_key :: "search_env \<Rightarrow> string list \<Rightarrow> search_result \<Rightarrow> int \<times> nat \<times> string \<times> string" where
  "result_key env words r = (- int (sr_score r), position_in env (sr_title r) words, sr_title r, sr_id r)"

lemma result_before_key: "result_before env words a b \<longleftrightarrow> result_key env words a < result_key env words b"
  by (auto simp: result_before_def result_key_def)

lemma insert_stable_key: "insert_stable (\<lambda>a b. f a < f b) x ys = insort_key f x ys"
  for f :: "'a \<Rightarrow> 'b :: linorder"
  by (induction ys) auto

lemma sort_search_key: "sort_search_results env words rs = sort_key (result_key env words) rs"
proof -
  have "result_before env words = (\<lambda>a b. result_key env words a < result_key env words b)"
    by (intro ext) (rule result_before_key)
  then have "insert_stable (result_before env words) = insort_key (result_key env words)"
    by (simp only:) (intro ext, simp only: insert_stable_key)
  then show ?thesis by (simp add: sort_search_results_def sort_stable_def sort_key_def)
qed

lemma sort_part:
  assumes "sorted (map f xs)"
  shows "sort_key f (take n (drop m (filter P xs))) = take n (drop m (filter P xs))"
  using assms by (intro sort_key_id_if_sorted) (simp add: sorted_filter take_map [symmetric] drop_map [symmetric] sorted_wrt_take sorted_wrt_drop)

lemma hits_sorted: "sorted (map (result_key env words) (search_hits env words kinds scope admin))"
  by (simp add: search_hits_def sort_search_key)

subsection \<open>Cursors\<close>

lemma nat_text_minus: "nat_text n \<noteq> [] \<and> hd (nat_text n) \<noteq> CHR ''-'' \<and> hd (nat_text n) \<noteq> CHR ''+''"
  using nat_text_digits [of n] by (cases "nat_text n") (auto simp: digit_char_def)

lemma parse_int_text: "n < 2 ^ 63 \<Longrightarrow> parse_int64 (int_text (int n)) = Some (int n)"
  using nat_text_minus [of n] nat_text_digits [of n]
  by (auto simp: parse_int64_def int_text_def digits_value_nat_text int64_ok_def Let_def)

lemma cursor_offset: "n < 2 ^ 63 \<Longrightarrow> search_offset (search_cursor n) = n"
  by (simp add: search_offset_def search_cursor_def b64_roundtrip parse_int_text)

lemma no_cursor: "search_offset '''' = 0"
  by (simp add: search_offset_def b64_decode_def parse_int64_def Let_def split: option.split)

lemma limit_bounds: "1 \<le> search_limit raw \<and> search_limit raw \<le> 50"
  by (auto simp: search_limit_def search_limit_default_def search_limit_max_def split: option.splits)

subsection \<open>Pages\<close>

lemma one_kind: "fst (parse_search_kinds env kp) = [kind] \<Longrightarrow> parse_search_kinds env kp = ([kind], [kind]) \<and> kind \<in> set search_kind_order"
proof -
  assume a: "fst (parse_search_kinds env kp) = [kind]"
  then have p: "parse_search_kinds env kp = ([kind], [kind])"
    and k: "concat (map (\<lambda>kind. filter (\<lambda>known. trim_space kind = known) (search_kinds env)) (split_char CHR '','' kp)) = [kind]"
    by (auto simp: parse_search_kinds_def Let_def split: if_splits)
  have "kind \<in> set (concat (map (\<lambda>kind. filter (\<lambda>known. trim_space kind = known) (search_kinds env)) (split_char CHR '','' kp)))"
    unfolding k by simp
  then have "kind \<in> set (search_kinds env)" by auto
  then show ?thesis using p by (auto simp: search_kinds_def search_kind_order_def split: if_splits)
qed

lemma one_shown:
  assumes "kind \<in> set search_kind_order"
  shows "filter (\<lambda>k. k \<in> set [kind] \<and> P k) search_kind_order = (if P kind then [kind] else [])"
  using assms by (auto simp: search_kind_order_def)

lemma one_page:
  assumes "search_query_min \<le> length (runes (trim_space query))" and "length (runes (trim_space query)) \<le> search_query_max"
    and "fst (parse_search_kinds env kp) = [kind]"
    and "rows = filter (\<lambda>r. sr_kind r = kind) (search_hits env (search_words env (trim_space query)) [kind] scope (role = ''admin''))"
    and "st = min (search_offset after) (length rows)" and "end' = min (st + search_limit lp) (length rows)"
  shows "\<exists>p. handle_search env role query kp scope lp after = SearchPage p \<and> sp_results p = take (end' - st) (drop st rows)
    \<and> sp_next p = (if end' < length rows then Some (search_cursor end') else None)"
proof -
  let ?hits = "search_hits env (search_words env (trim_space query)) [kind] scope (role = ''admin'')"
  have k: "parse_search_kinds env kp = ([kind], [kind])" "kind \<in> set search_kind_order" using one_kind [OF assms(3)] by auto
  have shown: "filter (\<lambda>k. k \<in> set [kind] \<and> filter (\<lambda>r. sr_kind r = k) ?hits \<noteq> []) search_kind_order = (if rows \<noteq> [] then [kind] else [])"
    using one_shown [OF k(2), of "\<lambda>k. filter (\<lambda>r. sr_kind r = k) ?hits \<noteq> []"] assms(4) by simp
  have sorted: "sort_search_results env (search_words env (trim_space query)) (take n (drop m rows)) = take n (drop m rows)" for n m
    unfolding assms(4) sort_search_key by (rule sort_part [OF hits_sorted])
  have nil: "sort_search_results env ws [] = []" for ws by (simp add: sort_search_key)
  have rows: "filter (\<lambda>r. sr_kind r = kind) ?hits = rows" using assms(4) by simp
  show ?thesis
    unfolding handle_search_def Let_def k(1) prod.case shown
    using assms(1,2,5,6) sorted sorted [of "length rows"] nil by (auto simp: rows)
qed

text \<open>Following the cursors: the rows of the pages, when \<open>n\<close> pages are enough.\<close>

fun search_run :: "nat \<Rightarrow> (string \<Rightarrow> search_answer) \<Rightarrow> string \<Rightarrow> search_result list option" where
  "search_run 0 page after = None"
| "search_run (Suc n) page after =
    (case page after of
       SearchPage p \<Rightarrow> (case sp_next p of None \<Rightarrow> Some (sp_results p) | Some c \<Rightarrow> map_option ((@) (sp_results p)) (search_run n page c))
     | _ \<Rightarrow> None)"

lemma run_from:
  assumes "search_query_min \<le> length (runes (trim_space query))" and "length (runes (trim_space query)) \<le> search_query_max"
    and "fst (parse_search_kinds env kp) = [kind]"
    and "rows = filter (\<lambda>r. sr_kind r = kind) (search_hits env (search_words env (trim_space query)) [kind] scope (role = ''admin''))"
    and "length rows < 2 ^ 63" and "search_offset after \<le> length rows" and "length rows - search_offset after < n"
  shows "search_run n (handle_search env role query kp scope lp) after = Some (drop (search_offset after) rows)"
  using assms(6,7)
proof (induction n arbitrary: after)
  case (Suc n)
  define st where "st = search_offset after"
  define end' where "end' = min (st + search_limit lp) (length rows)"
  have st: "st = min (search_offset after) (length rows)" using Suc.prems(1) by (simp add: st_def)
  obtain p where p: "handle_search env role query kp scope lp after = SearchPage p" "sp_results p = take (end' - st) (drop st rows)"
    "sp_next p = (if end' < length rows then Some (search_cursor end') else None)"
    using one_page [OF assms(1-4) st end'_def] by blast
  show ?case
  proof (cases "end' < length rows")
    case True
    then have e: "end' = st + search_limit lp" by (simp add: end'_def)
    have off: "search_offset (search_cursor end') = end'" using True assms(5) by (intro cursor_offset) simp
    have "length rows - end' < n" using Suc.prems(2) True e limit_bounds [of lp] unfolding st_def by linarith
    then have run: "search_run n (handle_search env role query kp scope lp) (search_cursor end') = Some (drop end' rows)"
      using Suc.IH [of "search_cursor end'"] off True by simp
    have "take (end' - st) (drop st rows) @ drop end' rows = drop st rows"
      using e by (metis add.commute add_diff_cancel_left' append_take_drop_id drop_drop)
    then show ?thesis using p run True by (simp add: st_def)
  next
    case False
    then have "take (end' - st) (drop st rows) = drop st rows" by (simp add: end'_def)
    then show ?thesis using p False by (simp add: st_def)
  qed
qed simp

text \<open>
  C15: Following the cursors of a search for one kind from its first page returns after finitely many pages, and the
  pages together are all the hits of the kind, each once, ordered by score, position of the match, title and id.
\<close>
theorem search_pages_complete:
  assumes "search_query_min \<le> length (runes (trim_space query))" and "length (runes (trim_space query)) \<le> search_query_max"
    and "fst (parse_search_kinds env kp) = [kind]"
    and "words = search_words env (trim_space query)"
    and "hits = (if search_in_scope scope then List.map_filter (hit_of env words) (search_entries env [kind] (role = ''admin'')) else [])"
    and "length hits < 2 ^ 63"
  shows "\<exists>rows. search_run (Suc (length hits)) (handle_search env role query kp scope lp) '''' = Some rows
    \<and> mset rows = mset (filter (\<lambda>r. sr_kind r = kind) hits)
    \<and> sorted_wrt (\<lambda>a b. \<not> result_before env words b a) rows"
proof -
  define rows where "rows = filter (\<lambda>r. sr_kind r = kind) (search_hits env words [kind] scope (role = ''admin''))"
  have m: "search_hits env words [kind] scope (role = ''admin'') = sort_key (result_key env words) hits"
    by (simp add: search_hits_def sort_search_key assms(5))
  have len: "length rows \<le> length hits" unfolding rows_def m by (metis length_filter_le length_sort)
  have r: "search_run (Suc (length hits)) (handle_search env role query kp scope lp) '''' = Some rows"
    using run_from [OF assms(1-3) rows_def [unfolded assms(4)], of "''''" "Suc (length hits)" lp] len assms(6) by (simp add: no_cursor)
  have "sorted (map (result_key env words) rows)"
    unfolding rows_def by (rule sorted_filter) (rule hits_sorted)
  then have "sorted_wrt (\<lambda>a b. \<not> result_before env words b a) rows"
    by (simp add: sorted_map result_before_key not_less)
  moreover have "mset rows = mset (filter (\<lambda>r. sr_kind r = kind) hits)"
    unfolding rows_def m by (metis mset_filter mset_sort)
  ultimately show ?thesis using r by blast
qed

subsection \<open>Hits\<close>

lemma entry_kinds:
  "(fs, row) \<in> set (search_entries env kinds admin) \<Longrightarrow> sr_kind row \<in> set kinds \<and> (sr_kind row = ''config'' \<longrightarrow> admin)"
  by (auto simp: search_entries_def machine_entries_def config_entries_def template_entries_def artifact_entries_def
      machine_entry_def config_entry_def template_entry_def artifact_entry_def search_row_def Let_def split: if_splits)

lemma hit_cases:
  assumes "hit_of env words (fs, row) = Some r"
  shows "sr_kind r = sr_kind row \<and> sr_id r = sr_id row \<and> sr_title r = sr_title row
    \<and> (\<forall>w\<in>set words. \<exists>(f, t)\<in>set fs. contains_text w (lower_text env t))
    \<and> (\<exists>t. (sr_matched r, t) \<in> set fs \<and> (\<exists>w\<in>set words. contains_text w (lower_text env t))
        \<and> sr_highlight r = Some \<lparr>hl_field = sr_matched r, hl_text = t, hl_spans = spans_of (lower_text env t) words\<rparr>)
    \<and> sr_score r = name_score (lower_text env (snd (hd fs))) words"
proof -
  obtain f t where m: "find (\<lambda>(f, t). list_ex (\<lambda>w. contains_text w (lower_text env t)) words) fs = Some (f, t)"
    and all: "list_all (\<lambda>w. list_ex (\<lambda>(f, t). contains_text w (lower_text env t)) fs) words"
    and r: "r = row\<lparr>sr_score := name_score (lower_text env (snd (hd fs))) words, sr_matched := f,
      sr_highlight := Some \<lparr>hl_field = f, hl_text = t, hl_spans = spans_of (lower_text env t) words\<rparr>\<rparr>"
    using assms by (auto simp: hit_of_def match_search_fields_def split: option.splits if_splits)
  have "(f, t) \<in> set fs \<and> list_ex (\<lambda>w. contains_text w (lower_text env t)) words"
    using m by (auto simp: find_Some_iff) (metis nth_mem)
  then show ?thesis using all by (auto simp: r list_all_iff list_ex_iff)
qed

lemma page_rows:
  assumes "handle_search env role q kp scope lp after = SearchPage p" and "r \<in> set (sp_results p)"
  shows "\<exists>kinds. kinds = snd (parse_search_kinds env kp) \<and> sr_kind r \<in> set kinds
    \<and> r \<in> set (search_hits env (search_words env (trim_space q)) kinds scope (role = ''admin''))
    \<and> map_of (sp_counts p) (sr_kind r)
      = Some (length (filter (\<lambda>x. sr_kind x = sr_kind r) (search_hits env (search_words env (trim_space q)) kinds scope (role = ''admin''))))"
proof -
  obtain named kinds where k: "parse_search_kinds env kp = (named, kinds)" by force
  let ?hits = "search_hits env (search_words env (trim_space q)) kinds scope (role = ''admin'')"
  let ?shown = "filter (\<lambda>k. k \<in> set kinds \<and> filter (\<lambda>x. sr_kind x = k) ?hits \<noteq> []) search_kind_order"
  have lens: "\<not> length (runes (trim_space q)) < search_query_min" "\<not> search_query_max < length (runes (trim_space q))"
    using assms(1) by (simp_all add: handle_search_def Let_def split: if_splits)
  note p = assms(1) [unfolded handle_search_def Let_def k prod.case if_not_P [OF lens(1)] if_not_P [OF lens(2)] search_answer.inject, symmetric]
  have res: "\<exists>st n. sp_results p = sort_search_results env (search_words env (trim_space q))
      (concat (map (\<lambda>k. take (n k) (drop (st k) (filter (\<lambda>x. sr_kind x = k) ?hits))) ?shown))"
    unfolding p search_page.simps by (rule exI)+ (rule refl)
  have counts: "sp_counts p = map (\<lambda>k. (k, length (filter (\<lambda>x. sr_kind x = k) ?hits))) ?shown"
    unfolding p search_page.simps by (rule refl)
  obtain k where k': "k \<in> set ?shown" "r \<in> set (filter (\<lambda>x. sr_kind x = k) ?hits)"
    using res assms(2) by (auto simp: sort_search_key dest!: in_set_takeD in_set_dropD)
  have "sr_kind r \<in> set ?shown" using k' by auto
  then have "map_of (map (\<lambda>k. (k, length (filter (\<lambda>x. sr_kind x = k) ?hits))) ?shown) (sr_kind r)
      = Some (length (filter (\<lambda>x. sr_kind x = sr_kind r) ?hits))"
    by (simp add: map_of_map_restrict del: set_filter)
  then show ?thesis using counts k k' by auto
qed

text \<open>
  Every row of a page is an entry of a kind asked for in which every word of the query occurs; the field named
  as matched holds one of them and is the one highlighted; configuration files show to administrators
  only; a scope of an organization or a collection answers nothing; and the count of the row's kind is the number of
  its matching entries.
\<close>
theorem search_page_sound:
  assumes "handle_search env role q kp scope lp after = SearchPage p" and "r \<in> set (sp_results p)"
    and "words = search_words env (trim_space q)" and "kinds = snd (parse_search_kinds env kp)"
  shows "search_in_scope scope \<and> sr_kind r \<in> set kinds \<and> (sr_kind r = ''config'' \<longrightarrow> role = ''admin'')
    \<and> (\<exists>fs row t. (fs, row) \<in> set (search_entries env kinds (role = ''admin'')) \<and> sr_kind row = sr_kind r \<and> sr_id row = sr_id r
        \<and> (\<forall>w\<in>set words. \<exists>(f, t)\<in>set fs. contains_text w (lower_text env t))
        \<and> (sr_matched r, t) \<in> set fs \<and> (\<exists>w\<in>set words. contains_text w (lower_text env t))
        \<and> sr_highlight r = Some \<lparr>hl_field = sr_matched r, hl_text = t, hl_spans = spans_of (lower_text env t) words\<rparr>)
    \<and> map_of (sp_counts p) (sr_kind r)
      = Some (length (filter (\<lambda>x. sr_kind x = sr_kind r)
          (List.map_filter (hit_of env words) (search_entries env kinds (role = ''admin'')))))"
proof -
  have in_hits: "sr_kind r \<in> set kinds" "r \<in> set (search_hits env words kinds scope (role = ''admin''))"
    "map_of (sp_counts p) (sr_kind r) = Some (length (filter (\<lambda>x. sr_kind x = sr_kind r) (search_hits env words kinds scope (role = ''admin''))))"
    using page_rows [OF assms(1,2)] by (auto simp: assms(3,4))
  then have scope: "search_in_scope scope" and r: "r \<in> set (List.map_filter (hit_of env words) (search_entries env kinds (role = ''admin'')))"
    by (auto simp: search_hits_def sort_search_key split: if_splits)
  have n: "length (filter P (search_hits env words kinds scope (role = ''admin'')))
      = length (filter P (List.map_filter (hit_of env words) (search_entries env kinds (role = ''admin''))))" for P
    using scope by (simp add: search_hits_def sort_search_key filter_sort)
  obtain fs row where e: "(fs, row) \<in> set (search_entries env kinds (role = ''admin''))" "hit_of env words (fs, row) = Some r"
    using r by (auto simp: List.map_filter_def)
  note h = hit_cases [OF e(2)]
  have "\<exists>fs row t. (fs, row) \<in> set (search_entries env kinds (role = ''admin'')) \<and> sr_kind row = sr_kind r \<and> sr_id row = sr_id r
      \<and> (\<forall>w\<in>set words. \<exists>(f, t)\<in>set fs. contains_text w (lower_text env t))
      \<and> (sr_matched r, t) \<in> set fs \<and> (\<exists>w\<in>set words. contains_text w (lower_text env t))
      \<and> sr_highlight r = Some \<lparr>hl_field = sr_matched r, hl_text = t, hl_spans = spans_of (lower_text env t) words\<rparr>"
    using e(1) h by metis
  moreover have "sr_kind r = ''config'' \<longrightarrow> role = ''admin''" using h entry_kinds [OF e(1)] by simp
  ultimately show ?thesis using in_hits(1,3) scope unfolding n by blast
qed

subsection \<open>Instances\<close>

text \<open>Six machines whose names hold the query, one that does not.\<close>

definition demo_search :: search_env where
  "demo_search = \<lparr>lower_text = (\<lambda>s. s), artifacts_enabled = False,
     search_machines = Some (map (\<lambda>n. \<lparr>sm_name = n, sm_hypervisor = ''vbox'', sm_status = ''running'', sm_notes = None, sm_tags = None\<rparr>)
       [''web6'', ''web5'', ''db'', ''web4'', ''web3'', ''web2'', ''web1'']),
     search_templates = Some [], search_artifacts = (\<lambda>n. None), config_names = [''app''], schema_title = (\<lambda>n. None),
     brand_name = ''b'', brand_logo = ''/l''\<rparr>"

lemma demo_query:
  "search_query_min \<le> length (runes (trim_space ''web''))" "length (runes (trim_space ''web'')) \<le> search_query_max"
  "fst (parse_search_kinds demo_search ''machine'') = [''machine'']" "search_words demo_search (trim_space ''web'') = [''web'']"
  by code_simp+

lemma demo_hits:
  "length (List.map_filter (hit_of demo_search [''web'']) (search_entries demo_search [''machine''] False)) = 6"
  by code_simp

theorem search_pages_complete_witness:
  "\<exists>rows. search_run (Suc 6) (handle_search demo_search ''viewer'' ''web'' ''machine'' '''' ''2'') '''' = Some rows"
  using search_pages_complete [OF demo_query(1,2,3) refl refl, where scope = "''''" and role = "''viewer''" and lp = "''2''"] demo_query(4) demo_hits
  by (auto simp: search_in_scope_def)

theorem search_page_sound_witness:
  "\<exists>p r. handle_search demo_search ''viewer'' ''web'' ''machine'' '''' ''2'' '''' = SearchPage p \<and> r \<in> set (sp_results p)
    \<and> sr_kind r \<in> {''machine''}"
proof -
  have hits: "search_hits demo_search [''web''] [''machine''] '''' False
      = sort_key (result_key demo_search [''web'']) (List.map_filter (hit_of demo_search [''web'']) (search_entries demo_search [''machine''] False))"
    by (simp add: search_hits_def sort_search_key search_in_scope_def)
  let ?rows = "filter (\<lambda>r. sr_kind r = ''machine'') (search_hits demo_search [''web''] [''machine''] '''' False)"
  have "sr_kind r = ''machine''" if r: "r \<in> set (List.map_filter (hit_of demo_search [''web'']) (search_entries demo_search [''machine''] False))" for r
  proof -
    obtain fs row where e: "(fs, row) \<in> set (search_entries demo_search [''machine''] False)" "hit_of demo_search [''web''] (fs, row) = Some r"
      using r unfolding List.map_filter_def by force
    show ?thesis using entry_kinds [OF e(1)] hit_cases [OF e(2)] by simp
  qed
  then have "length (filter (\<lambda>r. sr_kind r = ''machine'') (List.map_filter (hit_of demo_search [''web'']) (search_entries demo_search [''machine''] False))) = 6"
    by (subst filter_True) (blast, rule demo_hits)
  then have len: "length ?rows = 6" unfolding hits by (simp only: filter_sort length_sort)
  have "search_limit ''2'' = 2" by code_simp
  then obtain p where p0: "handle_search demo_search ''viewer'' ''web'' ''machine'' '''' ''2'' '''' = SearchPage p" "sp_results p = take 2 ?rows"
    using one_page [OF demo_query(1,2,3) refl refl refl, where scope = "''''" and role = "''viewer''" and after = "''''" and lp = "''2''"]
      demo_query(4) len by (auto simp: no_cursor numeral_2_eq_2)
  then obtain r where p: "handle_search demo_search ''viewer'' ''web'' ''machine'' '''' ''2'' '''' = SearchPage p" "r \<in> set (sp_results p)"
    using len by (cases ?rows) auto
  have "snd (parse_search_kinds demo_search ''machine'') = [''machine'']" by code_simp
  then show ?thesis using search_page_sound [OF p refl refl] p by auto
qed

end
