(* ===== verification/ProvisionDoc.thy ===== *)
theory ProvisionDoc
  imports Texts TaskStore
begin

text \<open>
  The stored machine document as a program (\<^verbatim>\<open>internal/machines/hostdoc.go\<close>, \<^verbatim>\<open>hostdoc_provisioner.go\<close> and the
  planning half of \<^verbatim>\<open>internal/server/machines_provision.go\<close>): what the pipeline reads of the document, and
  the walk it plans. An object keeps the order its keys are written in; repeated keys, of which Go keeps the last, are
  not modelled. A number is \<open>JInt\<close> when it is an integer. Reading an entry into a struct goes over the
  members in the order Go marshals them, by name up to case, and skips a member of another type.
\<close>

record doc_env =
  to_lower :: "string \<Rightarrow> string"
  fold_eq :: "string \<Rightarrow> string \<Rightarrow> bool"
  number_text :: "float64 \<Rightarrow> string"
  number_int :: "float64 \<Rightarrow> int"

definition sub_doc :: "obj \<Rightarrow> string \<Rightarrow> obj" where
  "sub_doc m k = obj_of (field m k)"

definition list_or :: "json \<Rightarrow> json list" where
  "list_or v = arr_of v"

definition text_of :: "json \<Rightarrow> string" where
  "text_of v = opt_default '''' (as_str v)"

definition true_flag :: "json \<Rightarrow> bool" where
  "true_flag v \<longleftrightarrow> v = JBool True"

definition doc_string :: "doc_env \<Rightarrow> json \<Rightarrow> string \<Rightarrow> string" where
  "doc_string e v fallback =
    (case v of JStr s \<Rightarrow> if s \<noteq> '''' then s else fallback | JInt n \<Rightarrow> int_text n | JFloat x \<Rightarrow> number_text e x | _ \<Rightarrow> fallback)"

definition whole_or :: "doc_env \<Rightarrow> json \<Rightarrow> int \<Rightarrow> int" where
  "whole_or e v fallback =
    (case v of JInt n \<Rightarrow> if int64_ok n then n else fallback | JFloat x \<Rightarrow> number_int e x | JStr s \<Rightarrow> opt_default fallback (parse_int64 (trim_space s)) | _ \<Rightarrow> fallback)"

definition enabled_words :: "string list" where
  "enabled_words = [''on'', ''true'', ''1'', ''yes'']"

definition doc_on :: "doc_env \<Rightarrow> json \<Rightarrow> bool" where
  "doc_on e v = (case v of JBool b \<Rightarrow> b | _ \<Rightarrow> to_lower e (doc_string e v '''') \<in> set enabled_words)"

definition doc_enabled :: "doc_env \<Rightarrow> json \<Rightarrow> bool" where
  "doc_enabled e v = (case v of JBool b \<Rightarrow> b | _ \<Rightarrow> to_lower e (text_of v) \<in> set enabled_words)"

subsection \<open>Entries as structs\<close>

definition members :: "json \<Rightarrow> obj" where
  "members v = sort_key fst (obj_of v)"

definition entry_str :: "doc_env \<Rightarrow> json \<Rightarrow> string \<Rightarrow> string" where
  "entry_str e v k = fold (\<lambda>(j, x) old. if fold_eq e j k then (case x of JStr s \<Rightarrow> s | _ \<Rightarrow> old) else old) (members v) ''''"

definition entry_bool :: "doc_env \<Rightarrow> json \<Rightarrow> string \<Rightarrow> bool" where
  "entry_bool e v k = fold (\<lambda>(j, x) old. if fold_eq e j k then (case x of JBool b \<Rightarrow> b | _ \<Rightarrow> old) else old) (members v) False"

definition entry_list :: "doc_env \<Rightarrow> json \<Rightarrow> string \<Rightarrow> string list" where
  "entry_list e v k = fold (\<lambda>(j, x) old. if fold_eq e j k then
     (case x of JArr xs \<Rightarrow> map text_of xs | JNull \<Rightarrow> [] | _ \<Rightarrow> old) else old) (members v) []"

definition entry_any :: "doc_env \<Rightarrow> json \<Rightarrow> string \<Rightarrow> json" where
  "entry_any e v k = fold (\<lambda>(j, x) old. if fold_eq e j k then x else old) (members v) JNull"

text \<open>Printing: a member marked omitempty is left out when it is zero.\<close>

definition put_str :: "string \<Rightarrow> string \<Rightarrow> obj" where
  "put_str k s = (if s = '''' then [] else [(k, JStr s)])"

definition put_bool :: "string \<Rightarrow> bool \<Rightarrow> obj" where
  "put_bool k b = (if b then [(k, JBool True)] else [])"

definition put_list :: "string \<Rightarrow> string list \<Rightarrow> obj" where
  "put_list k xs = (if xs = [] then [] else [(k, JArr (map JStr xs))])"

definition put_any :: "string \<Rightarrow> json \<Rightarrow> obj" where
  "put_any k v = (if v = JNull then [] else [(k, v)])"

record folder =
  fo_map :: string
  fo_to :: string
  fo_type :: string
  fo_description :: string
  fo_args :: "string list"
  fo_exclude :: "string list"
  fo_delete :: bool
  fo_owner :: string
  fo_group :: string
  fo_disabled :: bool
  fo_automount :: bool
  fo_syncback :: bool

definition folder_of :: "doc_env \<Rightarrow> json \<Rightarrow> folder" where
  "folder_of e v = \<lparr>fo_map = entry_str e v ''map'', fo_to = entry_str e v ''to'', fo_type = entry_str e v ''type'',
     fo_description = entry_str e v ''description'', fo_args = entry_list e v ''args'', fo_exclude = entry_list e v ''exclude'',
     fo_delete = entry_bool e v ''delete'', fo_owner = entry_str e v ''owner'', fo_group = entry_str e v ''group'',
     fo_disabled = entry_bool e v ''disabled'', fo_automount = entry_bool e v ''automount'', fo_syncback = entry_bool e v ''syncback''\<rparr>"

definition folder_json :: "folder \<Rightarrow> json" where
  "folder_json f = JObj ([(''map'', JStr (fo_map f)), (''to'', JStr (fo_to f))] @ put_str ''type'' (fo_type f)
     @ put_str ''description'' (fo_description f) @ put_list ''args'' (fo_args f) @ put_list ''exclude'' (fo_exclude f)
     @ put_bool ''delete'' (fo_delete f) @ put_str ''owner'' (fo_owner f) @ put_str ''group'' (fo_group f)
     @ put_bool ''disabled'' (fo_disabled f) @ put_bool ''automount'' (fo_automount f) @ put_bool ''syncback'' (fo_syncback f))"

text \<open>A playbook entry; the members after the two the pipeline reads are carried as they are printed.\<close>

record playbook =
  pb_playbook :: string
  pb_remote :: bool
  pb_rest :: obj

definition playbook_of :: "doc_env \<Rightarrow> bool \<Rightarrow> json \<Rightarrow> playbook" where
  "playbook_of e remote v = \<lparr>pb_playbook = entry_str e v ''playbook'', pb_remote = remote,
     pb_rest = concat (map (\<lambda>k. put_str k (entry_str e v k)) [''run'', ''install_mode'', ''config_file'', ''provisioning_path''])
       @ put_any ''verbose'' (entry_any e v ''verbose'') @ put_str ''compatibility_mode'' (entry_str e v ''compatibility_mode'')
       @ put_list ''collections'' (entry_list e v ''collections'') @ put_bool ''remote_collections'' (entry_bool e v ''remote_collections'')
       @ put_any ''callbacks'' (entry_any e v ''callbacks'') @ put_any ''ssh_pipelining'' (entry_any e v ''ssh_pipelining'')
       @ put_str ''ansible_python_interpreter'' (entry_str e v ''ansible_python_interpreter'')
       @ put_str ''description'' (entry_str e v ''description'')\<rparr>"

definition playbook_json :: "playbook \<Rightarrow> json" where
  "playbook_json p = JObj ((''playbook'', JStr (pb_playbook p)) # put_bool ''remote'' (pb_remote p) @ pb_rest p)"

record hook =
  hk_script :: string
  hk_target :: string
  hk_on_failure :: string
  hk_run :: string

definition hook_json :: "hook \<Rightarrow> json" where
  "hook_json h = JObj ((''script'', JStr (hk_script h)) # put_str ''target'' (hk_target h)
     @ put_str ''on_failure'' (hk_on_failure h) @ put_str ''run'' (hk_run h))"

subsection \<open>Readers\<close>

definition provisioner_folders :: "doc_env \<Rightarrow> obj \<Rightarrow> folder list" where
  "provisioner_folders e doc = map (folder_of e)
     (case field doc ''folders'' of JArr xs \<Rightarrow> xs | _ \<Rightarrow> list_or (field doc ''sync_folders''))"

definition syncback_folders :: "doc_env \<Rightarrow> folder list \<Rightarrow> folder list" where
  "syncback_folders e fs = filter (\<lambda>f. fo_syncback f \<and> \<not> fo_disabled f \<and> \<not> fold_eq e (fo_type f) ''virtualbox'') fs"

definition playbook_group :: "doc_env \<Rightarrow> obj \<Rightarrow> playbook list" where
  "playbook_group e g = map (playbook_of e False) (list_or (field g ''local'')) @ map (playbook_of e True) (list_or (field g ''remote''))"

definition provisioner_playbooks :: "doc_env \<Rightarrow> obj \<Rightarrow> playbook list" where
  "provisioner_playbooks e doc =
    (let grouped = (case field (sub_doc (sub_doc doc ''provisioning'') ''ansible'') ''playbooks'' of
           JObj g \<Rightarrow> playbook_group e g
         | JArr gs \<Rightarrow> concat (map (\<lambda>g. case g of JObj m \<Rightarrow> playbook_group e m | _ \<Rightarrow> []) gs)
         | _ \<Rightarrow> [])
     in if grouped = [] then map (playbook_of e False) (list_or (field doc ''provisioners'')) else grouped)"

definition hook_of :: "doc_env \<Rightarrow> json \<Rightarrow> hook" where
  "hook_of e v = (let or_else = (\<lambda>k d. if entry_str e v k = '''' then d else entry_str e v k) in
     \<lparr>hk_script = entry_str e v ''script'', hk_target = or_else ''target'' ''guest'', hk_on_failure = or_else ''on_failure'' ''abort'',
      hk_run = or_else ''run'' ''always''\<rparr>)"

definition host_target :: "doc_env \<Rightarrow> hook \<Rightarrow> bool" where
  "host_target e h \<longleftrightarrow> fold_eq e (hk_target h) ''host''"

definition provisioner_hooks :: "doc_env \<Rightarrow> obj \<Rightarrow> string \<Rightarrow> hook list" where
  "provisioner_hooks e doc phase =
    filter (\<lambda>h. hk_script h \<noteq> '''') (map (hook_of e) (list_or (field (sub_doc doc ''provisioning'') phase)))"

definition has_host_hooks :: "doc_env \<Rightarrow> obj \<Rightarrow> bool" where
  "has_host_hooks e doc = list_ex (\<lambda>phase. list_ex (host_target e) (provisioner_hooks e doc phase)) [''pre'', ''post'']"

definition non_empty_texts :: "doc_env \<Rightarrow> json list \<Rightarrow> string list" where
  "non_empty_texts e xs = filter (\<lambda>s. s \<noteq> '''') (map (\<lambda>v. doc_string e v '''') xs)"

definition provisioner_docker :: "doc_env \<Rightarrow> obj \<Rightarrow> bool \<times> string list" where
  "provisioner_docker e doc =
    (let docker = sub_doc (sub_doc doc ''provisioning'') ''docker'' in
     if \<not> doc_on e (field docker ''enabled'') then (False, [])
     else (True, non_empty_texts e (case field docker ''docker_compose'' of JArr xs \<Rightarrow> xs | _ \<Rightarrow> list_or (field docker ''docker-compose''))))"

definition provisioner_shell_scripts :: "doc_env \<Rightarrow> obj \<Rightarrow> string list" where
  "provisioner_shell_scripts e doc =
    (let shell = sub_doc (sub_doc doc ''provisioning'') ''shell'' in
     if \<not> doc_on e (field shell ''enabled'') then [] else non_empty_texts e (list_or (field shell ''scripts'')))"

definition has_provisioned_before :: "obj \<Rightarrow> bool" where
  "has_provisioned_before config \<longleftrightarrow> text_of (field (sub_doc config ''provisioner_state'') ''last_provisioned_at'') \<noteq> ''''"

definition transport_removal_flagged :: "obj \<Rightarrow> bool" where
  "transport_removal_flagged config \<longleftrightarrow> true_flag (field (sub_doc config ''settings'') ''remove_transport_on_completion'')
     \<or> list_ex (\<lambda>n. true_flag (field (obj_of n) ''remove_on_completion'')) (list_or (field config ''networks''))"

definition document_role_names :: "doc_env \<Rightarrow> obj \<Rightarrow> string list" where
  "document_role_names e doc =
    filter (\<lambda>s. s \<noteq> '''') (map (\<lambda>r. doc_string e (field (obj_of r) ''name'') '''') (list_or (field doc ''roles'')))"

record credentials =
  cr_username :: string
  cr_password :: string
  cr_key_path :: string

definition extract_credentials :: "obj \<Rightarrow> credentials" where
  "extract_credentials settings = \<lparr>cr_username = text_of (field settings ''vagrant_user''),
     cr_password = text_of (field settings ''vagrant_user_pass''), cr_key_path = text_of (field settings ''vagrant_user_private_key_path'')\<rparr>"

definition credentials_json :: "credentials \<Rightarrow> json" where
  "credentials_json c = JObj ((''username'', JStr (cr_username c)) # put_str ''password'' (cr_password c) @ put_str ''ssh_key_path'' (cr_key_path c))"

subsection \<open>The communicator and the address\<close>

record winrm_settings =
  wr_enabled :: bool
  wr_port :: int
  wr_transport :: string
  wr_verify :: bool

definition aliased :: "obj \<Rightarrow> string \<Rightarrow> json option" where
  "aliased settings k = (case map_of settings k of Some v \<Rightarrow> Some v | None \<Rightarrow> map_of settings (''vagrant_'' @ k))"

definition shadowed :: "obj \<Rightarrow> string \<Rightarrow> string list" where
  "shadowed settings k = (if has settings k \<and> has settings (''vagrant_'' @ k) then [''vagrant_'' @ k] else [])"

definition parse_bool_word :: "string \<Rightarrow> bool option" where
  "parse_bool_word s = (if s \<in> {''1'', ''t'', ''true''} then Some True else if s \<in> {''0'', ''f'', ''false''} then Some False else None)"

definition extract_winrm :: "doc_env \<Rightarrow> obj \<Rightarrow> winrm_settings \<times> string list" where
  "extract_winrm e settings =
    (let enabled = (case aliased settings ''communicator'' of None \<Rightarrow> False | Some v \<Rightarrow> fold_eq e (doc_string e v '''') ''winrm'');
         transport = (case aliased settings ''winrm_transport'' of None \<Rightarrow> ''negotiate''
           | Some v \<Rightarrow> if doc_string e v '''' = '''' then ''negotiate'' else to_lower e (doc_string e v ''''));
         verify = (case aliased settings ''winrm_ssl_peer_verification'' of
             Some (JBool b) \<Rightarrow> b
           | Some (JStr s) \<Rightarrow> opt_default True (parse_bool_word (to_lower e s))
           | _ \<Rightarrow> True);
         standard = (if transport = ''ssl'' then 5986 else 5985);
         port = (case aliased settings ''winrm_port'' of None \<Rightarrow> standard | Some v \<Rightarrow> if 0 < whole_or e v 0 then whole_or e v 0 else standard)
     in (\<lparr>wr_enabled = enabled, wr_port = port, wr_transport = transport, wr_verify = verify\<rparr>,
         concat (map (shadowed settings) [''communicator'', ''winrm_transport'', ''winrm_ssl_peer_verification'', ''winrm_port''])))"

definition first_text :: "string list \<Rightarrow> string" where
  "first_text xs = opt_default '''' (find (\<lambda>s. s \<noteq> '''') xs)"

definition extract_control_ip :: "json list \<Rightarrow> string" where
  "extract_control_ip networks =
    (let address = (\<lambda>n. text_of (field (obj_of n) ''address''));
         by_flag = (\<lambda>flag. first_text (map address (filter (\<lambda>n. true_flag (field (obj_of n) flag)) networks)))
     in first_text [by_flag ''is_control'', by_flag ''provisional'', first_text (map address networks)])"

end
