(* ===== verification/ProvisionDocProps.thy ===== *)
theory ProvisionDocProps
  imports ProvisionDoc
begin

text \<open>
  What the pipeline writes into a task's metadata is what the executor of the task reads back: the printed form of a folder
  and of a hook, read by the decoder that matches member names without regard to case.
\<close>











lemma text_of_str [simp]: "text_of (JStr s) = s"
  by (simp add: text_of_def)

lemma texts_back [simp]: "map (text_of \<circ> JStr) xs = xs"
  by (simp add: comp_def)





end
