(* ===== verification/ProvisionChain.thy ===== *)
theory ProvisionChain
  imports ProvisionDoc TaskQueue
begin

text \<open>
  The provisioning pipeline (\<^verbatim>\<open>internal/server/machines_provision.go\<close>, \<^verbatim>\<open>machines_provision_chain.go\<close>,
  \<^verbatim>\<open>machines_provision_handlers.go\<close>, \<^verbatim>\<open>machines_provision_after.go\<close>): the walk planned from the document, the tasks
  it becomes in the store of \<open>TaskStore\<close>, and the handlers. Every insertion draws an identifier, a time and whether the
  database takes it; the draws are an argument, and none left counts as a refusal. Printing a
  document as JSON never fails here and is an argument, as are the credential picked, the forwards found, the live status and
  which families were seeded. The poll loop's writes between two insertions of one request are not modelled.
\<close>

subsection \<open>Validation\<close>

record prov_machine =
  pm_name :: string
  pm_status :: string
  pm_spec :: "(string \<times> string \<times> json) option"
  pm_config :: obj

record provision_env =
  pe_doc :: doc_env
  pe_json :: "json \<Rightarrow> string"
  pe_credential :: "string + (string \<times> string) option"
  pe_ssh_forward :: int
  pe_winrm_forward :: "int \<Rightarrow> int"
  pe_live_status :: string
  pe_host_hooks :: bool
  pe_seeded :: "string list"
  pe_merge_ok :: bool
  pe_on_start :: bool

record provision_validation =
  pv_config :: obj
  pv_provisioner :: obj
  pv_ip :: string
  pv_port :: int
  pv_credentials :: credentials
  pv_credential_id :: string
  pv_winrm_used :: bool
  pv_winrm :: winrm_settings
  pv_shadowed :: "string list"

definition has_provisioner :: "prov_machine \<Rightarrow> bool" where
  "has_provisioner m = (case pm_spec m of Some (name, version, raw) \<Rightarrow> name \<noteq> '''' \<and> version \<noteq> '''' | None \<Rightarrow> False)"

datatype provision_problem =
    NoProvisionerConfig | NoSettings | CredentialProblem string | NoUsername | NoTransport | HooksDisabled | ConfirmationNotRecorded
  | NotProvisionedOnce | UnknownRole string | UnknownScript string | UnknownPlaybook string

definition validate_provision_request :: "provision_env \<Rightarrow> prov_machine \<Rightarrow> provision_problem + provision_validation" where
  "validate_provision_request env m =
    (let config = pm_config m; doc = sub_doc config ''provisioner''; settings = sub_doc config ''settings'';
         creds = extract_credentials settings in
     if doc = [] then Inl NoProvisionerConfig
     else if settings = [] then Inl NoSettings
     else case pe_credential env of
       Inl e \<Rightarrow> Inl (CredentialProblem e)
     | Inr row \<Rightarrow>
         (let creds' = (case row of Some (i, user) \<Rightarrow> if user \<noteq> '''' then creds\<lparr>cr_username := user\<rparr> else creds | None \<Rightarrow> creds);
              cid = (case row of Some (i, user) \<Rightarrow> i | None \<Rightarrow> '''')
          in if cr_username creds' = '''' then Inl NoUsername
             else let (winrm, gone) = extract_winrm (pe_doc env) settings;
                      port = (case field doc ''ssh_port'' of JInt p \<Rightarrow> if 0 < p then p else 22
                        | JFloat x \<Rightarrow> if 0 < x then number_int (pe_doc env) x else 22 | _ \<Rightarrow> 22)
             in Inr \<lparr>pv_config = config, pv_provisioner = doc, pv_ip = extract_control_ip (list_or (field config ''networks'')),
                  pv_port = port, pv_credentials = creds', pv_credential_id = cid, pv_winrm_used = wr_enabled winrm, pv_winrm = winrm,
                  pv_shadowed = gone\<rparr>))"

text \<open>The confirmation gate: the problem or whether it must be confirmed, and the machine, in which a confirmation is recorded.\<close>

definition host_hooks_preflight :: "provision_env \<Rightarrow> provision_validation \<Rightarrow> bool \<Rightarrow> prov_machine \<Rightarrow> (provision_problem + bool) \<times> prov_machine" where
  "host_hooks_preflight env v confirm m =
    (if \<not> has_host_hooks (pe_doc env) (pv_provisioner v) then (Inr False, m)
     else if \<not> pe_host_hooks env then (Inl HooksDisabled, m)
     else if true_flag (field (pv_config v) ''host_hooks_confirmed'') then (Inr False, m)
     else if has_provisioner m \<and> (case pm_spec m of Some (name, r) \<Rightarrow> name \<in> set (pe_seeded env) | None \<Rightarrow> False) then (Inr False, m)
     else if \<not> confirm then (Inr True, m)
     else if \<not> pe_merge_ok env then (Inl ConfirmationNotRecorded, m)
     else (Inr False, m\<lparr>pm_config := AList.update ''host_hooks_confirmed'' (JBool True) (pm_config m)\<rparr>))"

definition resolve_transport :: "provision_env \<Rightarrow> provision_validation \<Rightarrow> provision_problem + provision_validation" where
  "resolve_transport env v =
    (if pv_winrm_used v then
       (let port = pe_winrm_forward env (wr_port (pv_winrm v)) in
        if 0 < port then Inr (v\<lparr>pv_ip := ''127.0.0.1'', pv_port := port\<rparr>)
        else if pv_ip v = '''' then Inl NoTransport else Inr (v\<lparr>pv_port := wr_port (pv_winrm v)\<rparr>))
     else if 0 < pe_ssh_forward env then Inr (v\<lparr>pv_ip := ''127.0.0.1'', pv_port := pe_ssh_forward env\<rparr>)
     else if pv_ip v = '''' then Inl NoTransport else Inr v)"

definition child_metadata :: "provision_env \<Rightarrow> provision_validation \<Rightarrow> obj \<Rightarrow> string" where
  "child_metadata env v extra = pe_json env (JObj (fold (\<lambda>(k, x). AList.update k x) extra
     ([(''ip'', JStr (pv_ip v)), (''port'', JInt (pv_port v)), (''credentials'', credentials_json (pv_credentials v))]
      @ put_str ''credential_id'' (pv_credential_id v)
      @ (if pv_winrm_used v then [(''communicator'', JStr ''winrm''),
           (''winrm'', JObj [(''port'', JInt (wr_port (pv_winrm v))), (''transport'', JStr (wr_transport (pv_winrm v))),
              (''ssl_peer_verification'', JBool (wr_verify (pv_winrm v)))])] else []))))"

subsection \<open>The walk\<close>

record chain_entry =
  ce_step :: string
  ce_task :: string
  ce_last :: string
  ce_keys :: "string list"
  ce_folders :: nat
  ce_hooks :: nat
  ce_scripts :: nat
  ce_compose :: nat
  ce_playbooks :: nat
  ce_method :: string

definition entry :: "string \<Rightarrow> chain_entry" where
  "entry step = \<lparr>ce_step = step, ce_task = '''', ce_last = '''', ce_keys = [], ce_folders = 0, ce_hooks = 0, ce_scripts = 0,
     ce_compose = 0, ce_playbooks = 0, ce_method = ''''\<rparr>"

text \<open>A step without an operation only shows in the response.\<close>

record walk_step =
  ws_operation :: string
  ws_extra :: obj
  ws_step :: string
  ws_info :: chain_entry

record walk_narrow =
  wn_roles :: "string list"
  wn_scripts :: "string list"
  wn_playbook :: string

text \<open>A batch: the first step carries the label and the counts.\<close>

definition batch :: "(string \<times> obj) list \<Rightarrow> string \<Rightarrow> chain_entry \<Rightarrow> walk_step list" where
  "batch ops label info = map (\<lambda>(i, oper, extra). \<lparr>ws_operation = oper, ws_extra = extra,
     ws_step = (if i = 0 then label else ''''), ws_info = (if i = 0 then info else entry '''')\<rparr>) (enumerate 0 ops)"

definition response_only :: "string \<Rightarrow> chain_entry \<Rightarrow> walk_step" where
  "response_only step info = \<lparr>ws_operation = '''', ws_extra = [], ws_step = step, ws_info = info\<rparr>"

definition hook_steps :: "hook list \<Rightarrow> string \<Rightarrow> walk_step list" where
  "hook_steps hooks label = batch (map (\<lambda>h. (''machine_hook'', [(''hook'', hook_json h)])) hooks) label
     ((entry '''')\<lparr>ce_hooks := length hooks\<rparr>)"

definition playbook_steps :: "playbook list \<Rightarrow> string list \<Rightarrow> walk_step list" where
  "playbook_steps playbooks roles = batch (map (\<lambda>p. (if pb_remote p then ''machine_provision_remote'' else ''machine_provision'',
       (''playbook'', playbook_json p) # (if roles = [] then [] else [(''roles'', JArr (map JStr roles))]))) playbooks)
     ''method:ansible'' ((entry '''')\<lparr>ce_playbooks := length playbooks\<rparr>)"

definition narrow_playbooks :: "walk_narrow option \<Rightarrow> playbook list \<Rightarrow> playbook list" where
  "narrow_playbooks narrow playbooks =
    (case narrow of
       None \<Rightarrow> playbooks
     | Some n \<Rightarrow> if wn_playbook n = '''' then playbooks else filter (\<lambda>p. pb_playbook p = wn_playbook n) playbooks)"

definition narrow_scripts :: "walk_narrow option \<Rightarrow> string list \<Rightarrow> string list" where
  "narrow_scripts narrow scripts = (case narrow of None \<Rightarrow> scripts | Some n \<Rightarrow> filter (\<lambda>s. s \<in> set (wn_scripts n)) scripts)"

definition winnow_local :: "bool \<Rightarrow> playbook list \<Rightarrow> playbook list \<times> walk_step list" where
  "winnow_local winrm playbooks =
    (if \<not> winrm then (playbooks, [])
     else let locals = filter (\<lambda>p. \<not> pb_remote p) playbooks in
       (filter pb_remote playbooks,
        if locals = [] then [] else [response_only ''ansible_local_skipped_winrm'' ((entry '''')\<lparr>ce_playbooks := length locals\<rparr>)]))"

definition ansible_batch :: "bool \<Rightarrow> walk_narrow option \<Rightarrow> playbook list \<Rightarrow> walk_step list \<times> nat" where
  "ansible_batch winrm narrow playbooks =
    (let (kept, skipped) = winnow_local winrm playbooks
     in (skipped @ playbook_steps kept (case narrow of None \<Rightarrow> [] | Some n \<Rightarrow> wn_roles n), length kept))"

definition runs_playbooks :: "walk_narrow option \<Rightarrow> bool" where
  "runs_playbooks narrow = (case narrow of None \<Rightarrow> True | Some n \<Rightarrow> wn_playbook n \<noteq> '''' \<or> wn_roles n \<noteq> [])"

text \<open>The steps of one method key, the methods it skips, the playbooks it counts.\<close>

definition method_steps :: "doc_env \<Rightarrow> provision_validation \<Rightarrow> walk_narrow option \<Rightarrow> string \<Rightarrow> walk_step list \<times> string list \<times> nat" where
  "method_steps e v narrow key =
    (let doc = pv_provisioner v in
     if key = ''pre'' \<or> key = ''post'' then ([], [], 0)
     else if key = ''shell'' then
       (let scripts = narrow_scripts narrow (provisioner_shell_scripts e doc) in
        (batch (map (\<lambda>s. (''machine_shell'', [(''script'', JStr s)])) scripts) ''method:shell'' ((entry '''')\<lparr>ce_scripts := length scripts\<rparr>), [], 0))
     else if key = ''ansible'' then
       (if \<not> doc_enabled e (field (sub_doc (sub_doc doc ''provisioning'') ''ansible'') ''enabled'') \<or> \<not> runs_playbooks narrow then ([], [], 0)
        else let (steps, n) = ansible_batch (pv_winrm_used v) narrow (narrow_playbooks narrow (provisioner_playbooks e doc)) in (steps, [], n))
     else if key = ''docker'' then
       (let (enabled, files) = provisioner_docker e doc in
        if \<not> enabled \<or> narrow \<noteq> None then ([], [], 0)
        else if pv_winrm_used v then ([response_only ''docker_skipped_winrm'' (entry '''')], [], 0)
        else (batch (map (\<lambda>f. (''machine_docker_compose'', [(''compose_file'', JStr f)])) files) ''method:docker''
               ((entry '''')\<lparr>ce_compose := length files\<rparr>), [], 0))
     else ([response_only ''method_not_executable'' ((entry '''')\<lparr>ce_method := key\<rparr>)], [key], 0))"

definition method_keys :: "obj \<Rightarrow> string list" where
  "method_keys doc = map fst (sub_doc doc ''provisioning'')"

definition plan_walk :: "doc_env \<Rightarrow> provision_validation \<Rightarrow> walk_narrow option \<Rightarrow> walk_step list \<times> string list \<times> nat" where
  "plan_walk e v narrow =
    (let doc = pv_provisioner v; ms = map (method_steps e v narrow) (method_keys doc);
         flat = narrow_playbooks narrow (provisioner_playbooks e doc);
         (fsteps, fcount) = (if method_keys doc = [] \<and> runs_playbooks narrow \<and> flat \<noteq> []
            then ansible_batch (pv_winrm_used v) narrow flat else ([], 0));
         bracket = (\<lambda>phase label. if narrow = None then hook_steps (provisioner_hooks e doc phase) label else [])
     in (bracket ''pre'' ''pre_hooks'' @ concat (map fst ms) @ fsteps @ bracket ''post'' ''post_hooks'',
         concat (map (fst \<circ> snd) ms), sum_list (map (snd \<circ> snd) ms) + fcount))"

record provision_request =
  rq_skip_boot :: bool
  rq_confirm :: bool
  rq_roles :: "string list"
  rq_scripts :: "string list"
  rq_playbook :: string

text \<open>The last dotted segment of a role name counts as its name too.\<close>

definition known_roles :: "doc_env \<Rightarrow> obj \<Rightarrow> string list" where
  "known_roles e doc = concat (map (\<lambda>n. n # (if CHR ''.'' \<in> set n then [last (split_char CHR ''.'' n)] else [])) (document_role_names e doc))"

definition narrow_of :: "doc_env \<Rightarrow> provision_request \<Rightarrow> provision_validation \<Rightarrow> provision_problem + walk_narrow option" where
  "narrow_of e rq v =
    (let doc = pv_provisioner v in
     if rq_roles rq = [] \<and> rq_scripts rq = [] \<and> rq_playbook rq = '''' then Inr None
     else if \<not> has_provisioned_before (pv_config v) then Inl NotProvisionedOnce
     else case find (\<lambda>r. r \<notin> set (known_roles e doc)) (rq_roles rq) of
       Some r \<Rightarrow> Inl (UnknownRole r)
     | None \<Rightarrow>
         (case find (\<lambda>s. s \<notin> set (provisioner_shell_scripts e doc)) (rq_scripts rq) of
            Some s \<Rightarrow> Inl (UnknownScript s)
          | None \<Rightarrow>
              if rq_playbook rq \<noteq> '''' \<and> \<not> list_ex (\<lambda>p. pb_playbook p = rq_playbook rq) (provisioner_playbooks e doc)
              then Inl (UnknownPlaybook (rq_playbook rq))
              else Inr (Some \<lparr>wn_roles = rq_roles rq, wn_scripts = rq_scripts rq, wn_playbook = rq_playbook rq\<rparr>)))"

subsection \<open>Insertions\<close>

type_synonym draw = "string \<times> time \<times> bool"

record chain_state =
  cs_store :: store
  cs_draws :: "draw list"
  cs_previous :: "string option"
  cs_entries :: "chain_entry list"
  cs_failed :: bool

definition chain_new :: "prov_machine \<Rightarrow> string \<Rightarrow> string option \<Rightarrow> string option \<Rightarrow> string \<Rightarrow> string \<Rightarrow> new_task" where
  "chain_new m oper meta dep parent by' =
    \<lparr>nt_machine_name = pm_name m, nt_operation = oper, nt_priority = priority_medium, nt_created_by = by', nt_depends_on = dep,
     nt_parent_task_id = (if parent = '''' then None else Some parent), nt_metadata = meta, nt_parent = False, nt_prepared = False,
     nt_notify = None\<rparr>"

text \<open>One task behind the previous one; after a failure the rest of the request does nothing.\<close>

definition chain_task :: "prov_machine \<Rightarrow> string \<Rightarrow> string \<Rightarrow> string \<Rightarrow> string option \<Rightarrow> (string \<Rightarrow> chain_entry list) \<Rightarrow> chain_state \<Rightarrow> chain_state" where
  "chain_task m by' parent oper meta entries cs =
    (if cs_failed cs then cs
     else case cs_draws cs of
       [] \<Rightarrow> cs\<lparr>cs_failed := True\<rparr>
     | (i, now, ok) # ds \<Rightarrow>
         if \<not> ok then cs\<lparr>cs_draws := ds, cs_failed := True\<rparr>
         else (case create i now (chain_new m oper meta (cs_previous cs) parent by') (cs_store cs) of
             (Inl e, st) \<Rightarrow> cs\<lparr>cs_draws := ds, cs_failed := True\<rparr>
           | (Inr t, st) \<Rightarrow> \<lparr>cs_store = st, cs_draws = ds, cs_previous = Some (task_id t),
               cs_entries = cs_entries cs @ entries (task_id t), cs_failed = False\<rparr>))"

definition note_entry :: "chain_entry \<Rightarrow> chain_state \<Rightarrow> chain_state" where
  "note_entry x cs = cs\<lparr>cs_entries := cs_entries cs @ [x]\<rparr>"

definition task_entry :: "string \<Rightarrow> string \<Rightarrow> chain_entry list" where
  "task_entry step i = [(entry step)\<lparr>ce_task := i\<rparr>]"

definition final_mark :: "bool \<Rightarrow> obj" where
  "final_mark b = (if b then [(''final'', JBool True)] else [])"

text \<open>A sub-parent and one child per folder; answers the sub-parent.\<close>

definition folder_bracket :: "provision_env \<Rightarrow> prov_machine \<Rightarrow> provision_validation \<Rightarrow> string \<Rightarrow> string \<Rightarrow> string \<Rightarrow> string \<Rightarrow>
    (string \<Rightarrow> chain_entry list) \<Rightarrow> folder list \<Rightarrow> bool \<Rightarrow> chain_state \<Rightarrow> string \<times> chain_state" where
  "folder_bracket env m v by' parent parent_op child_op entries folders stamp cs =
    (let cs1 = chain_task m by' parent parent_op (Some (pe_json env (JObj [(''total_folders'', JInt (int (length folders)))]))) entries cs;
         anchor = opt_default '''' (cs_previous cs1)
     in (anchor, fold (\<lambda>(i, f). chain_task m by' anchor child_op
          (Some (child_metadata env v ((''folder'', folder_json f) # final_mark (stamp \<and> i = length folders - 1)))) (\<lambda>i. []))
        (enumerate 0 folders) cs1))"

definition build_syncback_chain :: "provision_env \<Rightarrow> prov_machine \<Rightarrow> provision_validation \<Rightarrow> string \<Rightarrow> string \<Rightarrow> bool \<Rightarrow> chain_state \<Rightarrow> chain_state" where
  "build_syncback_chain env m v by' parent stamp cs =
    (let folders = syncback_folders (pe_doc env) (provisioner_folders (pe_doc env) (pv_provisioner v)) in
     if folders = [] then cs
     else let (anchor, cs1) = folder_bracket env m v by' parent ''machine_syncback_parent'' ''machine_syncback'' (\<lambda>i. []) folders stamp cs
       in note_entry ((entry ''syncback_parent'')\<lparr>ce_task := anchor, ce_folders := length folders,
            ce_last := opt_default '''' (cs_previous cs1)\<rparr>) cs1)"

subsection \<open>The provision chain\<close>

definition last_real :: "walk_step list \<Rightarrow> nat option" where
  "last_real walk = (case filter (\<lambda>(i, w). ws_operation w \<noteq> '''') (enumerate 0 walk) of [] \<Rightarrow> None | xs \<Rightarrow> Some (fst (last xs)))"

datatype final_owner = NoOwner | SyncbackOwner | WalkOwner | SyncOwner

definition final_owner_of :: "bool \<Rightarrow> folder list \<Rightarrow> folder list \<Rightarrow> walk_step list \<Rightarrow> final_owner" where
  "final_owner_of winrm folders syncbacks walk =
    (if syncbacks \<noteq> [] \<and> \<not> winrm then SyncbackOwner
     else if last_real walk \<noteq> None then WalkOwner
     else if folders \<noteq> [] \<and> \<not> winrm then SyncOwner else NoOwner)"

definition labelled :: "walk_step \<Rightarrow> string \<Rightarrow> string \<Rightarrow> chain_entry" where
  "labelled w step i = (ws_info w)\<lparr>ce_step := step, ce_task := i\<rparr>"

definition walk_task :: "provision_env \<Rightarrow> prov_machine \<Rightarrow> provision_validation \<Rightarrow> string \<Rightarrow> string \<Rightarrow> (nat \<Rightarrow> bool) \<Rightarrow>
    nat \<times> walk_step \<Rightarrow> chain_state \<Rightarrow> chain_state" where
  "walk_task env m v by' parent final = (\<lambda>(i, w) cs.
    if ws_operation w = '''' then note_entry ((ws_info w)\<lparr>ce_step := ws_step w\<rparr>) cs
    else chain_task m by' parent (ws_operation w) (Some (child_metadata env v (ws_extra w @ final_mark (final i))))
      (\<lambda>t. if ws_step w = '''' then [] else [labelled w (ws_step w) t]) cs)"

definition walk_tasks :: "provision_env \<Rightarrow> prov_machine \<Rightarrow> provision_validation \<Rightarrow> string \<Rightarrow> string \<Rightarrow> (nat \<Rightarrow> bool) \<Rightarrow>
    walk_step list \<Rightarrow> chain_state \<Rightarrow> chain_state" where
  "walk_tasks env m v by' parent final walk cs = fold (walk_task env m v by' parent final) (enumerate 0 walk) cs"

definition shadow_note :: "provision_validation \<Rightarrow> chain_entry list" where
  "shadow_note v = (if pv_shadowed v = [] then [] else [(entry ''communicator_keys_shadowed'')\<lparr>ce_keys := pv_shadowed v\<rparr>])"

definition head_tasks :: "provision_env \<Rightarrow> prov_machine \<Rightarrow> provision_validation \<Rightarrow> bool \<Rightarrow> string \<Rightarrow> string \<Rightarrow> chain_state \<Rightarrow> chain_state" where
  "head_tasks env m v skip_boot parent by' cs =
    (let extract = (if has_provisioner m then chain_task m by' parent ''machine_prepare''
           (Some (pe_json env (JObj [(''spec'', (case pm_spec m of Some (n, ver, raw) \<Rightarrow> raw | None \<Rightarrow> JNull))]))) (task_entry ''extract'') else id);
         boot = (if \<not> skip_boot \<and> pm_status m \<noteq> ''running'' then chain_task m by' parent ''start'' None (task_entry ''boot'') else id);
         ssh = chain_task m by' parent ''machine_wait_ssh'' (Some (child_metadata env v [])) (task_entry ''wait_ssh'')
     in ssh (boot (extract cs)))"

definition sync_bracket :: "provision_env \<Rightarrow> prov_machine \<Rightarrow> provision_validation \<Rightarrow> string \<Rightarrow> string \<Rightarrow> bool \<Rightarrow> chain_state \<Rightarrow> chain_state" where
  "sync_bracket env m v parent by' stamp cs =
    (let folders = provisioner_folders (pe_doc env) (pv_provisioner v) in
     if folders = [] then cs
     else if pv_winrm_used v then note_entry ((entry ''sync_skipped_winrm'')\<lparr>ce_folders := length folders\<rparr>) cs
     else snd (folder_bracket env m v by' parent ''machine_sync_parent'' ''machine_sync''
       (\<lambda>i. [(entry ''sync_parent'')\<lparr>ce_task := i, ce_folders := length folders\<rparr>]) folders stamp cs))"

definition syncback_bracket :: "provision_env \<Rightarrow> prov_machine \<Rightarrow> provision_validation \<Rightarrow> string \<Rightarrow> string \<Rightarrow> bool \<Rightarrow> chain_state \<Rightarrow> chain_state" where
  "syncback_bracket env m v parent by' stamp cs =
    (let folders = syncback_folders (pe_doc env) (provisioner_folders (pe_doc env) (pv_provisioner v)) in
     if pv_winrm_used v then
       (if folders = [] then cs else note_entry ((entry ''syncback_skipped_winrm'')\<lparr>ce_folders := length folders\<rparr>) cs)
     else build_syncback_chain env m v by' parent stamp cs)"

definition rotate_task :: "provision_env \<Rightarrow> prov_machine \<Rightarrow> provision_validation \<Rightarrow> string \<Rightarrow> string \<Rightarrow> chain_state \<Rightarrow> chain_state" where
  "rotate_task env m v parent by' cs =
    (let settings = sub_doc (pv_config v) ''settings'' in
     if \<not> doc_enabled (pe_doc env) (field settings ''vagrant_ssh_insert_key'') then cs
     else if pv_winrm_used v then note_entry (entry ''key_rotate_skipped_winrm'') cs
     else chain_task m by' parent ''machine_key_rotate''
       (Some (child_metadata env v [(''key_path'', JStr (text_of (field settings ''vagrant_user_private_key_path'')))])) (task_entry ''key_rotate'') cs)"

definition power_cycle :: "provision_env \<Rightarrow> prov_machine \<Rightarrow> provision_validation \<Rightarrow> string \<Rightarrow> string \<Rightarrow> chain_state \<Rightarrow> chain_state" where
  "power_cycle env m v parent by' cs =
    (let flagged = transport_removal_flagged (pv_config v) in
     if \<not> flagged \<and> \<not> doc_enabled (pe_doc env) (field (sub_doc (pv_config v) ''vbox'') ''post_provision_boot'') then cs
     else let stop = chain_task m by' parent ''stop'' None (task_entry ''post_provision_stop'');
              remove = (if flagged then chain_task m by' parent ''machine_transport_remove'' None (task_entry ''transport_remove'') else id);
              boot = chain_task m by' parent ''start'' None (task_entry ''post_provision_boot'')
       in boot (remove (stop cs)))"

text \<open>What the chain leaves of the sequence: the state after the last insertion and the methods skipped.\<close>

definition build_provision_chain :: "provision_env \<Rightarrow> prov_machine \<Rightarrow> provision_validation \<Rightarrow> bool \<Rightarrow> string \<Rightarrow> string \<Rightarrow>
    time \<Rightarrow> draw list \<Rightarrow> store \<Rightarrow> chain_state \<times> string list" where
  "build_provision_chain env m v skip_boot parent by' now draws st =
    (let cs0 = \<lparr>cs_store = st, cs_draws = draws, cs_previous = None, cs_entries = shadow_note v, cs_failed = False\<rparr>;
         folders = provisioner_folders (pe_doc env) (pv_provisioner v);
         (walk, skipped, n) = plan_walk (pe_doc env) v None;
         owner = final_owner_of (pv_winrm_used v) folders (syncback_folders (pe_doc env) folders) walk;
         cs1 = head_tasks env m v skip_boot parent by' cs0;
         cs2 = sync_bracket env m v parent by' (owner = SyncOwner) cs1;
         cs3 = walk_tasks env m v by' parent (\<lambda>i. owner = WalkOwner \<and> last_real walk = Some i) walk cs2;
         cs4 = syncback_bracket env m v parent by' (owner = SyncbackOwner) cs3;
         cs5 = power_cycle env m v parent by' (rotate_task env m v parent by' cs4)
     in (if cs_failed cs5 \<or> skipped = [] then cs5
         else cs5\<lparr>cs_store := snd (update_metadata parent (pe_json env (JObj [(''ip'', JStr (pv_ip v)), (''port'', JInt (pv_port v)),
            (''skipped_methods'', JArr (map JStr skipped))])) now (cs_store cs5))\<rparr>, skipped))"

subsection \<open>Requests\<close>

definition provision_parent :: "provision_env \<Rightarrow> prov_machine \<Rightarrow> provision_validation \<Rightarrow> string \<Rightarrow> new_task" where
  "provision_parent env m v by' =
    \<lparr>nt_machine_name = pm_name m, nt_operation = ''machine_provision_orchestration'', nt_priority = priority_medium, nt_created_by = by',
     nt_depends_on = None, nt_parent_task_id = None,
     nt_metadata = Some (pe_json env (JObj [(''ip'', JStr (pv_ip v)), (''port'', JInt (pv_port v))])), nt_parent = True, nt_prepared = False,
     nt_notify = None\<rparr>"

text \<open>
  The parent and its chain; a chain that fails cancels the parent. The outer \<open>None\<close> is the cancellation running out of
  fuel, the inner one an error.
\<close>

definition start_provision_pipeline :: "provision_env \<Rightarrow> prov_machine \<Rightarrow> provision_validation \<Rightarrow> bool \<Rightarrow> string \<Rightarrow>
    nat \<Rightarrow> time \<Rightarrow> draw list \<Rightarrow> queue \<Rightarrow> ((string \<times> chain_entry list \<times> string list) option \<times> queue) option" where
  "start_provision_pipeline env m v skip_boot by' fuel now draws q =
    (case draws of
       [] \<Rightarrow> Some (None, q)
     | (i, created, ok) # ds \<Rightarrow>
         if \<not> ok then Some (None, q)
         else (case create i created (provision_parent env m v by') (q_store q) of
             (Inl err, st) \<Rightarrow> Some (None, q)
           | (Inr t, st) \<Rightarrow>
               (let (cs, skipped) = build_provision_chain env m v skip_boot (task_id t) by' now ds st;
                    q1 = q\<lparr>q_store := cs_store cs\<rparr>
                in if cs_failed cs then map_option (\<lambda>(r, q2). (None, q2)) (cancel fuel now (task_id t) q1)
                   else Some (Some (task_id t, cs_entries cs, skipped), q1))))"

text \<open>A narrowed run: bare tasks; the answer names the first.\<close>

definition narrowed_task :: "provision_env \<Rightarrow> prov_machine \<Rightarrow> provision_validation \<Rightarrow> string \<Rightarrow> walk_step \<Rightarrow> chain_state \<Rightarrow> chain_state" where
  "narrowed_task env m v by' w cs =
    (if ws_operation w = '''' then note_entry ((ws_info w)\<lparr>ce_step := ws_step w\<rparr>) cs
     else chain_task m by' '''' (ws_operation w) (Some (child_metadata env v (ws_extra w)))
       (\<lambda>t. [labelled w (if ws_step w = '''' then ws_operation w else ws_step w) t]) cs)"

definition start_narrowed_run :: "provision_env \<Rightarrow> prov_machine \<Rightarrow> provision_validation \<Rightarrow> walk_narrow \<Rightarrow> string \<Rightarrow> draw list \<Rightarrow> store \<Rightarrow>
    (string \<times> chain_entry list \<times> string list) option \<times> store" where
  "start_narrowed_run env m v narrow by' draws st =
    (let (walk, skipped, n) = plan_walk (pe_doc env) v (Some narrow);
         cs = fold (narrowed_task env m v by') walk \<lparr>cs_store = st, cs_draws = draws, cs_previous = None, cs_entries = [], cs_failed = False\<rparr>
     in (if cs_failed cs then None
         else case filter (\<lambda>x. x \<noteq> '''') (map ce_task (cs_entries cs)) of
           [] \<Rightarrow> None
         | first # rest \<Rightarrow> Some (first, cs_entries cs, skipped),
         cs_store cs))"

definition provision_on_start_pipeline :: "provision_env \<Rightarrow> prov_machine \<Rightarrow> string \<Rightarrow> nat \<Rightarrow> time \<Rightarrow> draw list \<Rightarrow> queue \<Rightarrow>
    (string option \<times> queue) option" where
  "provision_on_start_pipeline env m by' fuel now draws q =
    (if \<not> pe_on_start env then Some (None, q)
     else case validate_provision_request env m of
       Inl problem \<Rightarrow> Some (None, q)
     | Inr v \<Rightarrow>
         if has_provisioned_before (pv_config v) then Some (None, q)
         else (case resolve_transport env v of
             Inl problem \<Rightarrow> Some (None, q)
           | Inr v' \<Rightarrow>
               if fst (host_hooks_preflight env v' False m) \<noteq> Inr False then Some (None, q)
               else map_option (\<lambda>(r, q'). (map_option fst r, q'))
                 (start_provision_pipeline env m v' False by' fuel now draws q)))"

datatype after_create_error = AfterProblem provision_problem | AfterConfirmation | AfterPipeline

definition provision_after_create_task :: "provision_env \<Rightarrow> prov_machine \<Rightarrow> string \<Rightarrow> nat \<Rightarrow> time \<Rightarrow> draw list \<Rightarrow> queue \<Rightarrow>
    ((after_create_error + string) \<times> queue) option" where
  "provision_after_create_task env m by' fuel now draws q =
    (case validate_provision_request env m of
       Inl p \<Rightarrow> Some (Inl (AfterProblem p), q)
     | Inr v \<Rightarrow>
         (case resolve_transport env v of
            Inl p \<Rightarrow> Some (Inl (AfterProblem p), q)
          | Inr v' \<Rightarrow>
              (case fst (host_hooks_preflight env v' False m) of
                 Inl p \<Rightarrow> Some (Inl (AfterProblem p), q)
               | Inr True \<Rightarrow> Some (Inl AfterConfirmation, q)
               | Inr False \<Rightarrow> map_option (\<lambda>(r, q'). (case r of None \<Rightarrow> Inl AfterPipeline | Some (i, x) \<Rightarrow> Inr i, q'))
                   (start_provision_pipeline env m v' True by' fuel now draws q))))"

datatype provision_answer =
    ProvisionProblem provision_problem
  | NotRunning
  | NarrowedFailed
  | NeedsConfirmation
  | PipelineFailed
  | ProvisionStarted string "chain_entry list" "string list"

definition handle_provision :: "provision_env \<Rightarrow> prov_machine \<Rightarrow> provision_request \<Rightarrow> string \<Rightarrow> nat \<Rightarrow> time \<Rightarrow> draw list \<Rightarrow> queue \<Rightarrow>
    (provision_answer \<times> prov_machine \<times> queue) option" where
  "handle_provision env m rq by' fuel now draws q =
    (case validate_provision_request env m of
       Inl p \<Rightarrow> Some (ProvisionProblem p, m, q)
     | Inr v0 \<Rightarrow>
         (case narrow_of (pe_doc env) rq v0 of
            Inl p \<Rightarrow> Some (ProvisionProblem p, m, q)
          | Inr narrow \<Rightarrow>
              if narrow \<noteq> None \<and> pe_live_status env \<noteq> ''running'' then Some (NotRunning, m, q)
              else (case resolve_transport env v0 of
                  Inl p \<Rightarrow> Some (ProvisionProblem p, m, q)
                | Inr v \<Rightarrow>
                    (case narrow of
                       Some n \<Rightarrow>
                         (case start_narrowed_run env m v n by' draws (q_store q) of
                            (None, st) \<Rightarrow> Some (NarrowedFailed, m, q\<lparr>q_store := st\<rparr>)
                          | (Some (i, chain, skipped), st) \<Rightarrow> Some (ProvisionStarted i chain skipped, m, q\<lparr>q_store := st\<rparr>))
                     | None \<Rightarrow>
                         (case host_hooks_preflight env v (rq_confirm rq) m of
                            (Inl p, m') \<Rightarrow> Some (ProvisionProblem p, m', q)
                          | (Inr True, m') \<Rightarrow> Some (NeedsConfirmation, m', q)
                          | (Inr False, m') \<Rightarrow>
                              map_option (\<lambda>(r, q'). (case r of None \<Rightarrow> PipelineFailed
                                  | Some (i, chain, skipped) \<Rightarrow> ProvisionStarted i chain skipped, m', q'))
                                (start_provision_pipeline env m v (rq_skip_boot rq) by' fuel now draws q))))))"

datatype sync_answer =
    SyncProblem provision_problem | SyncWinRM | NoFolders | SyncFailed | SyncStarted string nat

definition handle_sync :: "provision_env \<Rightarrow> prov_machine \<Rightarrow> bool \<Rightarrow> string \<Rightarrow> draw list \<Rightarrow> store \<Rightarrow> sync_answer \<times> store" where
  "handle_sync env m syncback by' draws st =
    (case validate_provision_request env m of
       Inl p \<Rightarrow> (SyncProblem p, st)
     | Inr v0 \<Rightarrow>
         if pv_winrm_used v0 then (SyncWinRM, st)
         else (case resolve_transport env v0 of
             Inl p \<Rightarrow> (SyncProblem p, st)
           | Inr v \<Rightarrow>
               (let all = provisioner_folders (pe_doc env) (pv_provisioner v);
                    folders = (if syncback then syncback_folders (pe_doc env) all else all);
                    (anchor, cs) = (if syncback
                      then folder_bracket env m v by' '''' ''machine_syncback_parent'' ''machine_syncback'' (\<lambda>i. []) folders False
                      else folder_bracket env m v by' '''' ''machine_sync_parent'' ''machine_sync'' (\<lambda>i. []) folders False)
                        \<lparr>cs_store = st, cs_draws = draws, cs_previous = None, cs_entries = [], cs_failed = False\<rparr>
                in if folders = [] then (NoFolders, st)
                   else if cs_failed cs then (SyncFailed, cs_store cs) else (SyncStarted anchor (length folders), cs_store cs))))"

datatype run_answer =
    RunProblem provision_problem | NothingExecutable "chain_entry list" "string list" | NoProvisioners | RunFailed
  | RunStarted string nat "chain_entry list" "string list"

definition handle_run_provisioners :: "provision_env \<Rightarrow> prov_machine \<Rightarrow> string \<Rightarrow> draw list \<Rightarrow> store \<Rightarrow> run_answer \<times> store" where
  "handle_run_provisioners env m by' draws st =
    (case validate_provision_request env m of
       Inl p \<Rightarrow> (RunProblem p, st)
     | Inr v0 \<Rightarrow>
         (case resolve_transport env v0 of
            Inl p \<Rightarrow> (RunProblem p, st)
          | Inr v \<Rightarrow>
              (let (walk, skipped, count) = plan_walk (pe_doc env) v None in
               case last_real walk of
                 None \<Rightarrow>
                   if walk = [] then (NoProvisioners, st)
                   else (NothingExecutable (shadow_note v @ map (\<lambda>w. (ws_info w)\<lparr>ce_step := ws_step w\<rparr>) walk) skipped, st)
               | Some l \<Rightarrow>
                   (let cs0 = \<lparr>cs_store = st, cs_draws = draws, cs_previous = None, cs_entries = shadow_note v, cs_failed = False\<rparr>;
                        meta = pe_json env (JObj ((''total_playbooks'', JInt (int count))
                          # (if skipped = [] then [] else [(''skipped_methods'', JArr (map JStr skipped))])));
                        cs1 = chain_task m by' '''' ''machine_provision_parent'' (Some meta) (\<lambda>i. []) cs0;
                        anchor = opt_default '''' (cs_previous cs1);
                        cs2 = walk_tasks env m v by' anchor (\<lambda>i. i = l) walk cs1
                    in if cs_failed cs2 then (RunFailed, cs_store cs2)
                       else (RunStarted anchor count (cs_entries cs2) skipped, cs_store cs2)))))"

definition status_operations :: "string list" where
  "status_operations = [''machine_provision_orchestration'', ''machine_prepare'', ''machine_wait_ssh'', ''machine_sync_parent'', ''machine_sync'',
     ''machine_shell'', ''machine_provision_parent'', ''machine_provision'', ''machine_provision_remote'', ''machine_docker_compose'',
     ''machine_syncback_parent'', ''machine_syncback'', ''machine_hook'']"

text \<open>Whether a document is stored, the time of the last full run, and the tasks listed.\<close>

definition provision_status :: "prov_machine \<Rightarrow> store \<Rightarrow> bool \<times> string \<times> task list" where
  "provision_status m st =
    (sub_doc (pm_config m) ''provisioner'' \<noteq> [],
     text_of (field (sub_doc (pm_config m) ''provisioner_state'') ''last_provisioned_at''),
     take 20 (concat (map (\<lambda>oper. list_tasks (no_filter\<lparr>f_machine_name := pm_name m, f_operation := oper, f_limit := 20\<rparr>) st) status_operations)))"

end
