(* ===== verification/ProvisionProps.thy ===== *)
theory ProvisionProps
  imports ProvisionChain TaskProps
begin

text \<open>
  Properties of the provisioning pipeline over the task store: the tasks a request inserts are the plan of the
  document, one behind the other; exactly one carries the final stamp; a chain that fails is cancelled; and which requests
  pass the confirmation of host hooks.
\<close>

subsection \<open>Chains of rows\<close>

primrec linked :: "string option \<Rightarrow> task list \<Rightarrow> bool" where
  "linked p [] = True"
| "linked p (t # ts) = (depends_on t = p \<and> linked (Some (task_id t)) ts)"

definition tail_of :: "string option \<Rightarrow> task list \<Rightarrow> string option" where
  "tail_of p ts = (if ts = [] then p else Some (task_id (last ts)))"

lemma tail_of_simps [simp]: "tail_of p [] = p" "tail_of p (t # ts) = tail_of (Some (task_id t)) ts"
  "tail_of (tail_of p xs) ys = tail_of p (xs @ ys)"
  by (simp_all add: tail_of_def)

lemma linked_append [simp]: "linked p (xs @ ys) \<longleftrightarrow> linked p xs \<and> linked (tail_of p xs) ys"
  by (induction xs arbitrary: p) auto

definition queued_for :: "prov_machine \<Rightarrow> task \<Rightarrow> bool" where
  "queued_for m t \<longleftrightarrow> machine_name t = pm_name m \<and> status t = Pending \<and> priority t = priority_medium"

definition parent_ref :: "string \<Rightarrow> string option" where
  "parent_ref parent = (if parent = '''' then None else Some parent)"

type_synonym spec = "string \<times> string option"

definition spec_of :: "task \<Rightarrow> spec" where
  "spec_of t = (operation t, metadata t)"

text \<open>
  What a part of a request does to the sequence: it appends pending rows behind the previous one, the first of a sequence
  under the parent; a failed sequence stays as it is.
\<close>

definition appends :: "prov_machine \<Rightarrow> string \<Rightarrow> chain_state \<Rightarrow> task list \<Rightarrow> chain_state \<Rightarrow> bool" where
  "appends m parent cs new cs' \<longleftrightarrow>
     rows (cs_store cs') = rows (cs_store cs) @ new \<and> linked (cs_previous cs) new \<and> cs_previous cs' = tail_of (cs_previous cs) new
     \<and> list_all (queued_for m) new \<and> length new + length (cs_draws cs') \<le> length (cs_draws cs)
     \<and> (wf_store (cs_store cs) \<longrightarrow> wf_store (cs_store cs')) \<and> (cs_failed cs \<longrightarrow> cs_failed cs' \<and> new = [])
     \<and> (cs_previous cs = None \<and> new \<noteq> [] \<longrightarrow> parent_task_id (hd new) = parent_ref parent)"

definition adds :: "prov_machine \<Rightarrow> string \<Rightarrow> spec list \<Rightarrow> chain_state \<Rightarrow> chain_state \<Rightarrow> bool" where
  "adds m parent specs cs cs' \<longleftrightarrow> (\<exists>new. appends m parent cs new cs' \<and> (\<not> cs_failed cs' \<longrightarrow> map spec_of new = specs))"

lemma appends_refl [simp]: "appends m parent cs [] cs"
  by (simp add: appends_def)

lemma appends_trans: "appends m parent a xs b \<Longrightarrow> appends m parent b ys c \<Longrightarrow> appends m parent a (xs @ ys) c"
  by (cases "xs = []") (auto simp: appends_def)

lemma adds_refl [simp]: "adds m parent [] cs cs"
  by (auto simp: adds_def intro: exI [of _ "[]"])

lemma adds_failed: "cs_failed cs \<Longrightarrow> adds m parent specs cs cs"
  by (auto simp: adds_def intro: exI [of _ "[]"])

lemma adds_trans [trans]:
  assumes "adds m parent xs a b" and "adds m parent ys b c"
  shows "adds m parent (xs @ ys) a c"
proof -
  obtain new1 where n1: "appends m parent a new1 b" "\<not> cs_failed b \<longrightarrow> map spec_of new1 = xs"
    using assms(1) by (auto simp: adds_def)
  obtain new2 where n2: "appends m parent b new2 c" "\<not> cs_failed c \<longrightarrow> map spec_of new2 = ys"
    using assms(2) by (auto simp: adds_def)
  have "\<not> cs_failed c \<longrightarrow> map spec_of (new1 @ new2) = xs @ ys"
    using n1(2) n2 by (auto simp: appends_def)
  with appends_trans [OF n1(1) n2(1)] show ?thesis by (auto simp: adds_def simp del: map_append)
qed

lemma adds_note [simp]: "adds m parent specs cs (note_entry x cs') \<longleftrightarrow> adds m parent specs cs cs'"
  by (simp add: adds_def appends_def note_entry_def)

lemma adds_parent:
  "adds m p specs cs cs' \<Longrightarrow> cs_failed cs \<or> cs_previous cs \<noteq> None \<Longrightarrow> adds m parent specs cs cs'"
  by (auto simp: adds_def appends_def)

lemma chain_task_moves: "cs_failed (chain_task m by' parent oper meta es cs) \<or> cs_previous (chain_task m by' parent oper meta es cs) \<noteq> None"
  by (auto simp: chain_task_def split: list.split prod.split sum.split)

lemma adds_task: "adds m parent [(oper, meta)] cs (chain_task m by' parent oper meta es cs)"
proof (cases "cs_failed cs")
  case True
  then show ?thesis by (simp add: chain_task_def adds_failed)
next
  case False
  show ?thesis
  proof (cases "cs_draws cs")
    case Nil
    then show ?thesis using False by (auto simp: chain_task_def adds_def appends_def intro: exI [of _ "[]"])
  next
    case (Cons d ds)
    obtain i now ok where d: "d = (i, now, ok)" by (cases d)
    show ?thesis
    proof (cases "ok \<and> get (cs_store cs) i = None")
      case False
      then have "chain_task m by' parent oper meta es cs = cs\<lparr>cs_draws := ds, cs_failed := True\<rparr>"
        using \<open>\<not> cs_failed cs\<close> Cons by (auto simp: chain_task_def d create_def split: option.split)
      then show ?thesis using \<open>\<not> cs_failed cs\<close> Cons by (simp add: adds_def appends_def)
    next
      case True
      let ?nt = "chain_new m oper meta (cs_previous cs) parent by'"
      obtain st where c: "create i now ?nt (cs_store cs) = (Inr (new_row i now ?nt), st)" "rows st = rows (cs_store cs) @ [new_row i now ?nt]"
        using True by (simp add: create_def Let_def)
      have "wf_store (cs_store cs) \<longrightarrow> wf_store st" using wf_create [of "cs_store cs" i now ?nt] c(1) by simp
      then have "appends m parent cs [new_row i now ?nt] (chain_task m by' parent oper meta es cs)"
        using \<open>\<not> cs_failed cs\<close> Cons True c
        by (simp add: chain_task_def d appends_def tail_of_def queued_for_def new_row_def chain_new_def create_status_def
            priority_medium_def parent_ref_def)
      moreover have "map spec_of [new_row i now ?nt] = [(oper, meta)]" by (simp add: spec_of_def new_row_def chain_new_def)
      ultimately show ?thesis unfolding adds_def by (intro exI [of _ "[new_row i now ?nt]"] conjI impI)
    qed
  qed
qed

lemma adds_fold:
  assumes "\<And>x cs. x \<in> set xs \<Longrightarrow> adds m parent (f x) cs (g x cs)"
  shows "adds m parent (concat (map f xs)) cs (fold g xs cs)"
  using assms
proof (induction xs arbitrary: cs)
  case (Cons x xs)
  have "adds m parent (f x) cs (g x cs)" using Cons.prems by simp
  also have "adds m parent (concat (map f xs)) (g x cs) (fold g xs (g x cs))" using Cons by simp
  finally show ?case by simp
qed simp

subsection \<open>The plan\<close>

text \<open>The operations and metadata the document prescribes, without the store.\<close>

definition bracket_plan :: "provision_env \<Rightarrow> provision_validation \<Rightarrow> string \<Rightarrow> string \<Rightarrow> folder list \<Rightarrow> bool \<Rightarrow> spec list" where
  "bracket_plan env v parent_op child_op folders stamp =
    (parent_op, Some (pe_json env (JObj [(''total_folders'', JInt (int (length folders)))])))
    # map (\<lambda>(i, f). (child_op, Some (child_metadata env v ((''folder'', folder_json f) # final_mark (stamp \<and> i = length folders - 1)))))
        (enumerate 0 folders)"

definition walk_plan :: "provision_env \<Rightarrow> provision_validation \<Rightarrow> (nat \<Rightarrow> bool) \<Rightarrow> walk_step list \<Rightarrow> spec list" where
  "walk_plan env v final walk = concat (map (\<lambda>(i, w). if ws_operation w = '''' then []
     else [(ws_operation w, Some (child_metadata env v (ws_extra w @ final_mark (final i))))]) (enumerate 0 walk))"

definition head_plan :: "provision_env \<Rightarrow> prov_machine \<Rightarrow> provision_validation \<Rightarrow> bool \<Rightarrow> spec list" where
  "head_plan env m v skip_boot =
    (if has_provisioner m then [(''machine_prepare'',
        Some (pe_json env (JObj [(''spec'', (case pm_spec m of Some (n, ver, raw) \<Rightarrow> raw | None \<Rightarrow> JNull))])))] else [])
    @ (if \<not> skip_boot \<and> pm_status m \<noteq> ''running'' then [(''start'', None)] else [])
    @ [(''machine_wait_ssh'', Some (child_metadata env v []))]"

definition rotate_plan :: "provision_env \<Rightarrow> provision_validation \<Rightarrow> spec list" where
  "rotate_plan env v =
    (let settings = sub_doc (pv_config v) ''settings'' in
     if doc_enabled (pe_doc env) (field settings ''vagrant_ssh_insert_key'') \<and> \<not> pv_winrm_used v
     then [(''machine_key_rotate'',
        Some (child_metadata env v [(''key_path'', JStr (text_of (field settings ''vagrant_user_private_key_path'')))]))] else [])"

definition cycle_plan :: "provision_env \<Rightarrow> provision_validation \<Rightarrow> spec list" where
  "cycle_plan env v =
    (let flagged = transport_removal_flagged (pv_config v) in
     if flagged \<or> doc_enabled (pe_doc env) (field (sub_doc (pv_config v) ''vbox'') ''post_provision_boot'')
     then [(''stop'', None)] @ (if flagged then [(''machine_transport_remove'', None)] else []) @ [(''start'', None)] else [])"

definition provision_plan :: "provision_env \<Rightarrow> prov_machine \<Rightarrow> provision_validation \<Rightarrow> bool \<Rightarrow> spec list" where
  "provision_plan env m v skip_boot =
    (let folders = provisioner_folders (pe_doc env) (pv_provisioner v); backs = syncback_folders (pe_doc env) folders;
         walk = fst (plan_walk (pe_doc env) v None); owner = final_owner_of (pv_winrm_used v) folders backs walk
     in head_plan env m v skip_boot
        @ (if folders = [] \<or> pv_winrm_used v then [] else bracket_plan env v ''machine_sync_parent'' ''machine_sync'' folders (owner = SyncOwner))
        @ walk_plan env v (\<lambda>i. owner = WalkOwner \<and> last_real walk = Some i) walk
        @ (if backs = [] \<or> pv_winrm_used v then []
           else bracket_plan env v ''machine_syncback_parent'' ''machine_syncback'' backs (owner = SyncbackOwner))
        @ rotate_plan env v @ cycle_plan env v)"

subsection \<open>The requests insert their plans\<close>

lemma adds_bracket:
  "adds m parent (bracket_plan env v pop cop folders stamp) cs (snd (folder_bracket env m v by' parent pop cop es folders stamp cs))"
proof -
  let ?cs1 = "chain_task m by' parent pop (Some (pe_json env (JObj [(''total_folders'', JInt (int (length folders)))]))) es cs"
  have "adds m parent [(pop, Some (pe_json env (JObj [(''total_folders'', JInt (int (length folders)))])))] cs ?cs1"
    by (rule adds_task)
  also have "adds m parent (concat (map (\<lambda>(i, f). [(cop, Some (child_metadata env v ((''folder'', folder_json f) # final_mark (stamp \<and> i = length folders - 1))))])
      (enumerate 0 folders))) ?cs1 (snd (folder_bracket env m v by' parent pop cop es folders stamp cs))"
    unfolding folder_bracket_def Let_def snd_conv
    by (rule adds_parent [OF adds_fold chain_task_moves]) (auto intro: adds_task)
  finally show ?thesis by (simp add: bracket_plan_def case_prod_beta')
qed

lemma adds_walk:
  "adds m parent (walk_plan env v final walk) cs (walk_tasks env m v by' parent final walk cs)"
  unfolding walk_plan_def walk_tasks_def
  by (rule adds_fold) (auto simp: walk_task_def intro: adds_task)

lemma adds_head: "adds m parent (head_plan env m v skip) cs (head_tasks env m v skip parent by' cs)"
proof -
  let ?p = "if has_provisioner m then [(''machine_prepare'', Some (pe_json env (JObj [(''spec'', (case pm_spec m of Some (n, ver, raw) \<Rightarrow> raw | None \<Rightarrow> JNull))])))] else []"
  let ?b = "if \<not> skip \<and> pm_status m \<noteq> ''running'' then [(''start'', None)] else [] :: spec list"
  have task: "adds m parent (if c then [(oper, meta)] else []) cs ((if c then chain_task m by' parent oper meta es else id) cs)" for c oper meta es cs
    by (simp add: adds_task)
  show ?thesis
    unfolding head_plan_def head_tasks_def Let_def
    by (rule adds_trans [OF task adds_trans [OF task adds_task]])
qed

lemma adds_cycle: "adds m parent (cycle_plan env v) cs (power_cycle env m v parent by' cs)"
proof -
  have task: "adds m parent (if c then [(oper, meta)] else []) cs ((if c then chain_task m by' parent oper meta es else id) cs)" for c oper meta es cs
    by (simp add: adds_task)
  let ?flag = "transport_removal_flagged (pv_config v)"
  have "adds m parent ([(''stop'', None)] @ (if ?flag then [(''machine_transport_remove'', None)] else []) @ [(''start'', None)]) cs
    (chain_task m by' parent ''start'' None (task_entry ''post_provision_boot'')
      ((if ?flag then chain_task m by' parent ''machine_transport_remove'' None (task_entry ''transport_remove'') else id)
        (chain_task m by' parent ''stop'' None (task_entry ''post_provision_stop'') cs)))"
    by (rule adds_trans [OF adds_task adds_trans [OF task adds_task]])
  then show ?thesis by (simp add: cycle_plan_def power_cycle_def Let_def)
qed

lemma adds_rotate: "adds m parent (rotate_plan env v) cs (rotate_task env m v parent by' cs)"
  by (auto simp: rotate_plan_def rotate_task_def Let_def intro: adds_task)

lemma adds_sync:
  "adds m parent (if provisioner_folders (pe_doc env) (pv_provisioner v) = [] \<or> pv_winrm_used v then []
     else bracket_plan env v ''machine_sync_parent'' ''machine_sync'' (provisioner_folders (pe_doc env) (pv_provisioner v)) stamp)
   cs (sync_bracket env m v parent by' stamp cs)"
  by (auto simp: sync_bracket_def Let_def intro: adds_bracket)

lemma adds_syncback:
  "adds m parent (if syncback_folders (pe_doc env) (provisioner_folders (pe_doc env) (pv_provisioner v)) = [] \<or> pv_winrm_used v then []
     else bracket_plan env v ''machine_syncback_parent'' ''machine_syncback''
       (syncback_folders (pe_doc env) (provisioner_folders (pe_doc env) (pv_provisioner v))) stamp)
   cs (syncback_bracket env m v parent by' stamp cs)"
  using adds_bracket [of m parent env v "''machine_syncback_parent''" "''machine_syncback''" _ stamp cs by' "\<lambda>i. []"]
  by (auto simp: syncback_bracket_def build_syncback_chain_def Let_def split: prod.split) (metis snd_conv)

text \<open>The row of the parent is the only one a finished chain changes.\<close>

lemma build_rows:
  assumes "build_provision_chain env m v skip parent by' now draws st = (cs, skipped)"
  shows "\<exists>cs5. adds m parent (provision_plan env m v skip) \<lparr>cs_store = st, cs_draws = draws, cs_previous = None, cs_entries = shadow_note v, cs_failed = False\<rparr> cs5
    \<and> cs_failed cs = cs_failed cs5
    \<and> (cs_store cs = cs_store cs5 \<or> (\<exists>meta. cs_store cs = snd (update_metadata parent meta now (cs_store cs5))) \<and> \<not> cs_failed cs)"
proof -
  let ?cs0 = "\<lparr>cs_store = st, cs_draws = draws, cs_previous = None, cs_entries = shadow_note v, cs_failed = False\<rparr>"
  let ?folders = "provisioner_folders (pe_doc env) (pv_provisioner v)"
  let ?backs = "syncback_folders (pe_doc env) ?folders"
  obtain walk sk n where w: "plan_walk (pe_doc env) v None = (walk, sk, n)" by (cases "plan_walk (pe_doc env) v None") auto
  let ?owner = "final_owner_of (pv_winrm_used v) ?folders ?backs walk"
  let ?cs1 = "head_tasks env m v skip parent by' ?cs0"
  let ?cs2 = "sync_bracket env m v parent by' (?owner = SyncOwner) ?cs1"
  let ?cs3 = "walk_tasks env m v by' parent (\<lambda>i. ?owner = WalkOwner \<and> last_real walk = Some i) walk ?cs2"
  let ?cs4 = "syncback_bracket env m v parent by' (?owner = SyncbackOwner) ?cs3"
  let ?cs5 = "power_cycle env m v parent by' (rotate_task env m v parent by' ?cs4)"
  have "adds m parent (provision_plan env m v skip) ?cs0 ?cs5"
    unfolding provision_plan_def Let_def w fst_conv
    by (rule adds_trans [OF adds_head adds_trans [OF adds_sync adds_trans [OF adds_walk adds_trans [OF adds_syncback
      adds_trans [OF adds_rotate adds_cycle]]]]])
  moreover have "cs = (if cs_failed ?cs5 \<or> sk = [] then ?cs5
      else ?cs5\<lparr>cs_store := snd (update_metadata parent (pe_json env (JObj [(''ip'', JStr (pv_ip v)), (''port'', JInt (pv_port v)),
            (''skipped_methods'', JArr (map JStr sk))])) now (cs_store ?cs5))\<rparr>)"
    using assms [symmetric] unfolding build_provision_chain_def Let_def w prod.case prod.inject by (rule conjunct1)
  ultimately show ?thesis by (intro exI [of _ ?cs5]) (cases "cs_failed ?cs5 \<or> sk = []"; auto)
qed

text \<open>A link other than the first waits for its predecessor.\<close>

lemma linked_waits:
  assumes "linked p ts" and "list_all (\<lambda>t. status t = Pending) ts" and "t \<in> set (tl ts)"
  shows "\<exists>u\<in>set ts. status u = Pending \<and> depends_on t = Some (task_id u)"
  using assms
proof (induction ts arbitrary: p)
  case (Cons a ts)
  show ?case
  proof (cases ts)
    case (Cons b us)
    then show ?thesis
    proof (cases "t = b")
      case False
      then have "t \<in> set (tl ts)" using Cons.prems(3) Cons by simp
      with Cons.IH [of "Some (task_id a)"] Cons.prems(1,2) show ?thesis by auto
    qed (use Cons.prems Cons in auto)
  qed (use Cons.prems in simp)
qed simp

lemma waits_behind:
  assumes "wf_store st" and "u \<in> set (rows st)" and "status u \<noteq> Completed" and "depends_on t = Some (task_id u)"
  shows "\<not> eligible busy st t"
proof
  assume "eligible busy st t"
  then obtain r where r: "r \<in> set (rows st)" "task_id r = task_id u" "status r = Completed"
    using assms(4) by (auto simp: eligible_def dependency_met_def list_ex_iff)
  have "Some r = Some u"
    using get_row [OF assms(1) r(1)] get_row [OF assms(1,2)] unfolding r(2) by (rule trans [OF sym])
  then show False using assms(3) r(3) by simp
qed

text \<open>A pipeline that started is its parent row and the chain behind it.\<close>

lemma pipeline_rows:
  assumes wf: "wf_store (q_store q)"
    and run: "start_provision_pipeline env m v skip by' fuel now ((i, created, ok) # ds) q = Some (res, q')"
    and row: "ok" "get (q_store q) i = None"
  shows "\<exists>st' new. rows st' = rows (q_store q) @ new_row i created (provision_parent env m v by') # new
    \<and> linked None new \<and> list_all (queued_for m) new \<and> length new \<le> length ds \<and> (new \<noteq> [] \<longrightarrow> parent_task_id (hd new) = parent_ref i)
    \<and> wf_store st'
    \<and> (case res of
         None \<Rightarrow> \<exists>r. cancel fuel now i (q\<lparr>q_store := st'\<rparr>) = Some (r, q')
       | Some (j, x) \<Rightarrow> j = i \<and> map spec_of new = provision_plan env m v skip
           \<and> (q_store q' = st' \<or> (\<exists>meta. q_store q' = snd (update_metadata i meta now st'))))"
proof -
  let ?p = "new_row i created (provision_parent env m v by')"
  obtain st where st: "create i created (provision_parent env m v by') (q_store q) = (Inr ?p, st)" "rows st = rows (q_store q) @ [?p]"
    using row by (simp add: create_def Let_def)
  have wf1: "wf_store st" using wf_create [OF wf, of i created "provision_parent env m v by'"] st(1) by simp
  have idp: "task_id ?p = i" by (simp add: new_row_def)
  obtain cs sk where b: "build_provision_chain env m v skip (task_id ?p) by' now ds st = (cs, sk)"
    by (cases "build_provision_chain env m v skip (task_id ?p) by' now ds st")
  obtain cs5 where a: "adds m i (provision_plan env m v skip) \<lparr>cs_store = st, cs_draws = ds, cs_previous = None, cs_entries = shadow_note v, cs_failed = False\<rparr> cs5"
    and f: "cs_failed cs = cs_failed cs5"
    and e: "cs_store cs = cs_store cs5 \<or> (\<exists>meta. cs_store cs = snd (update_metadata i meta now (cs_store cs5))) \<and> \<not> cs_failed cs"
    using build_rows [OF b] unfolding idp by blast
  obtain new where n: "rows (cs_store cs5) = rows st @ new" "linked None new" "list_all (queued_for m) new" "length new \<le> length ds"
    "new \<noteq> [] \<longrightarrow> parent_task_id (hd new) = parent_ref i" "wf_store (cs_store cs5)"
    "\<not> cs_failed cs5 \<longrightarrow> map spec_of new = provision_plan env m v skip"
    using a wf1 by (auto simp: adds_def appends_def)
  have step: "(if cs_failed cs then map_option (\<lambda>(r, q2). (None, q2)) (cancel fuel now (task_id ?p) (q\<lparr>q_store := cs_store cs\<rparr>))
      else Some (Some (task_id ?p, cs_entries cs, sk), q\<lparr>q_store := cs_store cs\<rparr>)) = Some (res, q')"
    using run row(1) by (simp add: start_provision_pipeline_def st(1) b Let_def)
  show ?thesis
  proof (cases "cs_failed cs")
    case True
    then have "res = None" "\<exists>r. cancel fuel now i (q\<lparr>q_store := cs_store cs5\<rparr>) = Some (r, q')"
      using step e by (auto simp: idp map_option_case split: option.splits)
    then show ?thesis using n f True st(2) by (intro exI [of _ "cs_store cs5"] exI [of _ new]) simp
  next
    case False
    then have "res = Some (i, cs_entries cs, sk)" "q' = q\<lparr>q_store := cs_store cs\<rparr>" using step by (simp_all add: idp)
    then show ?thesis using n f False st(2) e by (intro exI [of _ "cs_store cs5"] exI [of _ new]) auto
  qed
qed

lemma pipeline_draw:
  assumes "start_provision_pipeline env m v skip by' fuel now draws q = Some (res, q')"
  shows "res = None \<and> q' = q \<or> (\<exists>i created ds. draws = (i, created, True) # ds \<and> get (q_store q) i = None)"
proof (cases draws)
  case (Cons d ds)
  obtain i created ok where d: "d = (i, created, ok)" by (cases d)
  show ?thesis
  proof (cases "ok \<and> get (q_store q) i = None")
    case True
    then show ?thesis using Cons d by simp
  next
    case False
    then have "start_provision_pipeline env m v skip by' fuel now draws q = Some (None, q)"
      using Cons d by (cases ok; cases "get (q_store q) i") (simp_all add: start_provision_pipeline_def create_def)
    then show ?thesis using assms by simp
  qed
qed (use assms in \<open>simp add: start_provision_pipeline_def\<close>)

lemma linked_pending:
  assumes wf: "wf_store st" and new: "set new \<subseteq> set (rows st)" "linked None new" "list_all (queued_for m) new"
    and t: "t \<in> set (tl new)"
  shows "\<not> eligible busy st t"
proof -
  have "list_all (\<lambda>t. status t = Pending) new" using new(3) by (auto simp: list_all_iff queued_for_def)
  then obtain u where "u \<in> set new" "status u = Pending" "depends_on t = Some (task_id u)"
    using linked_waits [OF new(2) _ t] by blast
  then show ?thesis using waits_behind [OF wf, of u t busy] new(1) by auto
qed

text \<open>
  C6: a provisioning request that starts appends its parent row, which is running at once, and behind it exactly the
  tasks of the plan, in the plan's order, each waiting for the one before it, all pending for the machine; of these only the
  first can be picked.
\<close>
theorem pipeline_inserts_plan:
  assumes "wf_store (q_store q)"
    and "start_provision_pipeline env m v skip by' fuel now draws q = Some (Some (i, chain, skipped), q')"
  shows "\<exists>p new. rows (q_store q') = rows (q_store q) @ p # new
    \<and> task_id p = i \<and> operation p = ''machine_provision_orchestration'' \<and> status p = Running
    \<and> map spec_of new = provision_plan env m v skip \<and> linked None new \<and> list_all (queued_for m) new
    \<and> (\<forall>busy. \<forall>t\<in>set (tl new). \<not> eligible busy (q_store q') t)"
proof -
  obtain created ds where d: "\<exists>j. draws = (j, created, True) # ds \<and> get (q_store q) j = None"
    using pipeline_draw [OF assms(2)] by blast
  then obtain j where j: "draws = (j, created, True) # ds" "get (q_store q) j = None" by blast
  obtain st' new where n: "rows st' = rows (q_store q) @ new_row j created (provision_parent env m v by') # new" "linked None new"
    "list_all (queued_for m) new" "wf_store st'" "i = j" "map spec_of new = provision_plan env m v skip"
    "q_store q' = st' \<or> (\<exists>meta. q_store q' = snd (update_metadata i meta now st'))"
    using pipeline_rows [OF assms(1) assms(2) [unfolded j(1)] TrueI j(2)] by auto
  let ?p = "new_row j created (provision_parent env m v by')"
  have others: "task_id t \<noteq> i" if "t \<in> set (rows (q_store q)) \<or> t \<in> set new" for t
    using n(4) that by (auto simp: wf_store_def n(1,5) new_row_def)
  have p: "task_id ?p = i \<and> operation ?p = ''machine_provision_orchestration'' \<and> status ?p = Running"
    using n(5) by (simp add: new_row_def provision_parent_def create_status_def)
  obtain p where rows': "rows (q_store q') = rows (q_store q) @ p # new" "wf_store (q_store q')"
    and p': "task_id p = i \<and> operation p = ''machine_provision_orchestration'' \<and> status p = Running"
    using n(7)
  proof
    assume "q_store q' = st'"
    then show thesis using that n(1,4) p by simp
  next
    assume "\<exists>meta. q_store q' = snd (update_metadata i meta now st')"
    then obtain meta where s: "q_store q' = snd (update_metadata i meta now st')" by blast
    have "rows (q_store q') = rows (q_store q) @ metadata_row meta now ?p # new"
      using n(1) others p by (simp add: s update_metadata_def Let_def sql_update_def map_idI)
    then show thesis using that [of "metadata_row meta now ?p"] n(4) p
      by (simp add: s metadata_row_def update_metadata_def Let_def annotated.wf_update)
  qed
  have "\<not> eligible busy (q_store q') t" if "t \<in> set (tl new)" for busy t
    using linked_pending [OF rows'(2) _ n(2,3) that, of busy] rows'(1) by auto
  then show ?thesis using rows'(1) p' n(2,3,6) by blast
qed


text \<open>A request over a document with one script and no folders, for a running machine; and the same one running out of draws.\<close>

definition demo_doc_env :: doc_env where
  "demo_doc_env = \<lparr>to_lower = id, fold_eq = (=), number_text = (\<lambda>x. ''1''), number_int = (\<lambda>x. 1)\<rparr>"

definition demo_env :: provision_env where
  "demo_env = \<lparr>pe_doc = demo_doc_env, pe_json = (\<lambda>j. case j of JObj kvs \<Rightarrow> concat (map fst kvs) | _ \<Rightarrow> ''''), pe_credential = Inr None,
     pe_ssh_forward = 2222, pe_winrm_forward = (\<lambda>p. 0), pe_live_status = ''running'', pe_host_hooks = False, pe_seeded = [],
     pe_merge_ok = True, pe_on_start = True\<rparr>"

definition demo_machine :: prov_machine where
  "demo_machine = \<lparr>pm_name = ''web'', pm_status = ''running'', pm_spec = None, pm_config = []\<rparr>"

definition demo_valid :: provision_validation where
  "demo_valid = \<lparr>pv_config = [], pv_provisioner = [(''provisioning'', JObj [(''shell'', JObj [(''enabled'', JBool True),
       (''scripts'', JArr [JStr ''setup.sh''])])])], pv_ip = ''10.0.0.5'', pv_port = 22,
     pv_credentials = \<lparr>cr_username = ''root'', cr_password = '''', cr_key_path = ''''\<rparr>, pv_credential_id = '''', pv_winrm_used = False,
     pv_winrm = \<lparr>wr_enabled = False, wr_port = 5985, wr_transport = '''', wr_verify = True\<rparr>, pv_shadowed = []\<rparr>"

lemmas demo_provision_defs = demo_env_def demo_doc_env_def demo_machine_def demo_valid_def

lemma demo_folders: "provisioner_folders (pe_doc demo_env) (pv_provisioner demo_valid) = []"
  by code_simp

lemma demo_walk: "plan_walk (pe_doc demo_env) demo_valid None =
  ([\<lparr>ws_operation = ''machine_shell'', ws_extra = [(''script'', JStr ''setup.sh'')], ws_step = ''method:shell'',
     ws_info = (entry '''')\<lparr>ce_scripts := 1\<rparr>\<rparr>], [], 0)"
  by code_simp

lemma demo_plan: "provision_plan demo_env demo_machine demo_valid False =
  [(''machine_wait_ssh'', Some ''ipportcredentials''), (''machine_shell'', Some ''ipportcredentialsscriptfinal'')]"
  by code_simp

lemma demo_fresh: "get demo_store ''p'' = None"
  by code_simp

lemma demo_chain: "\<not> cs_failed (fst (build_provision_chain demo_env demo_machine demo_valid False ''p'' ''ann'' 9
    [(''x'', 2, True), (''y'', 3, True)] (snd (create ''p'' 1 (provision_parent demo_env demo_machine demo_valid ''ann'') demo_store))))"
  by code_simp


lemma started_moves:
  assumes "wf_store (q_store q)"
    and "start_provision_pipeline env m v skip by' fuel now ((i, created, True) # ds) q = Some (Some x, q')" and "get (q_store q) i = None"
  shows "q' \<noteq> q"
proof -
  obtain st' new where "rows st' = rows (q_store q) @ new_row i created (provision_parent env m v by') # new"
    and s: "q_store q' = st' \<or> (\<exists>meta. q_store q' = snd (update_metadata i meta now st'))"
    using pipeline_rows [OF assms(1,2) TrueI assms(3)] by auto
  then have "length (rows st') > length (rows (q_store q))" by simp
  moreover have "length (rows (q_store q')) = length (rows st')" using s by (auto simp: update_metadata_def Let_def)
  ultimately show ?thesis by auto
qed

lemma started_if:
  assumes "get (q_store q) i = None"
    and "\<not> cs_failed (fst (build_provision_chain env m v skip i by' now ds (snd (create i created (provision_parent env m v by') (q_store q)))))"
  shows "\<exists>chain skipped q'. start_provision_pipeline env m v skip by' fuel now ((i, created, True) # ds) q = Some (Some (i, chain, skipped), q')"
proof -
  let ?nt = "provision_parent env m v by'"
  obtain st where st: "create i created ?nt (q_store q) = (Inr (new_row i created ?nt), st)"
    by (simp add: create_def assms(1) Let_def)
  have i: "task_id (new_row i created ?nt) = i" by (simp add: new_row_def)
  show ?thesis using assms(2) by (simp add: start_provision_pipeline_def st i split_beta Let_def)
qed

lemma demo_started: "\<exists>chain skipped q'. start_provision_pipeline demo_env demo_machine demo_valid False ''ann'' 5 9
    [(''p'', 1, True), (''x'', 2, True), (''y'', 3, True)] demo_queue = Some (Some (''p'', chain, skipped), q')"
  by (rule started_if) (use demo_chain demo_fresh in \<open>simp_all add: demo_queue_def\<close>)

theorem pipeline_inserts_plan_witness:
  "\<exists>chain skipped q' p new. start_provision_pipeline demo_env demo_machine demo_valid False ''ann'' 5 9
       [(''p'', 1, True), (''x'', 2, True), (''y'', 3, True)] demo_queue = Some (Some (''p'', chain, skipped), q')
     \<and> rows (q_store q') = rows demo_store @ p # new
     \<and> map spec_of new = [(''machine_wait_ssh'', Some ''ipportcredentials''), (''machine_shell'', Some ''ipportcredentialsscriptfinal'')]"
proof -
  obtain chain skipped q' where r: "start_provision_pipeline demo_env demo_machine demo_valid False ''ann'' 5 9
    [(''p'', 1, True), (''x'', 2, True), (''y'', 3, True)] demo_queue = Some (Some (''p'', chain, skipped), q')"
    using demo_started by blast
  have s: "q_store demo_queue = demo_store" by (simp add: demo_queue_def)
  have wf: "wf_store (q_store demo_queue)" using demo_wf by (simp only: s)
  from pipeline_inserts_plan [OF wf r]
  have "\<exists>p new. rows (q_store q') = rows demo_store @ p # new \<and> map spec_of new =
    [(''machine_wait_ssh'', Some ''ipportcredentials''), (''machine_shell'', Some ''ipportcredentialsscriptfinal'')]"
    unfolding demo_plan s by (elim exE conjE) (intro exI conjI)
  with r show ?thesis by (elim exE conjE) (intro exI conjI)
qed




subsection \<open>The final stamp\<close>

text \<open>
  The metadata is text; \<open>reads\<close> is what a reader of the member \<open>final\<close> sees of it.
\<close>

definition stamped :: "(string \<Rightarrow> bool) \<Rightarrow> spec \<Rightarrow> bool" where
  "stamped reads s = (case snd s of None \<Rightarrow> False | Some meta \<Rightarrow> reads meta)"

definition sealed :: "('a \<Rightarrow> bool) \<Rightarrow> 'a list \<Rightarrow> bool" where
  "sealed P xs \<longleftrightarrow> (\<exists>before l. xs = before @ [l] \<and> P l \<and> \<not> list_ex P before)"

lemma sealed_append: "\<not> list_ex P xs \<Longrightarrow> sealed P ys \<Longrightarrow> sealed P (xs @ ys)"
  unfolding sealed_def by (metis append.assoc list_ex_append)

lemma map_of_updates:
  "k \<notin> fst ` set xs \<Longrightarrow> map_of (fold (\<lambda>(k, x). AList.update k x) xs base) k = map_of base k"
  by (induction xs arbitrary: base) (auto simp: update_conv')

definition reads_final :: "provision_env \<Rightarrow> (string \<Rightarrow> bool) \<Rightarrow> bool" where
  "reads_final env reads \<longleftrightarrow> (\<forall>kvs. reads (pe_json env (JObj kvs)) \<longleftrightarrow> map_of kvs ''final'' = Some (JBool True))"

lemma child_stamp:
  assumes "reads_final env reads" and "''final'' \<notin> fst ` set extra"
  shows "reads (child_metadata env v (extra @ final_mark b)) \<longleftrightarrow> b"
  using assms(1) map_of_updates [OF assms(2)]
  by (simp add: reads_final_def child_metadata_def final_mark_def update_conv' put_str_def)

lemma child_unstamped:
  "reads_final env reads \<Longrightarrow> ''final'' \<notin> fst ` set extra \<Longrightarrow> \<not> reads (child_metadata env v extra)"
  using child_stamp [of env reads extra v False] by (simp add: final_mark_def)

lemma enumerate_snoc: "enumerate 0 (xs @ [x]) = enumerate 0 xs @ [(length xs, x)]"
  by (simp add: enumerate_append_eq)

lemma bracket_stamp:
  assumes r: "reads_final env reads" and f: "folders \<noteq> []"
  shows "if stamp then sealed (stamped reads) (bracket_plan env v pop cop folders stamp)
    else \<not> list_ex (stamped reads) (bracket_plan env v pop cop folders stamp)"
proof -
  have anchor: "\<not> reads (pe_json env (JObj [(''total_folders'', JInt n)]))" for n using r by (simp add: reads_final_def)
  have child: "reads (child_metadata env v ((''folder'', x) # final_mark b)) \<longleftrightarrow> b" for x b
    using child_stamp [OF r, of "[(''folder'', x)]"] by simp
  obtain fs g where fs: "folders = fs @ [g]" using f by (metis rev_exhaust)
  let ?anchor = "(pop, Some (pe_json env (JObj [(''total_folders'', JInt (int (length folders)))])))"
  let ?row = "\<lambda>(i, f). (cop, Some (child_metadata env v ((''folder'', folder_json f) # final_mark (stamp \<and> i = length folders - 1))))"
  have plan: "bracket_plan env v pop cop folders stamp = (?anchor # map ?row (enumerate 0 fs)) @ [?row (length fs, g)]"
    by (simp add: bracket_plan_def fs enumerate_snoc)
  have "\<not> list_ex (stamped reads) (map ?row (enumerate 0 fs))"
    by (auto simp: list_ex_iff stamped_def child fs in_set_enumerate_eq)
  then have "\<not> list_ex (stamped reads) (?anchor # map ?row (enumerate 0 fs))"
    using anchor by (simp add: stamped_def)
  moreover have "stamped reads (?row (length fs, g)) \<longleftrightarrow> stamp" by (simp add: stamped_def child fs)
  ultimately show ?thesis unfolding plan sealed_def by auto
qed

text \<open>No step of the walk carries a member of that name itself.\<close>

lemma walk_extras: "w \<in> set (fst (plan_walk e v narrow)) \<Longrightarrow> ''final'' \<notin> fst ` set (ws_extra w)"
proof -
  have batch: "''final'' \<notin> fst ` set (ws_extra w)"
    if "w \<in> set (batch ops label info)" "\<forall>(oper, extra)\<in>set ops. ''final'' \<notin> fst ` set extra" for ops label info
  proof -
    have "\<forall>x\<in>set ops. \<forall>y\<in>set (snd x). fst y \<noteq> ''final''" using that(2) by force
    then have "\<forall>y\<in>set (ws_extra w). fst y \<noteq> ''final''" using that(1) by (fastforce simp: batch_def in_set_enumerate_eq dest: nth_mem)
    then show ?thesis by auto
  qed
  have hooks: "''final'' \<notin> fst ` set (ws_extra w)" if "w \<in> set (hook_steps hs label)" for hs label
    using that unfolding hook_steps_def by (rule batch) auto
  have ansible: "''final'' \<notin> fst ` set (ws_extra w)" if "w \<in> set (fst (ansible_batch winrm nw ps))" for winrm nw ps
    using that by (auto simp: ansible_batch_def winnow_local_def playbook_steps_def response_only_def Let_def split: if_splits dest!: batch)
  have ansible': False if "ansible_batch winrm nw ps = (steps, n)" "w \<in> set steps" "(''final'', b) \<in> set (ws_extra w)" for winrm nw ps steps n b
    using that ansible [of winrm nw ps] by force
  have methods: "''final'' \<notin> fst ` set (ws_extra w)" if "w \<in> set (fst (method_steps e v narrow key))" for key
    using that ansible by (auto simp: method_steps_def response_only_def Let_def split: if_splits prod.splits dest!: batch dest: ansible')
  assume "w \<in> set (fst (plan_walk e v narrow))"
  then show ?thesis using hooks methods ansible
    by (auto simp: plan_walk_def Let_def split: if_splits prod.splits dest: ansible')
qed

lemma last_real_snoc:
  "last_real (xs @ [x]) = (if ws_operation x = '''' then last_real xs else Some (length xs))"
proof -
  have "(case ys @ [y] of [] \<Rightarrow> None | zs \<Rightarrow> Some (fst (last zs))) = Some (fst y)" for ys and y :: "nat \<times> walk_step"
    by (cases ys) auto
  then show ?thesis by (simp add: last_real_def enumerate_snoc)
qed

lemma last_real_split:
  assumes "last_real walk = Some i"
  shows "\<exists>us w vs. walk = us @ w # vs \<and> i = length us \<and> ws_operation w \<noteq> '''' \<and> (\<forall>x\<in>set vs. ws_operation x = '''')"
  using assms
proof (induction walk rule: rev_induct)
  case (snoc x xs)
  show ?case
  proof (cases "ws_operation x = ''''")
    case True
    then have "last_real xs = Some i" using snoc.prems by (simp add: last_real_snoc)
    then obtain us w vs where "xs = us @ w # vs" "i = length us" "ws_operation w \<noteq> ''''" "\<forall>x\<in>set vs. ws_operation x = ''''"
      using snoc.IH by blast
    with True show ?thesis by (intro exI [of _ us] exI [of _ w] exI [of _ "vs @ [x]"]) auto
  next
    case False
    then have "i = length xs" using snoc.prems by (simp add: last_real_snoc)
    with False show ?thesis by (intro exI [of _ xs] exI [of _ x] exI [of _ "[]"]) simp
  qed
qed (simp add: last_real_def)

lemma last_real_None: "last_real walk = None \<longleftrightarrow> (\<forall>w\<in>set walk. ws_operation w = '''')"
  by (induction walk rule: rev_induct) (auto simp: last_real_snoc, simp add: last_real_def)

lemma walk_unstamped:
  assumes "reads_final env reads" and "\<forall>w\<in>set walk. ''final'' \<notin> fst ` set (ws_extra w)" and "\<forall>i<length walk. \<not> final i"
  shows "\<not> list_ex (stamped reads) (walk_plan env v final walk)"
  using assms(2,3) child_stamp [OF assms(1)]
  by (auto simp: walk_plan_def list_ex_iff stamped_def in_set_enumerate_eq split: if_splits)

lemma walk_stamp:
  assumes r: "reads_final env reads" and x: "\<forall>w\<in>set walk. ''final'' \<notin> fst ` set (ws_extra w)" and l: "last_real walk = Some i"
  shows "sealed (stamped reads) (walk_plan env v (\<lambda>j. last_real walk = Some j) walk)"
proof -
  obtain us w vs where s: "walk = us @ w # vs" "i = length us" "ws_operation w \<noteq> ''''" "\<forall>x\<in>set vs. ws_operation x = ''''"
    using last_real_split [OF l] by blast
  let ?f = "\<lambda>j. last_real walk = Some j"
  have vs: "concat (map (\<lambda>(i, w). if ws_operation w = '''' then [] else [h i w]) (enumerate n vs)) = []"
    for n and h :: "nat \<Rightarrow> walk_step \<Rightarrow> spec"
    using s(4) by (induction vs arbitrary: n) auto
  have "walk_plan env v ?f walk = walk_plan env v ?f us @ [(ws_operation w, Some (child_metadata env v (ws_extra w @ final_mark True)))]"
    using s(2,3) l by (simp add: walk_plan_def s(1) enumerate_append_eq vs del: concat_eq_Nil_conv)
  moreover have "\<not> list_ex (stamped reads) (walk_plan env v ?f us)"
    by (rule walk_unstamped [OF r]) (use x s(2) l in \<open>auto simp: s(1)\<close>)
  moreover have "stamped reads (ws_operation w, Some (child_metadata env v (ws_extra w @ final_mark True)))"
    using child_stamp [OF r, of "ws_extra w"] x by (simp add: stamped_def s(1))
  ultimately show ?thesis unfolding sealed_def by blast
qed

lemma head_unstamped: "reads_final env reads \<Longrightarrow> \<not> list_ex (stamped reads) (head_plan env m v skip)"
  using child_unstamped [of env reads "[]" v] by (auto simp: head_plan_def stamped_def reads_final_def)

lemma tail_unstamped: "reads_final env reads \<Longrightarrow> \<not> list_ex (stamped reads) (rotate_plan env v @ cycle_plan env v)"
  using child_unstamped [of env reads "[(''key_path'', x)]" v for x] by (auto simp: rotate_plan_def cycle_plan_def stamped_def Let_def)

lemma tail_operations: "x \<in> set (rotate_plan env v @ cycle_plan env v) \<Longrightarrow>
  fst x \<in> {''machine_key_rotate'', ''stop'', ''machine_transport_remove'', ''start''}"
  by (auto simp: rotate_plan_def cycle_plan_def Let_def split: if_splits)

text \<open>
  C19: of the tasks a provisioning request inserts, exactly one carries the mark \<open>final\<close> when the document
  has anything to run or to synchronise, and only the key rotation and the power cycle follow it; none carries it otherwise.
\<close>
theorem final_stamped_once:
  assumes "reads_final env reads"
  shows "if final_owner_of (pv_winrm_used v) (provisioner_folders (pe_doc env) (pv_provisioner v))
        (syncback_folders (pe_doc env) (provisioner_folders (pe_doc env) (pv_provisioner v))) (fst (plan_walk (pe_doc env) v None)) = NoOwner
    then \<forall>s\<in>set (provision_plan env m v skip). \<not> stamped reads s
    else \<exists>before l after. provision_plan env m v skip = before @ l # after \<and> stamped reads l
      \<and> (\<forall>s\<in>set (before @ after). \<not> stamped reads s)
      \<and> (\<forall>s\<in>set after. fst s \<in> {''machine_key_rotate'', ''stop'', ''machine_transport_remove'', ''start''})"
proof -
  let ?folders = "provisioner_folders (pe_doc env) (pv_provisioner v)"
  let ?backs = "syncback_folders (pe_doc env) ?folders" and ?walk = "fst (plan_walk (pe_doc env) v None)"
  let ?owner = "final_owner_of (pv_winrm_used v) ?folders ?backs ?walk"
  define A where "A = head_plan env m v skip"
  define B where "B = (if ?folders = [] \<or> pv_winrm_used v then []
    else bracket_plan env v ''machine_sync_parent'' ''machine_sync'' ?folders (?owner = SyncOwner))"
  define C where "C = walk_plan env v (\<lambda>i. ?owner = WalkOwner \<and> last_real ?walk = Some i) ?walk"
  define D where "D = (if ?backs = [] \<or> pv_winrm_used v then []
    else bracket_plan env v ''machine_syncback_parent'' ''machine_syncback'' ?backs (?owner = SyncbackOwner))"
  define T where "T = rotate_plan env v @ cycle_plan env v"
  have plan: "provision_plan env m v skip = (A @ B @ C @ D) @ T"
    by (simp add: provision_plan_def Let_def A_def B_def C_def D_def T_def)
  have A: "\<not> list_ex (stamped reads) A" unfolding A_def by (rule head_unstamped [OF assms])
  have T: "\<not> list_ex (stamped reads) T" unfolding T_def by (rule tail_unstamped [OF assms])
  have T': "\<forall>s\<in>set T. fst s \<in> {''machine_key_rotate'', ''stop'', ''machine_transport_remove'', ''start''}"
    using tail_operations by (auto simp: T_def)
  note B = bracket_stamp [OF assms, of ?folders "?owner = SyncOwner" v "''machine_sync_parent''" "''machine_sync''"]
  note D = bracket_stamp [OF assms, of ?backs "?owner = SyncbackOwner" v "''machine_syncback_parent''" "''machine_syncback''"]
  have x: "\<forall>w\<in>set ?walk. ''final'' \<notin> fst ` set (ws_extra w)" using walk_extras by blast
  have seal: "sealed (stamped reads) (A @ B @ C @ D)" if "?owner \<noteq> NoOwner"
  proof (cases ?owner)
    case SyncbackOwner
    then have "\<not> list_ex (stamped reads) B" "\<not> list_ex (stamped reads) C" "sealed (stamped reads) D"
      using B D walk_unstamped [OF assms x, of "\<lambda>i. False"] unfolding B_def C_def D_def
      by (auto simp: final_owner_of_def split: if_splits)
    with A show ?thesis by (intro sealed_append)
  next
    case WalkOwner
    then obtain i where "last_real ?walk = Some i" by (auto simp: final_owner_of_def split: if_splits)
    from walk_stamp [OF assms x this] WalkOwner have "sealed (stamped reads) C" by (simp add: C_def)
    moreover have "\<not> list_ex (stamped reads) B" "D = []"
      using WalkOwner B unfolding B_def D_def by (auto simp: final_owner_of_def split: if_splits)
    ultimately show ?thesis using A by (auto intro!: sealed_append)
  next
    case SyncOwner
    then have "last_real ?walk = None" "D = []" "?folders \<noteq> []" "\<not> pv_winrm_used v"
      by (auto simp: final_owner_of_def D_def split: if_splits)
    then have "C = []" "sealed (stamped reads) B" "D = []" 
      using B SyncOwner by (auto simp: B_def C_def walk_plan_def last_real_None in_set_enumerate_eq)
    with A show ?thesis by (auto intro!: sealed_append)
  qed (use that in simp)
  have none: "\<not> list_ex (stamped reads) (A @ B @ C @ D)" if "?owner = NoOwner"
    using that A B D walk_unstamped [OF assms x, of "\<lambda>i. False"] unfolding B_def C_def D_def by auto
  show ?thesis
  proof (cases "?owner = NoOwner")
    case True
    then show ?thesis using none T by (auto simp: plan list_ex_iff)
  next
    case False
    then obtain before l where "A @ B @ C @ D = before @ [l]" "stamped reads l" "\<not> list_ex (stamped reads) before"
      using seal by (auto simp: sealed_def)
    then show ?thesis using False T T'
      by (simp only: plan if_False) (intro exI [of _ before] exI [of _ l] exI [of _ T], auto simp: list_ex_iff)
  qed
qed

definition mark_env :: provision_env where
  "mark_env = demo_env\<lparr>pe_json := \<lambda>j. case j of JObj kvs \<Rightarrow> if map_of kvs ''final'' = Some (JBool True) then ''final'' else '''' | _ \<Rightarrow> ''''\<rparr>"

theorem final_stamped_once_witness:
  "\<exists>before l after. provision_plan mark_env demo_machine demo_valid False = before @ l # after
     \<and> stamped (\<lambda>s. s = ''final'') l \<and> (\<forall>s\<in>set (before @ after). \<not> stamped (\<lambda>s. s = ''final'') s)"
proof -
  have r: "reads_final mark_env (\<lambda>s. s = ''final'')" by (simp add: reads_final_def mark_env_def)
  have "final_owner_of (pv_winrm_used demo_valid) (provisioner_folders (pe_doc mark_env) (pv_provisioner demo_valid))
      (syncback_folders (pe_doc mark_env) (provisioner_folders (pe_doc mark_env) (pv_provisioner demo_valid)))
      (fst (plan_walk (pe_doc mark_env) demo_valid None)) = WalkOwner"
    by code_simp
  with final_stamped_once [OF r, of demo_valid demo_machine False] show ?thesis
    by (simp only: final_owner.simps if_False) blast
qed

subsection \<open>Hooks on the host\<close>

definition seeded_family :: "provision_env \<Rightarrow> prov_machine \<Rightarrow> bool" where
  "seeded_family env m \<longleftrightarrow> has_provisioner m \<and> (case pm_spec m of Some (name, r) \<Rightarrow> name \<in> set (pe_seeded env) | None \<Rightarrow> False)"

lemma preflight_passed:
  assumes "host_hooks_preflight env v confirm m = (Inr False, m')" and "has_host_hooks (pe_doc env) (pv_provisioner v)"
    and "pv_config v = pm_config m"
  shows "pe_host_hooks env \<and> (true_flag (field (pm_config m') ''host_hooks_confirmed'') \<or> seeded_family env m)"
  using assms by (auto simp: host_hooks_preflight_def seeded_family_def true_flag_def field_def update_conv' split: if_splits option.splits)

lemma validated_config: "validate_provision_request env m = Inr v \<Longrightarrow>
    pv_config v = pm_config m \<and> pv_provisioner v = sub_doc (pm_config m) ''provisioner''"
  by (auto simp: validate_provision_request_def Let_def split: if_splits sum.splits option.splits prod.splits)

lemma resolved_config: "resolve_transport env v = Inr v' \<Longrightarrow> pv_config v' = pv_config v \<and> pv_provisioner v' = pv_provisioner v"
  by (auto simp: resolve_transport_def Let_def split: if_splits)

text \<open>
  C7: a full provisioning request over a document with hooks that run on the host inserts no task unless the host allows
  such hooks and the machine's family is seeded or the confirmation is recorded on the machine.
\<close>
theorem host_hooks_gated:
  assumes req: "rq_roles rq = []" "rq_scripts rq = []" "rq_playbook rq = ''''"
    and hooks: "has_host_hooks (pe_doc env) (sub_doc (pm_config m) ''provisioner'')"
    and run: "handle_provision env m rq by' fuel now draws q = Some (answer, m', q')" "q' \<noteq> q"
  shows "pe_host_hooks env \<and> (true_flag (field (pm_config m') ''host_hooks_confirmed'') \<or> seeded_family env m)"
proof -
  obtain v0 where v0: "validate_provision_request env m = Inr v0"
    using run by (auto simp: handle_provision_def split: sum.splits)
  have full: "narrow_of (pe_doc env) rq v0 = Inr None" by (simp add: narrow_of_def req)
  obtain v where v: "resolve_transport env v0 = Inr v"
    using run by (auto simp: handle_provision_def v0 full split: sum.splits)
  have c: "pv_config v = pm_config m" "has_host_hooks (pe_doc env) (pv_provisioner v)"
    using validated_config [OF v0] resolved_config [OF v] hooks by simp_all
  obtain r m1 where p: "host_hooks_preflight env v (rq_confirm rq) m = (r, m1)" by (cases "host_hooks_preflight env v (rq_confirm rq) m")
  have "r = Inr False \<and> m' = m1"
    using run by (auto simp: handle_provision_def v0 full v p split: sum.splits bool.splits)
  with preflight_passed [OF _ c(2,1)] p show ?thesis by simp
qed

definition hook_machine :: prov_machine where
  "hook_machine = \<lparr>pm_name = ''web'', pm_status = ''running'', pm_spec = None,
     pm_config = [(''settings'', JObj [(''vagrant_user'', JStr ''root'')]),
       (''provisioner'', JObj [(''provisioning'', JObj [(''pre'', JArr [JObj [(''script'', JStr ''wipe.sh''), (''target'', JStr ''host'')]]),
          (''shell'', JObj [(''enabled'', JBool True), (''scripts'', JArr [JStr ''setup.sh''])])])])]\<rparr>"

definition hook_env :: provision_env where
  "hook_env = demo_env\<lparr>pe_host_hooks := True\<rparr>"

definition hook_valid :: provision_validation where
  "hook_valid = (case validate_provision_request hook_env hook_machine of Inr v \<Rightarrow> (case resolve_transport hook_env v of Inr v' \<Rightarrow> v' | _ \<Rightarrow> demo_valid) | _ \<Rightarrow> demo_valid)"

definition full_request :: "bool \<Rightarrow> provision_request" where
  "full_request confirm = \<lparr>rq_skip_boot = False, rq_confirm = confirm, rq_roles = [], rq_scripts = [], rq_playbook = ''''\<rparr>"


theorem host_hooks_gated_witness:
  "\<exists>answer m' q'. handle_provision hook_env hook_machine (full_request True) ''ann'' 5 9
       [(''p'', 1, True), (''x'', 2, True), (''y'', 3, True), (''z'', 4, True)] demo_queue = Some (answer, m', q')
     \<and> true_flag (field (pm_config m') ''host_hooks_confirmed'')"
proof -
  let ?draws = "[(''p'', 1, True), (''x'', 2, True), (''y'', 3, True), (''z'', 4, True)]"
  let ?nt = "provision_parent hook_env hook_machine hook_valid ''ann''"
  have pre: "case validate_provision_request hook_env hook_machine of Inl p \<Rightarrow> False | Inr v0 \<Rightarrow>
     narrow_of (pe_doc hook_env) (full_request True) v0 = Inr None \<and> resolve_transport hook_env v0 = Inr hook_valid"
    by code_simp
  then obtain v0 where v0: "validate_provision_request hook_env hook_machine = Inr v0" "narrow_of (pe_doc hook_env) (full_request True) v0 = Inr None"
    "resolve_transport hook_env v0 = Inr hook_valid"
    by (auto split: sum.splits)
  have gate: "fst (host_hooks_preflight hook_env hook_valid True hook_machine) = Inr False" by code_simp
  have ok: "\<not> cs_failed (fst (build_provision_chain hook_env hook_machine hook_valid False ''p'' ''ann'' 9 (tl ?draws)
      (snd (create ''p'' 1 ?nt demo_store))))"
    by code_simp
  have s: "q_store demo_queue = demo_store" by (simp add: demo_queue_def)
  obtain chain skipped q' where run: "start_provision_pipeline hook_env hook_machine hook_valid False ''ann'' 5 9 ?draws demo_queue
      = Some (Some (''p'', chain, skipped), q')"
    using started_if [of demo_queue "''p''" hook_env hook_machine hook_valid False "''ann''" 9 "tl ?draws" 1 5] ok demo_fresh s by auto
  have wf: "wf_store (q_store demo_queue)" using demo_wf by (simp only: s)
  have new: "q' \<noteq> demo_queue" by (rule started_moves [OF wf run]) (simp only: s demo_fresh)
  obtain m' where m': "host_hooks_preflight hook_env hook_valid True hook_machine = (Inr False, m')"
    using gate by (cases "host_hooks_preflight hook_env hook_valid True hook_machine") auto
  have h: "handle_provision hook_env hook_machine (full_request True) ''ann'' 5 9 ?draws demo_queue
      = Some (ProvisionStarted ''p'' chain skipped, m', q')"
  proof -
    have "rq_confirm (full_request True)" "\<not> rq_skip_boot (full_request True)" by (simp_all add: full_request_def)
    then show ?thesis using v0 m' run by (simp add: handle_provision_def)
  qed
  have "has_host_hooks (pe_doc hook_env) (sub_doc (pm_config hook_machine) ''provisioner'')" by code_simp
  from host_hooks_gated [OF _ _ _ this h new]
  have "true_flag (field (pm_config m') ''host_hooks_confirmed'')"
    by (simp add: full_request_def seeded_family_def has_provisioner_def hook_machine_def)
  with h show ?thesis by blast
qed

end
