(* ===== verification/MachineStore.thy ===== *)
theory MachineStore
  imports Texts TaskQueue
begin

text \<open>
  The machine registry (\<^verbatim>\<open>machines/store.go\<close>, \<^verbatim>\<open>hostdoc_store.go\<close>, \<^verbatim>\<open>store_serverid.go\<close>): one table of machines, the
  discovery upsert, the two orphan statements and the writes of single sections of a row's configuration. A stored document is
  its parsed value, absent or any value; a text that does not parse is a value that is no object, which every reader
  takes for an empty document. Objects stand for their lookup function, so the order in which a document is printed is not
  modelled. A section stored as null reads as an empty one (the code's map is nil then, and writing a member panics). A statement fails where a constraint of the table refuses it; a database that cannot be read or written is not modelled.
\<close>

subsection \<open>Rows\<close>

record mrow =
  mr_id :: nat
  mr_name :: string
  mr_host :: string
  mr_status :: string
  mr_backing :: string
  mr_hypervisor :: string
  mr_home :: "string option"
  mr_uuid :: "string option"
  mr_server_id :: "string option"
  mr_orphaned :: bool
  mr_auto :: bool
  mr_last_seen :: "time option"
  mr_notes :: "string option"
  mr_tags :: "json option"
  mr_config :: "json option"
  mr_spec :: "json option"
  mr_created :: time
  mr_updated :: time

text \<open>The table, the next row id (ids are never used again) and how often the change hook ran.\<close>

record mstore =
  ms_rows :: "mrow list"
  ms_next :: nat
  ms_changes :: nat

datatype mstore_error = MachineNotFound | UniqueViolation

definition hv_virtualbox :: string where "hv_virtualbox = ''virtualbox''"
definition hv_utm :: string where "hv_utm = ''utm''"
definition backing_vagrant :: string where "backing_vagrant = ''vagrant''"
definition backing_vbox :: string where "backing_vbox = ''vbox''"

definition vbox_target :: "mrow \<Rightarrow> string" where
  "vbox_target r = (case mr_uuid r of Some u \<Rightarrow> if u \<noteq> '''' then u else mr_name r | None \<Rightarrow> mr_name r)"

text \<open>A machine the provisioning pipeline drives.\<close>

definition provisioned :: "mrow \<Rightarrow> bool" where
  "provisioned r \<longleftrightarrow> mr_spec r \<noteq> None \<and> (case mr_home r of Some h \<Rightarrow> h \<noteq> '''' | None \<Rightarrow> False)"

definition map_vbox_state :: "string \<Rightarrow> string" where
  "map_vbox_state s =
    (if s = ''running'' then ''running''
     else if s = ''poweroff'' \<or> s = ''powered off'' then ''stopped''
     else if s = ''saved'' then ''suspended''
     else if s = ''paused'' then ''paused''
     else if s = ''aborted'' \<or> s = ''aborted-saved'' then ''aborted''
     else if s = ''starting'' \<or> s = ''restoring'' then ''starting''
     else if s = ''stopping'' \<or> s = ''saving'' then ''stopping''
     else ''unknown'')"

text \<open>Lower-casing is an argument.\<close>

definition map_utm_state :: "(string \<Rightarrow> string) \<Rightarrow> string \<Rightarrow> string" where
  "map_utm_state lower s =
    (let l = lower (trim_space s) in
     if l = ''started'' then ''running''
     else if l = ''stopped'' then ''stopped''
     else if l = ''paused'' then ''paused''
     else if l = ''starting'' then ''starting''
     else ''unknown'')"

subsection \<open>Reading\<close>

definition find_row :: "(mrow \<Rightarrow> bool) \<Rightarrow> mstore \<Rightarrow> mrow option" where
  "find_row P st = find P (ms_rows st)"

definition get_machine :: "string \<Rightarrow> mstore \<Rightarrow> mrow option" where
  "get_machine name st = find_row (\<lambda>r. mr_name r = name) st"

record machine_filter =
  mf_status :: string
  mf_orphaned :: "bool option"

definition list_machines :: "machine_filter \<Rightarrow> mstore \<Rightarrow> mrow list" where
  "list_machines f st = sort_key mr_name (filter (\<lambda>r. (mf_status f \<noteq> '''' \<longrightarrow> mr_status r = mf_status f)
     \<and> (case mf_orphaned f of None \<Rightarrow> True | Some b \<Rightarrow> mr_orphaned r = b)) (ms_rows st))"

definition all_machines :: machine_filter where
  "all_machines = \<lparr>mf_status = '''', mf_orphaned = None\<rparr>"

subsection \<open>Statements\<close>

definition m_changed :: "mstore \<Rightarrow> mstore" where
  "m_changed st = st\<lparr>ms_changes := Suc (ms_changes st)\<rparr>"

definition m_update :: "(mrow \<Rightarrow> bool) \<Rightarrow> (mrow \<Rightarrow> mrow) \<Rightarrow> mstore \<Rightarrow> mstore" where
  "m_update P f st = st\<lparr>ms_rows := sql_update P f (ms_rows st)\<rparr>"

definition require_machine :: "string \<Rightarrow> mstore \<Rightarrow> mstore_error option" where
  "require_machine name st = (if sql_affected (\<lambda>r. mr_name r = name) (ms_rows st) = 0 then Some MachineNotFound else None)"

text \<open>An update by name that answers whether there was such a row.\<close>

definition set_by_name :: "string \<Rightarrow> (mrow \<Rightarrow> mrow) \<Rightarrow> mstore \<Rightarrow> mstore_error option \<times> mstore" where
  "set_by_name name f st = (require_machine name st, m_update (\<lambda>r. mr_name r = name) f st)"

definition set_configuration :: "string \<Rightarrow> obj \<Rightarrow> time \<Rightarrow> mstore \<Rightarrow> mstore_error option \<times> mstore" where
  "set_configuration name cfg now = set_by_name name (\<lambda>r. r\<lparr>mr_config := Some (JObj cfg), mr_updated := now\<rparr>)"

record new_machine =
  nm_name :: string
  nm_host :: string
  nm_home :: string
  nm_server_id :: string
  nm_hypervisor :: string
  nm_spec :: json

definition or_virtualbox :: "string \<Rightarrow> string" where
  "or_virtualbox h = (if h = '''' then hv_virtualbox else h)"

definition created_row :: "nat \<Rightarrow> time \<Rightarrow> new_machine \<Rightarrow> mrow" where
  "created_row i now nm = \<lparr>mr_id = i, mr_name = nm_name nm, mr_host = nm_host nm, mr_status = ''configured'',
     mr_backing = backing_vagrant, mr_hypervisor = or_virtualbox (nm_hypervisor nm), mr_home = Some (nm_home nm), mr_uuid = None,
     mr_server_id = Some (nm_server_id nm), mr_orphaned = False, mr_auto = False, mr_last_seen = None, mr_notes = None, mr_tags = None,
     mr_config = None, mr_spec = Some (nm_spec nm), mr_created = now, mr_updated = now\<rparr>"

definition create_machine :: "time \<Rightarrow> new_machine \<Rightarrow> mstore \<Rightarrow> mstore_error option \<times> mstore" where
  "create_machine now nm st =
    (if list_ex (\<lambda>r. mr_name r = nm_name nm \<or> mr_server_id r = Some (nm_server_id nm)) (ms_rows st) then (Some UniqueViolation, st)
     else (None, m_changed (st\<lparr>ms_rows := ms_rows st @ [created_row (ms_next st) now nm], ms_next := Suc (ms_next st)\<rparr>)))"

definition set_spec :: "string \<Rightarrow> json \<Rightarrow> string \<Rightarrow> time \<Rightarrow> mstore \<Rightarrow> mstore_error option \<times> mstore" where
  "set_spec name spec sid now st =
    (if list_ex (\<lambda>r. mr_name r = name) (ms_rows st)
        \<and> list_ex (\<lambda>r. mr_name r \<noteq> name \<and> mr_server_id r = Some sid) (ms_rows st) then (Some UniqueViolation, st)
     else set_by_name name (\<lambda>r. r\<lparr>mr_spec := Some spec, mr_server_id := Some sid, mr_updated := now\<rparr>) st)"

definition set_uuid :: "string \<Rightarrow> string \<Rightarrow> time \<Rightarrow> mstore \<Rightarrow> mstore_error option \<times> mstore" where
  "set_uuid name u now = set_by_name name (\<lambda>r. r\<lparr>mr_uuid := Some u, mr_updated := now\<rparr>)"

definition set_notes :: "string \<Rightarrow> string option \<Rightarrow> time \<Rightarrow> mstore \<Rightarrow> mstore_error option \<times> mstore" where
  "set_notes name notes now = set_by_name name (\<lambda>r. r\<lparr>mr_notes := notes, mr_updated := now\<rparr>)"

definition set_tags :: "string \<Rightarrow> json option \<Rightarrow> time \<Rightarrow> mstore \<Rightarrow> mstore_error option \<times> mstore" where
  "set_tags name tags now = set_by_name name (\<lambda>r. r\<lparr>mr_tags := tags, mr_updated := now\<rparr>)"

definition set_orphaned :: "string \<Rightarrow> bool \<Rightarrow> time \<Rightarrow> mstore \<Rightarrow> mstore" where
  "set_orphaned name b now = m_update (\<lambda>r. mr_name r = name) (\<lambda>r. r\<lparr>mr_orphaned := b, mr_updated := now\<rparr>)"

definition set_machine_status :: "string \<Rightarrow> string \<Rightarrow> time \<Rightarrow> mstore \<Rightarrow> mstore" where
  "set_machine_status name s now st =
    (let st' = m_update (\<lambda>r. mr_name r = name) (\<lambda>r. r\<lparr>mr_status := s, mr_last_seen := Some now, mr_updated := now\<rparr>) st
     in case get_machine name st of
       Some r \<Rightarrow> if mr_status r \<noteq> s then m_changed st' else st'
     | None \<Rightarrow> st')"

definition delete_machine :: "string \<Rightarrow> mstore \<Rightarrow> mstore_error option \<times> mstore" where
  "delete_machine name st =
    (case require_machine name st of
       Some e \<Rightarrow> (Some e, st)
     | None \<Rightarrow> (None, m_changed (st\<lparr>ms_rows := sql_delete (\<lambda>r. mr_name r = name) (ms_rows st)\<rparr>)))"

subsection \<open>Sections of the configuration\<close>

definition preserved_keys :: "string list" where
  "preserved_keys = [''settings'', ''zones'', ''networks'', ''disks'', ''metadata'', ''provisioner'', ''provisioner_state'',
     ''pending_changes'', ''guest_info'', ''snapshots'', ''host_hooks_confirmed'', ''credentials'']"

definition doc_sections :: "json option \<Rightarrow> obj" where
  "doc_sections d = (case d of Some (JObj m) \<Rightarrow> m | _ \<Rightarrow> [])"

definition section_map :: "obj \<Rightarrow> string \<Rightarrow> obj" where
  "section_map sections k = (case map_of sections k of Some (JObj m) \<Rightarrow> m | _ \<Rightarrow> [])"

text \<open>The live view laid over the stored document; a preserved key of the stored document stays unless the live view has it.\<close>

definition merge_live :: "json option \<Rightarrow> json \<Rightarrow> json" where
  "merge_live existing live = JObj (fold (\<lambda>k m. case map_of (doc_sections existing) k of
       Some v \<Rightarrow> if map_of m k = None then AList.update k v m else m | None \<Rightarrow> m)
     preserved_keys (doc_sections (Some live)))"

text \<open>Every write of a section reads the row, changes the section and stores the document.\<close>

definition edit_sections :: "string \<Rightarrow> (obj \<Rightarrow> obj) \<Rightarrow> time \<Rightarrow> mstore \<Rightarrow> mstore_error option \<times> mstore" where
  "edit_sections name f now st =
    (case get_machine name st of
       None \<Rightarrow> (Some MachineNotFound, st)
     | Some r \<Rightarrow> set_configuration name (f (doc_sections (mr_config r))) now st)"

text \<open>Dropping a section that is not there writes nothing.\<close>

definition drop_section :: "string \<Rightarrow> string \<Rightarrow> time \<Rightarrow> mstore \<Rightarrow> mstore_error option \<times> mstore" where
  "drop_section name k now st =
    (case get_machine name st of
       None \<Rightarrow> (Some MachineNotFound, st)
     | Some r \<Rightarrow> if map_of (doc_sections (mr_config r)) k = None then (None, st) else edit_sections name (AList.delete k) now st)"

definition stamp_provisioner_state :: "string \<Rightarrow> string \<Rightarrow> time \<Rightarrow> mstore \<Rightarrow> mstore_error option \<times> mstore" where
  "stamp_provisioner_state name stamp = edit_sections name (\<lambda>s. AList.update ''provisioner_state''
     (JObj (AList.update ''last_provisioned_at'' (JStr stamp) (section_map s ''provisioner_state''))) s)"

definition set_or_drop :: "string \<Rightarrow> string \<Rightarrow> obj option \<Rightarrow> time \<Rightarrow> mstore \<Rightarrow> mstore_error option \<times> mstore" where
  "set_or_drop k name v = (case v of None \<Rightarrow> drop_section name k | Some m \<Rightarrow> edit_sections name (AList.update k (JObj m)))"

definition set_guest_info :: "string \<Rightarrow> obj option \<Rightarrow> time \<Rightarrow> mstore \<Rightarrow> mstore_error option \<times> mstore" where
  "set_guest_info = set_or_drop ''guest_info''"

definition set_snapshot_policy :: "string \<Rightarrow> obj option \<Rightarrow> time \<Rightarrow> mstore \<Rightarrow> mstore_error option \<times> mstore" where
  "set_snapshot_policy = set_or_drop ''snapshots''"

definition merge_sections :: "string \<Rightarrow> obj \<Rightarrow> time \<Rightarrow> mstore \<Rightarrow> mstore_error option \<times> mstore" where
  "merge_sections name updates = edit_sections name (fold (\<lambda>(k, v). AList.update k v) updates)"

definition settings_edit :: "obj \<Rightarrow> obj \<Rightarrow> obj" where
  "settings_edit keys settings = fold (\<lambda>(k, v). if v = JNull \<or> v = JStr '''' then AList.delete k else AList.update k v) keys settings"

definition merge_settings_keys :: "string \<Rightarrow> obj \<Rightarrow> time \<Rightarrow> mstore \<Rightarrow> mstore_error option \<times> mstore" where
  "merge_settings_keys name keys = edit_sections name (\<lambda>s. AList.update ''settings'' (JObj (settings_edit keys (section_map s ''settings''))) s)"

text \<open>Accrued changes: the last edit of a key wins; the sections of \<open>vbox\<close> merge member by member, its arrays replace.\<close>

definition merge_vbox :: "obj \<Rightarrow> obj \<Rightarrow> obj" where
  "merge_vbox updates old = fold (\<lambda>(k, v) m. case v of
       JObj section \<Rightarrow> AList.update k (JObj (fold (\<lambda>(j, x). AList.update j x) section (section_map m k))) m
     | _ \<Rightarrow> AList.update k v m) updates old"

definition merge_pending :: "obj \<Rightarrow> obj \<Rightarrow> obj" where
  "merge_pending updates pending = fold (\<lambda>(k, v) p. if k \<noteq> ''vbox'' then AList.update k v p
     else AList.update ''vbox'' (JObj (merge_vbox (obj_of v) (section_map p ''vbox''))) p) updates pending"

definition merge_pending_changes :: "string \<Rightarrow> obj \<Rightarrow> time \<Rightarrow> mstore \<Rightarrow> mstore_error option \<times> mstore" where
  "merge_pending_changes name updates = edit_sections name (\<lambda>s. AList.update ''pending_changes''
     (JObj (merge_pending updates (section_map s ''pending_changes''))) s)"

definition clear_pending_changes :: "string \<Rightarrow> time \<Rightarrow> mstore \<Rightarrow> mstore_error option \<times> mstore" where
  "clear_pending_changes name = drop_section name ''pending_changes''"

subsection \<open>Discovery\<close>

record discovered =
  dc_name :: string
  dc_host :: string
  dc_status :: string
  dc_backing :: string
  dc_hypervisor :: string
  dc_home :: "string option"
  dc_uuid :: string
  dc_config :: "json option"

text \<open>SQLite's \<^verbatim>\<open>NOCASE\<close> folds the ASCII letters.\<close>

definition nocase_char :: "char \<Rightarrow> char" where
  "nocase_char c = (if CHR ''A'' \<le> c \<and> c \<le> CHR ''Z'' then char_of (of_char c + 32 :: nat) else c)"

definition nocase_eq :: "string \<Rightarrow> string \<Rightarrow> bool" where
  "nocase_eq a b \<longleftrightarrow> map nocase_char a = map nocase_char b"

definition match_row :: "discovered \<Rightarrow> mstore \<Rightarrow> mrow option" where
  "match_row d st =
    (let by_uuid = (if dc_uuid d = '''' then None else find_row (\<lambda>r. mr_uuid r = Some (dc_uuid d)) st);
         by_home = (case dc_home d of None \<Rightarrow> None
           | Some h \<Rightarrow> find_row (\<lambda>r. mr_uuid r = None \<and> (case mr_home r of Some g \<Rightarrow> nocase_eq g h | None \<Rightarrow> False)) st)
     in case by_uuid of Some r \<Rightarrow> Some r
      | None \<Rightarrow> (case by_home of Some r \<Rightarrow> Some r | None \<Rightarrow> get_machine (dc_name d) st))"

definition refreshed_row :: "discovered \<Rightarrow> time \<Rightarrow> mrow \<Rightarrow> mrow" where
  "refreshed_row d now r = r\<lparr>mr_host := dc_host d, mr_status := dc_status d, mr_backing := dc_backing d,
     mr_hypervisor := or_virtualbox (dc_hypervisor d), mr_home := (case dc_home d of Some h \<Rightarrow> Some h | None \<Rightarrow> mr_home r),
     mr_uuid := Some (dc_uuid d), mr_orphaned := False, mr_last_seen := Some now,
     mr_config := (case dc_config d of Some live \<Rightarrow> Some (merge_live (mr_config r) live) | None \<Rightarrow> mr_config r), mr_updated := now\<rparr>"

definition imported_row :: "discovered \<Rightarrow> nat \<Rightarrow> time \<Rightarrow> mrow" where
  "imported_row d i now = \<lparr>mr_id = i, mr_name = dc_name d, mr_host = dc_host d, mr_status = dc_status d, mr_backing = dc_backing d,
     mr_hypervisor = or_virtualbox (dc_hypervisor d), mr_home = dc_home d, mr_uuid = Some (dc_uuid d), mr_server_id = None,
     mr_orphaned = False, mr_auto = True, mr_last_seen = Some now, mr_notes = None, mr_tags = None, mr_config = dc_config d,
     mr_spec = None, mr_created = now, mr_updated = now\<rparr>"

text \<open>Whether the machine is new, and the store. An insertion is by a name no row has.\<close>

definition upsert_discovered :: "discovered \<Rightarrow> time \<Rightarrow> mstore \<Rightarrow> bool \<times> mstore" where
  "upsert_discovered d now st =
    (case match_row d st of
       Some r \<Rightarrow>
         (let st' = m_update (\<lambda>x. mr_id x = mr_id r) (refreshed_row d now) st
          in (False, if mr_status r \<noteq> dc_status d then m_changed st' else st'))
     | None \<Rightarrow>
         (True, m_changed (st\<lparr>ms_rows := ms_rows st @ [imported_row d (ms_next st) now], ms_next := Suc (ms_next st)\<rparr>)))"

definition mark_missing :: "string list \<Rightarrow> time \<Rightarrow> mstore \<Rightarrow> nat \<times> mstore" where
  "mark_missing seen now st =
    (let P = (\<lambda>r. \<not> mr_orphaned r \<and> mr_uuid r \<noteq> None \<and> mr_name r \<notin> set seen)
     in (sql_affected P (ms_rows st), m_update P (\<lambda>r. r\<lparr>mr_orphaned := True, mr_updated := now\<rparr>) st))"

definition delete_orphaned_missing :: "string list \<Rightarrow> mstore \<Rightarrow> string list \<times> mstore" where
  "delete_orphaned_missing seen st =
    (let P = (\<lambda>r. mr_orphaned r \<and> mr_uuid r \<noteq> None \<and> mr_name r \<notin> set seen);
         gone = map mr_name (filter P (ms_rows st));
         st' = st\<lparr>ms_rows := sql_delete P (ms_rows st)\<rparr>
     in (gone, if gone = [] then st' else m_changed st'))"

subsection \<open>Server ids\<close>

definition used_server_ids :: "mstore \<Rightarrow> (string \<times> string \<times> string) list" where
  "used_server_ids st = sort_key fst (List.map_filter
     (\<lambda>r. map_option (\<lambda>i. (i, mr_name r, mr_status r)) (mr_server_id r)) (ms_rows st))"

text \<open>\<^verbatim>\<open>CAST(text AS INTEGER)\<close>: blanks, a sign and the longest prefix of digits, within 64 bits.\<close>

definition sql_blank :: "char \<Rightarrow> bool" where
  "sql_blank c \<longleftrightarrow> c \<in> {CHR '' '', CHR 0x09, CHR 0x0A, CHR 0x0B, CHR 0x0C, CHR 0x0D}"

definition cast_integer :: "string \<Rightarrow> int" where
  "cast_integer s =
    (let t = dropWhile sql_blank s;
         neg = (t \<noteq> [] \<and> hd t = CHR ''-'');
         u = (if t \<noteq> [] \<and> (hd t = CHR ''-'' \<or> hd t = CHR ''+'') then tl t else t);
         n = int (digits_value (takeWhile digit_char u))
     in if neg then max (- n) (- (2 ^ 63)) else min n (2 ^ 63 - 1))"

definition pad4 :: "int \<Rightarrow> string" where
  "pad4 n = (if n < 0 then CHR ''-'' # replicate (3 - length (nat_text (nat (- n)))) CHR ''0'' @ nat_text (nat (- n))
     else replicate (4 - length (nat_text (nat n))) CHR ''0'' @ nat_text (nat n))"

definition next_server_id :: "int \<Rightarrow> mstore \<Rightarrow> string" where
  "next_server_id start st =
    (let ids = List.map_filter (\<lambda>r. map_option cast_integer (mr_server_id r)) (ms_rows st)
     in pad4 (if ids \<noteq> [] \<and> start \<le> Max (set ids)
              then (Max (set ids) + 1 + 2 ^ 63) mod 2 ^ 64 - 2 ^ 63 else start))"

end
