(* ===== verification/Reconcile.thy ===== *)
theory Reconcile
  imports MachineStore "HOL-Library.Sublist"
begin

text \<open>
  The discovery sweep (\<^verbatim>\<open>machines/reconcile.go\<close>, \<^verbatim>\<open>reconcile_guestinfo.go\<close>) over the registry and the task store, the refresh of a
  row after an operation (\<^verbatim>\<open>executors.go\<close>), the registry half of a deletion (\<^verbatim>\<open>executors_delete.go\<close>) and of a creation
  (\<^verbatim>\<open>create_exec_finalize.go\<close>). What VirtualBox, UTM and the guests answer is an argument; the sweep's two minutes never run out.
  What it narrates is its answer's counts.
\<close>

subsection \<open>The sweep\<close>

text \<open>A hypervisor that is not installed, one whose list fails, or the machines it lists.\<close>

datatype 'a probe = NotInstalled | ProbeFailed | Listed "'a list"

text \<open>A VirtualBox machine with its state and live view, none where its inspection fails; a UTM machine with its state.\<close>

record vbox_vm =
  vv_name :: string
  vv_uuid :: string
  vv_info :: "(string \<times> obj) option"

record utm_vm =
  uv_name :: string
  uv_uuid :: string
  uv_status :: string

text \<open>What a running guest answers: its agent's addresses and VirtualBox's guest properties, none where asking fails.\<close>

record guest_probe =
  gp_agent :: "string list option"
  gp_properties :: "(string \<times> string) list option"

record sweep_env =
  se_host :: string
  se_vbox :: "vbox_vm probe"
  se_utm :: "utm_vm probe"
  se_rows_listed :: bool
  se_guest_agent :: bool
  se_probe :: "string \<Rightarrow> guest_probe"
  se_checked :: string
  se_lower :: "string \<Rightarrow> string"

record sweep_state =
  sw_store :: mstore
  sw_seen :: "string list"
  sw_discovered :: nat
  sw_updated :: nat

text \<open>A row of vagrant provenance under the machine's name keeps it.\<close>

definition with_provenance :: "mstore \<Rightarrow> discovered \<Rightarrow> discovered" where
  "with_provenance st d =
    (case get_machine (dc_name d) st of
       Some r \<Rightarrow> if mr_backing r = backing_vagrant \<and> mr_home r \<noteq> None then d\<lparr>dc_backing := backing_vagrant, dc_home := mr_home r\<rparr> else d
     | None \<Rightarrow> d)"

definition vbox_observation :: "string \<Rightarrow> vbox_vm \<Rightarrow> string \<Rightarrow> obj \<Rightarrow> discovered" where
  "vbox_observation host v state live = \<lparr>dc_name = vv_name v, dc_host = host, dc_status = map_vbox_state state, dc_backing = backing_vbox,
     dc_hypervisor = hv_virtualbox, dc_home = None, dc_uuid = vv_uuid v, dc_config = Some (JObj live)\<rparr>"

definition utm_observation :: "string \<Rightarrow> (string \<Rightarrow> string) \<Rightarrow> utm_vm \<Rightarrow> discovered" where
  "utm_observation host lower v = \<lparr>dc_name = uv_name v, dc_host = host, dc_status = map_utm_state lower (uv_status v),
     dc_backing = backing_vbox, dc_hypervisor = hv_utm, dc_home = None, dc_uuid = uv_uuid v, dc_config = None\<rparr>"

definition usable_guest_ip :: "string \<Rightarrow> bool" where
  "usable_guest_ip ip \<longleftrightarrow> ip \<noteq> '''' \<and> ip \<noteq> ''0.0.0.0'' \<and> \<not> prefix ''10.0.2.'' ip \<and> \<not> prefix ''127.'' ip"

text \<open>The name of a live address property: the adapter's number between its prefix and its suffix.\<close>

definition guest_ip_property :: "string \<Rightarrow> bool" where
  "guest_ip_property name \<longleftrightarrow> prefix ''/VirtualBox/GuestInfo/Net/'' name
     \<and> (let rest = drop (length ''/VirtualBox/GuestInfo/Net/'') name
        in takeWhile digit_char rest \<noteq> [] \<and> dropWhile digit_char rest = ''/V4/IP'')"

definition guest_section :: "string list \<Rightarrow> string \<Rightarrow> bool \<Rightarrow> string \<Rightarrow> obj" where
  "guest_section ips source responding checked = [(''ips'', JArr (map JStr ips)), (''source'', JStr source),
     (''agent_responding'', JBool responding), (''checked_at'', JStr checked)]"

text \<open>VirtualBox: the agent's addresses as they are, else the usable ones of the guest properties.\<close>

definition guest_info_vbox :: "sweep_env \<Rightarrow> string \<Rightarrow> obj" where
  "guest_info_vbox env name =
    (let p = se_probe env name;
         agent = (if se_guest_agent env then gp_agent p else None);
         responding = (agent \<noteq> None);
         from_agent = (case agent of Some ips \<Rightarrow> ips | None \<Rightarrow> []);
         additions = (case gp_properties p of
             Some es \<Rightarrow> map snd (filter (\<lambda>(n, v). guest_ip_property n \<and> usable_guest_ip v) es) | None \<Rightarrow> [])
     in if from_agent \<noteq> [] then guest_section from_agent ''guest-agent'' responding (se_checked env)
        else guest_section additions (if additions = [] then '''' else ''additions'') responding (se_checked env))"

text \<open>UTM: the usable ones of the agent's addresses; there is no other source.\<close>

definition guest_info_utm :: "sweep_env \<Rightarrow> string \<Rightarrow> obj" where
  "guest_info_utm env name =
    (let agent = gp_agent (se_probe env name);
         ips = (case agent of Some ips \<Rightarrow> filter usable_guest_ip ips | None \<Rightarrow> [])
     in guest_section ips (if ips = [] then '''' else ''guest-agent'') (agent \<noteq> None) (se_checked env))"

text \<open>The guest section of a running machine is what was observed; any other machine loses it.\<close>

definition refresh_guest_info :: "(string \<Rightarrow> obj) \<Rightarrow> discovered \<Rightarrow> time \<Rightarrow> mstore \<Rightarrow> mstore" where
  "refresh_guest_info info d now st =
    snd (set_guest_info (dc_name d) (if dc_status d = ''running'' then Some (info (dc_name d)) else None) now st)"

definition observe :: "(string \<Rightarrow> obj) \<Rightarrow> time \<Rightarrow> discovered \<Rightarrow> sweep_state \<Rightarrow> sweep_state" where
  "observe info now d0 sw =
    (let d = with_provenance (sw_store sw) d0; (created, st) = upsert_discovered d now (sw_store sw)
     in sw\<lparr>sw_store := refresh_guest_info info d now st, sw_seen := sw_seen sw @ [dc_name d],
           sw_discovered := sw_discovered sw + (if created then 1 else 0),
           sw_updated := sw_updated sw + (if created then 0 else 1)\<rparr>)"

definition observe_vbox :: "sweep_env \<Rightarrow> time \<Rightarrow> vbox_vm \<Rightarrow> sweep_state \<Rightarrow> sweep_state" where
  "observe_vbox env now v sw =
    (case vv_info v of None \<Rightarrow> sw
     | Some (state, live) \<Rightarrow> observe (guest_info_vbox env) now (vbox_observation (se_host env) v state live) sw)"

definition observe_utm :: "sweep_env \<Rightarrow> time \<Rightarrow> utm_vm \<Rightarrow> sweep_state \<Rightarrow> sweep_state" where
  "observe_utm env now v sw = observe (guest_info_utm env) now (utm_observation (se_host env) (se_lower env) v) sw"

text \<open>The names of the rows of a hypervisor nobody looked at; none if they cannot be listed.\<close>

definition guard_names :: "sweep_env \<Rightarrow> string list \<Rightarrow> mstore \<Rightarrow> string list" where
  "guard_names env hs st =
    (if se_rows_listed env then map mr_name (filter (\<lambda>r. mr_hypervisor r \<in> set hs) (list_machines all_machines st)) else [])"

definition add_seen :: "string list \<Rightarrow> sweep_state \<Rightarrow> sweep_state" where
  "add_seen names sw = sw\<lparr>sw_seen := sw_seen sw @ names\<rparr>"

text \<open>No answer where VirtualBox's list fails.\<close>

definition sweep_vbox :: "sweep_env \<Rightarrow> time \<Rightarrow> mstore \<Rightarrow> sweep_state option" where
  "sweep_vbox env now st =
    (let sw = \<lparr>sw_store = st, sw_seen = [], sw_discovered = 0, sw_updated = 0\<rparr> in
     case se_vbox env of
       NotInstalled \<Rightarrow> Some (add_seen (guard_names env [hv_virtualbox, ''''] st) sw)
     | ProbeFailed \<Rightarrow> None
     | Listed vms \<Rightarrow> Some (fold (observe_vbox env now) vms sw))"

definition sweep_utm :: "sweep_env \<Rightarrow> time \<Rightarrow> sweep_state \<Rightarrow> sweep_state" where
  "sweep_utm env now sw =
    (case se_utm env of
       Listed vms \<Rightarrow> fold (observe_utm env now) vms sw
     | _ \<Rightarrow> add_seen (guard_names env [hv_utm] (sw_store sw)) sw)"

text \<open>The first hundred pending tasks of a machine that is gone.\<close>

definition pending_of :: "string \<Rightarrow> store \<Rightarrow> string list" where
  "pending_of name ts = map task_id (list_tasks (no_filter\<lparr>f_machine_name := name, f_status := status_text Pending, f_limit := 100\<rparr>) ts)"

definition cancel_leftovers :: "time \<Rightarrow> string \<Rightarrow> store \<Rightarrow> store" where
  "cancel_leftovers now name ts = fold (\<lambda>i s. snd (cancel_pending i now s)) (pending_of name ts) ts"

record sweep_report =
  rp_discovered :: nat
  rp_updated :: nat
  rp_orphaned :: nat
  rp_removed :: "string list"

definition settle_registry :: "time \<Rightarrow> sweep_state \<Rightarrow> store \<Rightarrow> sweep_report \<times> mstore \<times> store" where
  "settle_registry now sw ts =
    (let (gone, st1) = delete_orphaned_missing (sw_seen sw) (sw_store sw);
         ts' = fold (cancel_leftovers now) gone ts;
         (n, st2) = mark_missing (sw_seen sw) now st1
     in (\<lparr>rp_discovered = sw_discovered sw, rp_updated = sw_updated sw, rp_orphaned = n, rp_removed = gone\<rparr>, st2, ts'))"

definition run_once :: "sweep_env \<Rightarrow> time \<Rightarrow> mstore \<Rightarrow> store \<Rightarrow> sweep_report option \<times> mstore \<times> store" where
  "run_once env now st ts =
    (case sweep_vbox env now st of
       None \<Rightarrow> (None, st, ts)
     | Some sw \<Rightarrow> (case settle_registry now (sweep_utm env now sw) ts of (r, st', ts') \<Rightarrow> (Some r, st', ts')))"

text \<open>A sweep is a task of its own in the queue.\<close>

definition queue_discover :: "string \<Rightarrow> string \<Rightarrow> time \<Rightarrow> store \<Rightarrow> store" where
  "queue_discover who i now ts = snd (create i now \<lparr>nt_machine_name = ''system'', nt_operation = ''discover'',
     nt_priority = priority_background, nt_created_by = who, nt_depends_on = None, nt_parent_task_id = None, nt_metadata = None,
     nt_parent = False, nt_prepared = False, nt_notify = None\<rparr> ts)"

subsection \<open>After an operation\<close>

text \<open>What inspecting one machine answers: its state, that there is none, or another failure.\<close>

datatype inspection = InState string | NoSuchVM | InspectFailed

definition refresh_status :: "string \<Rightarrow> inspection \<Rightarrow> time \<Rightarrow> mstore \<Rightarrow> mstore" where
  "refresh_status name i now st =
    (case get_machine name st of
       None \<Rightarrow> st
     | Some r \<Rightarrow>
         (case i of
            NoSuchVM \<Rightarrow> if mr_uuid r = None then st else set_orphaned name True now st
          | InspectFailed \<Rightarrow> st
          | InState s \<Rightarrow> set_machine_status name (map_vbox_state s) now st))"

definition refresh_status_utm :: "(string \<Rightarrow> string) \<Rightarrow> string \<Rightarrow> string option \<Rightarrow> time \<Rightarrow> mstore \<Rightarrow> mstore" where
  "refresh_status_utm lower name s now st =
    (case get_machine name st of
       None \<Rightarrow> st
     | Some r \<Rightarrow>
         (case s of
            None \<Rightarrow> if mr_uuid r = None then st else set_orphaned name True now st
          | Some s \<Rightarrow> set_machine_status name (map_utm_state lower s) now st))"

text \<open>The registry row and the leftover tasks of a deleted machine, cancelled through the queue; a cancellation that fails is narrated.\<close>

fun cancel_each :: "nat \<Rightarrow> time \<Rightarrow> string list \<Rightarrow> queue \<Rightarrow> queue option" where
  "cancel_each fuel now [] q = Some q"
| "cancel_each fuel now (i # is) q =
    (case cancel fuel now i q of None \<Rightarrow> None | Some (r, q') \<Rightarrow> cancel_each fuel now is q')"

definition delete_registry_tail :: "nat \<Rightarrow> time \<Rightarrow> string \<Rightarrow> mstore \<Rightarrow> queue \<Rightarrow> (mstore \<times> queue) option" where
  "delete_registry_tail fuel now name st q =
    map_option (\<lambda>q'. (snd (delete_machine name st), q')) (cancel_each fuel now (pending_of name (q_store q)) q)"

text \<open>The row of a created machine, from its document; the first step that fails ends it. The package's name and version are those of the
  spec; the new row's fields, the document's server id as text among them, are an argument.\<close>

record finalize_input =
  fi_machine :: new_machine
  fi_document :: obj
  fi_package :: "(string \<times> string) option"
  fi_uuid :: string
  fi_remove_transport :: "bool option"
  fi_notes :: string
  fi_tags :: "json list"

definition infra_keys :: "string list" where
  "infra_keys = [''settings'', ''zones'', ''networks'', ''disks'', ''metadata'']"

definition build_provisioner_doc :: "string \<Rightarrow> string \<Rightarrow> obj \<Rightarrow> json" where
  "build_provisioner_doc name version document = JObj ([(''provisioner_name'', JStr name), (''provisioner_version'', JStr version)]
     @ filter (\<lambda>(k, v). k \<notin> set infra_keys \<and> k \<noteq> ''provisioner_name'' \<and> k \<noteq> ''provisioner_version'') document)"

definition finalize_sections :: "finalize_input \<Rightarrow> obj" where
  "finalize_sections fi = concat (map (\<lambda>k. case map_of (fi_document fi) k of Some v \<Rightarrow> [(k, v)] | None \<Rightarrow> []) infra_keys)
     @ (case fi_package fi of Some (name, version) \<Rightarrow> [(''provisioner'', build_provisioner_doc name version (fi_document fi))] | None \<Rightarrow> [])"

definition and_then :: "mstore_error option \<times> mstore \<Rightarrow> (mstore \<Rightarrow> mstore_error option \<times> mstore) \<Rightarrow> mstore_error option \<times> mstore" where
  "and_then r f = (case r of (Some e, st) \<Rightarrow> (Some e, st) | (None, st) \<Rightarrow> f st)"

definition create_finalize :: "time \<Rightarrow> finalize_input \<Rightarrow> mstore \<Rightarrow> mstore_error option \<times> mstore" where
  "create_finalize now fi st =
    (let name = nm_name (fi_machine fi) in
     and_then (create_machine now (fi_machine fi) st) (\<lambda>s1.
     and_then (merge_sections name (finalize_sections fi) now s1) (\<lambda>s2.
     and_then (if fi_uuid fi = '''' then (None, s2) else set_uuid name (fi_uuid fi) now s2) (\<lambda>s3.
     and_then (case fi_remove_transport fi of None \<Rightarrow> (None, s3)
         | Some b \<Rightarrow> merge_settings_keys name [(''remove_transport_on_completion'', JBool b)] now s3) (\<lambda>s4.
       let s5 = (if fi_notes fi = '''' then s4 else snd (set_notes name (Some (fi_notes fi)) now s4))
       in (None, if fi_tags fi = [] then s5 else snd (set_tags name (Some (JArr (fi_tags fi))) now s5)))))))"

end
