(* ===== verification/MachineLaws.thy ===== *)
theory MachineLaws
  imports Reconcile
begin

text \<open>
  Laws of the registry's statements: which rs a statement touches, what every row keeps through a sweep, and when a row
  is cleared of its orphan flag.
\<close>

subsection \<open>The table\<close>

definition row_server_ids :: "mrow list \<Rightarrow> string list" where
  "row_server_ids rs = List.map_filter mr_server_id rs"

definition registry_ok :: "mstore \<Rightarrow> bool" where
  "registry_ok st \<longleftrightarrow> distinct (map mr_name (ms_rows st)) \<and> distinct (map mr_id (ms_rows st))
     \<and> (\<forall>i\<in>set (map mr_id (ms_rows st)). i < ms_next st) \<and> distinct (row_server_ids (ms_rows st))"

lemma row_server_ids_simps [simp]:
  "row_server_ids [] = []"
  "row_server_ids (r # rs) = (case mr_server_id r of None \<Rightarrow> row_server_ids rs | Some i \<Rightarrow> i # row_server_ids rs)"
  by (simp_all add: row_server_ids_def map_filter_simps split: option.split)

lemma row_server_ids_append [simp]: "row_server_ids (xs @ ys) = row_server_ids xs @ row_server_ids ys"
  by (induction xs) (auto split: option.split)

lemma set_row_server_ids: "i \<in> set (row_server_ids rs) \<longleftrightarrow> (\<exists>r\<in>set rs. mr_server_id r = Some i)"
  by (induction rs) (auto split: option.split)

lemma row_server_ids_map: "(\<And>r. mr_server_id (f r) = mr_server_id r) \<Longrightarrow> row_server_ids (map f rs) = row_server_ids rs"
  by (induction rs) (simp_all split: option.split)

lemma row_server_ids_filter: "distinct (row_server_ids rs) \<Longrightarrow> distinct (row_server_ids (filter P rs))"
  by (induction rs) (auto simp: set_row_server_ids split: option.splits)

lemma m_changed_rows [simp]: "ms_rows (m_changed st) = ms_rows st" "ms_next (m_changed st) = ms_next st"
  by (simp_all add: m_changed_def)

lemma registry_ok_changed [simp]: "registry_ok (m_changed st) = registry_ok st"
  by (simp add: registry_ok_def)

lemma m_update_rows [simp]: "ms_rows (m_update P f st) = sql_update P f (ms_rows st)" "ms_next (m_update P f st) = ms_next st"
  by (simp_all add: m_update_def)

text \<open>An update that leaves identity alone keeps the table well formed.\<close>

locale identity_kept =
  fixes f :: "mrow \<Rightarrow> mrow"
  assumes ident: "mr_id (f r) = mr_id r" and named: "mr_name (f r) = mr_name r" and numbered: "mr_server_id (f r) = mr_server_id r"
begin

lemma update_ok: "registry_ok st \<Longrightarrow> registry_ok (m_update P f st)"
  unfolding registry_ok_def
  by (simp add: sql_update_def comp_def if_distrib ident named numbered row_server_ids_map cong: if_cong)

lemma names: "map mr_name (ms_rows (m_update P f st)) = map mr_name (ms_rows st)"
  by (simp add: map_sql_update named)

end

interpretation configured: identity_kept "\<lambda>r. r\<lparr>mr_config := c, mr_updated := now\<rparr>" for c now
  by unfold_locales simp_all

interpretation identified: identity_kept "\<lambda>r. r\<lparr>mr_uuid := u, mr_updated := now\<rparr>" for u now
  by unfold_locales simp_all

interpretation noted: identity_kept "\<lambda>r. r\<lparr>mr_notes := n, mr_updated := now\<rparr>" for n now
  by unfold_locales simp_all

interpretation tagged: identity_kept "\<lambda>r. r\<lparr>mr_tags := t, mr_updated := now\<rparr>" for t now
  by unfold_locales simp_all

interpretation flagged: identity_kept "\<lambda>r. r\<lparr>mr_orphaned := b, mr_updated := now\<rparr>" for b now
  by unfold_locales simp_all

interpretation stated: identity_kept "\<lambda>r. r\<lparr>mr_status := s, mr_last_seen := l, mr_updated := now\<rparr>" for s l now
  by unfold_locales simp_all

interpretation refreshed: identity_kept "refreshed_row d now" for d now
  by unfold_locales (simp_all add: refreshed_row_def)

lemmas ok_updates = configured.update_ok identified.update_ok noted.update_ok tagged.update_ok flagged.update_ok stated.update_ok
  refreshed.update_ok

lemma find_row_Some: "find_row P st = Some r \<Longrightarrow> r \<in> set (ms_rows st) \<and> P r"
  by (auto simp: find_row_def find_Some_iff)

lemma find_row_None: "find_row P st = None \<longleftrightarrow> (\<forall>r\<in>set (ms_rows st). \<not> P r)"
  by (auto simp: find_row_def find_None_iff)

lemma get_machine_Some: "get_machine name st = Some r \<Longrightarrow> r \<in> set (ms_rows st) \<and> mr_name r = name"
  unfolding get_machine_def by (rule find_row_Some)

lemma get_machine_None: "get_machine name st = None \<longleftrightarrow> (\<forall>r\<in>set (ms_rows st). mr_name r \<noteq> name)"
  unfolding get_machine_def by (rule find_row_None)

lemma same_row: "registry_ok st \<Longrightarrow> r \<in> set (ms_rows st) \<Longrightarrow> s \<in> set (ms_rows st) \<Longrightarrow> mr_id r = mr_id s \<Longrightarrow> r = s"
  by (auto simp: registry_ok_def distinct_map inj_on_def)

lemma same_name: "registry_ok st \<Longrightarrow> r \<in> set (ms_rows st) \<Longrightarrow> s \<in> set (ms_rows st) \<Longrightarrow> mr_name r = mr_name s \<Longrightarrow> r = s"
  by (auto simp: registry_ok_def distinct_map inj_on_def)

lemma match_row_in: "match_row d st = Some r \<Longrightarrow> r \<in> set (ms_rows st)"
  by (auto simp: match_row_def Let_def split: option.splits if_splits dest: find_row_Some get_machine_Some)

lemma match_row_None: "match_row d st = None \<Longrightarrow> \<forall>r\<in>set (ms_rows st). mr_name r \<noteq> dc_name d"
  by (auto simp: match_row_def Let_def get_machine_None split: option.splits if_splits)

lemma match_row_uuid:
  assumes "dc_uuid d \<noteq> ''''" and "r \<in> set (ms_rows st)" and "mr_uuid r = Some (dc_uuid d)"
  shows "\<exists>s. match_row d st = Some s \<and> mr_uuid s = Some (dc_uuid d)"
proof -
  obtain s where "find_row (\<lambda>r. mr_uuid r = Some (dc_uuid d)) st = Some s"
    using assms(2,3) find_row_None [of "\<lambda>r. mr_uuid r = Some (dc_uuid d)" st] by (metis not_None_eq)
  then show ?thesis using assms(1) find_row_Some by (fastforce simp: match_row_def)
qed

lemma append_ok:
  assumes "registry_ok st" and "\<forall>r\<in>set (ms_rows st). mr_name r \<noteq> mr_name n" and "mr_id n = ms_next st"
    and "\<forall>i. mr_server_id n = Some i \<longrightarrow> (\<forall>r\<in>set (ms_rows st). mr_server_id r \<noteq> Some i)"
  shows "registry_ok (m_changed (st\<lparr>ms_rows := ms_rows st @ [n], ms_next := Suc (ms_next st)\<rparr>))"
proof -
  have "mr_name n \<notin> mr_name ` set (ms_rows st)" "ms_next st \<notin> mr_id ` set (ms_rows st)"
    using assms(1,2) by (auto simp: registry_ok_def)
  moreover have "distinct (row_server_ids (ms_rows st @ [n]))"
    using assms(1,4) by (auto simp: registry_ok_def set_row_server_ids split: option.split)
  ultimately show ?thesis using assms(1,3)
    by (simp add: registry_ok_def less_Suc_eq ball_Un del: row_server_ids_append)
qed

lemma delete_rows_ok: "registry_ok st \<Longrightarrow> registry_ok (st\<lparr>ms_rows := sql_delete P (ms_rows st)\<rparr>)"
  by (auto simp: registry_ok_def sql_delete_def distinct_map_filter row_server_ids_filter)

lemma upsert_ok: "registry_ok st \<Longrightarrow> registry_ok (snd (upsert_discovered d now st))"
  using append_ok [of st "imported_row d (ms_next st) now"] match_row_None [of d st]
  by (auto simp: upsert_discovered_def Let_def imported_row_def intro: refreshed.update_ok split: option.split)

lemma edit_sections_ok: "registry_ok st \<Longrightarrow> registry_ok (snd (edit_sections name f now st))"
  by (auto simp: edit_sections_def set_configuration_def set_by_name_def intro: configured.update_ok split: option.split)

lemma drop_section_ok: "registry_ok st \<Longrightarrow> registry_ok (snd (drop_section name k now st))"
  by (auto simp: drop_section_def intro: edit_sections_ok split: option.split)

lemma set_or_drop_ok: "registry_ok st \<Longrightarrow> registry_ok (snd (set_or_drop k name v now st))"
  by (auto simp: set_or_drop_def intro: edit_sections_ok drop_section_ok split: option.split)

subsection \<open>What a row keeps\<close>

text \<open>A live view laid over a stored document: a preserved key the view does not have is looked up in the document.\<close>

lemma lookup_merge_fold:
  "map_of (fold (\<lambda>k m. case map_of E k of Some v \<Rightarrow> if map_of m k = None then AList.update k v m else m | None \<Rightarrow> m) ks m) k
   = (case map_of m k of Some v \<Rightarrow> Some v | None \<Rightarrow> if k \<in> set ks then map_of E k else None)"
  by (induction ks arbitrary: m) (auto simp: update_conv' split: option.splits)

lemma doc_sections_JObj [simp]: "doc_sections (Some (JObj m)) = m"
  by (simp add: doc_sections_def)

lemma lookup_merge_live:
  "map_of (doc_sections (Some (merge_live e live))) k = (case map_of (doc_sections (Some live)) k of
     Some v \<Rightarrow> Some v | None \<Rightarrow> if k \<in> set preserved_keys then map_of (doc_sections e) k else None)"
  unfolding merge_live_def doc_sections_JObj by (rule lookup_merge_fold)

text \<open>A row descends from another: the same machine with the user's data and the sections \<open>K\<close>.\<close>

definition descends :: "string set \<Rightarrow> mrow \<Rightarrow> mrow \<Rightarrow> bool" where
  "descends K r s \<longleftrightarrow> mr_id s = mr_id r \<and> mr_name s = mr_name r \<and> mr_server_id s = mr_server_id r \<and> mr_notes s = mr_notes r
     \<and> mr_tags s = mr_tags r \<and> mr_spec s = mr_spec r \<and> mr_created s = mr_created r \<and> mr_auto s = mr_auto r
     \<and> (mr_uuid r \<noteq> None \<longrightarrow> mr_uuid s \<noteq> None) \<and> (\<forall>k\<in>K. map_of (doc_sections (mr_config s)) k = map_of (doc_sections (mr_config r)) k)"

text \<open>A row still flagged: it was flagged before and nothing that identifies it was touched.\<close>

definition still_flagged :: "mrow \<Rightarrow> mrow \<Rightarrow> bool" where
  "still_flagged s r \<longleftrightarrow> (mr_orphaned s \<longrightarrow> mr_orphaned r \<and> mr_id s = mr_id r \<and> mr_name s = mr_name r \<and> mr_uuid s = mr_uuid r
     \<and> mr_hypervisor s = mr_hypervisor r)"

text \<open>A relation between rows lifted to tables: every row of the first has a related one in the second.\<close>

definition carried :: "(mrow \<Rightarrow> mrow \<Rightarrow> bool) \<Rightarrow> mrow list \<Rightarrow> mrow list \<Rightarrow> bool" where
  "carried R xs ys \<longleftrightarrow> (\<forall>x\<in>set xs. \<exists>y\<in>set ys. R x y)"

locale row_relation =
  fixes R :: "mrow \<Rightarrow> mrow \<Rightarrow> bool"
  assumes same: "R r r" and chain: "R r s \<Longrightarrow> R s t \<Longrightarrow> R r t"
begin

lemma subset: "set xs \<subseteq> set ys \<Longrightarrow> carried R xs ys"
  unfolding carried_def using same by blast

lemma compose: "carried R xs ys \<Longrightarrow> carried R ys zs \<Longrightarrow> carried R xs zs"
  unfolding carried_def using chain by blast

lemma update: "(\<And>r. r \<in> set xs \<Longrightarrow> P r \<Longrightarrow> R r (f r)) \<Longrightarrow> carried R xs (sql_update P f xs)"
  unfolding carried_def sql_update_def set_map by (rule ballI, rule bexI [OF _ imageI]) (auto intro: same)

end

interpretation kept: row_relation "descends K" for K
  by unfold_locales (auto simp: descends_def)

interpretation flagged_before: row_relation still_flagged
  by unfold_locales (auto simp: still_flagged_def)

text \<open>Every flagged row of the first table is one of the second.\<close>

definition flags_from :: "mrow list \<Rightarrow> mrow list \<Rightarrow> bool" where
  "flags_from ys xs \<longleftrightarrow> carried still_flagged (filter mr_orphaned ys) (filter mr_orphaned xs)"

lemma flags_same [simp]: "flags_from xs xs"
  unfolding flags_from_def by (rule flagged_before.subset) simp

lemma flags_compose: "flags_from zs ys \<Longrightarrow> flags_from ys xs \<Longrightarrow> flags_from zs xs"
  unfolding flags_from_def by (rule flagged_before.compose)

lemma flags_update: "(\<And>r. r \<in> set xs \<Longrightarrow> P r \<Longrightarrow> still_flagged (f r) r) \<Longrightarrow> flags_from (sql_update P f xs) xs"
  unfolding flags_from_def carried_def sql_update_def
  by (auto simp: still_flagged_def split: if_splits)

lemma flags_append: "\<not> mr_orphaned r \<Longrightarrow> flags_from (xs @ [r]) xs"
  unfolding flags_from_def by (rule flagged_before.subset) auto

text \<open>The writes of the sweep.\<close>

lemma carried_edit:
  assumes "registry_ok st" and "\<And>s k. k \<in> K \<Longrightarrow> map_of (f s) k = map_of s k"
  shows "carried (descends K) (ms_rows st) (ms_rows (snd (edit_sections name f now st)))"
proof (cases "get_machine name st")
  case None
  then show ?thesis using kept.subset by (simp add: edit_sections_def)
next
  case (Some r)
  have "x = r" if "x \<in> set (ms_rows st)" "mr_name x = name" for x
    using that Some same_name [OF assms(1)] get_machine_Some by blast
  then have "carried (descends K) (ms_rows st)
      (sql_update (\<lambda>x. mr_name x = name) (\<lambda>x. x\<lparr>mr_config := Some (JObj (f (doc_sections (mr_config r)))), mr_updated := now\<rparr>) (ms_rows st))"
    by (intro kept.update) (simp add: descends_def assms(2))
  then show ?thesis using Some by (simp add: edit_sections_def set_configuration_def set_by_name_def)
qed

lemma carried_drop:
  assumes "registry_ok st" and "k \<notin> K"
  shows "carried (descends K) (ms_rows st) (ms_rows (snd (drop_section name k now st)))"
proof -
  have "map_of (AList.delete k s) j = map_of s j" if "j \<in> K" for s :: obj and j
    using that assms(2) by (auto simp: delete_conv')
  then have "carried (descends K) (ms_rows st) (ms_rows (snd (edit_sections name (AList.delete k) now st)))"
    by (intro carried_edit assms(1))
  then show ?thesis using kept.subset [of "ms_rows st" "ms_rows st" K] by (auto simp: drop_section_def split: option.split)
qed

lemma carried_set_or_drop:
  assumes "registry_ok st" and "k \<notin> K"
  shows "carried (descends K) (ms_rows st) (ms_rows (snd (set_or_drop k name v now st)))"
proof (cases v)
  case (Some m)
  have "map_of (AList.update k (JObj m) s) j = map_of s j" if "j \<in> K" for s and j
    using that assms(2) by (auto simp: update_conv')
  then show ?thesis using Some carried_edit [OF assms(1)] by (simp add: set_or_drop_def)
qed (use carried_drop [OF assms] in \<open>simp add: set_or_drop_def\<close>)

text \<open>No write of a section touches a flag or an identity.\<close>

lemma flagged_edit: "flags_from (ms_rows (snd (edit_sections name f now st))) (ms_rows st)"
  by (auto simp: edit_sections_def set_configuration_def set_by_name_def still_flagged_def split: option.split
      intro!: flags_update)

lemma flagged_set_or_drop: "flags_from (ms_rows (snd (set_or_drop k name v now st))) (ms_rows st)"
  using flagged_edit by (auto simp: set_or_drop_def drop_section_def split: option.split)

text \<open>A live view that has none of the sections.\<close>

definition view_lacks :: "string set \<Rightarrow> discovered \<Rightarrow> bool" where
  "view_lacks K d \<longleftrightarrow> (case dc_config d of None \<Rightarrow> True | Some live \<Rightarrow> \<forall>k\<in>K. map_of (doc_sections (Some live)) k = None)"

lemma view_lacks_none [simp]: "view_lacks {} d"
  by (simp add: view_lacks_def split: option.split)

lemma descends_refreshed: "view_lacks K d \<Longrightarrow> K \<subseteq> set preserved_keys \<Longrightarrow> descends K r (refreshed_row d now r)"
  by (auto simp: descends_def refreshed_row_def view_lacks_def lookup_merge_live split: option.split)

lemma upsert_match: "match_row d st = Some r \<Longrightarrow>
    ms_rows (snd (upsert_discovered d now st)) = sql_update (\<lambda>x. mr_id x = mr_id r) (refreshed_row d now) (ms_rows st)"
  by (simp add: upsert_discovered_def Let_def)

lemma upsert_no_match: "match_row d st = None \<Longrightarrow>
    ms_rows (snd (upsert_discovered d now st)) = ms_rows st @ [imported_row d (ms_next st) now]"
  by (simp add: upsert_discovered_def)

lemma carried_upsert:
  assumes "view_lacks K d" and "K \<subseteq> set preserved_keys"
  shows "carried (descends K) (ms_rows st) (ms_rows (snd (upsert_discovered d now st)))"
proof (cases "match_row d st")
  case (Some r)
  show ?thesis unfolding upsert_match [OF Some] by (intro kept.update descends_refreshed assms)
qed (simp add: upsert_no_match kept.subset subset_insertI)

lemma flagged_upsert: "flags_from (ms_rows (snd (upsert_discovered d now st))) (ms_rows st)"
proof (cases "match_row d st")
  case (Some r)
  show ?thesis unfolding upsert_match [OF Some] flags_from_def carried_def
    by (auto simp: set_sql_update refreshed_row_def still_flagged_def)
qed (simp add: upsert_no_match flags_append imported_row_def)

text \<open>No two rows carry the same hypervisor id; the empty id is the one a machine without any is stored with.\<close>

definition uuids_ok :: "mstore \<Rightarrow> bool" where
  "uuids_ok st \<longleftrightarrow> (\<forall>r\<in>set (ms_rows st). \<forall>s\<in>set (ms_rows st).
     case mr_uuid r of None \<Rightarrow> True | Some u \<Rightarrow> u \<noteq> '''' \<and> mr_uuid s = Some u \<longrightarrow> mr_id r = mr_id s)"

lemma uuids_okI: "(\<And>r s u. r \<in> set (ms_rows st) \<Longrightarrow> s \<in> set (ms_rows st) \<Longrightarrow> mr_uuid r = Some u \<Longrightarrow> mr_uuid s = Some u
    \<Longrightarrow> u \<noteq> '''' \<Longrightarrow> mr_id r = mr_id s) \<Longrightarrow> uuids_ok st"
  unfolding uuids_ok_def by (intro ballI, split option.split, blast)

lemma uuids_okD: "uuids_ok st \<Longrightarrow> r \<in> set (ms_rows st) \<Longrightarrow> s \<in> set (ms_rows st) \<Longrightarrow> mr_uuid r = Some u \<Longrightarrow> mr_uuid s = Some u
    \<Longrightarrow> u \<noteq> '''' \<Longrightarrow> mr_id r = mr_id s"
  unfolding uuids_ok_def by (drule (1) bspec, drule (1) bspec) simp

text \<open>Either the matched row has the id already or no row has it.\<close>

lemma match_row_cases:
  assumes "registry_ok st" and "uuids_ok st" and "match_row d st = Some r" and "dc_uuid d \<noteq> ''''"
    and "x \<in> set (ms_rows st)" and "mr_uuid x = Some (dc_uuid d)"
  shows "mr_id x = mr_id r"
proof -
  obtain s where s: "match_row d st = Some s" "mr_uuid s = Some (dc_uuid d)" using match_row_uuid [OF assms(4-6)] by blast
  have "s = r" using s(1) assms(3) by simp
  then show ?thesis using uuids_okD [OF assms(2,5) match_row_in [OF assms(3)] assms(6) _ assms(4)] s(2) by simp
qed

lemma upsert_holder:
  assumes "registry_ok st" and "uuids_ok st" and "dc_uuid d \<noteq> ''''"
    and "x \<in> set (ms_rows (snd (upsert_discovered d now st)))" and "mr_uuid x = Some (dc_uuid d)"
  shows "\<not> mr_orphaned x \<and> mr_id x = (case match_row d st of Some r \<Rightarrow> mr_id r | None \<Rightarrow> ms_next st)"
proof (cases "match_row d st")
  case None
  have "x \<in> set (ms_rows st) \<Longrightarrow> False" using match_row_uuid [of d x st] assms(3,5) None by auto
  then show ?thesis using assms(4) None by (auto simp: upsert_no_match imported_row_def)
next
  case (Some r)
  have "x \<in> set (ms_rows st) \<Longrightarrow> mr_id x = mr_id r" using match_row_cases [OF assms(1,2) Some assms(3) _ assms(5)] .
  then show ?thesis using assms(4) Some by (auto simp: upsert_match set_sql_update refreshed_row_def split: if_splits)
qed

lemma upsert_others:
  assumes "x \<in> set (ms_rows (snd (upsert_discovered d now st)))" and "mr_uuid x \<noteq> Some (dc_uuid d)"
  shows "x \<in> set (ms_rows st)"
  using assms by (cases "match_row d st") (auto simp: upsert_match upsert_no_match set_sql_update refreshed_row_def imported_row_def)

lemma upsert_uuids:
  assumes "registry_ok st" and "uuids_ok st"
  shows "uuids_ok (snd (upsert_discovered d now st))"
proof (rule uuids_okI)
  let ?st = "snd (upsert_discovered d now st)"
  fix r s u assume rs: "r \<in> set (ms_rows ?st)" "s \<in> set (ms_rows ?st)" "mr_uuid r = Some u" "mr_uuid s = Some u" "u \<noteq> ''''"
  show "mr_id r = mr_id s"
  proof (cases "u = dc_uuid d")
    case True
    then show ?thesis using upsert_holder [OF assms _ rs(1)] upsert_holder [OF assms _ rs(2)] rs(3-5) by simp
  next
    case False
    then have "r \<in> set (ms_rows st)" "s \<in> set (ms_rows st)" using upsert_others rs(1-4) by auto
    then show ?thesis by (rule uuids_okD [OF assms(2) _ _ rs(3-5)])
  qed
qed

lemma uuids_update:
  assumes "uuids_ok st" and "\<And>r. mr_id (f r) = mr_id r" and "\<And>r. mr_uuid (f r) = mr_uuid r"
  shows "uuids_ok (m_update P f st)"
proof (rule uuids_okI)
  fix r s u assume "r \<in> set (ms_rows (m_update P f st))" "s \<in> set (ms_rows (m_update P f st))"
    and u: "mr_uuid r = Some u" "mr_uuid s = Some u" "u \<noteq> ''''"
  then obtain x y where "x \<in> set (ms_rows st)" "r = (if P x then f x else x)" "y \<in> set (ms_rows st)" "s = (if P y then f y else y)"
    by (auto simp: sql_update_def)
  then show "mr_id r = mr_id s" using uuids_okD [OF assms(1), of x y u] u assms(2,3) by (simp split: if_splits)
qed

lemma edit_uuids: "uuids_ok st \<Longrightarrow> uuids_ok (snd (edit_sections name f now st))"
  by (simp add: edit_sections_def set_configuration_def set_by_name_def uuids_update split: option.split)

lemma set_or_drop_uuids: "uuids_ok st \<Longrightarrow> uuids_ok (snd (set_or_drop k name v now st))"
  by (auto simp: set_or_drop_def drop_section_def intro: edit_uuids split: option.split)

end
