(* ===== verification/SweepLaws.thy ===== *)
theory SweepLaws
  imports MachineLaws
begin

text \<open>
  Laws of the discovery sweep: what the table is after every observation, and how the two orphan statements settle_registry it.
\<close>

subsection \<open>What a sweep looks at\<close>

text \<open>The machines a sweep inspects, in the order it does.\<close>

definition vbox_observations :: "sweep_env \<Rightarrow> discovered list" where
  "vbox_observations env = (case se_vbox env of
     Listed vms \<Rightarrow> List.map_filter (\<lambda>v. case vv_info v of Some (state, live) \<Rightarrow> Some (vbox_observation (se_host env) v state live) | None \<Rightarrow> None) vms
   | _ \<Rightarrow> [])"

definition utm_observations :: "sweep_env \<Rightarrow> discovered list" where
  "utm_observations env = (case se_utm env of Listed vms \<Rightarrow> map (utm_observation (se_host env) (se_lower env)) vms | _ \<Rightarrow> [])"

definition observations :: "sweep_env \<Rightarrow> discovered list" where
  "observations env = vbox_observations env @ utm_observations env"

definition sweep_start :: "mstore \<Rightarrow> sweep_state" where
  "sweep_start st = \<lparr>sw_store = st, sw_seen = [], sw_discovered = 0, sw_updated = 0\<rparr>"

lemma fold_observe_vbox:
  "fold (observe_vbox env now) vms sw = fold (observe (guest_info_vbox env) now) (List.map_filter (\<lambda>v. case vv_info v of
     Some (state, live) \<Rightarrow> Some (vbox_observation (se_host env) v state live) | None \<Rightarrow> None) vms) sw"
  by (induction vms arbitrary: sw) (auto simp: observe_vbox_def map_filter_simps split: option.split)

lemma fold_observe_utm:
  "fold (observe_utm env now) vms sw = fold (observe (guest_info_utm env) now) (map (utm_observation (se_host env) (se_lower env)) vms) sw"
  by (induction vms arbitrary: sw) (simp_all add: observe_utm_def)

lemma with_provenance_fields [simp]:
  "dc_name (with_provenance st d) = dc_name d" "dc_uuid (with_provenance st d) = dc_uuid d" "dc_config (with_provenance st d) = dc_config d"
  by (simp_all add: with_provenance_def split: option.split)

subsection \<open>The invariant of the observations\<close>

definition unflagged :: "string \<Rightarrow> mrow list \<Rightarrow> bool" where
  "unflagged u rs \<longleftrightarrow> (\<forall>r\<in>set rs. mr_orphaned r \<longrightarrow> mr_uuid r \<noteq> Some u)"

definition swept :: "string set \<Rightarrow> mstore \<Rightarrow> discovered set \<Rightarrow> sweep_state \<Rightarrow> bool" where
  "swept K st D sw \<longleftrightarrow> registry_ok (sw_store sw) \<and> uuids_ok (sw_store sw)
     \<and> carried (descends K) (ms_rows st) (ms_rows (sw_store sw)) \<and> flags_from (ms_rows (sw_store sw)) (ms_rows st)
     \<and> dc_name ` D \<subseteq> set (sw_seen sw) \<and> (\<forall>d\<in>D. dc_uuid d \<noteq> '''' \<longrightarrow> unflagged (dc_uuid d) (ms_rows (sw_store sw)))"

lemma unflagged_from: "flags_from ys xs \<Longrightarrow> unflagged u xs \<Longrightarrow> unflagged u ys"
  by (fastforce simp: flags_from_def carried_def unflagged_def still_flagged_def)

lemma upsert_unflags: "registry_ok st \<Longrightarrow> uuids_ok st \<Longrightarrow> dc_uuid d \<noteq> '''' \<Longrightarrow>
    unflagged (dc_uuid d) (ms_rows (snd (upsert_discovered d now st)))"
  unfolding unflagged_def using upsert_holder by blast

lemma swept_start: "registry_ok st \<Longrightarrow> uuids_ok st \<Longrightarrow> swept K st {} (sweep_start st)"
  by (simp add: swept_def sweep_start_def kept.subset)

lemma swept_add_seen: "swept K st D sw \<Longrightarrow> swept K st D (add_seen names sw)"
  by (auto simp: swept_def add_seen_def)

lemma swept_observe:
  assumes "swept K st D sw" and "view_lacks K d" and "K \<subseteq> set preserved_keys - {''guest_info''}"
  shows "swept K st (insert d D) (observe info now d sw)"
proof -
  let ?d = "with_provenance (sw_store sw) d"
  let ?u = "snd (upsert_discovered ?d now (sw_store sw))"
  let ?g = "refresh_guest_info info ?d now ?u"
  have K: "K \<subseteq> set preserved_keys" "''guest_info'' \<notin> K" and v: "view_lacks K ?d" using assms(2,3) by (auto simp: view_lacks_def)
  have ok: "registry_ok ?u" and uu: "uuids_ok ?u" using assms(1) by (simp_all add: swept_def upsert_ok upsert_uuids)
  have carried: "carried (descends K) (ms_rows (sw_store sw)) (ms_rows ?g)"
    unfolding refresh_guest_info_def set_guest_info_def
    by (rule kept.compose [OF carried_upsert [OF v K(1)] carried_set_or_drop [OF ok K(2)]])
  have ff: "flags_from (ms_rows ?g) (ms_rows ?u)"
    unfolding refresh_guest_info_def set_guest_info_def by (rule flagged_set_or_drop)
  have fu: "flags_from (ms_rows ?g) (ms_rows (sw_store sw))" by (rule flags_compose [OF ff flagged_upsert])
  have fresh: "unflagged (dc_uuid d) (ms_rows ?g)" if "dc_uuid d \<noteq> ''''"
    using unflagged_from [OF ff upsert_unflags [of "sw_store sw" ?d]] assms(1) that by (simp add: swept_def)
  have g: "registry_ok ?g" "uuids_ok ?g"
    using ok uu by (simp_all add: refresh_guest_info_def set_guest_info_def set_or_drop_ok set_or_drop_uuids)
  have o: "sw_store (observe info now d sw) = ?g" "set (sw_seen (observe info now d sw)) = insert (dc_name d) (set (sw_seen sw))"
    by (simp_all add: observe_def Let_def case_prod_unfold)
  have prior: "carried (descends K) (ms_rows st) (ms_rows (sw_store sw))" "flags_from (ms_rows (sw_store sw)) (ms_rows st)"
    "dc_name ` D \<subseteq> set (sw_seen sw)" "\<forall>e\<in>D. dc_uuid e \<noteq> '''' \<longrightarrow> unflagged (dc_uuid e) (ms_rows (sw_store sw))"
    using assms(1) by (simp_all add: swept_def)
  show ?thesis unfolding swept_def o
    using g kept.compose [OF prior(1) carried] flags_compose [OF fu prior(2)] prior(3,4) fresh unflagged_from [OF fu] by blast
qed

lemma swept_fold:
  assumes "swept K st D sw" and "\<forall>d\<in>set ds. view_lacks K d" and "K \<subseteq> set preserved_keys - {''guest_info''}"
  shows "swept K st (set ds \<union> D) (fold (observe info now) ds sw)"
  using assms(1,2)
proof (induction ds arbitrary: D sw)
  case (Cons d ds)
  have "swept K st (insert d D) (observe info now d sw)" using Cons.prems swept_observe assms(3) by simp
  then show ?case using Cons.IH [of "insert d D"] Cons.prems(2) by simp
qed simp

lemma seen_fold: "set (sw_seen (fold (observe info now) ds sw)) = set (sw_seen sw) \<union> dc_name ` set ds"
  by (induction ds arbitrary: sw) (auto simp: observe_def Let_def case_prod_unfold)

subsection \<open>A whole sweep\<close>

definition vbox_guard :: "sweep_env \<Rightarrow> mstore \<Rightarrow> string list" where
  "vbox_guard env st = (case se_vbox env of NotInstalled \<Rightarrow> guard_names env [hv_virtualbox, ''''] st | _ \<Rightarrow> [])"

definition utm_guard :: "sweep_env \<Rightarrow> mstore \<Rightarrow> string list" where
  "utm_guard env st = (case se_utm env of Listed vms \<Rightarrow> [] | _ \<Rightarrow> guard_names env [hv_utm] st)"

lemma sweep_vbox_state:
  "sweep_vbox env now st = Some sw \<Longrightarrow> sw = add_seen (vbox_guard env st) (fold (observe (guest_info_vbox env) now) (vbox_observations env) (sweep_start st))"
  by (auto simp: sweep_vbox_def vbox_guard_def vbox_observations_def fold_observe_vbox sweep_start_def add_seen_def split: probe.splits)

lemma sweep_utm_state:
  "sweep_utm env now sw = add_seen (utm_guard env (sw_store sw)) (fold (observe (guest_info_utm env) now) (utm_observations env) sw)"
  by (auto simp: sweep_utm_def utm_guard_def utm_observations_def fold_observe_utm add_seen_def split: probe.splits)

lemma run_once_state:
  assumes "run_once env now st ts = (Some rp, st', ts')" and "registry_ok st" and "uuids_ok st"
    and "\<forall>d\<in>set (observations env). view_lacks K d" and "K \<subseteq> set preserved_keys - {''guest_info''}"
  obtains sw sv where "swept K st (set (observations env)) sw" and "settle_registry now sw ts = (rp, st', ts')"
    and "set (sw_seen sw) = dc_name ` set (observations env) \<union> set (vbox_guard env st) \<union> set (utm_guard env sv)"
    and "utm_observations env = [] \<longrightarrow> sw_store sw = sv"
proof -
  obtain s1 where s1: "sweep_vbox env now st = Some s1" using assms(1) by (auto simp: run_once_def split: option.splits)
  let ?s2 = "sweep_utm env now s1"
  have v: "swept K st (set (vbox_observations env)) s1"
    using sweep_vbox_state [OF s1] swept_add_seen swept_fold [OF swept_start [OF assms(2,3)] _ assms(5)] assms(4)
    by (simp add: observations_def)
  have "swept K st (set (observations env)) ?s2"
    using swept_add_seen [OF swept_fold [OF v _ assms(5)]] assms(4) by (simp add: sweep_utm_state observations_def Un_commute)
  moreover have "settle_registry now ?s2 ts = (rp, st', ts')"
    using assms(1) s1 by (simp add: run_once_def split: prod.splits)
  moreover have "set (sw_seen ?s2) = dc_name ` set (observations env) \<union> set (vbox_guard env st) \<union> set (utm_guard env (sw_store s1))"
    using sweep_vbox_state [OF s1] by (auto simp: sweep_utm_state add_seen_def seen_fold sweep_start_def observations_def)
  moreover have "utm_observations env = [] \<longrightarrow> sw_store ?s2 = sw_store s1" by (simp add: sweep_utm_state add_seen_def)
  ultimately show thesis by (rule that)
qed

lemmas run_once_plain = run_once_state [where K = "{}", simplified]

lemma settle_names:
  assumes "settle_registry now sw ts = (rp, st', ts')"
  shows "rp_removed rp = map mr_name (filter (\<lambda>r. mr_orphaned r \<and> mr_uuid r \<noteq> None \<and> mr_name r \<notin> set (sw_seen sw)) (ms_rows (sw_store sw)))"
proof -
  have "rp_removed (fst (settle_registry now sw ts)) = fst (delete_orphaned_missing (sw_seen sw) (sw_store sw))"
    by (simp add: settle_registry_def case_prod_unfold Let_def)
  then show ?thesis using assms by (simp add: delete_orphaned_missing_def Let_def)
qed

lemma settle_removed:
  "settle_registry now sw ts = (rp, st', ts') \<Longrightarrow> name \<in> set (rp_removed rp) \<longleftrightarrow>
    (\<exists>r\<in>set (ms_rows (sw_store sw)). mr_name r = name \<and> mr_orphaned r \<and> mr_uuid r \<noteq> None \<and> mr_name r \<notin> set (sw_seen sw))"
  by (auto simp: settle_names)

lemma settle_rows:
  assumes "settle_registry now sw ts = (rp, st', ts')"
  shows "ms_rows st' = sql_update (\<lambda>r. \<not> mr_orphaned r \<and> mr_uuid r \<noteq> None \<and> mr_name r \<notin> set (sw_seen sw))
    (\<lambda>r. r\<lparr>mr_orphaned := True, mr_updated := now\<rparr>)
    (sql_delete (\<lambda>r. mr_orphaned r \<and> mr_uuid r \<noteq> None \<and> mr_name r \<notin> set (sw_seen sw)) (ms_rows (sw_store sw)))"
proof -
  have "ms_rows (fst (snd (settle_registry now sw ts)))
      = ms_rows (snd (mark_missing (sw_seen sw) now (snd (delete_orphaned_missing (sw_seen sw) (sw_store sw)))))"
    by (simp add: settle_registry_def case_prod_unfold Let_def)
  then show ?thesis using assms by (simp add: delete_orphaned_missing_def mark_missing_def Let_def)
qed

lemma settle_survivor:
  assumes "settle_registry now sw ts = (rp, st', ts')" and "r \<in> set (ms_rows (sw_store sw))" and "mr_name r \<notin> set (rp_removed rp)"
  shows "\<exists>s\<in>set (ms_rows st'). descends K r s \<and> (mr_uuid r \<noteq> None \<longrightarrow> mr_name r \<notin> set (sw_seen sw) \<longrightarrow> mr_orphaned s)"
proof -
  have "r \<in> set (sql_delete (\<lambda>r. mr_orphaned r \<and> mr_uuid r \<noteq> None \<and> mr_name r \<notin> set (sw_seen sw)) (ms_rows (sw_store sw)))"
    using assms by (auto simp: settle_removed)
  then show ?thesis unfolding settle_rows [OF assms(1)] sql_update_def set_map
    by (intro bexI [OF _ imageI]) (auto simp: descends_def)
qed

end
