(* ===== verification/MachineProps.thy ===== *)
theory MachineProps
  imports SweepLaws
begin

text \<open>
  The properties of the machine registry and of the discovery sweep.
\<close>

subsection \<open>Removal after two sweeps\<close>


text \<open>A registry of three machines, the first flagged by an earlier sweep, and a VirtualBox that lists one machine under another name.\<close>

definition demo_row :: "nat \<Rightarrow> string \<Rightarrow> string \<Rightarrow> bool \<Rightarrow> mrow" where
  "demo_row i name uuid flagged = \<lparr>mr_id = i, mr_name = name, mr_host = ''h'', mr_status = ''stopped'', mr_backing = backing_vbox,
     mr_hypervisor = hv_virtualbox, mr_home = None, mr_uuid = Some uuid, mr_server_id = None, mr_orphaned = flagged, mr_auto = False,
     mr_last_seen = None, mr_notes = Some ''keep'', mr_tags = None,
     mr_config = Some (JObj [(''settings'', JObj [(''memory'', JStr ''4G'')])]), mr_spec = None, mr_created = 1, mr_updated = 1\<rparr>"

definition demo_registry :: mstore where
  "demo_registry = \<lparr>ms_rows = [demo_row 0 ''gone'' ''u0'' True, demo_row 1 ''web'' ''u1'' False, demo_row 2 ''db'' ''u2'' False],
     ms_next = 3, ms_changes = 0\<rparr>"

definition demo_sweep :: sweep_env where
  "demo_sweep = \<lparr>se_host = ''h'', se_vbox = Listed [\<lparr>vv_name = ''web-1'', vv_uuid = ''u1'', vv_info = Some (''running'', [(''cpus'', JStr ''2'')])\<rparr>],
     se_utm = NotInstalled, se_rows_listed = True, se_guest_agent = True,
     se_probe = (\<lambda>n. \<lparr>gp_agent = Some [''10.0.0.2''], gp_properties = None\<rparr>), se_checked = ''t'', se_lower = id\<rparr>"

definition demo_tasks :: store where
  "demo_tasks = \<lparr>rows = [], has_notify = False, notified = []\<rparr>"

definition demo_swept :: "sweep_report option \<times> mstore \<times> store" where
  "demo_swept = run_once demo_sweep 9 demo_registry demo_tasks"

lemma demo_ok: "registry_ok demo_registry" "uuids_ok demo_registry"
  by code_simp+

lemma demo_run: "run_once demo_sweep 9 demo_registry demo_tasks = (Some (the (fst demo_swept)), fst (snd demo_swept), snd (snd demo_swept))"
  unfolding demo_swept_def by code_simp

lemma demo_removed: "rp_removed (the (fst demo_swept)) = [''gone'']"
  by code_simp


subsection \<open>What a sweep leaves alone\<close>

text \<open>C10: A sweep that ends either removes a row or leaves a row with the same id, name, server id, notes, tags, spec, creation time and
  provenance of registration, with every section of its configuration that the code protects, other than the guest's,
  as it was, whenever no live view carries that section.\<close>
theorem sweep_keeps_user_data:
  assumes "registry_ok st" and "uuids_ok st" and "run_once env now st ts = (Some rp, st', ts')" and "r \<in> set (ms_rows st)"
    and "mr_name r \<notin> set (rp_removed rp)"
    and "K \<subseteq> set preserved_keys - {''guest_info''}" and "\<forall>d\<in>set (observations env). view_lacks K d"
  shows "\<exists>s\<in>set (ms_rows st'). mr_id s = mr_id r \<and> mr_name s = mr_name r \<and> mr_server_id s = mr_server_id r \<and> mr_notes s = mr_notes r
    \<and> mr_tags s = mr_tags r \<and> mr_spec s = mr_spec r \<and> mr_created s = mr_created r \<and> mr_auto s = mr_auto r
    \<and> (\<forall>k\<in>K. map_of (doc_sections (mr_config s)) k = map_of (doc_sections (mr_config r)) k)"
proof -
  obtain sw sv where sw: "swept K st (set (observations env)) sw" and set_tl: "settle_registry now sw ts = (rp, st', ts')"
    and "set (sw_seen sw) = dc_name ` set (observations env) \<union> set (vbox_guard env st) \<union> set (utm_guard env sv)"
    and "utm_observations env = [] \<longrightarrow> sw_store sw = sv"
    by (rule run_once_state [OF assms(3,1,2,7,6)])
  obtain x where x: "x \<in> set (ms_rows (sw_store sw))" "descends K r x"
    using sw assms(4) by (auto simp: swept_def carried_def)
  then have n: "mr_name x \<notin> set (rp_removed rp)" using assms(5) by (simp add: descends_def)
  obtain s where s: "s \<in> set (ms_rows st')" "descends K x s"
    using settle_survivor [OF set_tl x(1) n, of K] by blast
  have "descends K r s" by (rule kept.chain [OF x(2) s(2)])
  then show ?thesis using s(1) by (auto simp: descends_def)
qed

theorem sweep_keeps_user_data_witness:
  "\<exists>s\<in>set (ms_rows (fst (snd demo_swept))). mr_id s = 1 \<and> mr_name s = ''web'' \<and> mr_notes s = Some ''keep''
    \<and> map_of (doc_sections (mr_config s)) ''settings'' = Some (JObj [(''memory'', JStr ''4G'')])"
proof -
  have "demo_row 1 ''web'' ''u1'' False \<in> set (ms_rows demo_registry)" by (simp add: demo_registry_def)
  moreover have "{''settings''} \<subseteq> set preserved_keys - {''guest_info''}" by (simp add: preserved_keys_def)
  moreover have "\<forall>d\<in>set (observations demo_sweep). view_lacks {''settings''} d" by code_simp
  ultimately show ?thesis
    using sweep_keeps_user_data [OF demo_ok demo_run, of "demo_row 1 ''web'' ''u1'' False" "{''settings''}"]
    unfolding demo_removed by (auto simp: demo_row_def)
qed

subsection \<open>A machine under two names\<close>



end
