(* ===== verification/RegistryProps.thy ===== *)
theory RegistryProps
  imports MachineProps
begin

text \<open>
  The registry as a state machine: every statement is a step, and the unique columns of the table hold in every state reached.
  The next free server id.
\<close>

subsection \<open>Statements keep the table well formed\<close>

lemma set_by_name_ok: "registry_ok (m_update (\<lambda>r. mr_name r = name) f st) \<Longrightarrow> registry_ok (snd (set_by_name name f st))"
  by (simp add: set_by_name_def)

lemma create_machine_ok: "registry_ok st \<Longrightarrow> registry_ok (snd (create_machine now nm st))"
  using append_ok [of st "created_row (ms_next st) now nm"]
  by (auto simp: create_machine_def created_row_def list_ex_iff)

lemma server_ids_set:
  assumes "distinct (map mr_name rs)" and "distinct (row_server_ids rs)" and "\<forall>r\<in>set rs. mr_name r = name \<or> mr_server_id r \<noteq> Some sid"
    and "\<And>r. mr_server_id (f r) = Some sid"
  shows "distinct (row_server_ids (sql_update (\<lambda>r. mr_name r = name) f rs))
    \<and> set (row_server_ids (sql_update (\<lambda>r. mr_name r = name) f rs)) \<subseteq> insert sid (set (row_server_ids rs))"
  using assms(1-3)
proof (induction rs)
  case (Cons r rs)
  show ?case
  proof (cases "mr_name r = name")
    case True
    then have "\<forall>x\<in>set rs. mr_name x \<noteq> name" using Cons.prems(1) by (metis distinct.simps(2) image_eqI list.set_map list.simps(9))
    then have "sql_update (\<lambda>r. mr_name r = name) f rs = rs" by (induction rs) auto
    then show ?thesis using True Cons.prems assms(4) \<open>\<forall>x\<in>set rs. mr_name x \<noteq> name\<close>
      by (auto simp: set_row_server_ids split: option.splits)
  next
    case False
    then show ?thesis using Cons by (auto split: option.splits)
  qed
qed simp

lemma set_spec_ok:
  assumes "registry_ok st"
  shows "registry_ok (snd (set_spec name spec sid now st))"
proof (cases "\<exists>r\<in>set (ms_rows st). mr_name r \<noteq> name \<and> mr_server_id r = Some sid")
  case True
  have "snd (set_spec name spec sid now st) = st \<or> (\<forall>r\<in>set (ms_rows st). mr_name r \<noteq> name)"
    using True by (auto simp: set_spec_def list_ex_iff)
  then show ?thesis
  proof
    assume "\<forall>r\<in>set (ms_rows st). mr_name r \<noteq> name"
    then have "sql_update (\<lambda>r. mr_name r = name) f (ms_rows st) = ms_rows st" for f by (auto simp: sql_update_def intro: map_idI)
    then show ?thesis using assms by (simp add: set_spec_def set_by_name_def m_update_def)
  qed (use assms in simp)
next
  case False
  have "registry_ok (m_update (\<lambda>r. mr_name r = name) (\<lambda>r. r\<lparr>mr_spec := Some spec, mr_server_id := Some sid, mr_updated := now\<rparr>) st)"
    using assms False server_ids_set [of "ms_rows st" name sid "\<lambda>r. r\<lparr>mr_spec := Some spec, mr_server_id := Some sid, mr_updated := now\<rparr>"]
    by (simp add: registry_ok_def map_sql_update)
  then show ?thesis using False by (auto simp: set_spec_def set_by_name_def list_ex_iff)
qed

lemma delete_machine_ok: "registry_ok st \<Longrightarrow> registry_ok (snd (delete_machine name st))"
  by (simp add: delete_machine_def delete_rows_ok split: option.split)

lemma merge_sections_ok: "registry_ok st \<Longrightarrow> registry_ok (snd (merge_sections name u now st))"
  by (simp add: merge_sections_def edit_sections_ok)

lemma merge_settings_keys_ok: "registry_ok st \<Longrightarrow> registry_ok (snd (merge_settings_keys name u now st))"
  by (simp add: merge_settings_keys_def edit_sections_ok)

lemma named_updates_ok:
  assumes "registry_ok st"
  shows "registry_ok (snd (set_uuid name u now st))" "registry_ok (snd (set_notes name n now st))" "registry_ok (snd (set_tags name t now st))"
    "registry_ok (set_orphaned name b now st)" "registry_ok (set_machine_status name s now st)"
  using ok_updates [OF assms]
  by (simp_all add: set_uuid_def set_notes_def set_tags_def set_orphaned_def set_machine_status_def Let_def set_by_name_def split: option.split)

lemma and_then_ok: "registry_ok (snd r) \<Longrightarrow> (\<And>s. registry_ok s \<Longrightarrow> registry_ok (snd (f s))) \<Longrightarrow> registry_ok (snd (and_then r f))"
  by (auto simp: and_then_def split: prod.splits option.splits)

lemma create_finalize_ok: "registry_ok st \<Longrightarrow> registry_ok (snd (create_finalize now fi st))"
  unfolding create_finalize_def Let_def
  by (intro and_then_ok) (auto intro: create_machine_ok merge_sections_ok merge_settings_keys_ok named_updates_ok split: option.split)

text \<open>The sweep.\<close>

lemma observe_ok: "registry_ok (sw_store sw) \<Longrightarrow> registry_ok (sw_store (observe info now d sw))"
  by (simp add: observe_def Let_def case_prod_unfold refresh_guest_info_def set_guest_info_def upsert_ok set_or_drop_ok)

lemma observe_fold_ok: "registry_ok (sw_store sw) \<Longrightarrow> registry_ok (sw_store (fold (observe info now) ds sw))"
  by (induction ds arbitrary: sw) (simp_all add: observe_ok)

lemma add_seen_store [simp]: "sw_store (add_seen names sw) = sw_store sw"
  by (simp add: add_seen_def)

lemma delete_orphaned_ok: "registry_ok st \<Longrightarrow> registry_ok (snd (delete_orphaned_missing seen st))"
  by (simp add: delete_orphaned_missing_def Let_def delete_rows_ok)

lemma mark_missing_ok: "registry_ok st \<Longrightarrow> registry_ok (snd (mark_missing seen now st))"
  by (simp add: mark_missing_def Let_def flagged.update_ok)

lemma settle_ok: "registry_ok (sw_store sw) \<Longrightarrow> registry_ok (fst (snd (settle_registry now sw ts)))"
  by (simp add: settle_registry_def Let_def case_prod_unfold mark_missing_ok delete_orphaned_ok)

lemma run_once_ok:
  assumes "registry_ok st"
  shows "registry_ok (fst (snd (run_once env now st ts)))"
proof (cases "sweep_vbox env now st")
  case (Some sw)
  have "registry_ok (sw_store (sweep_utm env now sw))"
    using sweep_vbox_state [OF Some] assms by (simp add: sweep_utm_state observe_fold_ok sweep_start_def)
  then show ?thesis using settle_ok [of "sweep_utm env now sw" now ts] Some by (simp add: run_once_def case_prod_unfold)
qed (use assms in \<open>simp add: run_once_def\<close>)

subsection \<open>The registry as a state machine\<close>

text \<open>One step is one operation of the registry, a sweep, the end of a creation or the end of a deletion.\<close>

inductive registry_step :: "mstore \<Rightarrow> mstore \<Rightarrow> bool" where
  Create: "registry_step st (snd (create_machine now nm st))"
| Finalize: "registry_step st (snd (create_finalize now fi st))"
| Spec: "registry_step st (snd (set_spec name spec sid now st))"
| Uuid: "registry_step st (snd (set_uuid name u now st))"
| Notes: "registry_step st (snd (set_notes name n now st))"
| Tags: "registry_step st (snd (set_tags name t now st))"
| Orphan: "registry_step st (set_orphaned name b now st)"
| Status: "registry_step st (set_machine_status name s now st)"
| Remove: "registry_step st (snd (delete_machine name st))"
| Sections: "registry_step st (snd (edit_sections name f now st))"
| Drop: "registry_step st (snd (drop_section name k now st))"
| Sweep: "registry_step st (fst (snd (run_once env now st ts)))"

inductive registry_reach :: "mstore \<Rightarrow> bool" where
  Empty: "registry_reach \<lparr>ms_rows = [], ms_next = 1, ms_changes = 0\<rparr>"
| Step: "registry_reach st \<Longrightarrow> registry_step st st' \<Longrightarrow> registry_reach st'"

lemma registry_step_ok: "registry_step st st' \<Longrightarrow> registry_ok st \<Longrightarrow> registry_ok st'"
  by (induction rule: registry_step.induct)
    (simp_all add: create_machine_ok create_finalize_ok set_spec_ok named_updates_ok delete_machine_ok edit_sections_ok drop_section_ok run_once_ok)

text \<open>C22: In every state the registry's operations reach, machine names, row ids and the server ids that rows have are each unique, and
  every row id is below the next one to be given.\<close>
theorem registry_well_formed:
  assumes "registry_reach st"
  shows "distinct (map mr_name (ms_rows st)) \<and> distinct (map mr_id (ms_rows st)) \<and> (\<forall>r\<in>set (ms_rows st). mr_id r < ms_next st)
    \<and> distinct (List.map_filter mr_server_id (ms_rows st))"
proof -
  have "registry_ok st"
    using assms by (induction rule: registry_reach.induct) (simp add: registry_ok_def, rule registry_step_ok)
  then show ?thesis by (simp add: registry_ok_def row_server_ids_def)
qed

definition demo_new_machine :: "string \<Rightarrow> string \<Rightarrow> new_machine" where
  "demo_new_machine name sid = \<lparr>nm_name = name, nm_host = ''h'', nm_home = ''/m/'' @ name, nm_server_id = sid, nm_hypervisor = '''', nm_spec = JObj []\<rparr>"

definition demo_two :: mstore where
  "demo_two = snd (create_machine 2 (demo_new_machine ''b'' ''0002'') (snd (create_machine 1 (demo_new_machine ''a'' ''0001'') \<lparr>ms_rows = [], ms_next = 1, ms_changes = 0\<rparr>)))"

lemma demo_two_reach: "registry_reach demo_two"
  unfolding demo_two_def by (intro registry_reach.Step [OF _ registry_step.Create] registry_reach.Empty)

theorem registry_well_formed_witness: "distinct (List.map_filter mr_server_id (ms_rows demo_two)) \<and> map mr_name (ms_rows demo_two) = [''a'', ''b'']"
proof -
  have "map mr_name (ms_rows demo_two) = [''a'', ''b'']" by code_simp
  then show ?thesis using registry_well_formed [OF demo_two_reach] by simp
qed

subsection \<open>The next server id\<close>

lemma digits_value_zeros: "digits_value (replicate k CHR ''0'' @ s) = digits_value s"
  by (induction k) (simp_all add: digits_value_def)

lemma cast_digits:
  assumes "s \<noteq> []" and "list_all digit_char s"
  shows "cast_integer s = min (int (digits_value s)) (2 ^ 63 - 1)"
proof -
  obtain c t where s: "s = c # t" "digit_char c" using assms by (cases s) auto
  have c: "\<not> sql_blank c" "c \<noteq> CHR ''-''" "c \<noteq> CHR ''+''" using s(2) by (auto simp: digit_char_def sql_blank_def)
  have "takeWhile digit_char s = s" using assms(2) by (simp add: list_all_iff takeWhile_eq_all_conv)
  then show ?thesis using s(1) c by (simp add: cast_integer_def)
qed

lemma cast_pad4:
  assumes "0 \<le> n"
  shows "cast_integer (pad4 n) = min n (2 ^ 63 - 1)"
proof -
  have "list_all digit_char (pad4 n)" "pad4 n \<noteq> []" "digits_value (pad4 n) = nat n"
    using assms nat_text_digits [of "nat n"]
    by (auto simp: pad4_def digits_value_zeros digits_value_nat_text digit_char_def list_all_iff)
  then show ?thesis using cast_digits [of "pad4 n"] assms by simp
qed

lemma set_map_filter_iff: "y \<in> set (List.map_filter f xs) \<longleftrightarrow> (\<exists>x\<in>set xs. f x = Some y)"
  by (induction xs) (auto simp: map_filter_simps split: option.splits)

text \<open>C28: As long as the start is a number that fits and no row's server id reads as the greatest 64-bit number, the next server id is
  one no row has, it reads as a number that is at least the start and above every row's, and a creation with it is refused
  exactly where the name is taken.\<close>
theorem next_server_id_free:
  assumes "0 \<le> start" and "start < 2 ^ 63"
    and "\<forall>r\<in>set (ms_rows st). \<forall>i. mr_server_id r = Some i \<longrightarrow> cast_integer i < 2 ^ 63 - 1"
  shows "(\<forall>r\<in>set (ms_rows st). mr_server_id r \<noteq> Some (next_server_id start st))
    \<and> start \<le> cast_integer (next_server_id start st)
    \<and> (\<forall>r\<in>set (ms_rows st). \<forall>i. mr_server_id r = Some i \<longrightarrow> cast_integer i < cast_integer (next_server_id start st))
    \<and> fst (create_machine now (nm\<lparr>nm_server_id := next_server_id start st\<rparr>) st)
      = (if get_machine (nm_name nm) st = None then None else Some UniqueViolation)"
proof -
  let ?ids = "List.map_filter (\<lambda>r. map_option cast_integer (mr_server_id r)) (ms_rows st)"
  define m where "m = Max (set ?ids)"
  define n where "n = (if ?ids \<noteq> [] \<and> start \<le> m then m + 1 else start)"
  have mem: "cast_integer i \<in> set ?ids" if "r \<in> set (ms_rows st)" "mr_server_id r = Some i" for r i
    using that by (auto simp: set_map_filter_iff intro!: bexI [of _ r])
  have top: "k < 2 ^ 63 - 1" if "k \<in> set ?ids" for k using that assms(3) by (auto simp: set_map_filter_iff)
  have max: "?ids \<noteq> [] \<Longrightarrow> m < 2 ^ 63 - 1" using top Max_in [of "set ?ids"] by (simp add: m_def)
  have n: "start \<le> n" "n \<le> 2 ^ 63 - 1" "0 \<le> n" using assms(1,2) max by (auto simp: n_def)
  have next_n: "next_server_id start st = pad4 n"
  proof (cases "?ids \<noteq> [] \<and> start \<le> m")
    case True
    then have "0 \<le> m + 1 + 2 ^ 63" "m + 1 + 2 ^ 63 < 2 ^ 64" using max assms(1) by auto
    then have "(m + 1 + 2 ^ 63) mod 2 ^ 64 - 2 ^ 63 = m + 1" by simp
    then show ?thesis using True by (simp add: next_server_id_def Let_def n_def m_def add.commute)
  qed (auto simp: next_server_id_def Let_def n_def m_def)
  have cast: "cast_integer (next_server_id start st) = n" using cast_pad4 [OF n(3)] n(2) next_n by simp
  have above: "cast_integer i < n" if "r \<in> set (ms_rows st)" "mr_server_id r = Some i" for r i
  proof -
    have "?ids \<noteq> []" "cast_integer i \<le> m" using mem [OF that] by (auto simp: m_def)
    then show ?thesis by (auto simp: n_def)
  qed
  have free: "\<forall>r\<in>set (ms_rows st). mr_server_id r \<noteq> Some (next_server_id start st)" using above cast by auto
  moreover have "fst (create_machine now (nm\<lparr>nm_server_id := next_server_id start st\<rparr>) st)
      = (if get_machine (nm_name nm) st = None then None else Some UniqueViolation)"
    using free by (auto simp: create_machine_def list_ex_iff get_machine_None)
  ultimately show ?thesis using n(1) cast above by auto
qed

lemma demo_ids: "\<forall>r\<in>set (ms_rows demo_two). \<forall>i. mr_server_id r = Some i \<longrightarrow> cast_integer i < 2 ^ 63 - 1"
proof -
  have "list_all (\<lambda>r. case mr_server_id r of None \<Rightarrow> True | Some i \<Rightarrow> cast_integer i < 2 ^ 63 - 1) (ms_rows demo_two)" by code_simp
  then show ?thesis by (auto simp: list_all_iff)
qed

theorem next_server_id_free_witness:
  "next_server_id 1 demo_two = ''0003'' \<and> mr_server_id (hd (ms_rows demo_two)) \<noteq> Some (next_server_id 1 demo_two)
    \<and> fst (create_machine 3 ((demo_new_machine ''c'' '''')\<lparr>nm_server_id := next_server_id 1 demo_two\<rparr>) demo_two) = None"
proof -
  have "next_server_id 1 demo_two = ''0003''" "hd (ms_rows demo_two) \<in> set (ms_rows demo_two)"
    "get_machine (nm_name (demo_new_machine ''c'' '''')) demo_two = None" by code_simp+
  then show ?thesis using next_server_id_free [of 1 demo_two 3 "demo_new_machine ''c'' ''''", OF _ _ demo_ids] by simp
qed

end
