(* ===== verification/Spec2Isabelle.thy ===== *)
theory Spec2Isabelle
  imports TaskProps ConfigProps KeyProps SafePathProps GateProps ScheduleProps HostNetProps FieldProps OidcProps SearchProps
    ProvisionDocProps ProvisionProps RegistryProps
begin

text \<open>
  The hyperweaver agent runs beside a hypervisor and serves an HTTP API to a browser interface and to
  other agents. A request passes the authentication middleware, a handler changes a store or queues
  a task, and the task queue runs executors that drive VirtualBox or UTM. This development models the
  parts of the agent that decide something: the task queue, the configuration engine with its schema
  evaluator, the API-key store, sessions and middleware, federated logins, the path helpers every file access goes
  through, the scheduled services, the host network tasks, the form definition of packages,
  the search, the machine registry with its discovery sweep, and the provisioning pipeline. Sources are under \<^verbatim>\<open>internal/\<close>.

  \<^bold>\<open>Prelude\<close> holds what the components share: one SQL table as a list of rows with update, delete and
  select; reachable states of a step relation and the locale \<open>invariant_system\<close>; the locale \<open>registry\<close>
  of handles that are put, looked up and dropped. \<open>Json\<close> and \<open>Float64\<close> are Go's dynamic values, texts
  (UTF-8 bytes, runes, \<^verbatim>\<open>strings.TrimSpace\<close>) and the float64 arithmetic of percentages.

  \<^bold>\<open>Tasks\<close> (\<^verbatim>\<open>tasks/\<close>). \<open>TaskModel\<close> has the rows and the operation categories, \<open>TaskStore\<close> every statement of
  the store, \<open>TaskProgress\<close> the transfer progress emitter, \<open>TaskOutput\<close> the output sessions, \<open>TaskParent\<close>
  the aggregation of child tasks, \<open>TaskQueue\<close> the poll loop, the executor bookkeeping and the
  cancellation. \<open>TaskStoreLaws\<close> and \<open>TaskCancelLaws\<close> hold the laws of the statements (a locale of row
  updates, interpreted on each) and of the cascade; \<open>TaskMachine\<close> is the step relation in which the loop,
  the executors, cancellations and creations interleave, with the invariant of the queue;
  \<open>TaskProps\<close> has the properties. The cascade over child tasks runs with a fuel that bounds its depth;
  \<open>cancel_returns\<close> shows that it is enough, parent cycles included.

  \<^bold>\<open>Configuration\<close> (\<^verbatim>\<open>validation/\<close>, \<^verbatim>\<open>configengine/\<close>). \<open>Validation\<close> is the schema evaluator, with a fuel
  for references; \<open>ValidationLaws\<close> shows that the nesting depth of a schema without references is
  enough, that more fuel never changes an answer, and what an accepted document conforms to.
  \<open>ConfigTree\<close> is the document tree (pointers, defaults, merge patch, restart list), \<open>ConfigTreeLaws\<close> its
  laws (the locale \<open>keyed_fold\<close>, interpreted on patching and on filling defaults). \<open>ConfigEngine\<close> is the
  engine (load, save, batch save, restore, setup token), \<open>ConfigEngineLaws\<close> its invariant,
  \<open>ConfigProps\<close> the properties.

  \<^bold>\<open>Access\<close> (\<^verbatim>\<open>keys/\<close>, \<^verbatim>\<open>auth/\<close>, \<^verbatim>\<open>server/apikeys.go\<close>, \<^verbatim>\<open>server/trayclaim.go\<close>). \<open>KeyStore\<close> is the key
  store; \<open>KeyLaws\<close> makes it a state machine in which a verification's unlocked bcrypt scan interleaves
  with every other operation and with restarts, and shows that it implements a map; \<open>KeyProps\<close> has its
  properties. \<open>Access\<close> is the role policy and the credential of a request, \<open>Sessions\<close> the browser sessions, the
  one-time tray tokens and the setup token (two more instances of \<open>registry\<close>), \<open>Gate\<close> the middleware over
  both and the handlers that hand out, revoke and delete keys and open and end sessions;
  \<open>GateLaws\<close> and \<open>GateProps\<close> have the laws and properties.

  \<^bold>\<open>Paths\<close> (\<^verbatim>\<open>safepath/\<close>). \<open>SafePath\<close> is the package on a Unix host with what it uses of \<^verbatim>\<open>path/filepath\<close>;
  a write is the sequence of file systems another process may see, each system call of it may fail.
  \<open>SafePathLaws\<close> reduces clean absolute paths to lists of elements; \<open>SafePathProps\<close> shows containment and
  atomicity.

  \<^bold>\<open>Schedules\<close> (\<^verbatim>\<open>machines/snapshot_rotation.go\<close>, \<^verbatim>\<open>machines/orchestration.go\<close>, \<^verbatim>\<open>server/orchestration.go\<close>).
  \<open>Schedules\<close> has the two services that queue tasks on their own, over the machine rows they read and the
  task store they write; \<open>ScheduleProps\<close> shows what they leave in the store, together with the store's choice of
  the next task.

  \<^bold>\<open>Host network\<close> (\<^verbatim>\<open>netaddr/\<close>, \<^verbatim>\<open>hostname/\<close>, \<^verbatim>\<open>server/netaddresses.go\<close>, \<^verbatim>\<open>server/netconfig*.go\<close>). \<open>Texts\<close>
  has the string functions these parts share and \<open>Ip\<close> Go's addresses as 128-bit words with their texts
  (\<open>IpLaws\<close>: parsing undoes printing). \<open>HostNet\<close> has the task executors that edit addresses and the host name,
  with the commands they run, and the handlers that queue them; \<open>IpSuggest\<close> the suggestion of free
  addresses; \<open>HostNetProps\<close> the properties of a queued request together with its executor.

  \<^bold>\<open>Forms\<close> (\<^verbatim>\<open>provisioner/fielddsl*.go\<close>, \<^verbatim>\<open>manifest_roles.go\<close>, \<^verbatim>\<open>answer_migrations.go\<close>). \<open>FieldDsl\<close> has the
  conditions, the visibility, the validation and the rendering of answers, \<open>FieldParse\<close> the parser with its lint,
  the manifest's roles, the derived schema and the answer migrations. \<open>FieldLaws\<close> shows what a condition reads and
  that the parser keeps its form legal, \<open>FieldProps\<close> has the properties.

  \<^bold>\<open>Federated logins\<close> (\<^verbatim>\<open>dpop/\<close>, \<^verbatim>\<open>oidc/\<close>). \<open>Base64\<close> is the URL alphabet without padding. \<open>Tokens\<close> has the identity
  tokens and the proofs that bind them to a key, \<open>OidcState\<close> the issuer's cached documents, the bound account with
  its files and the sources of outbound tokens, \<open>OidcClient\<close> the three login flows, which mint API keys of \<open>KeyStore\<close>,
  the validator and the manager. \<open>TokenProps\<close> shows that a proof is accepted once, \<open>OidcProps\<close> what a login
  and a presented token must be and that the bound account never changes.

  \<^bold>\<open>Search\<close> (\<^verbatim>\<open>server/search.go\<close>). \<open>Search\<close> has the entries of every kind, matching, ranking, highlighting and the
  cursors; \<open>SearchProps\<close> shows what a page holds and that its cursors lead through all hits; the fuel of the walk over the
  pages is the number of hits plus one, and \<open>search_pages_complete\<close> shows that it is enough.

  \<^bold>\<open>Provisioning\<close> (\<^verbatim>\<open>machines/hostdoc*.go\<close>, \<^verbatim>\<open>server/machines_provision*.go\<close>). \<open>ProvisionDoc\<close> has the readers of the
  stored document, \<open>ProvisionChain\<close> the validation, the walk, the confirmation of host hooks and the requests that
  become chains of tasks in the store of \<open>TaskStore\<close>. \<open>ProvisionDocProps\<close> shows that what is written into a task's metadata is
  read back, \<open>ProvisionProps\<close> that the inserted chain is the plan of the document, that one task carries the final mark,
  and what a failed request leaves.

  \<^bold>\<open>Machine registry\<close> (\<^verbatim>\<open>machines/store*.go\<close>, \<^verbatim>\<open>hostdoc_store.go\<close>, \<^verbatim>\<open>reconcile*.go\<close>, \<^verbatim>\<open>create_exec_finalize.go\<close>).
  \<open>MachineStore\<close> has the table of machines, the writes of single sections of a row's configuration, the discovery upsert and
  the server ids; \<open>Reconcile\<close> the sweep over VirtualBox and UTM, which reads the registry and cancels tasks in the store of
  \<open>TaskStore\<close>, and the ends of creations and deletions. \<open>MachineLaws\<close> has what each statement keeps of a row, \<open>SweepLaws\<close> the
  invariant of a sweep's observations, \<open>MachineProps\<close> what a sweep removes, keeps and flags, \<open>RegistryProps\<close> the registry as a
  state machine whose unique columns hold, and the next free server id.

  \<^bold>\<open>Parameters.\<close> Code outside the repository is an argument: bcrypt and SHA-256 (record \<open>crypto\<close>, with
  the collision freedom of SHA-256 as a hypothesis where the cache of verified digests matters),
  the YAML library, regular expressions, float parsing and printing and URL parsing (\<open>go_env\<close>,
  \<open>config_context\<close>, \<open>dsl_env\<close>, the origin's host), the host's interfaces, tools and sockets (\<open>host_env\<close>), the digest, the curve,
  the RSA checks and the JSON reader of tokens (\<open>token_env\<close>), the provider's endpoints (\<open>net\<close>), random values, the clock, and which
  writes succeed. The middleware takes the token validator as a function, as in the code.

  \<^bold>\<open>Restrictions.\<close> Times are nanoseconds as integers and never overflow. A Go map is its lookup function,
  what the code prints from one it sorts. Float arithmetic is rounded after every operation (no fused
  multiply-add). Paths are those of Unix. Stores are changed under their mutex, so an operation is one
  step except where the code releases the lock (the bcrypt scan, the poll loop, executors).

  \<^bold>\<open>Not modelled.\<close> Drivers of external programs and of the network (VirtualBox, UTM, SSH, guest agents,
  updater), collectors of host data, SQL stores without logic of their own, WebSocket and terminal
  bridges, embedded assets, logging; the manifest lists each with its reason.
\<close>

end
